(* ===== verification/Go_Prelude.thy ===== *)
theory Go_Prelude
  imports Main "HOL-Library.Char_ord" "HOL-Library.List_Lexorder" "HOL-Library.Sublist"
    "HOL-Library.Multiset"
begin

text \<open>
  What the components share of Go itself: fixed-width integers with their wrap-around, byte
  strings and the parts of \<^verbatim>\<open>strconv\<close>, \<^verbatim>\<open>strings\<close>, \<^verbatim>\<open>sort\<close> and \<^verbatim>\<open>time\<close> that the sources call, and
  error values.  Strings are lists of bytes and are compared bytewise, as Go compares them
  (\<^theory_text>\<open>Char_ord\<close> and \<^theory_text>\<open>List_Lexorder\<close> give that order).
\<close>

named_theorems go_simps \<open>unfolding rules for the small Go library functions\<close>
named_theorems spec_frame \<open>what an operation leaves unchanged\<close>

subsection \<open>Fixed-width signed integers\<close>

text \<open>
  Go's \<^verbatim>\<open>int32\<close>, \<^verbatim>\<open>int64\<close> and (on the supported 64-bit platforms) \<^verbatim>\<open>int\<close> wrap around silently.  A
  value of such a type is an \<^typ>\<open>int\<close>; every arithmetic result that can leave the range goes
  through \<open>int32\<close> or \<open>int64\<close>.
\<close>

definition int32 :: "int \<Rightarrow> int" where
  "int32 x = (x + 2147483648) mod 4294967296 - 2147483648"

definition int64 :: "int \<Rightarrow> int" where
  "int64 x = (x + 9223372036854775808) mod 18446744073709551616 - 9223372036854775808"

definition MaxInt32 :: int where "MaxInt32 = 2147483647"
definition MaxInt64 :: int where "MaxInt64 = 9223372036854775807"
definition MinInt64 :: int where "MinInt64 = - 9223372036854775808"

lemma int32_id: "- 2147483648 \<le> x \<Longrightarrow> x \<le> MaxInt32 \<Longrightarrow> int32 x = x"
  by (simp add: int32_def MaxInt32_def)

lemma int64_id: "MinInt64 \<le> x \<Longrightarrow> x \<le> MaxInt64 \<Longrightarrow> int64 x = x"
  by (simp add: int64_def MaxInt64_def MinInt64_def)

lemma int64_range: "MinInt64 \<le> int64 x \<and> int64 x \<le> MaxInt64"
proof -
  have "0 \<le> (x + 9223372036854775808) mod 18446744073709551616"
    and "(x + 9223372036854775808) mod 18446744073709551616 < 18446744073709551616"
    by simp_all
  then show ?thesis unfolding int64_def MinInt64_def MaxInt64_def by linarith
qed

subsection \<open>Time\<close>

text \<open>
  A \<^verbatim>\<open>time.Time\<close> (and \<^verbatim>\<open>metav1.Time\<close>, which wraps it) is the number of nanoseconds since Go's zero
  time, so \<^verbatim>\<open>IsZero\<close> is equality with 0; a \<^verbatim>\<open>time.Duration\<close> is an \<^verbatim>\<open>int64\<close> number of nanoseconds.
  \<^verbatim>\<open>Sub\<close> saturates at the ends of the \<^verbatim>\<open>Duration\<close> range, as the standard library documents.
\<close>

type_synonym gotime = int
type_synonym duration = int

definition Second :: duration where "Second = 1000000000"
definition Minute :: duration where "Minute = 60 * Second"
definition Hour :: duration where "Hour = 60 * Minute"
definition Millisecond :: duration where "Millisecond = 1000000"

definition time_Sub :: "gotime \<Rightarrow> gotime \<Rightarrow> duration" where
  "time_Sub t u = max MinInt64 (min MaxInt64 (t - u))"

lemmas duration_consts = Second_def Minute_def Hour_def Millisecond_def

subsection \<open>Decimal numbers: strconv and fmt\<close>

definition digit_val :: "char \<Rightarrow> nat" where
  "digit_val c = of_char c - 48"

definition is_digit :: "char \<Rightarrow> bool" where
  "is_digit c \<longleftrightarrow> (48::nat) \<le> of_char c \<and> of_char c \<le> (57::nat)"

definition digits_val :: "string \<Rightarrow> nat" where
  "digits_val s = foldl (\<lambda>a c. 10 * a + digit_val c) 0 s"

text \<open>\<^verbatim>\<open>strconv.ParseUint(s, 10, 64)\<close>: \<^verbatim>\<open>None\<close> stands for a non-nil error.\<close>

definition ParseUint :: "string \<Rightarrow> nat option" where
  "ParseUint s = (if s = [] \<or> \<not> list_all is_digit s then None
     else if digits_val s < 18446744073709551616 then Some (digits_val s) else None)"

text \<open>\<^verbatim>\<open>strconv.ParseInt(s, 10, 64)\<close>, and \<^verbatim>\<open>strconv.Atoi\<close> on a 64-bit platform.\<close>

definition ParseInt :: "string \<Rightarrow> int option" where
  "ParseInt s = (case s of
      [] \<Rightarrow> None
    | c # r \<Rightarrow>
        (let neg = (c = CHR ''-'');
             d = (if c = CHR ''+'' \<or> c = CHR ''-'' then r else s)
         in case ParseUint d of
              None \<Rightarrow> None
            | Some n \<Rightarrow>
                (if \<not> neg \<and> 9223372036854775808 \<le> n then None
                 else if neg \<and> 9223372036854775808 < n then None
                 else Some (if neg then - int n else int n))))"

fun show_nat :: "nat \<Rightarrow> string" where
  "show_nat n = (if n < 10 then [char_of (48 + n)]
     else show_nat (n div 10) @ [char_of (48 + n mod 10)])"

declare show_nat.simps [simp del]

definition show_int :: "int \<Rightarrow> string" where
  "show_int i = (if i < 0 then CHR ''-'' # show_nat (nat (- i)) else show_nat (nat i))"

lemma digit_char: "n < 10 \<Longrightarrow> of_char (char_of (48 + n) :: char) = (48 + n :: nat)"
  by simp

lemma digit_char_ok: "n < 10 \<Longrightarrow> is_digit (char_of (48 + n)) \<and> digit_val (char_of (48 + n)) = n"
  using digit_char [of n] by (simp add: is_digit_def digit_val_def)

lemma digits_val_snoc: "digits_val (s @ [c]) = 10 * digits_val s + digit_val c"
  by (simp add: digits_val_def)

lemma show_nat_digits: "list_all is_digit (show_nat n) \<and> digits_val (show_nat n) = n \<and> show_nat n \<noteq> []"
proof (induction n rule: show_nat.induct)
  case (1 n)
  show ?case
  proof (cases "n < 10")
    case True
    then show ?thesis
      using digit_char_ok [of n] by (simp add: show_nat.simps [of n] digits_val_def)
  next
    case False
    have m: "is_digit (char_of (48 + n mod 10)) \<and> digit_val (char_of (48 + n mod 10)) = n mod 10"
      by (rule digit_char_ok) simp
    from False "1.IH" have "list_all is_digit (show_nat (n div 10))"
      and "digits_val (show_nat (n div 10)) = n div 10" by auto
    with False m show ?thesis
      by (simp add: show_nat.simps [of n] digits_val_snoc)
  qed
qed

lemma ParseUint_show_nat: "n < 18446744073709551616 \<Longrightarrow> ParseUint (show_nat n) = Some n"
  using show_nat_digits [of n] by (simp add: ParseUint_def)

lemma show_nat_inject: "show_nat m = show_nat n \<longleftrightarrow> m = n"
  using show_nat_digits by metis

lemma show_nat_no_sign: "show_nat n \<noteq> CHR ''-'' # s"
proof
  assume "show_nat n = CHR ''-'' # s"
  with show_nat_digits [of n] have "is_digit (CHR ''-'')" by simp
  then show False by (simp add: is_digit_def)
qed

lemma show_int_inject: "show_int i = show_int j \<longleftrightarrow> i = j"
  by (auto simp: show_int_def show_nat_inject show_nat_no_sign
      show_nat_no_sign [symmetric] split: if_splits)

lemma show_int_digits: "c \<in> set (show_int i) \<Longrightarrow> is_digit c \<or> c = CHR ''-''"
  using show_nat_digits [of "nat i"] show_nat_digits [of "nat (- i)"]
  by (auto simp: show_int_def list_all_iff split: if_splits)

subsection \<open>strings\<close>

text \<open>
  \<^verbatim>\<open>HasPrefix\<close> and \<^verbatim>\<open>HasSuffix\<close> are \<^const>\<open>prefix\<close> and \<^const>\<open>suffix\<close>.  \<^verbatim>\<open>TrimSpace\<close> is only ever compared with the
  empty string, so the model has the predicate ``every rune is white space''; the byte patterns
  are the UTF-8 encodings of the code points that \<^verbatim>\<open>unicode.IsSpace\<close> lists.
\<close>

definition TrimPrefix :: "string \<Rightarrow> string \<Rightarrow> string" where
  "TrimPrefix s p = (if prefix p s then drop (length p) s else s)"

definition TrimSuffix :: "string \<Rightarrow> string \<Rightarrow> string" where
  "TrimSuffix s p = (if suffix p s then take (length s - length p) s else s)"

definition TrimRight :: "string \<Rightarrow> char \<Rightarrow> string" where
  "TrimRight s c = rev (dropWhile (\<lambda>x. x = c) (rev s))"

definition space_codes1 :: "nat list" where
  "space_codes1 = [9, 10, 11, 12, 13, 32]"

definition space_codes2 :: "(nat \<times> nat) list" where
  "space_codes2 = [(194, 133), (194, 160)]"

definition space_codes3 :: "(nat \<times> nat \<times> nat) list" where
  "space_codes3 = (225, 154, 128) # (226, 129, 159) # (227, 128, 128) #
     map (\<lambda>k. (226, 128, k)) [128, 129, 130, 131, 132, 133, 134, 135, 136, 137, 138, 168, 169, 175]"

fun all_space_codes :: "nat list \<Rightarrow> bool" where
  "all_space_codes [] = True"
| "all_space_codes (a # s) =
     ((a \<in> set space_codes1 \<and> all_space_codes s) \<or>
      (case s of
         b # s' \<Rightarrow>
           ((a, b) \<in> set space_codes2 \<and> all_space_codes s') \<or>
           (case s' of
              c # s'' \<Rightarrow> (a, b, c) \<in> set space_codes3 \<and> all_space_codes s''
            | [] \<Rightarrow> False)
       | [] \<Rightarrow> False))"

definition TrimSpace_empty :: "string \<Rightarrow> bool" where
  "TrimSpace_empty s = all_space_codes (map of_char s)"

lemma TrimSpace_empty_Nil [simp]: "TrimSpace_empty []"
  by (simp add: TrimSpace_empty_def)

definition ascii_lower :: "char \<Rightarrow> char" where
  "ascii_lower c = (if (65::nat) \<le> of_char c \<and> of_char c \<le> (90::nat) then char_of (of_char c + 32 :: nat) else c)"

text \<open>\<^verbatim>\<open>strings.ToLower\<close> on ASCII text; object kinds are ASCII identifiers.\<close>

definition ToLower :: "string \<Rightarrow> string" where
  "ToLower = map ascii_lower"

fun Join :: "string list \<Rightarrow> string \<Rightarrow> string" where
  "Join [] sep = []"
| "Join [x] sep = x"
| "Join (x # y # xs) sep = x @ sep @ Join (y # xs) sep"

text \<open>\<^verbatim>\<open>strings.Split\<close> at a single byte; \<open>acc\<close> is the part read so far, reversed.\<close>

fun splitOn :: "char \<Rightarrow> string \<Rightarrow> string \<Rightarrow> string list" where
  "splitOn c acc [] = [rev acc]"
| "splitOn c acc (x # xs) = (if x = c then rev acc # splitOn c [] xs else splitOn c (x # acc) xs)"

lemma splitOn_no: "c \<notin> set s \<Longrightarrow> splitOn c acc s = [rev acc @ s]"
  by (induction s arbitrary: acc) auto

lemma splitOn_append: "splitOn c acc (a @ c # b) = splitOn c acc a @ splitOn c [] b"
  by (induction a arbitrary: acc) auto

lemma splitOn_Join:
  assumes "\<forall>e \<in> set es. c \<notin> set e" "es \<noteq> []"
  shows "splitOn c [] (Join es [c]) = es"
  using assms
proof (induction es "[c]" rule: Join.induct)
  case (3 x y xs)
  then show ?case by (simp add: splitOn_append splitOn_no)
qed (auto simp: splitOn_no)

lemma Join_append: "xs \<noteq> [] \<Longrightarrow> ys \<noteq> [] \<Longrightarrow> Join (xs @ ys) sep = Join xs sep @ sep @ Join ys sep"
  by (induction xs sep rule: Join.induct) (auto simp: neq_Nil_conv)

lemma append_sep_inject:
  assumes "c \<notin> set a" "c \<notin> set b" "a @ c # s = b @ c # t"
  shows "a = b \<and> s = t"
  using assms
proof (induction a arbitrary: b)
  case Nil
  then show ?case by (cases b) auto
next
  case (Cons x a)
  then show ?case by (cases b) auto
qed

text \<open>Joining with a separator that occurs in no part loses nothing.\<close>

lemma Join_inject:
  assumes "length xs = length ys" "\<forall>x \<in> set xs \<union> set ys. c \<notin> set x"
    and "Join xs [c] = Join ys [c]"
  shows "xs = ys"
  using assms
proof (induction xs "[c]" arbitrary: ys rule: Join.induct)
  case 1
  then show ?case by simp
next
  case (2 x)
  then obtain y where "ys = [y]" by (cases ys) auto
  with 2 show ?case by simp
next
  case (3 x x' xs)
  then obtain y y' zs where ys: "ys = y # y' # zs"
    by (cases ys; cases "tl ys") auto
  with 3 have "x @ c # Join (x' # xs) [c] = y @ c # Join (y' # zs) [c]" by simp
  with 3 ys have "x = y \<and> Join (x' # xs) [c] = Join (y' # zs) [c]"
    by (intro append_sep_inject) auto
  moreover have "Join (x' # xs) [c] = Join (y' # zs) [c] \<Longrightarrow> x' # xs = y' # zs"
    using 3 ys by (intro "3.hyps") auto
  ultimately show ?case using ys by simp
qed

text \<open>
  \<^verbatim>\<open>%q\<close> of \<^verbatim>\<open>fmt\<close> (\<^verbatim>\<open>strconv.Quote\<close>): quotes, backslashes and control bytes are escaped; bytes from 128
  on are kept, which is what Go does with printable UTF-8 text.
\<close>

definition hex_digit :: "nat \<Rightarrow> char" where
  "hex_digit n = (if n < 10 then char_of (48 + n) else char_of (87 + n))"

definition quote_char :: "char \<Rightarrow> string" where
  "quote_char c = (let n = of_char c :: nat in
     if n = 34 then [char_of (92::nat), c]
     else if n = 92 then [c, c]
     else if n = 7 then [char_of (92::nat), CHR ''a'']
     else if n = 8 then [char_of (92::nat), CHR ''b'']
     else if n = 12 then [char_of (92::nat), CHR ''f'']
     else if n = 10 then [char_of (92::nat), CHR ''n'']
     else if n = 13 then [char_of (92::nat), CHR ''r'']
     else if n = 9 then [char_of (92::nat), CHR ''t'']
     else if n = 11 then [char_of (92::nat), CHR ''v'']
     else if n < 32 \<or> n = 127
       then [char_of (92::nat), CHR ''x'', hex_digit (n div 16), hex_digit (n mod 16)]
     else [c])"

definition Quote :: "string \<Rightarrow> string" where
  "Quote s = [char_of (34::nat)] @ concat (map quote_char s) @ [char_of (34::nat)]"

lemma length_concat_ge: "\<forall>x \<in> set xs. 1 \<le> length (f x) \<Longrightarrow> length xs \<le> length (concat (map f xs))"
  by (induction xs) auto

lemma length_Quote: "length s + 2 \<le> length (Quote s)"
proof -
  have "length s \<le> length (concat (map quote_char s))"
    by (rule length_concat_ge) (simp add: quote_char_def Let_def)
  then show ?thesis by (simp add: Quote_def)
qed

subsection \<open>sort\<close>

text \<open>
  \<^verbatim>\<open>sort.Slice\<close> and \<^verbatim>\<open>sort.SliceStable\<close> as the insertion sort both of them run on short slices: an element
  moves left past its neighbours while it is \<^verbatim>\<open>lt\<close>.  For a strict weak order every stable sort
  gives this result, and for a strict linear order every sort does (\<open>go_sort_unique\<close>).
\<close>

fun sift :: "('a \<Rightarrow> 'a \<Rightarrow> bool) \<Rightarrow> 'a \<Rightarrow> 'a list \<Rightarrow> 'a list" where
  "sift lt x [] = [x]"
| "sift lt x (y # ys) = (if lt x y then y # sift lt x ys else x # y # ys)"

definition go_sort :: "('a \<Rightarrow> 'a \<Rightarrow> bool) \<Rightarrow> 'a list \<Rightarrow> 'a list" where
  "go_sort lt xs = rev (foldl (\<lambda>acc x. sift lt x acc) [] xs)"

definition strict_weak_on :: "'a set \<Rightarrow> ('a \<Rightarrow> 'a \<Rightarrow> bool) \<Rightarrow> bool" where
  "strict_weak_on A lt \<longleftrightarrow>
     (\<forall>x\<in>A. \<forall>y\<in>A. lt x y \<longrightarrow> \<not> lt y x) \<and>
     (\<forall>x\<in>A. \<forall>y\<in>A. \<forall>z\<in>A. lt x z \<longrightarrow> lt x y \<or> lt y z)"

definition strict_linear_on :: "'a set \<Rightarrow> ('a \<Rightarrow> 'a \<Rightarrow> bool) \<Rightarrow> bool" where
  "strict_linear_on A lt \<longleftrightarrow>
     (\<forall>x\<in>A. \<not> lt x x) \<and>
     (\<forall>x\<in>A. \<forall>y\<in>A. \<forall>z\<in>A. lt x y \<longrightarrow> lt y z \<longrightarrow> lt x z) \<and>
     (\<forall>x\<in>A. \<forall>y\<in>A. x \<noteq> y \<longrightarrow> lt x y \<or> lt y x)"

lemma strict_weakD:
  assumes "strict_weak_on A lt"
  shows "x \<in> A \<Longrightarrow> y \<in> A \<Longrightarrow> lt x y \<Longrightarrow> \<not> lt y x"
    and "x \<in> A \<Longrightarrow> y \<in> A \<Longrightarrow> z \<in> A \<Longrightarrow> \<not> lt x y \<Longrightarrow> \<not> lt y z \<Longrightarrow> \<not> lt x z"
  using assms unfolding strict_weak_on_def by blast+

lemma strict_linear_weak: "strict_linear_on A lt \<Longrightarrow> strict_weak_on A lt"
  unfolding strict_linear_on_def strict_weak_on_def by metis

lemma strict_linear_subset: "strict_linear_on A lt \<Longrightarrow> B \<subseteq> A \<Longrightarrow> strict_linear_on B lt"
  unfolding strict_linear_on_def by blast

lemma strict_linear_least:
  assumes "strict_linear_on A lt" "finite A" "A \<noteq> {}"
  shows "\<exists>x \<in> A. \<forall>y \<in> A. y \<noteq> x \<longrightarrow> lt x y"
  using assms(2,3,1)
proof (induction rule: finite_ne_induct)
  case (insert a A)
  then obtain x where x: "x \<in> A" "\<forall>y \<in> A. y \<noteq> x \<longrightarrow> lt x y"
    using strict_linear_subset [of "insert a A" lt A] by blast
  have tr: "lt u v \<Longrightarrow> lt v z \<Longrightarrow> lt u z" if "u \<in> insert a A" "v \<in> insert a A" "z \<in> insert a A" for u v z
    using insert.prems that unfolding strict_linear_on_def by blast
  have "a \<noteq> x" using insert.hyps(3) x(1) by blast
  then have "lt a x \<or> lt x a" using insert.prems x(1) unfolding strict_linear_on_def by blast
  then show ?case
  proof
    assume "lt a x"
    have "lt a y" if "y \<in> A" for y
      using \<open>lt a x\<close> x tr [of a x y] that by (cases "y = x") simp_all
    then show ?thesis by blast
  next
    assume "lt x a"
    then show ?thesis using x by blast
  qed
qed auto

text \<open>
  The order in which the sources compare API objects: by creation time, then by numeric resource
  version, then by UID.  It is linear where the versions are numbers and the UIDs distinct.
\<close>

definition rev_before :: "('a \<Rightarrow> gotime) \<Rightarrow> ('a \<Rightarrow> string) \<Rightarrow> ('a \<Rightarrow> string) \<Rightarrow> 'a \<Rightarrow> 'a \<Rightarrow> bool" where
  "rev_before created rv uid x y =
     (if created x = created y then
        (case (ParseUint (rv x), ParseUint (rv y)) of
           (Some l, Some r) \<Rightarrow> if l \<noteq> r then l < r else uid x < uid y
         | _ \<Rightarrow> uid x < uid y)
      else created x < created y)"

lemma rev_before_linear:
  assumes "\<And>x. x \<in> A \<Longrightarrow> ParseUint (rv x) \<noteq> None" "inj_on uid A"
  shows "strict_linear_on A (rev_before created rv uid)"
proof -
  let ?lt = "rev_before created rv uid"
  have eq: "?lt x y \<longleftrightarrow> created x < created y \<or> created x = created y \<and>
      (the (ParseUint (rv x)) < the (ParseUint (rv y)) \<or> the (ParseUint (rv x)) = the (ParseUint (rv y)) \<and> uid x < uid y)"
    if "x \<in> A" "y \<in> A" for x y
    using assms(1) [OF that(1)] assms(1) [OF that(2)] by (auto simp: rev_before_def)
  show ?thesis
    unfolding strict_linear_on_def
  proof (intro conjI ballI impI)
    fix x y z assume "x \<in> A" "y \<in> A" "z \<in> A" "?lt x y" "?lt y z"
    then show "?lt x z" by (auto simp: eq intro: less_trans)
  next
    fix x y assume "x \<in> A" "y \<in> A" "x \<noteq> y"
    then have "uid x \<noteq> uid y" using assms(2) by (auto dest: inj_onD)
    then show "?lt x y \<or> ?lt y x"
      using \<open>x \<in> A\<close> \<open>y \<in> A\<close> by (auto simp: eq)
  qed (simp add: eq)
qed

lemma mset_sift [simp]: "mset (sift lt x ys) = add_mset x (mset ys)"
  by (induction ys) auto

lemma set_sift [simp]: "set (sift lt x ys) = insert x (set ys)"
  by (induction ys) auto

lemma foldl_sift_mset: "mset (foldl (\<lambda>acc x. sift lt x acc) ys xs) = mset xs + mset ys"
  by (induction xs arbitrary: ys) auto

lemma mset_go_sort [simp]: "mset (go_sort lt xs) = mset xs"
  by (simp add: go_sort_def foldl_sift_mset)

lemma set_go_sort [simp]: "set (go_sort lt xs) = set xs"
  by (metis mset_go_sort set_mset_mset)

lemma length_go_sort [simp]: "length (go_sort lt xs) = length xs"
  by (metis mset_go_sort size_mset)

lemma distinct_go_sort [simp]: "distinct (go_sort lt xs) \<longleftrightarrow> distinct xs"
  by (rule mset_eq_imp_distinct_iff) simp

lemma sorted_sift:
  assumes "strict_weak_on (insert x (set ys)) lt" "sorted_wrt (\<lambda>a b. \<not> lt a b) ys"
  shows "sorted_wrt (\<lambda>a b. \<not> lt a b) (sift lt x ys)"
  using assms
proof (induction ys)
  case (Cons y ys)
  have "strict_weak_on (insert x (set ys)) lt"
    using Cons.prems(1) unfolding strict_weak_on_def by simp
  with Cons have IH: "sorted_wrt (\<lambda>a b. \<not> lt a b) (sift lt x ys)" by simp
  show ?case
  proof (cases "lt x y")
    case True
    then have "\<not> lt y x" by (intro strict_weakD(1) [OF Cons.prems(1)]) auto
    with True Cons.prems(2) IH show ?thesis by auto
  next
    case False
    have "\<not> lt x z" if "z \<in> set ys" for z
      using strict_weakD(2) [OF Cons.prems(1), of x y z] Cons.prems(2) False that by auto
    with False Cons.prems show ?thesis by auto
  qed
qed simp

lemma sorted_foldl_sift:
  assumes "strict_weak_on (set xs \<union> set ys) lt" "sorted_wrt (\<lambda>a b. \<not> lt a b) ys"
  shows "sorted_wrt (\<lambda>a b. \<not> lt a b) (foldl (\<lambda>acc x. sift lt x acc) ys xs)"
  using assms
proof (induction xs arbitrary: ys)
  case (Cons x xs)
  have "strict_weak_on (insert x (set ys)) lt"
    using Cons.prems(1) unfolding strict_weak_on_def by simp
  then have "sorted_wrt (\<lambda>a b. \<not> lt a b) (sift lt x ys)"
    using Cons.prems(2) by (rule sorted_sift)
  moreover have "strict_weak_on (set xs \<union> set (sift lt x ys)) lt"
    using Cons.prems(1) by simp
  ultimately show ?case by (simp add: Cons.IH)
qed simp

lemma sorted_go_sort:
  assumes "strict_weak_on (set xs) lt"
  shows "sorted_wrt (\<lambda>a b. \<not> lt b a) (go_sort lt xs)"
  using sorted_foldl_sift [of xs "[]" lt] assms
  by (simp add: go_sort_def sorted_wrt_rev)

lemma sorted_go_sort_strict:
  assumes "strict_linear_on (set xs) lt" "distinct xs"
  shows "sorted_wrt lt (go_sort lt xs)"
proof -
  have *: "sorted_wrt (\<lambda>a b. \<not> lt b a) (go_sort lt xs)" "distinct (go_sort lt xs)"
    using sorted_go_sort [OF strict_linear_weak [OF assms(1)]] assms(2) by auto
  have "sorted_wrt lt ys" if "sorted_wrt (\<lambda>a b. \<not> lt b a) ys" "distinct ys" "set ys \<subseteq> set xs" for ys
    using that
  proof (induction ys)
    case (Cons y ys)
    have "lt y z" if z: "z \<in> set ys" for z
    proof -
      have "y \<in> set xs" "z \<in> set xs" "y \<noteq> z" "\<not> lt z y" using Cons.prems z by auto
      then show ?thesis using assms(1) unfolding strict_linear_on_def by blast
    qed
    with Cons show ?case by simp
  qed simp
  with * show ?thesis by simp
qed

lemma sorted_linear_unique:
  assumes "strict_linear_on A lt" "sorted_wrt lt xs" "sorted_wrt lt ys"
    and "set xs = set ys" "set xs \<subseteq> A"
  shows "xs = ys"
  using assms(2-5)
proof (induction xs arbitrary: ys)
  case (Cons x xs)
  then obtain y zs where ys: "ys = y # zs" by (cases ys) auto
  have irr: "\<not> lt a a" if "a \<in> A" for a using assms(1) that by (auto simp: strict_linear_on_def)
  have tr: "lt a b \<Longrightarrow> lt b c \<Longrightarrow> lt a c" if "a \<in> A" "b \<in> A" "c \<in> A" for a b c
    using assms(1) that unfolding strict_linear_on_def by blast
  have "x = y"
  proof (rule ccontr)
    assume "x \<noteq> y"
    then have "lt y x" "lt x y" using Cons.prems ys by auto
    moreover have "x \<in> A" "y \<in> A" using Cons.prems ys by auto
    ultimately show False using tr [of x y x] irr [of x] by blast
  qed
  moreover have "x \<in> A" using Cons.prems by auto
  then have "x \<notin> set xs" "y \<notin> set zs" using Cons.prems ys irr \<open>x = y\<close> by auto
  ultimately have "set xs = set zs" using Cons.prems ys by auto
  with Cons ys \<open>x = y\<close> show ?case by auto
qed simp

theorem go_sort_unique:
  assumes "strict_linear_on (set xs) lt" "sorted_wrt lt ys" "mset ys = mset xs"
  shows "ys = go_sort lt xs"
proof -
  have s: "set ys = set xs" using assms(3) by (metis set_mset_mset)
  have "distinct ys"
  proof -
    have "\<not> lt a a" if "a \<in> set ys" for a
      using assms(1) s that by (auto simp: strict_linear_on_def)
    with assms(2) show ?thesis by (induction ys) auto
  qed
  then have "distinct xs" using assms(3) by (metis mset_eq_imp_distinct_iff)
  then have "sorted_wrt lt (go_sort lt xs)"
    by (rule sorted_go_sort_strict [OF assms(1)])
  with assms(1,2) s show ?thesis
    by (intro sorted_linear_unique [of "set xs" lt]) auto
qed

text \<open>\<^verbatim>\<open>sort.Search(n, f)\<close>: the standard library's binary search, loop and all.\<close>

function search_loop :: "(nat \<Rightarrow> bool) \<Rightarrow> nat \<Rightarrow> nat \<Rightarrow> nat" where
  "search_loop f i j = (if i < j then
     (let h = (i + j) div 2 in if \<not> f h then search_loop f (h + 1) j else search_loop f i h)
     else i)"
  by pat_completeness auto
termination
  by (relation "measure (\<lambda>(f, i, j). j - i)") auto

declare search_loop.simps [simp del]

definition Search :: "nat \<Rightarrow> (nat \<Rightarrow> bool) \<Rightarrow> nat" where
  "Search n f = search_loop f 0 n"

lemma search_loop_correct:
  assumes "i \<le> j" "j \<le> n" "\<forall>k < i. \<not> f k" "\<forall>k. j \<le> k \<and> k < n \<longrightarrow> f k"
    and "\<forall>k l. k \<le> l \<and> l < n \<and> f k \<longrightarrow> f l"
  shows "search_loop f i j \<le> n \<and> (\<forall>k < search_loop f i j. \<not> f k) \<and>
    (\<forall>k. search_loop f i j \<le> k \<and> k < n \<longrightarrow> f k)"
  using assms
proof (induction f i j rule: search_loop.induct)
  case (1 f i j)
  show ?case
  proof (cases "i < j")
    case False
    then have "search_loop f i j = i" by (simp add: search_loop.simps [of f i j])
    with False "1.prems" show ?thesis by simp
  next
    case True
    define h where "h = (i + j) div 2"
    have h: "i \<le> h" "h < j" "h < n" using True "1.prems"(2) by (auto simp: h_def)
    note mono = "1.prems"(5)
    show ?thesis
    proof (cases "f h")
      case fh: True
      have eq: "search_loop f i j = search_loop f i h"
        using True fh by (simp add: search_loop.simps [of f i j] h_def)
      have up: "\<forall>k. h \<le> k \<and> k < n \<longrightarrow> f k" using mono fh by blast
      show ?thesis unfolding eq
        by (rule "1.IH"(2) [OF True h_def _ h(1) _ "1.prems"(3) up mono]) (use fh h in simp_all)
    next
      case fh: False
      have eq: "search_loop f i j = search_loop f (h + 1) j"
        using True fh by (simp add: search_loop.simps [of f i j] h_def)
      have down: "\<forall>k < h + 1. \<not> f k" using mono fh h(3) by (metis Suc_eq_plus1 less_Suc_eq_le)
      show ?thesis unfolding eq
        by (rule "1.IH"(1) [OF True h_def fh _ "1.prems"(2) down "1.prems"(4) mono]) (use h in simp)
    qed
  qed
qed

lemma Search_correct:
  assumes "\<forall>k l. k \<le> l \<and> l < n \<and> f k \<longrightarrow> f l"
  shows "Search n f \<le> n" and "\<And>k. k < Search n f \<Longrightarrow> \<not> f k"
    and "\<And>k. Search n f \<le> k \<Longrightarrow> k < n \<Longrightarrow> f k"
proof -
  have *: "search_loop f 0 n \<le> n \<and> (\<forall>k < search_loop f 0 n. \<not> f k) \<and>
    (\<forall>k. search_loop f 0 n \<le> k \<and> k < n \<longrightarrow> f k)"
    by (rule search_loop_correct [OF _ _ _ _ assms]) auto
  show "Search n f \<le> n" using * by (simp add: Search_def)
  show "\<And>k. k < Search n f \<Longrightarrow> \<not> f k" using * by (simp add: Search_def)
  show "\<And>k. Search n f \<le> k \<Longrightarrow> k < n \<Longrightarrow> f k" using * by (simp add: Search_def)
qed

subsection \<open>Errors\<close>

text \<open>
  Error values.  The API-status errors keep the reason that \<^verbatim>\<open>apierrors.IsNotFound\<close> and its relatives
  inspect; \<open>Plain\<close> is an error of \<^verbatim>\<open>fmt.Errorf\<close> with its rendered text, \<open>InvalidFacts\<close> is the
  controller's \<^verbatim>\<open>invalidExecutionFactsError\<close>, \<open>CtxErr\<close> an expired or cancelled context, and \<open>Panic\<close> a
  run-time panic (a nil dereference, a slice bound), which unwinds like an error.
\<close>

datatype path_elem = Child string | Index nat

type_synonym path = "path_elem list"

datatype field_error =
    FRequired path string
  | FForbidden path string
  | FInvalid path string
  | FDuplicate path string
  | FTooLong path nat nat
  | FTooMany path nat nat

datatype goerr =
    NotFound string string
  | AlreadyExists string string
  | Conflict string string string
  | BadRequest string
  | Invalid string string "field_error list"
  | ForbiddenErr string string string
  | ServiceUnavailable string
  | InternalErr string
  | Plain string
  | InvalidFacts string
  | CtxErr string
  | Panic string

definition IsNotFound :: "goerr \<Rightarrow> bool" where
  "IsNotFound e = (case e of NotFound _ _ \<Rightarrow> True | _ \<Rightarrow> False)"

definition IsAlreadyExists :: "goerr \<Rightarrow> bool" where
  "IsAlreadyExists e = (case e of AlreadyExists _ _ \<Rightarrow> True | _ \<Rightarrow> False)"

definition IsConflict :: "goerr \<Rightarrow> bool" where
  "IsConflict e = (case e of Conflict _ _ _ \<Rightarrow> True | _ \<Rightarrow> False)"

lemmas err_class_defs = IsNotFound_def IsAlreadyExists_def IsConflict_def

lemma err_class_simps [simp]:
  "IsNotFound (NotFound r n)" "\<not> IsNotFound (Plain m)" "\<not> IsNotFound (Conflict r n m)"
  "\<not> IsNotFound (BadRequest m)" "\<not> IsNotFound (AlreadyExists r n)"
  "IsAlreadyExists (AlreadyExists r n)" "\<not> IsAlreadyExists (NotFound r n)"
  "\<not> IsAlreadyExists (Plain m)" "\<not> IsAlreadyExists (Conflict r n m)"
  "IsConflict (Conflict r n m)" "\<not> IsConflict (NotFound r n)" "\<not> IsConflict (Plain m)"
  "\<not> IsConflict (BadRequest m)" "\<not> IsConflict (AlreadyExists r n)"
  by (simp_all add: err_class_defs)

text \<open>\<^verbatim>\<open>err.Error()\<close>, for the errors whose text the sources reuse.\<close>

fun Error_text :: "goerr \<Rightarrow> string" where
  "Error_text (NotFound r n) = r @ '' '' @ Quote n @ '' not found''"
| "Error_text (AlreadyExists r n) = r @ '' '' @ Quote n @ '' already exists''"
| "Error_text (Conflict r n m) =
     ''Operation cannot be fulfilled on '' @ r @ '' '' @ Quote n @ '': '' @ m"
| "Error_text (BadRequest m) = m"
| "Error_text (Invalid k n es) = k @ '' '' @ Quote n @ '' is invalid''"
| "Error_text (ForbiddenErr r n m) = r @ '' '' @ Quote n @ '' is forbidden: '' @ m"
| "Error_text (ServiceUnavailable m) = m"
| "Error_text (InternalErr m) = m"
| "Error_text (Plain m) = m"
| "Error_text (InvalidFacts m) = m"
| "Error_text (CtxErr m) = m"
| "Error_text (Panic m) = m"

subsection \<open>Effects\<close>

text \<open>
  A Go function that returns \<^verbatim>\<open>(T, error)\<close> and has effects is a function of the world: it returns an
  error or a value, and the world it leaves behind.  \<open>io_bind\<close> is the idiom
  \<^verbatim>\<open>x, err := f(); if err != nil { return err }\<close>.
\<close>

type_synonym ('w, 'c) act = "'w \<Rightarrow> 'c \<times> 'w"
type_synonym ('w, 'a) io = "('w, goerr + 'a) act"

definition io_ret :: "'a \<Rightarrow> ('w, 'a) io" where "io_ret x = (\<lambda>w. (Inr x, w))"
definition io_err :: "goerr \<Rightarrow> ('w, 'a) io" where "io_err e = (\<lambda>w. (Inl e, w))"
definition io_read :: "('w \<Rightarrow> goerr + 'a) \<Rightarrow> ('w, 'a) io" where "io_read f = (\<lambda>w. (f w, w))"
definition io_of :: "goerr + 'a \<Rightarrow> ('w, 'a) io" where "io_of r = (\<lambda>w. (r, w))"

definition io_check :: "goerr option \<Rightarrow> ('w, unit) io" where
  "io_check r = (\<lambda>w. (case r of None \<Rightarrow> Inr () | Some e \<Rightarrow> Inl e, w))"

definition io_bind :: "('w, 'a) io \<Rightarrow> ('a \<Rightarrow> ('w, 'b) io) \<Rightarrow> ('w, 'b) io" where
  "io_bind m f = (\<lambda>w. case m w of (Inl e, w') \<Rightarrow> (Inl e, w') | (Inr x, w') \<Rightarrow> f x w')"

text \<open>\<open>io_try m h f\<close> inspects the error of \<open>m\<close> itself instead of returning it.\<close>

definition io_try :: "('w, 'a) io \<Rightarrow> (goerr \<Rightarrow> ('w, 'c) act) \<Rightarrow> ('a \<Rightarrow> ('w, 'c) act) \<Rightarrow> ('w, 'c) act" where
  "io_try m h f = (\<lambda>w. case m w of (Inl e, w') \<Rightarrow> h e w' | (Inr x, w') \<Rightarrow> f x w')"

text \<open>A \<^verbatim>\<open>for range\<close> loop whose body may return an error.\<close>

fun io_forM :: "'a list \<Rightarrow> ('a \<Rightarrow> ('w, unit) io) \<Rightarrow> ('w, unit) io" where
  "io_forM [] f = io_ret ()"
| "io_forM (x # xs) f = io_bind (f x) (\<lambda>_. io_forM xs f)"

lemma io_ret_eq [simp]: "io_ret x w = (Inr x, w)" by (simp add: io_ret_def)
lemma io_err_eq [simp]: "io_err e w = (Inl e, w)" by (simp add: io_err_def)
lemma io_read_eq [simp]: "io_read f w = (f w, w)" by (simp add: io_read_def)
lemma io_of_eq [simp]: "io_of r w = (r, w)" by (simp add: io_of_def)
lemma io_check_eq [simp]: "io_check r w = (case r of None \<Rightarrow> Inr () | Some e \<Rightarrow> Inl e, w)"
  by (simp add: io_check_def)

lemma io_bind_Inr: "io_bind m f w = (Inr y, w2) \<longleftrightarrow> (\<exists>x w1. m w = (Inr x, w1) \<and> f x w1 = (Inr y, w2))"
  by (auto simp: io_bind_def split: prod.splits sum.splits)

lemma io_bind_Inl:
  "io_bind m f w = (Inl e, w2) \<longleftrightarrow> m w = (Inl e, w2) \<or> (\<exists>x w1. m w = (Inr x, w1) \<and> f x w1 = (Inl e, w2))"
  by (auto simp: io_bind_def split: prod.splits sum.splits)

lemma io_bind_cases:
  assumes "io_bind m f w = (r, w2)"
  obtains e where "m w = (Inl e, w2)" "r = Inl e" | x w1 where "m w = (Inr x, w1)" "f x w1 = (r, w2)"
  using assms by (auto simp: io_bind_def split: prod.splits sum.splits)

lemma io_try_cases:
  assumes "io_try m h f w = (r, w2)"
  obtains e w1 where "m w = (Inl e, w1)" "h e w1 = (r, w2)" | x w1 where "m w = (Inr x, w1)" "f x w1 = (r, w2)"
  using assms by (auto simp: io_try_def split: prod.splits sum.splits)

text \<open>
  A reflexive and transitive relation between worlds that every part of a computation respects is
  respected by the whole: the frame rules of the development.
\<close>

definition io_keeps :: "('w \<Rightarrow> 'w \<Rightarrow> bool) \<Rightarrow> ('w, 'c) act \<Rightarrow> bool" where
  "io_keeps R m \<longleftrightarrow> (\<forall>w r w'. m w = (r, w') \<longrightarrow> R w w')"

definition preorder_rel :: "('w \<Rightarrow> 'w \<Rightarrow> bool) \<Rightarrow> bool" where
  "preorder_rel R \<longleftrightarrow> (\<forall>w. R w w) \<and> (\<forall>x y z. R x y \<longrightarrow> R y z \<longrightarrow> R x z)"

lemma io_keepsD: "io_keeps R m \<Longrightarrow> m w = (r, w') \<Longrightarrow> R w w'"
  by (simp add: io_keeps_def)

lemma io_keeps_pure [spec_frame]:
  assumes "preorder_rel R"
  shows "io_keeps R (io_ret x)" "io_keeps R (io_err e)" "io_keeps R (io_read f)" "io_keeps R (io_of s)"
    "io_keeps R (io_check c)"
  using assms by (auto simp: io_keeps_def preorder_rel_def)

lemma io_keeps_bind:
  assumes "preorder_rel R" "io_keeps R m" "\<And>x. io_keeps R (f x)"
  shows "io_keeps R (io_bind m f)"
  using assms unfolding io_keeps_def preorder_rel_def by (blast elim: io_bind_cases)

lemma io_keeps_try:
  assumes "preorder_rel R" "io_keeps R m" "\<And>e. io_keeps R (h e)" "\<And>x. io_keeps R (f x)"
  shows "io_keeps R (io_try m h f)"
  using assms unfolding io_keeps_def preorder_rel_def by (blast elim: io_try_cases)

lemma io_keeps_forM:
  assumes "preorder_rel R" "\<And>x. io_keeps R (f x)"
  shows "io_keeps R (io_forM xs f)"
  by (induction xs) (simp_all add: io_keeps_pure io_keeps_bind assms del: io_ret_eq)

lemma preorder_rel_rtranclp [simp]: "preorder_rel (\<lambda>w w'. R\<^sup>*\<^sup>* (f w) (f w'))"
  by (auto simp: preorder_rel_def)

lemma preorder_rel_eq [simp]: "preorder_rel (\<lambda>w w'. f w' = f w)"
  by (auto simp: preorder_rel_def)

lemma io_keeps_mono: "io_keeps R m \<Longrightarrow> (\<And>w w'. R w w' \<Longrightarrow> S w w') \<Longrightarrow> io_keeps S m"
  by (auto simp: io_keeps_def)

text \<open>
  Partial correctness of an effectful computation: from a world that satisfies the precondition
  it returns a value and a world related by the postcondition.  (Every computation here is a
  total function, so it does return.)
\<close>

definition triple :: "('w \<Rightarrow> bool) \<Rightarrow> ('w, 'c) act \<Rightarrow> ('c \<Rightarrow> 'w \<Rightarrow> bool) \<Rightarrow> bool" where
  "triple P m Q \<longleftrightarrow> (\<forall>w. P w \<longrightarrow> (case m w of (r, w') \<Rightarrow> Q r w'))"

lemma tripleI: "(\<And>w r w'. P w \<Longrightarrow> m w = (r, w') \<Longrightarrow> Q r w') \<Longrightarrow> triple P m Q"
  by (auto simp: triple_def)

lemma tripleD: "triple P m Q \<Longrightarrow> P w \<Longrightarrow> m w = (r, w') \<Longrightarrow> Q r w'"
  by (auto simp: triple_def)

lemma triple_conseq:
  "triple P m Q \<Longrightarrow> (\<And>w. P' w \<Longrightarrow> P w) \<Longrightarrow> (\<And>r w. Q r w \<Longrightarrow> Q' r w) \<Longrightarrow> triple P' m Q'"
  by (fastforce simp: triple_def)

lemma triple_pre: "triple P m Q \<Longrightarrow> (\<And>w. P' w \<Longrightarrow> P w) \<Longrightarrow> triple P' m Q"
  by (rule triple_conseq)

lemma triple_pure:
  "(\<And>w. P w \<Longrightarrow> Q (Inr x) w) \<Longrightarrow> triple P (io_ret x) Q"
  "(\<And>w. P w \<Longrightarrow> Q (Inl e) w) \<Longrightarrow> triple P (io_err e) Q"
  by (auto simp: triple_def)

lemma triple_try:
  assumes "triple P m (\<lambda>r w. case r of Inl e \<Rightarrow> A e w | Inr x \<Rightarrow> B x w)"
    and "\<And>e. triple (A e) (h e) Q" "\<And>x. triple (B x) (f x) Q"
  shows "triple P (io_try m h f) Q"
proof (rule tripleI)
  fix w r w' assume P: "P w" and run: "io_try m h f w = (r, w')"
  from run show "Q r w'"
  proof (cases rule: io_try_cases)
    case (1 e w1)
    then have "A e w1" using tripleD [OF assms(1) P 1(1)] by simp
    then show ?thesis using tripleD [OF assms(2)] 1(2) by blast
  next
    case (2 x w1)
    then have "B x w1" using tripleD [OF assms(1) P 2(1)] by simp
    then show ?thesis using tripleD [OF assms(3)] 2(2) by blast
  qed
qed

lemma io_bind_try: "io_bind m f = io_try m io_err f"
  by (rule ext) (simp add: io_bind_def io_try_def split: prod.split sum.split)

lemma triple_bind:
  assumes "triple P m (\<lambda>r w. case r of Inl e \<Rightarrow> Q (Inl e) w | Inr x \<Rightarrow> B x w)"
    and "\<And>x. triple (B x) (f x) Q"
  shows "triple P (io_bind m f) Q"
  unfolding io_bind_try
  by (rule triple_try [OF assms(1) triple_pure(2) assms(2)])

lemma triple_forM:
  assumes "\<And>x. x \<in> set xs \<Longrightarrow> triple P (f x) (\<lambda>_. P)"
  shows "triple P (io_forM xs f) (\<lambda>_. P)"
  using assms
proof (induction xs)
  case (Cons x xs)
  show ?case unfolding io_forM.simps
    by (rule triple_bind [where B = "\<lambda>_. P"])
      (use Cons in \<open>auto intro: triple_conseq split: sum.splits\<close>)
qed (simp add: triple_def)

end
