(* ===== verification/Op_Types.thy ===== *)
theory Op_Types
  imports Go_Prelude
begin

text \<open>
  The resources of the operation engine (\<^verbatim>\<open>pkg/scheme/operations/v1alpha1/types.go\<close>): an Operation is a
  plan of steps over nodes, an OperationTask is one attempt of one step on one node, and an
  ExecutionLock serialises the operations of one target.  Go structs are records, string enums
  are byte strings with their named constants (an object read from storage may hold any text,
  and the code has branches for that), pointers to times are options, and a Go map is an
  association list where the code iterates over it.
\<close>

subsection \<open>Object metadata\<close>

record ObjectMeta =
  m_Name :: string
  m_GenerateName :: string
  m_UID :: string
  m_ResourceVersion :: string
  m_CreationTimestamp :: gotime
  m_Labels :: "(string \<times> string) list"

definition empty_meta :: ObjectMeta where
  "empty_meta = \<lparr>m_Name = [], m_GenerateName = [], m_UID = [], m_ResourceVersion = [],
     m_CreationTimestamp = 0, m_Labels = []\<rparr>"

record TypeMeta =
  tm_APIVersion :: string
  tm_Kind :: string

subsection \<open>Limits\<close>

definition DefaultOperationTimeout :: duration where "DefaultOperationTimeout = 90 * Minute"
definition MinOperationTimeout :: duration where "MinOperationTimeout = Minute"
definition MaxOperationTimeout :: duration where "MaxOperationTimeout = 24 * Hour"
definition ServerTerminationGrace :: duration where "ServerTerminationGrace = 2 * Minute"
definition MaxOperationSize :: nat where "MaxOperationSize = 524288"
definition MaxTaskSize :: nat where "MaxTaskSize = 262144"
definition MaxSteps :: nat where "MaxSteps = 256"
definition MaxTargetsPerStep :: nat where "MaxTargetsPerStep = 1000"
definition MaxStepPayloadSize :: nat where "MaxStepPayloadSize = 131072"
definition MaxRetryLimit :: int where "MaxRetryLimit = 3"
definition MaxMessageSize :: nat where "MaxMessageSize = 4096"
definition MaxOutputKeySize :: nat where "MaxOutputKeySize = 128"
definition MaxOutputValueSize :: nat where "MaxOutputValueSize = 4096"
definition MaxTaskOutputsSize :: nat where "MaxTaskOutputsSize = 16384"

lemmas timeout_consts = DefaultOperationTimeout_def MinOperationTimeout_def
  MaxOperationTimeout_def ServerTerminationGrace_def duration_consts

subsection \<open>Operations\<close>

record ObjectReference =
  or_Kind :: string
  or_Name :: string
  or_UID :: string

record NodeReference =
  nr_Name :: string
  nr_UID :: string
  nr_IP :: string

definition OperationDesiredStateActive :: string where "OperationDesiredStateActive = ''Active''"
definition OperationDesiredStateCancelled :: string where "OperationDesiredStateCancelled = ''Canceled''"

definition OperationPending :: string where "OperationPending = ''Pending''"
definition OperationRunning :: string where "OperationRunning = ''Running''"
definition OperationSucceeded :: string where "OperationSucceeded = ''Succeeded''"
definition OperationFailed :: string where "OperationFailed = ''Failed''"
definition OperationTimedOut :: string where "OperationTimedOut = ''TimedOut''"
definition OperationCancelled :: string where "OperationCancelled = ''Canceled''"

definition OperationPhase_IsTerminal :: "string \<Rightarrow> bool" where
  "OperationPhase_IsTerminal p \<longleftrightarrow>
     p = OperationSucceeded \<or> p = OperationFailed \<or> p = OperationTimedOut \<or> p = OperationCancelled"

definition OperationReasonStepFailed :: string where
  "OperationReasonStepFailed = ''StepFailed''"
definition OperationReasonDeadlineExceeded :: string where
  "OperationReasonDeadlineExceeded = ''DeadlineExceeded''"
definition OperationReasonCancelledByRequest :: string where
  "OperationReasonCancelledByRequest = ''CancelledByRequest''"
definition OperationReasonInvalidExecutionFacts :: string where
  "OperationReasonInvalidExecutionFacts = ''InvalidExecutionFacts''"

record StepInput =
  si_Field :: string
  si_FromStepID :: string
  si_FromNodeUID :: string
  si_OutputKey :: string

record OperationStep =
  step_ID :: string
  step_Targets :: "NodeReference list"
  step_Executor :: string
  step_Payload :: string
  step_Inputs :: "StepInput list"
  step_RetryLimit :: int

record OperationSpec =
  os_TargetRef :: ObjectReference
  os_Action :: string
  os_DesiredState :: string
  os_RetryGeneration :: int
  os_Timeout :: duration
  os_Steps :: "OperationStep list"

record OperationStatus =
  ost_Phase :: string
  ost_ObservedRetryGeneration :: int
  ost_Reason :: string
  ost_Message :: string
  ost_Deadline :: "gotime option"
  ost_StartedAt :: "gotime option"
  ost_FinishedAt :: "gotime option"

definition empty_OperationStatus :: OperationStatus where
  "empty_OperationStatus = \<lparr>ost_Phase = [], ost_ObservedRetryGeneration = 0, ost_Reason = [],
     ost_Message = [], ost_Deadline = None, ost_StartedAt = None, ost_FinishedAt = None\<rparr>"

record Operation =
  op_Type :: TypeMeta
  op_Meta :: ObjectMeta
  op_Spec :: OperationSpec
  op_Status :: OperationStatus

abbreviation op_Name :: "Operation \<Rightarrow> string" where "op_Name op \<equiv> m_Name (op_Meta op)"
abbreviation op_UID :: "Operation \<Rightarrow> string" where "op_UID op \<equiv> m_UID (op_Meta op)"
abbreviation op_RV :: "Operation \<Rightarrow> string" where "op_RV op \<equiv> m_ResourceVersion (op_Meta op)"
abbreviation op_Created :: "Operation \<Rightarrow> gotime" where "op_Created op \<equiv> m_CreationTimestamp (op_Meta op)"
abbreviation op_Phase :: "Operation \<Rightarrow> string" where "op_Phase op \<equiv> ost_Phase (op_Status op)"
abbreviation op_Steps :: "Operation \<Rightarrow> OperationStep list" where "op_Steps op \<equiv> os_Steps (op_Spec op)"

subsection \<open>Tasks\<close>

definition TaskPending :: string where "TaskPending = ''Pending''"
definition TaskRunning :: string where "TaskRunning = ''Running''"
definition TaskSucceeded :: string where "TaskSucceeded = ''Succeeded''"
definition TaskFailed :: string where "TaskFailed = ''Failed''"
definition TaskTimedOut :: string where "TaskTimedOut = ''TimedOut''"
definition TaskCancelled :: string where "TaskCancelled = ''Canceled''"

definition TaskPhase_IsTerminal :: "string \<Rightarrow> bool" where
  "TaskPhase_IsTerminal p \<longleftrightarrow>
     p = TaskSucceeded \<or> p = TaskFailed \<or> p = TaskTimedOut \<or> p = TaskCancelled"

definition TaskReasonExecutionFailed :: string where
  "TaskReasonExecutionFailed = ''ExecutionFailed''"
definition TaskReasonDeadlineExceeded :: string where
  "TaskReasonDeadlineExceeded = ''DeadlineExceeded''"
definition TaskReasonOperationCancelled :: string where
  "TaskReasonOperationCancelled = ''OperationCancelled''"
definition TaskReasonSiblingFailed :: string where
  "TaskReasonSiblingFailed = ''SiblingFailed''"
definition TaskReasonOperationDeadlineExceededBeforeStart :: string where
  "TaskReasonOperationDeadlineExceededBeforeStart = ''OperationDeadlineExceededBeforeStart''"

record OperationTaskSpec =
  tsp_OperationRef :: ObjectReference
  tsp_StepID :: string
  tsp_NodeRef :: NodeReference
  tsp_RetryGeneration :: int
  tsp_Attempt :: int
  tsp_Executor :: string
  tsp_Payload :: string
  tsp_Deadline :: gotime

record TaskResult =
  tr_Reason :: string
  tr_Message :: string
  tr_Outputs :: "(string \<times> string) list"

record OperationTaskStatus =
  tst_Phase :: string
  tst_Result :: "TaskResult option"
  tst_StartedAt :: "gotime option"
  tst_FinishedAt :: "gotime option"

definition empty_OperationTaskStatus :: OperationTaskStatus where
  "empty_OperationTaskStatus =
     \<lparr>tst_Phase = [], tst_Result = None, tst_StartedAt = None, tst_FinishedAt = None\<rparr>"

record OperationTask =
  task_Type :: TypeMeta
  task_Meta :: ObjectMeta
  task_Spec :: OperationTaskSpec
  task_Status :: OperationTaskStatus

abbreviation task_Name :: "OperationTask \<Rightarrow> string" where "task_Name t \<equiv> m_Name (task_Meta t)"
abbreviation task_UID :: "OperationTask \<Rightarrow> string" where "task_UID t \<equiv> m_UID (task_Meta t)"
abbreviation task_RV :: "OperationTask \<Rightarrow> string" where "task_RV t \<equiv> m_ResourceVersion (task_Meta t)"
abbreviation task_Created :: "OperationTask \<Rightarrow> gotime" where "task_Created t \<equiv> m_CreationTimestamp (task_Meta t)"
abbreviation task_Phase :: "OperationTask \<Rightarrow> string" where "task_Phase t \<equiv> tst_Phase (task_Status t)"
abbreviation task_Attempt :: "OperationTask \<Rightarrow> int" where "task_Attempt t \<equiv> tsp_Attempt (task_Spec t)"
abbreviation task_NodeUID :: "OperationTask \<Rightarrow> string" where "task_NodeUID t \<equiv> nr_UID (tsp_NodeRef (task_Spec t))"
abbreviation task_StepID :: "OperationTask \<Rightarrow> string" where "task_StepID t \<equiv> tsp_StepID (task_Spec t)"

subsection \<open>Locks\<close>

record ExecutionLockSpec =
  els_TargetRef :: ObjectReference
  els_HolderRef :: ObjectReference

record ExecutionLock =
  lock_Type :: TypeMeta
  lock_Meta :: ObjectMeta
  lock_Spec :: ExecutionLockSpec

abbreviation lock_Name :: "ExecutionLock \<Rightarrow> string" where "lock_Name l \<equiv> m_Name (lock_Meta l)"
abbreviation lock_UID :: "ExecutionLock \<Rightarrow> string" where "lock_UID l \<equiv> m_UID (lock_Meta l)"
abbreviation lock_Holder :: "ExecutionLock \<Rightarrow> ObjectReference" where "lock_Holder l \<equiv> els_HolderRef (lock_Spec l)"
abbreviation lock_Target :: "ExecutionLock \<Rightarrow> ObjectReference" where "lock_Target l \<equiv> els_TargetRef (lock_Spec l)"

record OperationControlRequest =
  cr_UID :: string
  cr_ResourceVersion :: string

definition KindOperation :: string where "KindOperation = ''Operation''"
definition KindOperationTask :: string where "KindOperationTask = ''OperationTask''"
definition KindExecutionLock :: string where "KindExecutionLock = ''ExecutionLock''"
definition SchemeGroupVersion :: string where "SchemeGroupVersion = ''operations.kubeclipper.io/v1alpha1''"
definition ResourceOperations :: string where "ResourceOperations = ''operations''"
definition ResourceTasks :: string where "ResourceTasks = ''operationtasks''"
definition ResourceLocks :: string where "ResourceLocks = ''executionlocks''"

subsection \<open>Phase constants\<close>

lemmas op_phase_defs = OperationPending_def OperationRunning_def OperationSucceeded_def
  OperationFailed_def OperationTimedOut_def OperationCancelled_def
lemmas task_phase_defs = TaskPending_def TaskRunning_def TaskSucceeded_def TaskFailed_def
  TaskTimedOut_def TaskCancelled_def
lemmas reason_defs = TaskReasonExecutionFailed_def TaskReasonDeadlineExceeded_def
  TaskReasonOperationCancelled_def TaskReasonSiblingFailed_def
  TaskReasonOperationDeadlineExceededBeforeStart_def OperationReasonStepFailed_def
  OperationReasonDeadlineExceeded_def OperationReasonCancelledByRequest_def
  OperationReasonInvalidExecutionFacts_def
lemmas desired_defs = OperationDesiredStateActive_def OperationDesiredStateCancelled_def

lemma op_phase_distinct [simp]:
  "OperationPending \<noteq> OperationRunning" "OperationPending \<noteq> OperationSucceeded"
  "OperationPending \<noteq> OperationFailed" "OperationPending \<noteq> OperationTimedOut"
  "OperationPending \<noteq> OperationCancelled" "OperationRunning \<noteq> OperationPending"
  "OperationRunning \<noteq> OperationSucceeded" "OperationRunning \<noteq> OperationFailed"
  "OperationRunning \<noteq> OperationTimedOut" "OperationRunning \<noteq> OperationCancelled"
  "OperationSucceeded \<noteq> OperationPending" "OperationSucceeded \<noteq> OperationRunning"
  "OperationSucceeded \<noteq> OperationFailed" "OperationSucceeded \<noteq> OperationTimedOut"
  "OperationSucceeded \<noteq> OperationCancelled" "OperationFailed \<noteq> OperationPending"
  "OperationFailed \<noteq> OperationRunning" "OperationFailed \<noteq> OperationSucceeded"
  "OperationFailed \<noteq> OperationTimedOut" "OperationFailed \<noteq> OperationCancelled"
  "OperationTimedOut \<noteq> OperationPending" "OperationTimedOut \<noteq> OperationRunning"
  "OperationTimedOut \<noteq> OperationSucceeded" "OperationTimedOut \<noteq> OperationFailed"
  "OperationTimedOut \<noteq> OperationCancelled" "OperationCancelled \<noteq> OperationPending"
  "OperationCancelled \<noteq> OperationRunning" "OperationCancelled \<noteq> OperationSucceeded"
  "OperationCancelled \<noteq> OperationFailed" "OperationCancelled \<noteq> OperationTimedOut"
  by (simp_all add: op_phase_defs)

lemma task_phase_distinct [simp]:
  "TaskPending \<noteq> TaskRunning" "TaskPending \<noteq> TaskSucceeded"
  "TaskPending \<noteq> TaskFailed" "TaskPending \<noteq> TaskTimedOut"
  "TaskPending \<noteq> TaskCancelled" "TaskRunning \<noteq> TaskPending"
  "TaskRunning \<noteq> TaskSucceeded" "TaskRunning \<noteq> TaskFailed"
  "TaskRunning \<noteq> TaskTimedOut" "TaskRunning \<noteq> TaskCancelled"
  "TaskSucceeded \<noteq> TaskPending" "TaskSucceeded \<noteq> TaskRunning"
  "TaskSucceeded \<noteq> TaskFailed" "TaskSucceeded \<noteq> TaskTimedOut"
  "TaskSucceeded \<noteq> TaskCancelled" "TaskFailed \<noteq> TaskPending"
  "TaskFailed \<noteq> TaskRunning" "TaskFailed \<noteq> TaskSucceeded"
  "TaskFailed \<noteq> TaskTimedOut" "TaskFailed \<noteq> TaskCancelled"
  "TaskTimedOut \<noteq> TaskPending" "TaskTimedOut \<noteq> TaskRunning"
  "TaskTimedOut \<noteq> TaskSucceeded" "TaskTimedOut \<noteq> TaskFailed"
  "TaskTimedOut \<noteq> TaskCancelled" "TaskCancelled \<noteq> TaskPending"
  "TaskCancelled \<noteq> TaskRunning" "TaskCancelled \<noteq> TaskSucceeded"
  "TaskCancelled \<noteq> TaskFailed" "TaskCancelled \<noteq> TaskTimedOut"
  by (simp_all add: task_phase_defs)

lemma phases_nonempty [simp]:
  "OperationPending \<noteq> []" "OperationRunning \<noteq> []" "OperationSucceeded \<noteq> []"
  "OperationFailed \<noteq> []" "OperationTimedOut \<noteq> []" "OperationCancelled \<noteq> []"
  "TaskPending \<noteq> []" "TaskRunning \<noteq> []" "TaskSucceeded \<noteq> []"
  "TaskFailed \<noteq> []" "TaskTimedOut \<noteq> []" "TaskCancelled \<noteq> []"
  by (simp_all add: op_phase_defs task_phase_defs)

lemma op_terminal_simps [simp]:
  "\<not> OperationPhase_IsTerminal OperationPending" "\<not> OperationPhase_IsTerminal OperationRunning"
  "OperationPhase_IsTerminal OperationSucceeded" "OperationPhase_IsTerminal OperationFailed"
  "OperationPhase_IsTerminal OperationTimedOut" "OperationPhase_IsTerminal OperationCancelled"
  "\<not> OperationPhase_IsTerminal []"
  by (auto simp: OperationPhase_IsTerminal_def op_phase_defs)

lemma task_terminal_simps [simp]:
  "\<not> TaskPhase_IsTerminal TaskPending" "\<not> TaskPhase_IsTerminal TaskRunning"
  "TaskPhase_IsTerminal TaskSucceeded" "TaskPhase_IsTerminal TaskFailed"
  "TaskPhase_IsTerminal TaskTimedOut" "TaskPhase_IsTerminal TaskCancelled"
  "\<not> TaskPhase_IsTerminal []"
  by (auto simp: TaskPhase_IsTerminal_def task_phase_defs)

lemma desired_distinct [simp]:
  "OperationDesiredStateActive \<noteq> OperationDesiredStateCancelled"
  "OperationDesiredStateCancelled \<noteq> OperationDesiredStateActive"
  by (simp_all add: desired_defs)

subsection \<open>Sample objects\<close>

text \<open>Small concrete objects on which the theorems of the development are evaluated.\<close>

definition sample_meta :: "string \<Rightarrow> string \<Rightarrow> string \<Rightarrow> ObjectMeta" where
  "sample_meta name uid rv = empty_meta\<lparr>m_Name := name, m_UID := uid, m_ResourceVersion := rv\<rparr>"

definition sample_node :: NodeReference where
  "sample_node = \<lparr>nr_Name = ''node'', nr_UID = ''node-uid'', nr_IP = ''10.0.0.1''\<rparr>"

definition sample_step :: OperationStep where
  "sample_step = \<lparr>step_ID = ''prepare'', step_Targets = [sample_node], step_Executor = ''noop'',
     step_Payload = [], step_Inputs = [], step_RetryLimit = 1\<rparr>"

definition sample_op :: Operation where
  "sample_op = \<lparr>op_Type = \<lparr>tm_APIVersion = [], tm_Kind = []\<rparr>, op_Meta = sample_meta ''op'' ''op-uid'' ''7'',
     op_Spec = \<lparr>os_TargetRef = \<lparr>or_Kind = ''Cluster'', or_Name = ''demo'', or_UID = ''c-uid''\<rparr>,
       os_Action = ''Create'', os_DesiredState = OperationDesiredStateActive, os_RetryGeneration = 0,
       os_Timeout = 5400000000000, os_Steps = [sample_step]\<rparr>,
     op_Status = empty_OperationStatus\<lparr>ost_Phase := OperationRunning\<rparr>\<rparr>"

definition sample_task :: "int \<Rightarrow> string \<Rightarrow> OperationTask" where
  "sample_task attempt phase = \<lparr>task_Type = \<lparr>tm_APIVersion = [], tm_Kind = []\<rparr>,
     task_Meta = sample_meta (''task'' @ show_int attempt) ''t-uid'' ''8'',
     task_Spec = \<lparr>tsp_OperationRef = \<lparr>or_Kind = KindOperation, or_Name = ''op'', or_UID = ''op-uid''\<rparr>,
       tsp_StepID = ''prepare'', tsp_NodeRef = sample_node, tsp_RetryGeneration = 0, tsp_Attempt = attempt,
       tsp_Executor = ''noop'', tsp_Payload = [], tsp_Deadline = 100\<rparr>,
     task_Status = empty_OperationTaskStatus\<lparr>tst_Phase := phase\<rparr>\<rparr>"

lemmas sample_defs = sample_meta_def sample_node_def sample_step_def sample_op_def sample_task_def
  empty_meta_def empty_OperationStatus_def empty_OperationTaskStatus_def

end
