(* ===== verification/Op_Validation.thy ===== *)
theory Op_Validation
  imports Op_Types
begin

text \<open>
  The shared admission contract of the engine (\<^verbatim>\<open>pkg/scheme/operations/validation/validation.go\<close>).
  A validator returns the list of field errors it found, the empty list meaning that the object
  is accepted.  The encoded size of an object, which the code takes from \<^verbatim>\<open>json.Marshal\<close>, is an
  argument: \<open>None\<close> when marshalling fails.
\<close>

subsection \<open>References\<close>

definition validateReference :: "ObjectReference \<Rightarrow> path \<Rightarrow> field_error list" where
  "validateReference ref path =
     (if TrimSpace_empty (or_Kind ref) then [FRequired (path @ [Child ''kind'']) ''kind is required''] else []) @
     (if TrimSpace_empty (or_Name ref) then [FRequired (path @ [Child ''name'']) ''name is required''] else []) @
     (if or_UID ref = [] then [FRequired (path @ [Child ''uid'']) ''uid is required''] else [])"

definition validateNodeReference :: "NodeReference \<Rightarrow> path \<Rightarrow> field_error list" where
  "validateNodeReference ref path =
     (if TrimSpace_empty (nr_Name ref) then [FRequired (path @ [Child ''name'']) ''name is required''] else []) @
     (if nr_UID ref = [] then [FRequired (path @ [Child ''uid'']) ''uid is required''] else [])"

subsection \<open>Steps\<close>

text \<open>The loop of \<^verbatim>\<open>validateStepTargets\<close>: \<open>i\<close> is its index, \<open>seen\<close> the set of node UIDs met so far.\<close>

fun targets_loop :: "path \<Rightarrow> nat \<Rightarrow> string list \<Rightarrow> NodeReference list \<Rightarrow> field_error list" where
  "targets_loop path i seen [] = []"
| "targets_loop path i seen (t # ts) =
     validateNodeReference t (path @ [Index i]) @
     (if nr_UID t = [] then targets_loop path (Suc i) seen ts
      else (if nr_UID t \<in> set seen
            then [FDuplicate (path @ [Index i]) ''node UID is duplicated in this step''] else []) @
           targets_loop path (Suc i) (nr_UID t # seen) ts)"

definition validateStepTargets :: "NodeReference list \<Rightarrow> path \<Rightarrow> field_error list" where
  "validateStepTargets targets path = targets_loop path 0 [] targets"

fun inputs_loop :: "path \<Rightarrow> nat \<Rightarrow> nat \<Rightarrow> (string \<rightharpoonup> nat) \<Rightarrow> StepInput list \<Rightarrow> field_error list" where
  "inputs_loop path i stepIndex seenSteps [] = []"
| "inputs_loop path i stepIndex seenSteps (input # inputs) =
     (if si_Field input = [] \<or> si_FromStepID input = [] \<or> si_FromNodeUID input = [] \<or> si_OutputKey input = []
      then [FRequired (path @ [Index i]) ''field, fromStepID, fromNodeUID and outputKey are required''] else []) @
     (case seenSteps (si_FromStepID input) of
        Some fromIndex \<Rightarrow>
          (if fromIndex \<ge> stepIndex
           then [FInvalid (path @ [Index i, Child ''fromStepID'']) ''must reference an earlier step''] else [])
      | None \<Rightarrow> [FInvalid (path @ [Index i, Child ''fromStepID'']) ''must reference an earlier step'']) @
     inputs_loop path (Suc i) stepIndex seenSteps inputs"

definition validateStepInputs ::
    "StepInput list \<Rightarrow> path \<Rightarrow> nat \<Rightarrow> (string \<rightharpoonup> nat) \<Rightarrow> field_error list" where
  "validateStepInputs inputs path stepIndex seenSteps = inputs_loop path 0 stepIndex seenSteps inputs"

text \<open>\<^verbatim>\<open>validateStep\<close> also updates the shared map \<^verbatim>\<open>seenSteps\<close>, so the model returns it.\<close>

definition validateStep ::
    "OperationStep \<Rightarrow> path \<Rightarrow> nat \<Rightarrow> (string \<rightharpoonup> nat) \<Rightarrow> field_error list \<times> (string \<rightharpoonup> nat)" where
  "validateStep step path index seenSteps =
     (let (idErrs, seen) =
            (if step_ID step = []
             then ([FRequired (path @ [Child ''id'']) ''step id is required''], seenSteps)
             else case seenSteps (step_ID step) of
                 Some previous \<Rightarrow>
                   ([FDuplicate (path @ [Child ''id'']) (''also used at index '' @ show_nat previous)], seenSteps)
               | None \<Rightarrow> ([], seenSteps(step_ID step \<mapsto> index)))
      in (idErrs @
          (if step_Executor step = [] then [FRequired (path @ [Child ''executor'']) ''executor is required''] else []) @
          (if length (step_Payload step) > MaxStepPayloadSize
           then [FTooLong (path @ [Child ''payload'']) (length (step_Payload step)) MaxStepPayloadSize] else []) @
          (if step_Targets step = [] then [FRequired (path @ [Child ''targets'']) ''at least one target is required''] else []) @
          (if length (step_Targets step) > MaxTargetsPerStep
           then [FTooMany (path @ [Child ''targets'']) (length (step_Targets step)) MaxTargetsPerStep] else []) @
          validateStepTargets (step_Targets step) (path @ [Child ''targets'']) @
          (if step_RetryLimit step < 0 \<or> step_RetryLimit step > MaxRetryLimit
           then [FInvalid (path @ [Child ''retryLimit'']) ''must be between 0 and 3''] else []) @
          validateStepInputs (step_Inputs step) (path @ [Child ''inputs'']) index seen, seen))"

fun steps_loop :: "nat \<Rightarrow> (string \<rightharpoonup> nat) \<Rightarrow> OperationStep list \<Rightarrow> field_error list" where
  "steps_loop i seen [] = []"
| "steps_loop i seen (step # steps) =
     (let (errs, seen') = validateStep step [Child ''spec'', Child ''steps'', Index i] i seen
      in errs @ steps_loop (Suc i) seen' steps)"

definition validateOperationSteps :: "OperationStep list \<Rightarrow> field_error list" where
  "validateOperationSteps steps = steps_loop 0 Map.empty steps"

subsection \<open>Operations\<close>

definition validateOperationMetadata :: "Operation \<Rightarrow> field_error list" where
  "validateOperationMetadata op =
     (if op_Name op = [] then [FRequired [Child ''metadata'', Child ''name''] ''stable name is required''] else []) @
     (if m_GenerateName (op_Meta op) \<noteq> []
      then [FForbidden [Child ''metadata'', Child ''generateName''] ''generateName is not supported''] else [])"

definition validateOperationSpec :: "Operation \<Rightarrow> field_error list" where
  "validateOperationSpec op = (let spec = op_Spec op in
     validateReference (os_TargetRef spec) [Child ''spec'', Child ''targetRef''] @
     (if os_Action spec = [] then [FRequired [Child ''spec'', Child ''action''] ''action is required''] else []) @
     (if os_DesiredState spec \<noteq> OperationDesiredStateActive
      then [FInvalid [Child ''spec'', Child ''desiredState''] ''new operations must be Active''] else []) @
     (if os_RetryGeneration spec \<noteq> 0
      then [FInvalid [Child ''spec'', Child ''retryGeneration''] ''new operations must start at generation 0''] else []) @
     (if os_Timeout spec < MinOperationTimeout \<or> os_Timeout spec > MaxOperationTimeout
      then [FInvalid [Child ''spec'', Child ''timeout''] ''must be between 1m0s and 24h0m0s''] else []) @
     (if os_Steps spec = [] then [FRequired [Child ''spec'', Child ''steps''] ''at least one step is required''] else []) @
     (if length (os_Steps spec) > MaxSteps
      then [FTooMany [Child ''spec'', Child ''steps''] (length (os_Steps spec)) MaxSteps] else []))"

definition ValidateOperation :: "(Operation \<Rightarrow> nat option) \<Rightarrow> Operation option \<Rightarrow> field_error list" where
  "ValidateOperation marshalSize opt = (case opt of
      None \<Rightarrow> [FRequired [Child ''operation''] ''must not be nil'']
    | Some op \<Rightarrow>
        validateOperationMetadata op @ validateOperationSpec op @ validateOperationSteps (op_Steps op) @
        (case marshalSize op of
           Some sz \<Rightarrow> if sz > MaxOperationSize then [FTooLong [Child ''operation''] sz MaxOperationSize] else []
         | None \<Rightarrow> []))"

subsection \<open>Tasks\<close>

definition ValidateTask :: "(OperationTask \<Rightarrow> nat option) \<Rightarrow> OperationTask option \<Rightarrow> field_error list" where
  "ValidateTask marshalSize topt = (case topt of
      None \<Rightarrow> [FRequired [Child ''task''] ''must not be nil'']
    | Some task \<Rightarrow> (let spec = task_Spec task in
        (if task_Name task = [] then [FRequired [Child ''metadata'', Child ''name''] ''deterministic name is required''] else []) @
        (if m_GenerateName (task_Meta task) \<noteq> []
         then [FForbidden [Child ''metadata'', Child ''generateName''] ''generateName is not supported''] else []) @
        validateReference (tsp_OperationRef spec) [Child ''spec'', Child ''operationRef''] @
        validateNodeReference (tsp_NodeRef spec) [Child ''spec'', Child ''nodeRef''] @
        (if tsp_StepID spec = [] then [FRequired [Child ''spec'', Child ''stepID''] ''step id is required''] else []) @
        (if tsp_Executor spec = [] then [FRequired [Child ''spec'', Child ''executor''] ''executor is required''] else []) @
        (if tsp_Deadline spec = 0 then [FRequired [Child ''spec'', Child ''deadline''] ''deadline is required''] else []) @
        (if tsp_RetryGeneration spec < 0
         then [FInvalid [Child ''spec'', Child ''retryGeneration''] ''must not be negative''] else []) @
        (if tsp_Attempt spec < 0 then [FInvalid [Child ''spec'', Child ''attempt''] ''must not be negative''] else []) @
        (if length (tsp_Payload spec) > MaxStepPayloadSize
         then [FTooLong [Child ''spec'', Child ''payload''] (length (tsp_Payload spec)) MaxStepPayloadSize] else []) @
        (case marshalSize task of
           Some sz \<Rightarrow> if sz > MaxTaskSize then [FTooLong [Child ''task''] sz MaxTaskSize] else []
         | None \<Rightarrow> [])))"

text \<open>\<^verbatim>\<open>ValidateTaskResult\<close>: the loop over the outputs carries the running total.\<close>

fun outputs_loop :: "nat \<Rightarrow> (string \<times> string) list \<Rightarrow> goerr option" where
  "outputs_loop tot [] =
     (if tot > MaxTaskOutputsSize then Some (Plain ''task outputs exceed 16384 bytes'') else None)"
| "outputs_loop tot ((key, val) # outs) =
     (if key = [] \<or> length key > MaxOutputKeySize
      then Some (Plain ''task output key must be between 1 and 128 bytes'')
      else if length val > MaxOutputValueSize
      then Some (Plain (''task output '' @ Quote key @ '' exceeds 4096 bytes''))
      else outputs_loop (tot + length key + length val) outs)"

definition ValidateTaskResult :: "TaskResult option \<Rightarrow> goerr option" where
  "ValidateTaskResult r = (case r of
      None \<Rightarrow> None
    | Some result \<Rightarrow>
        (if length (tr_Message result) > MaxMessageSize
         then Some (Plain ''task result message exceeds 4096 bytes'')
         else outputs_loop 0 (tr_Outputs result)))"

subsection \<open>Phase transitions\<close>

record phaseTransition =
  pt_old :: string
  pt_new :: string
  pt_pending :: string
  pt_running :: string
  pt_canceled :: string
  pt_resource :: string
  pt_terminal :: bool
  pt_newTerminal :: bool

definition validatePhaseTransition :: "phaseTransition \<Rightarrow> goerr option" where
  "validatePhaseTransition tr =
     (if pt_terminal tr then
        (if pt_old tr \<noteq> pt_new tr
         then Some (Plain (''terminal '' @ pt_resource tr @ '' phase '' @ Quote (pt_old tr) @ '' is immutable''))
         else None)
      else if pt_old tr = [] then
        (if pt_new tr \<noteq> pt_pending tr
         then Some (Plain (''new '' @ pt_resource tr @ '' must start Pending'')) else None)
      else if pt_old tr = pt_pending tr then
        (if pt_new tr \<noteq> pt_pending tr \<and> pt_new tr \<noteq> pt_running tr \<and> pt_new tr \<noteq> pt_canceled tr
         then Some (Plain (''pending '' @ pt_resource tr @ '' cannot transition to '' @ Quote (pt_new tr))) else None)
      else if pt_old tr = pt_running tr then
        (if pt_new tr \<noteq> pt_running tr \<and> \<not> pt_newTerminal tr
         then Some (Plain (''running '' @ pt_resource tr @ '' cannot transition to '' @ Quote (pt_new tr))) else None)
      else Some (Plain (''unknown old '' @ pt_resource tr @ '' phase '' @ Quote (pt_old tr))))"

definition ValidateTaskPhaseTransition :: "string \<Rightarrow> string \<Rightarrow> goerr option" where
  "ValidateTaskPhaseTransition oldPhase newPhase = validatePhaseTransition
     \<lparr>pt_old = oldPhase, pt_new = newPhase, pt_pending = TaskPending, pt_running = TaskRunning,
      pt_canceled = TaskCancelled, pt_resource = ''task'',
      pt_terminal = TaskPhase_IsTerminal oldPhase, pt_newTerminal = TaskPhase_IsTerminal newPhase\<rparr>"

definition ValidateOperationPhaseTransition :: "string \<Rightarrow> string \<Rightarrow> goerr option" where
  "ValidateOperationPhaseTransition oldPhase newPhase = validatePhaseTransition
     \<lparr>pt_old = oldPhase, pt_new = newPhase, pt_pending = OperationPending, pt_running = OperationRunning,
      pt_canceled = OperationCancelled, pt_resource = ''operation'',
      pt_terminal = OperationPhase_IsTerminal oldPhase, pt_newTerminal = OperationPhase_IsTerminal newPhase\<rparr>"

definition InvalidOperation :: "string \<Rightarrow> field_error list \<Rightarrow> goerr" where
  "InvalidOperation name errs = Invalid KindOperation name errs"

definition InvalidTask :: "string \<Rightarrow> field_error list \<Rightarrow> goerr" where
  "InvalidTask name errs = Invalid KindOperationTask name errs"

subsection \<open>The phase machines\<close>

text \<open>What the transition check lets through, as a relation on the two phase alphabets.\<close>

definition task_phase_step :: "string \<Rightarrow> string \<Rightarrow> bool" where
  "task_phase_step old new \<longleftrightarrow>
     (TaskPhase_IsTerminal old \<and> new = old) \<or> (old = [] \<and> new = TaskPending) \<or>
     (old = TaskPending \<and> new \<in> {TaskPending, TaskRunning, TaskCancelled}) \<or>
     (old = TaskRunning \<and> (new = TaskRunning \<or> TaskPhase_IsTerminal new))"

definition op_phase_step :: "string \<Rightarrow> string \<Rightarrow> bool" where
  "op_phase_step old new \<longleftrightarrow>
     (OperationPhase_IsTerminal old \<and> new = old) \<or> (old = [] \<and> new = OperationPending) \<or>
     (old = OperationPending \<and> new \<in> {OperationPending, OperationRunning, OperationCancelled}) \<or>
     (old = OperationRunning \<and> (new = OperationRunning \<or> OperationPhase_IsTerminal new))"

lemma ValidateTaskPhaseTransition_iff:
  "ValidateTaskPhaseTransition old new = None \<longleftrightarrow> task_phase_step old new"
  by (auto simp: ValidateTaskPhaseTransition_def validatePhaseTransition_def task_phase_step_def)

lemma ValidateOperationPhaseTransition_iff:
  "ValidateOperationPhaseTransition old new = None \<longleftrightarrow> op_phase_step old new"
  by (auto simp: ValidateOperationPhaseTransition_def validatePhaseTransition_def op_phase_step_def)

lemma validatePhaseTransition_Plain:
  "validatePhaseTransition tr = Some e \<Longrightarrow> \<exists>m. e = Plain m"
  by (auto simp: validatePhaseTransition_def split: if_splits)

lemma task_phase_terminal_step: "TaskPhase_IsTerminal p \<Longrightarrow> task_phase_step p q \<longleftrightarrow> q = p"
  by (auto simp: task_phase_step_def TaskPhase_IsTerminal_def)

lemma op_phase_terminal_step: "OperationPhase_IsTerminal p \<Longrightarrow> op_phase_step p q \<longleftrightarrow> q = p"
  by (auto simp: op_phase_step_def OperationPhase_IsTerminal_def)

lemma outputs_loop_None:
  "outputs_loop tot outs = None \<longleftrightarrow>
     (\<forall>(k, v) \<in> set outs. 1 \<le> length k \<and> length k \<le> MaxOutputKeySize \<and> length v \<le> MaxOutputValueSize) \<and>
     tot + (\<Sum>(k, v) \<leftarrow> outs. length k + length v) \<le> MaxTaskOutputsSize"
proof (induction tot outs rule: outputs_loop.induct)
  case (1 tot)
  then show ?case by auto
next
  case (2 tot key val outs)
  have "1 \<le> length key \<longleftrightarrow> key \<noteq> []" by (cases key) auto
  with 2 show ?case by (auto simp: add.assoc)
qed

subsection \<open>Accepted plans\<close>

text \<open>
  The meaning of an accepted plan, without the loops: step identifiers are distinct, the targets
  of a step are distinct nodes, and every input names a step that comes strictly earlier.
\<close>

definition wf_targets :: "NodeReference list \<Rightarrow> bool" where
  "wf_targets ts \<longleftrightarrow> distinct (map nr_UID ts) \<and>
     (\<forall>t \<in> set ts. \<not> TrimSpace_empty (nr_Name t) \<and> nr_UID t \<noteq> [])"

definition wf_input :: "string set \<Rightarrow> StepInput \<Rightarrow> bool" where
  "wf_input earlier i \<longleftrightarrow> si_Field i \<noteq> [] \<and> si_FromStepID i \<noteq> [] \<and> si_FromNodeUID i \<noteq> [] \<and>
     si_OutputKey i \<noteq> [] \<and> si_FromStepID i \<in> earlier"

definition wf_step :: "string set \<Rightarrow> OperationStep \<Rightarrow> bool" where
  "wf_step earlier s \<longleftrightarrow> step_ID s \<noteq> [] \<and> step_ID s \<notin> earlier \<and> step_Executor s \<noteq> [] \<and>
     length (step_Payload s) \<le> MaxStepPayloadSize \<and>
     step_Targets s \<noteq> [] \<and> length (step_Targets s) \<le> MaxTargetsPerStep \<and> wf_targets (step_Targets s) \<and>
     0 \<le> step_RetryLimit s \<and> step_RetryLimit s \<le> MaxRetryLimit \<and>
     (\<forall>i \<in> set (step_Inputs s). wf_input earlier i)"

fun wf_steps :: "string set \<Rightarrow> OperationStep list \<Rightarrow> bool" where
  "wf_steps earlier [] = True"
| "wf_steps earlier (s # ss) = (wf_step earlier s \<and> wf_steps (insert (step_ID s) earlier) ss)"

lemma validateNodeReference_Nil:
  "validateNodeReference t p = [] \<longleftrightarrow> \<not> TrimSpace_empty (nr_Name t) \<and> nr_UID t \<noteq> []"
  by (simp add: validateNodeReference_def)

lemma targets_loop_Nil:
  "targets_loop path i seen ts = [] \<longleftrightarrow>
     wf_targets ts \<and> set (map nr_UID ts) \<inter> set seen = {}"
  by (induction ts arbitrary: i seen) (auto simp: wf_targets_def validateNodeReference_Nil)

lemma inputs_loop_Nil:
  "inputs_loop path i n seen ins = [] \<longleftrightarrow>
     (\<forall>x \<in> set ins. wf_input {k. \<exists>j < n. seen k = Some j} x)"
  by (induction ins arbitrary: i) (auto simp: wf_input_def split: option.splits)

text \<open>The map \<^verbatim>\<open>seenSteps\<close> before step \<open>i\<close> sends each earlier identifier to an index below \<open>i\<close>.\<close>

definition seen_ok :: "nat \<Rightarrow> (string \<rightharpoonup> nat) \<Rightarrow> bool" where
  "seen_ok i seen \<longleftrightarrow> (\<forall>j \<in> ran seen. j < i)"

lemma seen_ok_dom: "seen_ok i seen \<Longrightarrow> {k. \<exists>j < i. seen k = Some j} = dom seen"
  by (auto simp: seen_ok_def ran_def)

lemma seen_ok_step: "seen_ok i seen \<Longrightarrow> seen_ok (Suc i) (seen(k \<mapsto> i))"
  by (auto simp: seen_ok_def ran_def split: if_splits intro: less_SucI)

lemma seen_upd_earlier:
  assumes "seen_ok i seen" "seen k = None"
  shows "{x. \<exists>j < i. (seen(k \<mapsto> i)) x = Some j} = dom seen"
  using assms by (auto simp: seen_ok_def ran_def)

lemma validateStep_Nil:
  assumes "seen_ok i seen"
  shows "fst (validateStep s p i seen) = [] \<longleftrightarrow> wf_step (dom seen) s"
proof (cases "seen (step_ID s)")
  case None
  have "inputs_loop (p @ [Child ''inputs'']) 0 i (seen(step_ID s \<mapsto> i)) (step_Inputs s) = [] \<longleftrightarrow>
      (\<forall>x \<in> set (step_Inputs s). wf_input (dom seen) x)"
    by (simp only: inputs_loop_Nil seen_upd_earlier [OF assms None])
  with None show ?thesis
    by (auto simp: validateStep_def wf_step_def validateStepTargets_def targets_loop_Nil
        validateStepInputs_def)
next
  case (Some j)
  then show ?thesis
    by (auto simp: validateStep_def wf_step_def)
qed

lemma validateStep_seen:
  "wf_step (dom seen) s \<Longrightarrow> snd (validateStep s p i seen) = seen(step_ID s \<mapsto> i)"
  by (auto simp: validateStep_def wf_step_def dom_def)

lemma steps_loop_Nil:
  "seen_ok i seen \<Longrightarrow> steps_loop i seen ss = [] \<longleftrightarrow> wf_steps (dom seen) ss"
proof (induction ss arbitrary: i seen)
  case (Cons s ss)
  let ?v = "validateStep s [Child ''spec'', Child ''steps'', Index i] i seen"
  have split: "steps_loop i seen (s # ss) = [] \<longleftrightarrow>
      fst ?v = [] \<and> steps_loop (Suc i) (snd ?v) ss = []"
    by (cases ?v) simp
  show ?case
  proof (cases "wf_step (dom seen) s")
    case True
    have "steps_loop (Suc i) (seen(step_ID s \<mapsto> i)) ss = [] \<longleftrightarrow> wf_steps (insert (step_ID s) (dom seen)) ss"
      by (subst Cons.IH [OF seen_ok_step [OF Cons.prems]]) simp
    with True show ?thesis
      using validateStep_Nil [OF Cons.prems, of s]
      by (simp only: split) (simp add: validateStep_seen)
  next
    case False
    then show ?thesis using validateStep_Nil [OF Cons.prems, of s] by (simp only: split) simp
  qed
qed simp

definition wf_operation :: "Operation \<Rightarrow> bool" where
  "wf_operation op \<longleftrightarrow> (let spec = op_Spec op; ref = os_TargetRef spec in
     op_Name op \<noteq> [] \<and> m_GenerateName (op_Meta op) = [] \<and>
     \<not> TrimSpace_empty (or_Kind ref) \<and> \<not> TrimSpace_empty (or_Name ref) \<and> or_UID ref \<noteq> [] \<and>
     os_Action spec \<noteq> [] \<and> os_DesiredState spec = OperationDesiredStateActive \<and>
     os_RetryGeneration spec = 0 \<and>
     MinOperationTimeout \<le> os_Timeout spec \<and> os_Timeout spec \<le> MaxOperationTimeout \<and>
     os_Steps spec \<noteq> [] \<and> length (os_Steps spec) \<le> MaxSteps \<and> wf_steps {} (os_Steps spec))"

lemma validateOperationSteps_Nil: "validateOperationSteps ss = [] \<longleftrightarrow> wf_steps {} ss"
  using steps_loop_Nil [of 0 Map.empty ss] by (simp add: validateOperationSteps_def seen_ok_def)

lemma wf_steps_distinct:
  "wf_steps E ss \<Longrightarrow> distinct (map step_ID ss) \<and> set (map step_ID ss) \<inter> E = {}"
  by (induction ss arbitrary: E) (fastforce simp: wf_step_def)+

lemma wf_steps_nth:
  "wf_steps E ss \<Longrightarrow> i < length ss \<Longrightarrow> wf_step (E \<union> set (map step_ID (take i ss))) (ss ! i)"
proof (induction ss arbitrary: E i)
  case (Cons s ss)
  then show ?case
  proof (cases i)
    case (Suc k)
    then have "wf_step (insert (step_ID s) E \<union> set (map step_ID (take k ss))) (ss ! k)"
      using Cons.IH [of "insert (step_ID s) E" k] Cons.prems by simp
    with Suc show ?thesis by simp
  qed simp
qed simp

lemma wf_steps_mem: "wf_steps E ss \<Longrightarrow> s \<in> set ss \<Longrightarrow> \<exists>E'. wf_step E' s"
  by (metis in_set_conv_nth wf_steps_nth)

lemma validate_wf:
  "ValidateOperation sizeOf (Some op) = [] \<longleftrightarrow>
     wf_operation op \<and> (case sizeOf op of Some n \<Rightarrow> n \<le> MaxOperationSize | None \<Rightarrow> True)"
  by (auto simp: ValidateOperation_def validateOperationMetadata_def validateOperationSpec_def
      validateReference_def validateOperationSteps_Nil wf_operation_def Let_def split: option.splits)

subsection \<open>Properties\<close>

text \<open>
  C11.  Admission accepts exactly the well-formed operations: \<^verbatim>\<open>ValidateOperation\<close> returns no error
  if and only if the object is a named Active operation of generation 0 with a timeout between
  one minute and 24 hours and between 1 and 256 steps, whose steps have distinct identifiers,
  distinct targets, a retry limit of 0 to 3 and inputs from strictly earlier steps, and whose
  encoding is at most 512 KiB.
\<close>

theorem ValidateOperation_accepts_iff:
  "ValidateOperation sizeOf (Some op) = [] \<longleftrightarrow>
     wf_operation op \<and> (case sizeOf op of Some n \<Rightarrow> n \<le> MaxOperationSize | None \<Rightarrow> True)"
  by (rule validate_wf)

end
