(* ===== verification/Op_Reducer.thy ===== *)
theory Op_Reducer
  imports Op_Validation "HOL-Library.AList"
begin

text \<open>
  The pure part of the operation controller (\<^verbatim>\<open>pkg/controller/operationv2/reducer.go\<close>): it derives the
  current step of an operation, what is missing in it, the next attempt of a node and the order
  between operations from the stored objects alone.
\<close>

subsection \<open>Step facts\<close>

record stepFacts =
  sf_Step :: OperationStep
  sf_Tasks :: "OperationTask list"
  sf_ByNode :: "string \<Rightarrow> OperationTask list"
  sf_Incomplete :: "NodeReference list"

text \<open>The two successful results of \<^verbatim>\<open>validateAndCurrentStep\<close>: everything done, or the step to work on.\<close>

datatype current = Complete | Current stepFacts

fun index_targets :: "string \<Rightarrow> NodeReference list \<Rightarrow> (string \<rightharpoonup> NodeReference) \<Rightarrow> goerr + (string \<rightharpoonup> NodeReference)" where
  "index_targets stepID [] m = Inr m"
| "index_targets stepID (t # ts) m =
     (if m (nr_UID t) \<noteq> None
      then Inl (Plain (''duplicate node UID '' @ Quote (nr_UID t) @ '' in step '' @ Quote stepID))
      else index_targets stepID ts (m(nr_UID t \<mapsto> t)))"

fun index_steps :: "nat \<Rightarrow> OperationStep list \<Rightarrow> (string \<rightharpoonup> nat) \<Rightarrow> (string \<Rightarrow> string \<rightharpoonup> NodeReference) \<Rightarrow>
    goerr + (string \<rightharpoonup> nat) \<times> (string \<Rightarrow> string \<rightharpoonup> NodeReference)" where
  "index_steps i [] steps targets = Inr (steps, targets)"
| "index_steps i (step # rest) steps targets =
     (if steps (step_ID step) \<noteq> None then Inl (Plain (''duplicate step '' @ Quote (step_ID step)))
      else case index_targets (step_ID step) (step_Targets step) Map.empty of
             Inl e \<Rightarrow> Inl e
           | Inr m \<Rightarrow> index_steps (Suc i) rest (steps(step_ID step \<mapsto> i)) (targets(step_ID step := m)))"

definition indexOperationPlan ::
    "Operation \<Rightarrow> goerr + (string \<rightharpoonup> nat) \<times> (string \<Rightarrow> string \<rightharpoonup> NodeReference)" where
  "indexOperationPlan op = index_steps 0 (op_Steps op) Map.empty (\<lambda>_. Map.empty)"

fun validate_tasks_loop :: "Operation \<Rightarrow> (string \<rightharpoonup> nat) \<Rightarrow> (string \<Rightarrow> string \<rightharpoonup> NodeReference) \<Rightarrow>
    OperationTask list \<Rightarrow> (string \<Rightarrow> OperationTask list) \<Rightarrow> goerr + (string \<Rightarrow> OperationTask list)" where
  "validate_tasks_loop op steps targets [] byStep = Inr byStep"
| "validate_tasks_loop op steps targets (task # tasks) byStep =
     (if or_Name (tsp_OperationRef (task_Spec task)) \<noteq> op_Name op \<or> or_UID (tsp_OperationRef (task_Spec task)) \<noteq> op_UID op
      then Inl (Plain (''task '' @ Quote (task_Name task) @ '' refers to another operation''))
      else case steps (task_StepID task) of
        None \<Rightarrow> Inl (Plain (''task '' @ Quote (task_Name task) @ '' refers to unknown step '' @ Quote (task_StepID task)))
      | Some stepIndex \<Rightarrow>
          (if (case targets (task_StepID task) (task_NodeUID task) of
                 None \<Rightarrow> True | Some target \<Rightarrow> nr_Name target \<noteq> nr_Name (tsp_NodeRef (task_Spec task)))
           then Inl (Plain (''task '' @ Quote (task_Name task) @ '' refers to an unknown node in step '' @ Quote (task_StepID task)))
           else if tsp_RetryGeneration (task_Spec task) > os_RetryGeneration (op_Spec op)
           then Inl (Plain (''task '' @ Quote (task_Name task) @ '' has future retry generation '' @
                  show_int (tsp_RetryGeneration (task_Spec task))))
           else if tsp_Executor (task_Spec task) \<noteq> step_Executor (op_Steps op ! stepIndex)
           then Inl (Plain (''task '' @ Quote (task_Name task) @ '' executor differs from its immutable plan''))
           else validate_tasks_loop op steps targets tasks
                  (byStep(task_StepID task := byStep (task_StepID task) @ [task]))))"

definition indexAndValidateTasks :: "Operation \<Rightarrow> OperationTask list \<Rightarrow> (string \<rightharpoonup> nat) \<Rightarrow>
    (string \<Rightarrow> string \<rightharpoonup> NodeReference) \<Rightarrow> goerr + (string \<Rightarrow> OperationTask list)" where
  "indexAndValidateTasks op tasks steps targets = validate_tasks_loop op steps targets tasks (\<lambda>_. [])"

definition nodeSucceeded :: "OperationTask list \<Rightarrow> bool" where
  "nodeSucceeded tasks = list_ex (\<lambda>task. task_Phase task = TaskSucceeded) tasks"

fun later_steps_empty :: "OperationStep list \<Rightarrow> (string \<Rightarrow> OperationTask list) \<Rightarrow> string \<Rightarrow> goerr option" where
  "later_steps_empty [] byStep current = None"
| "later_steps_empty (s # ss) byStep current =
     (if byStep (step_ID s) \<noteq> []
      then Some (Plain (''tasks for step '' @ Quote (step_ID s) @ '' exist before step '' @ Quote current @ '' completed''))
      else later_steps_empty ss byStep current)"

definition validateLaterStepsEmpty :: "Operation \<Rightarrow> (string \<Rightarrow> OperationTask list) \<Rightarrow> nat \<Rightarrow> goerr option" where
  "validateLaterStepsEmpty op byStep current =
     later_steps_empty (drop (Suc current) (op_Steps op)) byStep (step_ID (op_Steps op ! current))"

definition attemptLess :: "OperationTask \<Rightarrow> OperationTask \<Rightarrow> bool" where
  "attemptLess left right =
     (if task_Attempt left \<noteq> task_Attempt right then task_Attempt left < task_Attempt right
      else task_Created left < task_Created right)"

definition stepFactsOf :: "OperationStep \<Rightarrow> (string \<Rightarrow> OperationTask list) \<Rightarrow> stepFacts" where
  "stepFactsOf step byStep =
     (let tasks = byStep (step_ID step);
          byNode = (\<lambda>uid. go_sort attemptLess (filter (\<lambda>t. task_NodeUID t = uid) tasks))
      in \<lparr>sf_Step = step, sf_Tasks = tasks, sf_ByNode = byNode,
          sf_Incomplete = filter (\<lambda>target. \<not> nodeSucceeded (byNode (nr_UID target))) (step_Targets step)\<rparr>)"

fun current_step_loop :: "Operation \<Rightarrow> (string \<Rightarrow> OperationTask list) \<Rightarrow> nat \<Rightarrow> OperationStep list \<Rightarrow> goerr + current" where
  "current_step_loop op byStep i [] = Inr Complete"
| "current_step_loop op byStep i (step # rest) =
     (let facts = stepFactsOf step byStep in
      if sf_Incomplete facts \<noteq> [] then
        (case validateLaterStepsEmpty op byStep i of
           Some err \<Rightarrow> Inl err
         | None \<Rightarrow> Inr (Current facts))
      else current_step_loop op byStep (Suc i) rest)"

definition currentStepFacts :: "Operation \<Rightarrow> (string \<Rightarrow> OperationTask list) \<Rightarrow> goerr + current" where
  "currentStepFacts op byStep = current_step_loop op byStep 0 (op_Steps op)"

definition validateAndCurrentStep :: "Operation \<Rightarrow> OperationTask list \<Rightarrow> goerr + current" where
  "validateAndCurrentStep op tasks =
     (case indexOperationPlan op of
        Inl err \<Rightarrow> Inl err
      | Inr (steps, targets) \<Rightarrow>
          (case indexAndValidateTasks op tasks steps targets of
             Inl err \<Rightarrow> Inl err
           | Inr byStep \<Rightarrow> currentStepFacts op byStep))"

subsection \<open>Attempts\<close>

definition latestTask :: "OperationTask list \<Rightarrow> OperationTask option" where
  "latestTask tasks = (case tasks of
      [] \<Rightarrow> None
    | t # ts \<Rightarrow> Some (foldl (\<lambda>latest task.
         if task_Attempt task > task_Attempt latest \<or>
            (task_Attempt task = task_Attempt latest \<and> task_Created latest < task_Created task)
         then task else latest) t ts))"

definition activeTasks :: "OperationTask list \<Rightarrow> OperationTask list \<times> OperationTask list" where
  "activeTasks tasks = (filter (\<lambda>t. task_Phase t = TaskPending) tasks, filter (\<lambda>t. task_Phase t = TaskRunning) tasks)"

definition latestFailure :: "stepFacts \<Rightarrow> bool" where
  "latestFailure facts = list_ex (\<lambda>target.
     case latestTask (sf_ByNode facts (nr_UID target)) of
       None \<Rightarrow> False
     | Some task \<Rightarrow> task_Phase task = TaskFailed \<or> task_Phase task = TaskTimedOut) (sf_Incomplete facts)"

definition hasActiveTask :: "OperationTask list \<Rightarrow> bool" where
  "hasActiveTask tasks = list_ex (\<lambda>t. task_Phase t = TaskPending \<or> task_Phase t = TaskRunning) tasks"

definition taskGenerationAndNextAttempt :: "OperationTask list \<Rightarrow> int \<times> int" where
  "taskGenerationAndNextAttempt tasks =
     foldl (\<lambda>(baseGeneration, next) task.
        (if tsp_RetryGeneration (task_Spec task) < baseGeneration then tsp_RetryGeneration (task_Spec task) else baseGeneration,
         if task_Attempt task \<ge> next then int32 (task_Attempt task + 1) else next))
       (tsp_RetryGeneration (task_Spec (hd tasks)), 0) tasks"

definition retryGenerationAttempt :: "OperationTask list \<Rightarrow> int \<Rightarrow> int \<Rightarrow> int \<Rightarrow> int \<times> bool" where
  "retryGenerationAttempt tasks retryGeneration baseGeneration next =
     (if retryGeneration < baseGeneration then (0, False)
      else if list_ex (\<lambda>t. tsp_RetryGeneration (task_Spec t) = retryGeneration) tasks then (0, False)
      else (next, True))"

definition wasExecuted :: "OperationTask \<Rightarrow> bool" where
  "wasExecuted task \<longleftrightarrow> tst_StartedAt (task_Status task) \<noteq> None \<or> task_Phase task = TaskRunning \<or>
     task_Phase task = TaskSucceeded \<or> task_Phase task = TaskFailed \<or> task_Phase task = TaskTimedOut"

definition executedAttempts :: "OperationTask list \<Rightarrow> int \<Rightarrow> int" where
  "executedAttempts tasks generation =
     foldl (\<lambda>executed task.
        if tsp_RetryGeneration (task_Spec task) \<noteq> generation then executed
        else if wasExecuted task then int32 (executed + 1) else executed) 0 tasks"

definition nextAttempt :: "OperationStep \<Rightarrow> OperationTask list \<Rightarrow> int \<Rightarrow> int \<times> bool" where
  "nextAttempt step tasks retryGeneration =
     (if nodeSucceeded tasks \<or> hasActiveTask tasks then (0, False)
      else if tasks = [] then (0, True)
      else (let (baseGeneration, next) = taskGenerationAndNextAttempt tasks in
            if retryGeneration \<noteq> baseGeneration
            then retryGenerationAttempt tasks retryGeneration baseGeneration next
            else (next, executedAttempts tasks baseGeneration < int32 (1 + step_RetryLimit step))))"

subsection \<open>Payloads\<close>

text \<open>
  The JSON codec: decoding an object into raw members (\<open>None\<close> for the document \<^verbatim>\<open>null\<close>), encoding a
  string and encoding an object.
\<close>

record json_codec =
  jc_unmarshalMap :: "string \<Rightarrow> string + (string \<times> string) list option"
  jc_marshalString :: "string \<Rightarrow> string + string"
  jc_marshalMap :: "(string \<times> string) list \<Rightarrow> string + string"

definition inputMatches :: "StepInput \<Rightarrow> OperationTask list \<Rightarrow> OperationTask list" where
  "inputMatches input tasks = filter (\<lambda>task. task_StepID task = si_FromStepID input \<and>
     task_NodeUID task = si_FromNodeUID input \<and> task_Phase task = TaskSucceeded) tasks"

fun materialize_inputs :: "json_codec \<Rightarrow> string \<Rightarrow> OperationTask list \<Rightarrow> StepInput list \<Rightarrow>
    (string \<times> string) list \<Rightarrow> goerr + (string \<times> string) list" where
  "materialize_inputs J stepID tasks [] payload = Inr payload"
| "materialize_inputs J stepID tasks (input # inputs) payload =
     (let matches = inputMatches input tasks in
      if length matches \<noteq> 1 \<or> tst_Result (task_Status (hd matches)) = None
      then Inl (Plain (''input '' @ Quote (si_Field input) @ '' for step '' @ Quote stepID @ '' has '' @
             show_nat (length matches) @ '' successful source tasks''))
      else (case map_of (tr_Outputs (the (tst_Result (task_Status (hd matches))))) (si_OutputKey input) of
          None \<Rightarrow> Inl (Plain (''output '' @ Quote (si_OutputKey input) @ '' is missing for input '' @
             Quote (si_Field input) @ '' in step '' @ Quote stepID))
        | Some val \<Rightarrow>
            (case jc_marshalString J val of
               Inl m \<Rightarrow> Inl (Plain m)
             | Inr encoded \<Rightarrow>
                 materialize_inputs J stepID tasks inputs (AList.update (si_Field input) encoded payload))))"

definition materializePayload :: "json_codec \<Rightarrow> OperationStep \<Rightarrow> OperationTask list \<Rightarrow> goerr + string" where
  "materializePayload J step tasks =
     (if step_Inputs step = [] then Inr (step_Payload step)
      else (let decoded =
              (if step_Payload step = [] then Inr []
               else case jc_unmarshalMap J (step_Payload step) of
                   Inl m \<Rightarrow> Inl (Plain (''decode payload for step '' @ Quote (step_ID step) @ '': '' @ m))
                 | Inr None \<Rightarrow> Inl (Plain (''payload for step '' @ Quote (step_ID step) @ '' must be a JSON object''))
                 | Inr (Some p) \<Rightarrow> Inr p)
            in case decoded of
                 Inl err \<Rightarrow> Inl err
               | Inr payload \<Rightarrow>
                   (case materialize_inputs J (step_ID step) tasks (step_Inputs step) payload of
                      Inl err \<Rightarrow> Inl err
                    | Inr payload' \<Rightarrow>
                        (case jc_marshalMap J payload' of
                           Inl m \<Rightarrow> Inl (Plain m)
                         | Inr raw \<Rightarrow> Inr raw))))"

subsection \<open>The order of operations\<close>

definition operationBefore :: "Operation \<Rightarrow> Operation \<Rightarrow> bool" where
  "operationBefore left right =
     (if op_Created left = op_Created right then
        (case (ParseUint (op_RV left), ParseUint (op_RV right)) of
           (Some l, Some r) \<Rightarrow> if l \<noteq> r then l < r else op_UID left < op_UID right
         | _ \<Rightarrow> op_UID left < op_UID right)
      else op_Created left < op_Created right)"

definition operationNeedsExecution :: "Operation \<Rightarrow> bool" where
  "operationNeedsExecution op \<longleftrightarrow> \<not> OperationPhase_IsTerminal (op_Phase op) \<or>
     os_RetryGeneration (op_Spec op) > ost_ObservedRetryGeneration (op_Status op)"

definition isEarliestRunnable :: "Operation \<Rightarrow> Operation list \<Rightarrow> bool" where
  "isEarliestRunnable op operationsList = list_all (\<lambda>candidate.
     op_UID candidate = op_UID op \<or> \<not> operationNeedsExecution candidate \<or> \<not> operationBefore candidate op) operationsList"

definition isLatestOperation :: "Operation \<Rightarrow> Operation list \<Rightarrow> bool" where
  "isLatestOperation op operationsList = list_all (\<lambda>candidate.
     \<not> (op_UID candidate \<noteq> op_UID op \<and> operationBefore op candidate)) operationsList"

definition taskSpecEqual :: "OperationTaskSpec \<Rightarrow> OperationTaskSpec \<Rightarrow> bool" where
  "taskSpecEqual left right \<longleftrightarrow> left = right"

definition deadlineExpired :: "Operation \<Rightarrow> gotime \<Rightarrow> bool" where
  "deadlineExpired op now = (case ost_Deadline (op_Status op) of None \<Rightarrow> False | Some d \<Rightarrow> \<not> now < d)"

subsection \<open>What the reducer accepts\<close>

text \<open>
  The plan is indexable when step identifiers are distinct and node UIDs are distinct within a
  step.  A task fits the plan when it belongs to the operation, names a step and a target of that
  step, has no future retry generation and the executor of the step.
\<close>

definition plan_ok :: "Operation \<Rightarrow> bool" where
  "plan_ok op \<longleftrightarrow> distinct (map step_ID (op_Steps op)) \<and>
     (\<forall>s \<in> set (op_Steps op). distinct (map nr_UID (step_Targets s)))"

definition task_ok :: "Operation \<Rightarrow> OperationTask \<Rightarrow> bool" where
  "task_ok op t \<longleftrightarrow>
     or_Name (tsp_OperationRef (task_Spec t)) = op_Name op \<and> or_UID (tsp_OperationRef (task_Spec t)) = op_UID op \<and>
     tsp_RetryGeneration (task_Spec t) \<le> os_RetryGeneration (op_Spec op) \<and>
     (\<exists>s \<in> set (op_Steps op). step_ID s = task_StepID t \<and> step_Executor s = tsp_Executor (task_Spec t) \<and>
        (\<exists>n \<in> set (step_Targets s). nr_UID n = task_NodeUID t \<and> nr_Name n = nr_Name (tsp_NodeRef (task_Spec t))))"

definition tasksOf :: "OperationTask list \<Rightarrow> OperationStep \<Rightarrow> OperationTask list" where
  "tasksOf tasks s = filter (\<lambda>t. task_StepID t = step_ID s) tasks"

definition node_done :: "OperationTask list \<Rightarrow> OperationStep \<Rightarrow> NodeReference \<Rightarrow> bool" where
  "node_done tasks s n \<longleftrightarrow> (\<exists>t \<in> set tasks. task_StepID t = step_ID s \<and> task_NodeUID t = nr_UID n \<and> task_Phase t = TaskSucceeded)"

definition step_done :: "OperationTask list \<Rightarrow> OperationStep \<Rightarrow> bool" where
  "step_done tasks s \<longleftrightarrow> (\<forall>n \<in> set (step_Targets s). node_done tasks s n)"

lemma index_targets_ok:
  "(\<exists>m'. index_targets sid ts m = Inr m') \<longleftrightarrow>
     distinct (map nr_UID ts) \<and> (\<forall>t \<in> set ts. m (nr_UID t) = None)"
  by (induction ts arbitrary: m) (auto simp: image_iff)

lemma index_targets_find:
  "index_targets sid ts m = Inr m' \<Longrightarrow>
     m' u = (case find (\<lambda>t. nr_UID t = u) ts of Some t \<Rightarrow> Some t | None \<Rightarrow> m u)"
proof (induction ts arbitrary: m)
  case (Cons t ts)
  then have tl: "index_targets sid ts (m(nr_UID t \<mapsto> t)) = Inr m'" by (simp split: if_splits)
  from this have "\<forall>x \<in> set ts. nr_UID x \<noteq> nr_UID t"
    using index_targets_ok [of sid ts "m(nr_UID t \<mapsto> t)"] by (auto split: if_splits)
  then have "find (\<lambda>x. nr_UID x = nr_UID t) ts = None" by (auto simp: find_None_iff)
  then show ?case using Cons.IH [OF tl] by (auto split: option.splits)
qed auto

lemma index_steps_ok:
  "(\<exists>r. index_steps i ss st tg = Inr r) \<longleftrightarrow>
     distinct (map step_ID ss) \<and> (\<forall>s \<in> set ss. st (step_ID s) = None \<and> distinct (map nr_UID (step_Targets s)))"
proof (induction ss arbitrary: i st tg)
  case (Cons s ss)
  have "(\<exists>m. index_targets (step_ID s) (step_Targets s) Map.empty = Inr m) \<longleftrightarrow> distinct (map nr_UID (step_Targets s))"
    by (simp add: index_targets_ok)
  then show ?case using Cons.IH by (auto simp: image_iff split: sum.splits)
qed auto

lemma index_steps_find:
  "index_steps i ss st tg = Inr (st', tg') \<Longrightarrow>
     (\<forall>j < length ss. st' (step_ID (ss ! j)) = Some (i + j) \<and>
        (\<forall>u. tg' (step_ID (ss ! j)) u = find (\<lambda>t. nr_UID t = u) (step_Targets (ss ! j)))) \<and>
     (\<forall>x. x \<notin> step_ID ` set ss \<longrightarrow> st' x = st x \<and> tg' x = tg x)"
proof (induction ss arbitrary: i st tg)
  case (Cons s ss)
  from Cons.prems obtain m where m: "index_targets (step_ID s) (step_Targets s) Map.empty = Inr m"
    and rest: "index_steps (Suc i) ss (st(step_ID s \<mapsto> i)) (tg(step_ID s := m)) = Inr (st', tg')"
    by (auto split: if_splits sum.splits)
  have new: "step_ID s \<notin> step_ID ` set ss"
    using rest index_steps_ok [of "Suc i" ss "st(step_ID s \<mapsto> i)" "tg(step_ID s := m)"] by fastforce
  have hd: "st' (step_ID s) = Some i" "tg' (step_ID s) = m"
    using Cons.IH [OF rest] new by auto
  have tl: "st' (step_ID (ss ! j)) = Some (Suc i + j) \<and>
      (\<forall>u. tg' (step_ID (ss ! j)) u = find (\<lambda>t. nr_UID t = u) (step_Targets (ss ! j)))" if "j < length ss" for j
    using Cons.IH [OF rest] that by blast
  have "tg' (step_ID s) u = find (\<lambda>t. nr_UID t = u) (step_Targets s)" for u
    using index_targets_find [OF m, of u] hd by (simp split: option.splits)
  moreover have "st' x = st x \<and> tg' x = tg x" if "x \<notin> step_ID ` set (s # ss)" for x
    using Cons.IH [OF rest] that by simp
  ultimately show ?case using hd(1) tl by (auto simp: nth_Cons' split: if_splits)
qed simp

lemma indexOperationPlan_ok: "(\<exists>r. indexOperationPlan op = Inr r) \<longleftrightarrow> plan_ok op"
  unfolding indexOperationPlan_def index_steps_ok by (simp add: plan_ok_def)

lemma indexOperationPlan_find:
  assumes "indexOperationPlan op = Inr (st, tg)"
  shows "st x = Some k \<longleftrightarrow> k < length (op_Steps op) \<and> step_ID (op_Steps op ! k) = x"
    and "k < length (op_Steps op) \<Longrightarrow> tg (step_ID (op_Steps op ! k)) u = find (\<lambda>t. nr_UID t = u) (step_Targets (op_Steps op ! k))"
proof -
  note F = index_steps_find [OF assms [unfolded indexOperationPlan_def]]
  show "st x = Some k \<longleftrightarrow> k < length (op_Steps op) \<and> step_ID (op_Steps op ! k) = x"
  proof (cases "x \<in> step_ID ` set (op_Steps op)")
    case True
    then obtain j where j: "j < length (op_Steps op)" "x = step_ID (op_Steps op ! j)"
      by (metis (no_types, lifting) imageE in_set_conv_nth)
    moreover have "distinct (map step_ID (op_Steps op))"
      using assms indexOperationPlan_ok [of op] by (auto simp: plan_ok_def)
    ultimately show ?thesis using F nth_eq_iff_index_eq by fastforce
  next
    case False
    then show ?thesis using F by auto
  qed
  show "k < length (op_Steps op) \<Longrightarrow> tg (step_ID (op_Steps op ! k)) u = find (\<lambda>t. nr_UID t = u) (step_Targets (op_Steps op ! k))"
    using F by blast
qed

lemma find_uid_Some:
  assumes "distinct (map nr_UID ts)"
  shows "find (\<lambda>t. nr_UID t = u) ts = Some n \<longleftrightarrow> n \<in> set ts \<and> nr_UID n = u"
  using assms by (induction ts) auto

lemma step_by_ID:
  assumes "plan_ok op" "k < length (op_Steps op)" "s \<in> set (op_Steps op)"
  shows "step_ID s = step_ID (op_Steps op ! k) \<longleftrightarrow> s = op_Steps op ! k"
  using assms by (meson distinct_map inj_onD nth_mem plan_ok_def)

lemma step_by_ID_ex:
  assumes "plan_ok op" "k < length (op_Steps op)" "step_ID (op_Steps op ! k) = sid"
  shows "(\<exists>s \<in> set (op_Steps op). step_ID s = sid \<and> P s) \<longleftrightarrow> P (op_Steps op ! k)"
proof
  assume "\<exists>s \<in> set (op_Steps op). step_ID s = sid \<and> P s"
  then obtain s where s: "s \<in> set (op_Steps op)" "step_ID s = sid" "P s" by blast
  then have "s = op_Steps op ! k" using step_by_ID [OF assms(1,2) s(1)] assms(3) by simp
  with s show "P (op_Steps op ! k)" by simp
qed (use assms nth_mem in blast)

lemma validate_tasks_loop_iff:
  assumes plan: "indexOperationPlan op = Inr (st, tg)"
  shows "validate_tasks_loop op st tg tasks acc = Inr byStep \<longleftrightarrow>
    (\<forall>t \<in> set tasks. task_ok op t) \<and>
    byStep = (\<lambda>x. acc x @ filter (\<lambda>t. task_StepID t = x) tasks)"
proof (induction tasks arbitrary: acc)
  case (Cons t tasks)
  have ok: "plan_ok op" using plan indexOperationPlan_ok by blast
  have acc: "(\<lambda>x. (acc(task_StepID t := acc (task_StepID t) @ [t])) x @ filter (\<lambda>t. task_StepID t = x) tasks) =
      (\<lambda>x. acc x @ filter (\<lambda>t. task_StepID t = x) (t # tasks))" by auto
  show ?case
  proof (cases "st (task_StepID t)")
    case None
    then have "\<not> (\<exists>s \<in> set (op_Steps op). step_ID s = task_StepID t)"
      using indexOperationPlan_find(1) [OF plan, of "task_StepID t"] by (metis in_set_conv_nth option.distinct(1))
    with None show ?thesis by (auto simp: task_ok_def)
  next
    case (Some k)
    then have k: "k < length (op_Steps op)" "step_ID (op_Steps op ! k) = task_StepID t"
      using indexOperationPlan_find(1) [OF plan] by auto
    have tg: "tg (task_StepID t) (task_NodeUID t) = Some n \<longleftrightarrow>
        n \<in> set (step_Targets (op_Steps op ! k)) \<and> nr_UID n = task_NodeUID t" for n
    proof -
      have "distinct (map nr_UID (step_Targets (op_Steps op ! k)))" using ok k(1) by (simp add: plan_ok_def)
      from find_uid_Some [OF this] show ?thesis
        unfolding k(2) [symmetric] indexOperationPlan_find(2) [OF plan k(1)] .
    qed
    have "task_ok op t \<longleftrightarrow>
      or_Name (tsp_OperationRef (task_Spec t)) = op_Name op \<and> or_UID (tsp_OperationRef (task_Spec t)) = op_UID op \<and>
      tsp_RetryGeneration (task_Spec t) \<le> os_RetryGeneration (op_Spec op) \<and>
      step_Executor (op_Steps op ! k) = tsp_Executor (task_Spec t) \<and>
      (\<exists>n. tg (task_StepID t) (task_NodeUID t) = Some n \<and> nr_Name n = nr_Name (tsp_NodeRef (task_Spec t)))"
      unfolding task_ok_def step_by_ID_ex [OF ok k] tg by blast
    with Some show ?thesis unfolding validate_tasks_loop.simps acc [symmetric]
      by (cases "tg (task_StepID t) (task_NodeUID t)") (auto simp: Cons.IH)
  qed
qed auto

lemma nodeSucceeded_byNode:
  "nodeSucceeded (sf_ByNode (stepFactsOf s (\<lambda>x. filter (\<lambda>t. task_StepID t = x) tasks)) (nr_UID n)) \<longleftrightarrow> node_done tasks s n"
  by (auto simp: nodeSucceeded_def node_done_def stepFactsOf_def Let_def list_ex_iff)

text \<open>The facts the reducer reports for the step at position \<open>i\<close>.\<close>

definition factsAt :: "Operation \<Rightarrow> OperationTask list \<Rightarrow> nat \<Rightarrow> stepFacts" where
  "factsAt op tasks i = stepFactsOf (op_Steps op ! i) (\<lambda>x. filter (\<lambda>t. task_StepID t = x) tasks)"

lemma factsAt_simps:
  "sf_Step (factsAt op tasks i) = op_Steps op ! i"
  "sf_Tasks (factsAt op tasks i) = tasksOf tasks (op_Steps op ! i)"
  "sf_Incomplete (factsAt op tasks i) =
     filter (\<lambda>n. \<not> node_done tasks (op_Steps op ! i) n) (step_Targets (op_Steps op ! i))"
  "set (sf_ByNode (factsAt op tasks i) u) =
     {t \<in> set tasks. task_StepID t = step_ID (op_Steps op ! i) \<and> task_NodeUID t = u}"
  using nodeSucceeded_byNode
  by (auto simp: factsAt_def stepFactsOf_def Let_def tasksOf_def)

lemma Incomplete_Nil: "sf_Incomplete (factsAt op tasks i) = [] \<longleftrightarrow> step_done tasks (op_Steps op ! i)"
  by (auto simp: factsAt_simps step_done_def filter_empty_conv)

lemma later_steps_empty_None:
  "later_steps_empty ss byStep cur = None \<longleftrightarrow> (\<forall>s \<in> set ss. byStep (step_ID s) = [])"
  by (induction ss) auto

lemma validateLaterStepsEmpty_None:
  assumes "i < length (op_Steps op)"
  shows "validateLaterStepsEmpty op (\<lambda>x. filter (\<lambda>t. task_StepID t = x) tasks) i = None \<longleftrightarrow>
    (\<forall>j. i < j \<longrightarrow> j < length (op_Steps op) \<longrightarrow> tasksOf tasks (op_Steps op ! j) = [])"
proof -
  have "(\<forall>s \<in> set (drop (Suc i) (op_Steps op)). P s) \<longleftrightarrow>
      (\<forall>j. i < j \<longrightarrow> j < length (op_Steps op) \<longrightarrow> P (op_Steps op ! j))" for P
  proof -
    have "set (drop (Suc i) (op_Steps op)) = (\<lambda>j. op_Steps op ! j) ` {Suc i..<length (op_Steps op)}"
    proof -
      have "drop (Suc i) (op_Steps op) = map (nth (op_Steps op)) [Suc i..<length (op_Steps op)]"
        by (metis drop_map drop_upt map_nth add_0)
      then show ?thesis by simp
    qed
    then show ?thesis by auto
  qed
  then show ?thesis by (simp add: validateLaterStepsEmpty_def later_steps_empty_None tasksOf_def)
qed

lemma current_step_loop_unfold:
  assumes "i < length (op_Steps op)" "byStep = (\<lambda>x. filter (\<lambda>t. task_StepID t = x) tasks)"
  shows "current_step_loop op byStep i (drop i (op_Steps op)) =
    (if step_done tasks (op_Steps op ! i) then current_step_loop op byStep (Suc i) (drop (Suc i) (op_Steps op))
     else case validateLaterStepsEmpty op byStep i of
            Some err \<Rightarrow> Inl err | None \<Rightarrow> Inr (Current (factsAt op tasks i)))"
proof -
  have "stepFactsOf (op_Steps op ! i) byStep = factsAt op tasks i" by (simp add: factsAt_def assms(2))
  then show ?thesis
    unfolding Cons_nth_drop_Suc [OF assms(1), symmetric] current_step_loop.simps Let_def
    by (simp add: Incomplete_Nil split: option.split)
qed

lemma current_step_loop_skip:
  assumes "byStep = (\<lambda>x. filter (\<lambda>t. task_StepID t = x) tasks)"
  shows "k \<le> length (op_Steps op) \<Longrightarrow> (\<forall>j < k. step_done tasks (op_Steps op ! j)) \<Longrightarrow>
    currentStepFacts op byStep = current_step_loop op byStep k (drop k (op_Steps op))"
proof (induction k)
  case (Suc k)
  then show ?case using current_step_loop_unfold [OF _ assms, of k op] by simp
qed (simp add: currentStepFacts_def)

text \<open>The position of the first step that is not done, or the number of steps.\<close>

definition first_open :: "Operation \<Rightarrow> OperationTask list \<Rightarrow> nat" where
  "first_open op tasks = length (takeWhile (step_done tasks) (op_Steps op))"

lemma first_open_facts:
  "first_open op tasks \<le> length (op_Steps op)"
  "j < first_open op tasks \<Longrightarrow> step_done tasks (op_Steps op ! j)"
  "first_open op tasks < length (op_Steps op) \<Longrightarrow> \<not> step_done tasks (op_Steps op ! first_open op tasks)"
  "first_open op tasks = length (op_Steps op) \<longleftrightarrow> (\<forall>s \<in> set (op_Steps op). step_done tasks s)"
proof -
  show le: "first_open op tasks \<le> length (op_Steps op)" by (simp add: first_open_def length_takeWhile_le)
  show "j < first_open op tasks \<Longrightarrow> step_done tasks (op_Steps op ! j)"
    unfolding first_open_def by (metis nth_mem set_takeWhileD takeWhile_nth)
  show "first_open op tasks < length (op_Steps op) \<Longrightarrow> \<not> step_done tasks (op_Steps op ! first_open op tasks)"
    unfolding first_open_def by (rule nth_length_takeWhile)
  show "first_open op tasks = length (op_Steps op) \<longleftrightarrow> (\<forall>s \<in> set (op_Steps op). step_done tasks s)"
    unfolding first_open_def takeWhile_eq_all_conv [symmetric]
    by (metis length_append append_self_conv length_0_conv add_cancel_left_right takeWhile_dropWhile_id)
qed

lemma validateAndCurrentStep_eq:
  assumes "plan_ok op" "\<forall>t \<in> set tasks. task_ok op t"
  shows "validateAndCurrentStep op tasks =
    (let k = first_open op tasks in
     if k = length (op_Steps op) then Inr Complete
     else case validateLaterStepsEmpty op (\<lambda>x. filter (\<lambda>t. task_StepID t = x) tasks) k of
            Some err \<Rightarrow> Inl err | None \<Rightarrow> Inr (Current (factsAt op tasks k)))"
proof -
  let ?bs = "\<lambda>x. filter (\<lambda>t. task_StepID t = x) tasks" and ?k = "first_open op tasks"
  obtain st tg where plan: "indexOperationPlan op = Inr (st, tg)"
    using assms(1) indexOperationPlan_ok by fastforce
  have "validateAndCurrentStep op tasks = currentStepFacts op ?bs"
    using validate_tasks_loop_iff [OF plan, of tasks "\<lambda>_. []" ?bs] assms(2) plan
    by (simp add: validateAndCurrentStep_def indexAndValidateTasks_def)
  also have "\<dots> = current_step_loop op ?bs ?k (drop ?k (op_Steps op))"
    by (rule current_step_loop_skip) (use first_open_facts(1,2) in auto)
  finally show ?thesis
    using first_open_facts [where op = op and tasks = tasks] current_step_loop_unfold [OF _ refl, of ?k op tasks]
    by (auto simp: Let_def)
qed

lemma validateAndCurrentStep_rejects:
  assumes "\<not> (plan_ok op \<and> (\<forall>t \<in> set tasks. task_ok op t))"
  shows "\<exists>err. validateAndCurrentStep op tasks = Inl err"
proof (cases "indexOperationPlan op")
  case (Inr r)
  obtain st tg where r: "r = (st, tg)" by force
  have "\<nexists>b. validate_tasks_loop op st tg tasks (\<lambda>_. []) = Inr b"
    using assms validate_tasks_loop_iff [of op st tg tasks "\<lambda>_. []"] Inr r indexOperationPlan_ok by blast
  then show ?thesis using Inr r
    by (auto simp: validateAndCurrentStep_def indexAndValidateTasks_def split: sum.splits)
qed (simp add: validateAndCurrentStep_def)

lemma validateAndCurrentStep_Complete:
  "validateAndCurrentStep op tasks = Inr Complete \<longleftrightarrow>
     plan_ok op \<and> (\<forall>t \<in> set tasks. task_ok op t) \<and> (\<forall>s \<in> set (op_Steps op). step_done tasks s)"
proof (cases "plan_ok op \<and> (\<forall>t \<in> set tasks. task_ok op t)")
  case True
  then show ?thesis
    using first_open_facts(4) [of op tasks] validateAndCurrentStep_eq [of op tasks]
    by (auto simp: Let_def split: option.splits)
next
  case False
  then show ?thesis using validateAndCurrentStep_rejects [of op tasks] by auto
qed

lemma validateAndCurrentStep_Current:
  "validateAndCurrentStep op tasks = Inr (Current facts) \<longleftrightarrow>
     plan_ok op \<and> (\<forall>t \<in> set tasks. task_ok op t) \<and>
     (\<exists>k < length (op_Steps op). facts = factsAt op tasks k \<and>
        (\<forall>j < k. step_done tasks (op_Steps op ! j)) \<and> \<not> step_done tasks (op_Steps op ! k) \<and>
        (\<forall>j. k < j \<longrightarrow> j < length (op_Steps op) \<longrightarrow> tasksOf tasks (op_Steps op ! j) = []))"
proof (cases "plan_ok op \<and> (\<forall>t \<in> set tasks. task_ok op t)")
  case True
  let ?k = "first_open op tasks"
  have k: "k = ?k \<longleftrightarrow> (\<forall>j < k. step_done tasks (op_Steps op ! j)) \<and> \<not> step_done tasks (op_Steps op ! k)"
    if "k < length (op_Steps op)" for k
    using that first_open_facts(1-3) [where op = op and tasks = tasks] by (metis not_less_iff_gr_or_eq leD)
  have "validateAndCurrentStep op tasks = Inr (Current facts) \<longleftrightarrow>
      ?k < length (op_Steps op) \<and> facts = factsAt op tasks ?k \<and>
      (\<forall>j. ?k < j \<longrightarrow> j < length (op_Steps op) \<longrightarrow> tasksOf tasks (op_Steps op ! j) = [])"
    using first_open_facts(1) [of op tasks] validateAndCurrentStep_eq [of op tasks] True
      validateLaterStepsEmpty_None [of ?k op tasks]
    by (auto simp: Let_def split: option.splits)
  then show ?thesis using True k by blast
next
  case False
  then show ?thesis using validateAndCurrentStep_rejects [of op tasks] by auto
qed

subsection \<open>Properties of the reducer\<close>

text \<open>
  C7.  Completion.  The reducer reports an operation as complete exactly if the plan and all tasks
  are consistent and every target node of every step has a succeeded task of that step.
\<close>

theorem reducer_complete_iff:
  "validateAndCurrentStep op tasks = Inr Complete \<longleftrightarrow>
     plan_ok op \<and> (\<forall>t \<in> set tasks. task_ok op t) \<and> (\<forall>s \<in> set (op_Steps op). step_done tasks s)"
  by (rule validateAndCurrentStep_Complete)

theorem reducer_complete_iff_witness:
  "validateAndCurrentStep sample_op [sample_task 0 TaskSucceeded] = Inr Complete"
proof -
  have "plan_ok sample_op" "task_ok sample_op (sample_task 0 TaskSucceeded)" "step_done [sample_task 0 TaskSucceeded] sample_step"
    by (simp_all add: plan_ok_def task_ok_def step_done_def node_done_def sample_defs)
  moreover have "op_Steps sample_op = [sample_step]" by (simp add: sample_op_def)
  ultimately show ?thesis by (simp add: reducer_complete_iff)
qed

text \<open>
  C8.  The current step.  The reducer reports a step to work on exactly if the plan and all tasks are
  consistent; the step is the first one with an unfinished target, no later step has a task yet,
  and the facts list exactly the unfinished targets of the step.
\<close>

theorem reducer_current_iff:
  "validateAndCurrentStep op tasks = Inr (Current facts) \<longleftrightarrow>
     plan_ok op \<and> (\<forall>t \<in> set tasks. task_ok op t) \<and>
     (\<exists>k < length (op_Steps op). facts = factsAt op tasks k \<and>
        (\<forall>j < k. step_done tasks (op_Steps op ! j)) \<and> \<not> step_done tasks (op_Steps op ! k) \<and>
        (\<forall>j. k < j \<longrightarrow> j < length (op_Steps op) \<longrightarrow> tasksOf tasks (op_Steps op ! j) = []))"
  by (rule validateAndCurrentStep_Current)

theorem reducer_current_iff_witness:
  "validateAndCurrentStep sample_op [sample_task 0 TaskFailed] = Inr (Current (factsAt sample_op [sample_task 0 TaskFailed] 0))"
proof -
  have "plan_ok sample_op" "task_ok sample_op (sample_task 0 TaskFailed)" "\<not> step_done [sample_task 0 TaskFailed] sample_step"
    by (simp_all add: plan_ok_def task_ok_def step_done_def node_done_def sample_defs task_phase_defs)
  moreover have "op_Steps sample_op = [sample_step]" by (simp add: sample_op_def)
  ultimately show ?thesis by (simp add: reducer_current_iff)
qed

subsection \<open>Attempts\<close>

definition attempts_in_range :: "OperationTask list \<Rightarrow> bool" where
  "attempts_in_range tasks \<longleftrightarrow> int (length tasks) < MaxInt32 \<and>
     (\<forall>t \<in> set tasks. 0 \<le> task_Attempt t \<and> task_Attempt t < MaxInt32)"

definition executed_in :: "OperationTask list \<Rightarrow> int \<Rightarrow> OperationTask list" where
  "executed_in tasks g = filter (\<lambda>t. tsp_RetryGeneration (task_Spec t) = g \<and> wasExecuted t) tasks"

lemma nextAttempt_fold:
  assumes "\<forall>t \<in> set tasks. 0 \<le> task_Attempt t \<and> task_Attempt t < MaxInt32" "0 \<le> n"
    and "foldl (\<lambda>(baseGeneration, next) task.
        (if tsp_RetryGeneration (task_Spec task) < baseGeneration then tsp_RetryGeneration (task_Spec task) else baseGeneration,
         if task_Attempt task \<ge> next then int32 (task_Attempt task + 1) else next)) (g, n) tasks = (g', n')"
  shows "n \<le> n' \<and> (\<forall>t \<in> set tasks. task_Attempt t < n') \<and> (n' = n \<or> (\<exists>t \<in> set tasks. n' = task_Attempt t + 1)) \<and>
    g' \<le> g \<and> (\<forall>t \<in> set tasks. g' \<le> tsp_RetryGeneration (task_Spec t)) \<and>
    (g' = g \<or> (\<exists>t \<in> set tasks. g' = tsp_RetryGeneration (task_Spec t)))"
  using assms
proof (induction tasks arbitrary: g n)
  case (Cons t tasks)
  define n1 where "n1 = (if task_Attempt t \<ge> n then int32 (task_Attempt t + 1) else n)"
  define g1 where "g1 = (if tsp_RetryGeneration (task_Spec t) < g then tsp_RetryGeneration (task_Spec t) else g)"
  have "int32 (task_Attempt t + 1) = task_Attempt t + 1"
    using Cons.prems(1) by (intro int32_id) auto
  then have n1: "n1 = (if task_Attempt t \<ge> n then task_Attempt t + 1 else n)" by (simp add: n1_def)
  have rest: "foldl (\<lambda>(baseGeneration, next) task.
        (if tsp_RetryGeneration (task_Spec task) < baseGeneration then tsp_RetryGeneration (task_Spec task) else baseGeneration,
         if task_Attempt task \<ge> next then int32 (task_Attempt task + 1) else next)) (g1, n1) tasks = (g', n')"
    using Cons.prems(3) by (simp add: n1_def g1_def)
  have "0 \<le> n1" using Cons.prems by (simp add: n1)
  then have "n1 \<le> n' \<and> (\<forall>t \<in> set tasks. task_Attempt t < n') \<and> (n' = n1 \<or> (\<exists>t \<in> set tasks. n' = task_Attempt t + 1)) \<and>
    g' \<le> g1 \<and> (\<forall>t \<in> set tasks. g' \<le> tsp_RetryGeneration (task_Spec t)) \<and>
    (g' = g1 \<or> (\<exists>t \<in> set tasks. g' = tsp_RetryGeneration (task_Spec t)))"
    using Cons.IH [of n1 g1] Cons.prems(1) rest by simp
  then show ?case by (auto simp: n1 g1_def split: if_splits)
qed auto

lemma taskGenerationAndNextAttempt_spec:
  assumes "attempts_in_range tasks" "tasks \<noteq> []" "taskGenerationAndNextAttempt tasks = (g, n)"
  shows "(\<forall>t \<in> set tasks. task_Attempt t < n) \<and> (\<exists>t \<in> set tasks. n = task_Attempt t + 1) \<and>
    (\<forall>t \<in> set tasks. g \<le> tsp_RetryGeneration (task_Spec t)) \<and> (\<exists>t \<in> set tasks. g = tsp_RetryGeneration (task_Spec t))"
  using nextAttempt_fold [of tasks 0 "tsp_RetryGeneration (task_Spec (hd tasks))" g n] assms hd_in_set [OF assms(2)]
  unfolding taskGenerationAndNextAttempt_def attempts_in_range_def by fastforce

lemma executedAttempts_spec:
  assumes "int (length tasks) < MaxInt32"
  shows "executedAttempts tasks g = int (length (executed_in tasks g))"
proof -
  have "foldl (\<lambda>executed task.
        if tsp_RetryGeneration (task_Spec task) \<noteq> g then executed
        else if wasExecuted task then int32 (executed + 1) else executed) n ts = n + int (length (executed_in ts g))"
    if "0 \<le> n" "n + int (length ts) < MaxInt32" for n ts
    using that
  proof (induction ts arbitrary: n)
    case (Cons t ts)
    have "int32 (n + 1) = n + 1" using Cons.prems by (intro int32_id) auto
    then show ?case using Cons by (simp add: executed_in_def)
  qed (simp add: executed_in_def)
  from this [of 0 tasks] show ?thesis using assms by (simp add: executedAttempts_def)
qed

text \<open>
  C9.  A new attempt.  When \<^verbatim>\<open>nextAttempt\<close> allows an attempt for a node in a retry generation, no task
  of the node is active or succeeded and the attempt number is larger than all earlier ones, by
  exactly one than the largest.  In the generation in which the node was first tried fewer than
  \<open>1 + RetryLimit\<close> attempts have been executed; in a later generation there is no attempt yet.
\<close>

theorem nextAttempt_sound:
  assumes "attempts_in_range tasks" "0 \<le> step_RetryLimit step" "step_RetryLimit step \<le> MaxRetryLimit"
    and "nextAttempt step tasks gen = (n, True)"
  shows "(\<forall>t \<in> set tasks. task_Phase t \<notin> {TaskPending, TaskRunning, TaskSucceeded}) \<and>
    (\<forall>t \<in> set tasks. task_Attempt t < n) \<and>
    n = Max (insert (- 1) (task_Attempt ` set tasks)) + 1 \<and>
    (tasks \<noteq> [] \<longrightarrow>
      (let base = Min ((\<lambda>t. tsp_RetryGeneration (task_Spec t)) ` set tasks) in
       base \<le> gen \<and>
       (if gen = base then length (executed_in tasks gen) < nat (1 + step_RetryLimit step)
        else \<forall>t \<in> set tasks. tsp_RetryGeneration (task_Spec t) \<noteq> gen)))"
proof (cases "tasks = []")
  case True
  then show ?thesis using assms(4) by (simp add: nextAttempt_def nodeSucceeded_def hasActiveTask_def)
next
  case False
  obtain g m where gm: "taskGenerationAndNextAttempt tasks = (g, m)" by force
  note S = taskGenerationAndNextAttempt_spec [OF assms(1) False gm]
  have idle: "\<forall>t \<in> set tasks. task_Phase t \<notin> {TaskPending, TaskRunning, TaskSucceeded}"
    using assms(4) by (auto simp: nextAttempt_def nodeSucceeded_def hasActiveTask_def list_ex_iff split: if_splits)
  have base: "Min ((\<lambda>t. tsp_RetryGeneration (task_Spec t)) ` set tasks) = g"
    using S by (intro Min_eqI) auto
  have lim: "int32 (1 + step_RetryLimit step) = 1 + step_RetryLimit step"
    using assms(2,3) by (intro int32_id) (auto simp: MaxRetryLimit_def MaxInt32_def)
  have ex: "executedAttempts tasks g = int (length (executed_in tasks g))"
    using assms(1) by (intro executedAttempts_spec) (simp add: attempts_in_range_def)
  have R: "n = m \<and> g \<le> gen \<and> (if gen = g then length (executed_in tasks gen) < nat (1 + step_RetryLimit step)
        else \<forall>t \<in> set tasks. tsp_RetryGeneration (task_Spec t) \<noteq> gen)"
    using assms(4) gm False lim ex
    by (auto simp: nextAttempt_def retryGenerationAttempt_def list_ex_iff split: if_splits)
  have "Max (insert (- 1) (task_Attempt ` set tasks)) = n - 1"
    using S R assms(1) by (intro Max_eqI) (auto simp: attempts_in_range_def)
  then show ?thesis using idle S R base False by (simp add: Let_def split: if_splits)
qed

theorem nextAttempt_sound_witness:
  "nextAttempt sample_step [sample_task 0 TaskFailed] 0 = (1, True) \<and>
   task_Attempt (sample_task 0 TaskFailed) < 1"
proof -
  have run: "nextAttempt sample_step [sample_task 0 TaskFailed] 0 = (1, True)" by code_simp
  moreover have "attempts_in_range [sample_task 0 TaskFailed]" by code_simp
  moreover have "0 \<le> step_RetryLimit sample_step" "step_RetryLimit sample_step \<le> MaxRetryLimit" by code_simp+
  ultimately show ?thesis using nextAttempt_sound [of "[sample_task 0 TaskFailed]" sample_step 0 1] by simp
qed

subsection \<open>The order of operations\<close>

lemma operationBefore_rev: "operationBefore = rev_before op_Created op_RV op_UID"
  by (rule ext, rule ext) (simp add: operationBefore_def rev_before_def)

lemma operationBefore_linear:
  assumes "\<And>x. x \<in> A \<Longrightarrow> ParseUint (op_RV x) \<noteq> None" "inj_on op_UID A"
  shows "strict_linear_on A operationBefore"
  unfolding operationBefore_rev by (rule rev_before_linear [OF assms])

text \<open>
  C10.  Scheduling.  Among the operations of a target of which some still need execution, and whose
  resource versions are numbers as the API server issues them, exactly one is selected by
  \<^verbatim>\<open>isEarliestRunnable\<close>.
\<close>

theorem earliest_runnable_unique:
  assumes "\<forall>x \<in> set ops. ParseUint (op_RV x) \<noteq> None" "inj_on op_UID (set ops)"
    and "\<exists>x \<in> set ops. operationNeedsExecution x"
  shows "\<exists>!x. x \<in> set ops \<and> operationNeedsExecution x \<and> isEarliestRunnable x ops"
proof -
  let ?R = "{x \<in> set ops. operationNeedsExecution x}"
  have lin: "strict_linear_on ?R operationBefore"
    using assms(1,2) by (intro operationBefore_linear) (auto intro: inj_on_subset)
  then obtain x where x: "x \<in> ?R" "\<forall>y \<in> ?R. y \<noteq> x \<longrightarrow> operationBefore x y"
    using strict_linear_least [OF lin] assms(3) by auto
  have asym: "\<not> operationBefore v u" if "u \<in> ?R" "v \<in> ?R" "operationBefore u v" for u v
    using lin that unfolding strict_linear_on_def by blast
  show ?thesis
  proof (rule ex1I [of _ x])
    have "op_UID y = op_UID x \<or> \<not> operationNeedsExecution y \<or> \<not> operationBefore y x" if "y \<in> set ops" for y
      using x asym [of x y] that by (cases "y = x") auto
    then show "x \<in> set ops \<and> operationNeedsExecution x \<and> isEarliestRunnable x ops"
      using x(1) by (simp add: isEarliestRunnable_def list_all_iff)
    fix y assume y: "y \<in> set ops \<and> operationNeedsExecution y \<and> isEarliestRunnable y ops"
    show "y = x"
    proof (rule ccontr)
      assume "y \<noteq> x"
      then have "operationBefore x y" "op_UID x \<noteq> op_UID y" using x y assms(2) by (auto dest: inj_onD)
      then show False using x(1) y by (auto simp: isEarliestRunnable_def list_all_iff)
    qed
  qed
qed

theorem earliest_runnable_unique_witness:
  "\<exists>!x. x \<in> set [sample_op] \<and> operationNeedsExecution x \<and> isEarliestRunnable x [sample_op]"
proof -
  have "ParseUint (op_RV sample_op) \<noteq> None" "operationNeedsExecution sample_op"
    by (simp_all add: sample_defs ParseUint_def is_digit_def digits_val_def digit_val_def operationNeedsExecution_def)
  then show ?thesis by (intro earliest_runnable_unique) auto
qed

end
