(* ===== verification/Op_Names.thy ===== *)
theory Op_Names
  imports Op_Types
begin

text \<open>
  Deterministic object names (\<^verbatim>\<open>pkg/controller/operationv2/names.go\<close>).  The name of a task is its
  idempotency key and the name of a lock makes the lock of a target unique.  The hexadecimal
  SHA-256 digest is the argument \<open>sha\<close> of the definitions.
\<close>

definition deterministicNameHashLength :: nat where "deterministicNameHashLength = 32"

definition NUL :: string where "NUL = [CHR 0x00]"

definition stableHash :: "(string \<Rightarrow> string) \<Rightarrow> string list \<Rightarrow> string" where
  "stableHash sha parts = take deterministicNameHashLength (sha (Join parts NUL))"

definition TaskName :: "(string \<Rightarrow> string) \<Rightarrow> string \<Rightarrow> int \<Rightarrow> string \<Rightarrow> string \<Rightarrow> int \<Rightarrow> string" where
  "TaskName sha operationUID retryGeneration stepID nodeUID attempt =
     ''task-'' @ stableHash sha [operationUID, show_int retryGeneration, stepID, nodeUID, show_int attempt]"

definition LockName :: "(string \<Rightarrow> string) \<Rightarrow> string \<Rightarrow> string \<Rightarrow> string" where
  "LockName sha kind targetUID =
     (let prefix = (if ToLower kind = [] then ''target'' else ToLower kind)
      in prefix @ ''-'' @ stableHash sha [kind, targetUID])"

subsection \<open>Properties\<close>

definition no_nul :: "string \<Rightarrow> bool" where
  "no_nul s \<longleftrightarrow> CHR 0x00 \<notin> set s"

lemma no_nul_show_int: "no_nul (show_int i)"
proof -
  have "CHR 0x00 \<noteq> CHR ''-''" "\<not> is_digit (CHR 0x00)" by (simp_all add: is_digit_def)
  then show ?thesis using show_int_digits [of "CHR 0x00" i] by (auto simp: no_nul_def)
qed

definition taskKey :: "string \<Rightarrow> int \<Rightarrow> string \<Rightarrow> string \<Rightarrow> int \<Rightarrow> string" where
  "taskKey u g s n a = Join [u, show_int g, s, n, show_int a] NUL"

lemma taskKey_inject:
  assumes "no_nul u1" "no_nul s1" "no_nul n1" "no_nul u2" "no_nul s2" "no_nul n2"
    and "taskKey u1 g1 s1 n1 a1 = taskKey u2 g2 s2 n2 a2"
  shows "u1 = u2 \<and> g1 = g2 \<and> s1 = s2 \<and> n1 = n2 \<and> a1 = a2"
proof -
  have "[u1, show_int g1, s1, n1, show_int a1] = [u2, show_int g2, s2, n2, show_int a2]"
    using assms(7) unfolding NUL_def taskKey_def
    by (rule Join_inject [rotated 2]) (use assms(1-6) no_nul_show_int in \<open>auto simp: no_nul_def\<close>)
  then show ?thesis by (simp add: show_int_inject)
qed

text \<open>
  Task names are idempotency keys: two attempts get the same name exactly if they agree in
  operation, retry generation, step, node and attempt number, provided the truncated digest does
  not collide on the two keys and the identifiers contain no NUL byte (the separator).
\<close>

theorem TaskName_injective:
  assumes collision_free: "\<And>x y. x = taskKey u1 g1 s1 n1 a1 \<Longrightarrow> y = taskKey u2 g2 s2 n2 a2 \<Longrightarrow>
      take deterministicNameHashLength (sha x) = take deterministicNameHashLength (sha y) \<Longrightarrow> x = y"
    and nul: "no_nul u1" "no_nul s1" "no_nul n1" "no_nul u2" "no_nul s2" "no_nul n2"
  shows "TaskName sha u1 g1 s1 n1 a1 = TaskName sha u2 g2 s2 n2 a2 \<longleftrightarrow>
    u1 = u2 \<and> g1 = g2 \<and> s1 = s2 \<and> n1 = n2 \<and> a1 = a2"
proof
  assume "TaskName sha u1 g1 s1 n1 a1 = TaskName sha u2 g2 s2 n2 a2"
  then have "take deterministicNameHashLength (sha (taskKey u1 g1 s1 n1 a1)) =
      take deterministicNameHashLength (sha (taskKey u2 g2 s2 n2 a2))"
    unfolding TaskName_def stableHash_def taskKey_def by (rule iffD1 [OF same_append_eq])
  with collision_free have "taskKey u1 g1 s1 n1 a1 = taskKey u2 g2 s2 n2 a2" by blast
  then show "u1 = u2 \<and> g1 = g2 \<and> s1 = s2 \<and> n1 = n2 \<and> a1 = a2"
    by (rule taskKey_inject [OF nul])
qed simp

theorem TaskName_injective_witness:
  "TaskName id ''u'' 0 ''s'' ''n'' 0 \<noteq> TaskName id ''u'' 0 ''s'' ''n'' 1"
  using TaskName_injective [of "''u''" 0 "''s''" "''n''" 0 "''u''" 0 "''s''" "''n''" 1 id]
  by (simp add: no_nul_def taskKey_def NUL_def deterministicNameHashLength_def show_int_def show_nat.simps)

end
