(* ===== verification/Storage_Api.thy ===== *)
theory Storage_Api
  imports Op_Types
begin

text \<open>
  The persistence interface the engine is written against: \<^verbatim>\<open>rest.StandardStorage\<close> of the Kubernetes
  API server library, and the REST strategies it calls back into.  The library is not part of
  the repository, so a storage is an argument of every definition that uses one: a record of
  functions over an arbitrary world \<^typ>\<open>'w\<close>.  What the engine relies on is stated by the locales at
  the end of this theory.
\<close>

subsection \<open>List options and field selectors\<close>

text \<open>
  A field selector is a conjunction of terms \<open>field = value\<close> (\<open>True\<close>) or \<open>field != value\<close> (\<open>False\<close>) over the
  attributes an object exposes; label selectors are carried as text.
\<close>

type_synonym fieldsel = "(string \<times> bool \<times> string) list"

record ListOptions =
  lo_LabelSelector :: string
  lo_FieldSelector :: string
  lo_Watch :: bool
  lo_AllowWatchBookmarks :: bool
  lo_ResourceVersion :: string
  lo_ResourceVersionMatch :: string
  lo_TimeoutSeconds :: "int option"
  lo_Limit :: int
  lo_Continue :: string

definition empty_ListOptions :: ListOptions where
  "empty_ListOptions = \<lparr>lo_LabelSelector = [], lo_FieldSelector = [], lo_Watch = False,
     lo_AllowWatchBookmarks = False, lo_ResourceVersion = [], lo_ResourceVersionMatch = [],
     lo_TimeoutSeconds = None, lo_Limit = 0, lo_Continue = []\<rparr>"

record InternalListOptions =
  io_LabelSelector :: string
  io_FieldSelector :: fieldsel
  io_Watch :: bool
  io_AllowWatchBookmarks :: bool
  io_ResourceVersion :: string
  io_ResourceVersionMatch :: string
  io_TimeoutSeconds :: "int option"
  io_Limit :: int
  io_Continue :: string

definition matchesFields :: "fieldsel \<Rightarrow> (string \<times> string) list \<Rightarrow> bool" where
  "matchesFields sel attrs =
     list_all (\<lambda>(f, eq, v). ((case map_of attrs f of Some x \<Rightarrow> x | None \<Rightarrow> []) = v) = eq) sel"

text \<open>The parsers and the validator of \<^verbatim>\<open>k8s.io/apimachinery\<close> that build list options.\<close>

record apimachinery =
  am_oneTermEqual :: "string \<Rightarrow> string \<Rightarrow> string"
  am_parseLabels :: "string \<Rightarrow> string + string"
  am_parseFields :: "string \<Rightarrow> string + fieldsel"
  am_validateListOptions :: "InternalListOptions \<Rightarrow> string option"

subsection \<open>Storage\<close>

record 'a object_list =
  ol_Items :: "'a list"
  ol_ResourceVersion :: string
  ol_Continue :: string
  ol_RemainingItemCount :: "int option"

record ('a, 'w) StandardStorage =
  st_Get :: "string \<Rightarrow> string \<Rightarrow> 'w \<Rightarrow> goerr + 'a"
  st_List :: "InternalListOptions \<Rightarrow> 'w \<Rightarrow> goerr + 'a object_list"
  st_Create :: "'a \<Rightarrow> 'w \<Rightarrow> (goerr + 'a) \<times> 'w"
  st_Update :: "string \<Rightarrow> 'a \<Rightarrow> 'w \<Rightarrow> (goerr + 'a) \<times> 'w"
  st_Delete :: "string \<Rightarrow> string option \<Rightarrow> 'w \<Rightarrow> (goerr + unit) \<times> 'w"

subsection \<open>Strategies\<close>

record 'a strategy =
  sg_meta :: "'a \<Rightarrow> ObjectMeta"
  sg_set_meta :: "(ObjectMeta \<Rightarrow> ObjectMeta) \<Rightarrow> 'a \<Rightarrow> 'a"
  sg_PrepareForCreate :: "'a \<Rightarrow> 'a"
  sg_Validate :: "'a \<Rightarrow> field_error list"
  sg_PrepareForUpdate :: "'a \<Rightarrow> 'a \<Rightarrow> 'a"
  sg_ValidateUpdate :: "'a \<Rightarrow> 'a \<Rightarrow> field_error list"
  sg_attrs :: "'a \<Rightarrow> (string \<times> string) list"

abbreviation sg_name :: "'a strategy \<Rightarrow> 'a \<Rightarrow> string" where "sg_name sg x \<equiv> m_Name (sg_meta sg x)"
abbreviation sg_uid :: "'a strategy \<Rightarrow> 'a \<Rightarrow> string" where "sg_uid sg x \<equiv> m_UID (sg_meta sg x)"
abbreviation sg_rv :: "'a strategy \<Rightarrow> 'a \<Rightarrow> string" where "sg_rv sg x \<equiv> m_ResourceVersion (sg_meta sg x)"

text \<open>
  The object a create stores: the prepared object with the system fields filled in.  The object
  an update stores: the prepared object with a new resource version.
\<close>

definition stored_create :: "'a strategy \<Rightarrow> string \<Rightarrow> gotime \<Rightarrow> string \<Rightarrow> 'a \<Rightarrow> 'a" where
  "stored_create sg u t r x =
     sg_set_meta sg (\<lambda>m. m\<lparr>m_UID := u, m_CreationTimestamp := t, m_ResourceVersion := r\<rparr>)
       (sg_PrepareForCreate sg x)"

definition stored_update :: "'a strategy \<Rightarrow> string \<Rightarrow> 'a \<Rightarrow> 'a \<Rightarrow> 'a" where
  "stored_update sg r x old =
     sg_set_meta sg (\<lambda>m. m\<lparr>m_ResourceVersion := r\<rparr>) (sg_PrepareForUpdate sg x old)"

subsection \<open>Histories\<close>

text \<open>
  One committed change of a collection of objects.  The state is the collection by name and the
  set of UIDs ever issued: a create validates the prepared object and takes a fresh UID, an
  update keeps name and UID and passes the strategy's update validation against the stored
  object, a delete removes one object.
\<close>

inductive obj_step :: "'a strategy \<Rightarrow> (string \<rightharpoonup> 'a) \<times> string set \<Rightarrow> (string \<rightharpoonup> 'a) \<times> string set \<Rightarrow> bool"
  for sg :: "'a strategy" where
  obj_create: "v n = None \<Longrightarrow> n = sg_name sg x \<Longrightarrow> sg_Validate sg (sg_PrepareForCreate sg x) = [] \<Longrightarrow>
     u \<notin> U \<Longrightarrow> u \<noteq> [] \<Longrightarrow>
     obj_step sg (v, U) (v(n \<mapsto> stored_create sg u t r x), insert u U)"
| obj_update: "v n = Some old \<Longrightarrow> sg_name sg x = sg_name sg old \<Longrightarrow> sg_uid sg x = sg_uid sg old \<Longrightarrow>
     sg_ValidateUpdate sg (sg_PrepareForUpdate sg x old) old = [] \<Longrightarrow>
     obj_step sg (v, U) (v(n \<mapsto> stored_update sg r x old), U)"
| obj_delete: "v n = Some old \<Longrightarrow> obj_step sg (v, U) (v(n := None), U)"

inductive_cases obj_stepE: "obj_step sg (v, U) (v', U')"

abbreviation obj_history ::
    "'a strategy \<Rightarrow> (string \<rightharpoonup> 'a) \<times> string set \<Rightarrow> (string \<rightharpoonup> 'a) \<times> string set \<Rightarrow> bool" where
  "obj_history sg \<equiv> (obj_step sg)\<^sup>*\<^sup>*"

subsection \<open>The storage contract\<close>

text \<open>
  What \<^verbatim>\<open>rest.StandardStorage\<close> promises for one collection.  \<open>view\<close> is the committed content of the
  collection in a world.  Between entry and exit of a call other clients may commit changes of
  their own, so a call's effect is a history that contains at most one change by the caller;
  a read with the empty resource version is a quorum read of the current content.  Every call
  may also fail for reasons of its own.
\<close>

locale rest_storage =
  fixes sg :: "'a strategy"
    and S :: "('a, 'w) StandardStorage"
    and view :: "'w \<Rightarrow> (string \<rightharpoonup> 'a) \<times> string set"
  assumes get_found: "st_Get S n [] w = Inr x \<Longrightarrow> fst (view w) n = Some x"
    and get_missing: "st_Get S n [] w = Inl e \<Longrightarrow> IsNotFound e \<Longrightarrow> fst (view w) n = None"
    and list_content: "st_List S opts w = Inr l \<Longrightarrow> io_LabelSelector opts = [] \<Longrightarrow>
          io_ResourceVersion opts = [] \<Longrightarrow> io_Limit opts = 0 \<Longrightarrow> io_Continue opts = [] \<Longrightarrow>
          distinct (map (sg_name sg) (ol_Items l)) \<and>
          set (ol_Items l) = {x \<in> ran (fst (view w)). matchesFields (io_FieldSelector opts) (sg_attrs sg x)}"
    and create_history: "st_Create S x w = (r, w') \<Longrightarrow> obj_history sg (view w) (view w')"
    and update_history: "st_Update S n x w = (r, w') \<Longrightarrow> obj_history sg (view w) (view w')"
    and delete_history: "st_Delete S n pre w = (d, w') \<Longrightarrow> obj_history sg (view w) (view w')"

text \<open>
  The same collection while nobody else writes to it: each call has exactly its own effect.
  Creation is the atomic decision on a free name; an update with a resource version is a
  compare-and-swap and is refused when the strategy rejects the new object.
\<close>

locale quiet_storage = rest_storage sg S view
  for sg :: "'a strategy" and S :: "('a, 'w) StandardStorage"
    and view :: "'w \<Rightarrow> (string \<rightharpoonup> 'a) \<times> string set" +
  assumes create_effect: "st_Create S x w = (r, w') \<Longrightarrow>
      (case r of
         Inr y \<Rightarrow> \<exists>u t rv. u \<noteq> [] \<and> u \<notin> snd (view w) \<and> y = stored_create sg u t rv x \<and>
           fst (view w) (sg_name sg x) = None \<and> sg_Validate sg (sg_PrepareForCreate sg x) = [] \<and>
           view w' = ((fst (view w))(sg_name sg x \<mapsto> y), insert u (snd (view w)))
       | Inl e \<Rightarrow> view w' = view w \<and> (IsAlreadyExists e \<longrightarrow> fst (view w) (sg_name sg x) \<noteq> None))"
    and update_effect: "st_Update S n x w = (r, w') \<Longrightarrow>
      (case r of
         Inr y \<Rightarrow> \<exists>old rv. fst (view w) n = Some old \<and>
             (sg_rv sg x = [] \<or> sg_rv sg x = sg_rv sg old) \<and>
             sg_ValidateUpdate sg (sg_PrepareForUpdate sg x old) old = [] \<and>
             y = stored_update sg rv x old \<and> view w' = ((fst (view w))(n \<mapsto> y), snd (view w))
       | Inl e \<Rightarrow> view w' = view w)"
    and delete_effect: "st_Delete S n pre w = (d, w') \<Longrightarrow>
      (case d of
         Inr _ \<Rightarrow> \<exists>old. fst (view w) n = Some old \<and> (case pre of Some u \<Rightarrow> sg_uid sg old = u | None \<Rightarrow> True) \<and>
           view w' = ((fst (view w))(n := None), snd (view w))
       | Inl e \<Rightarrow> view w' = view w \<and> (IsNotFound e \<longrightarrow> fst (view w) n = None))"

text \<open>A collection whose content the writes to another collection leave alone.\<close>

definition writes_keep :: "('a, 'w) StandardStorage \<Rightarrow> ('w \<Rightarrow> 'v) \<Rightarrow> bool" where
  "writes_keep S v \<longleftrightarrow>
     (\<forall>x w r w'. st_Create S x w = (r, w') \<longrightarrow> v w' = v w) \<and>
     (\<forall>n x w r w'. st_Update S n x w = (r, w') \<longrightarrow> v w' = v w) \<and>
     (\<forall>n u w r w'. st_Delete S n u w = (r, w') \<longrightarrow> v w' = v w)"

lemma writes_keepD:
  assumes "writes_keep S v"
  shows "st_Create S x w = (r, w') \<Longrightarrow> v w' = v w" "st_Update S n x w = (r, w') \<Longrightarrow> v w' = v w"
    "st_Delete S n u w = (d, w') \<Longrightarrow> v w' = v w"
  using assms unfolding writes_keep_def by blast+

text \<open>Every UID in the collection has been issued: kept by every history.\<close>

definition uids_issued :: "'a strategy \<Rightarrow> (string \<rightharpoonup> 'a) \<times> string set \<Rightarrow> bool" where
  "uids_issued sg s \<longleftrightarrow> (\<forall>x \<in> ran (fst s). sg_uid sg x \<in> snd s)"

definition strategy_ok :: "'a strategy \<Rightarrow> bool" where
  "strategy_ok sg \<longleftrightarrow>
     (\<forall>f x. sg_meta sg (sg_set_meta sg f x) = f (sg_meta sg x)) \<and>
     (\<forall>x. sg_meta sg (sg_PrepareForCreate sg x) = sg_meta sg x) \<and>
     (\<forall>x old. sg_meta sg (sg_PrepareForUpdate sg x old) = sg_meta sg x)"

lemma stored_meta:
  assumes "strategy_ok sg"
  shows "sg_meta sg (stored_create sg u t r x) =
           (sg_meta sg x)\<lparr>m_UID := u, m_CreationTimestamp := t, m_ResourceVersion := r\<rparr>"
    and "sg_meta sg (stored_update sg r x old) = (sg_meta sg x)\<lparr>m_ResourceVersion := r\<rparr>"
  using assms by (simp_all add: strategy_ok_def stored_create_def stored_update_def)

lemma uids_issued_step:
  assumes "strategy_ok sg" "obj_step sg s s'" "uids_issued sg s"
  shows "uids_issued sg s'"
  using assms(2,3)
proof cases
  case (obj_create v n x u U t r)
  then show ?thesis using assms
    by (auto simp: uids_issued_def ran_def stored_meta [OF assms(1)] split: if_splits)
next
  case (obj_update v n old x U r)
  then have "sg_uid sg old \<in> U" using assms(3) by (auto simp: uids_issued_def ran_def)
  with obj_update assms show ?thesis
    by (auto simp: uids_issued_def ran_def stored_meta [OF assms(1)] split: if_splits)
next
  case (obj_delete v n old U)
  then show ?thesis using assms by (auto simp: uids_issued_def ran_def split: if_splits)
qed

text \<open>
  A relation between the old and the new version of one object that holds across every accepted
  update holds, after any history, between two versions with the same name and UID: the UID
  rules out that the object was deleted and another one created in between.
\<close>

lemma history_relates:
  assumes ok: "strategy_ok sg"
    and refl: "\<And>x. R x x" and trans: "\<And>x y z. R x y \<Longrightarrow> R y z \<Longrightarrow> R x z"
    and upd: "\<And>x old r. sg_name sg x = sg_name sg old \<Longrightarrow> sg_uid sg x = sg_uid sg old \<Longrightarrow>
        sg_ValidateUpdate sg (sg_PrepareForUpdate sg x old) old = [] \<Longrightarrow> R old (stored_update sg r x old)"
    and hist: "obj_history sg s s'" and "uids_issued sg s"
    and "fst s n = Some x"
  shows "uids_issued sg s' \<and> snd s \<subseteq> snd s' \<and>
    (\<forall>y. fst s' n = Some y \<longrightarrow> sg_uid sg y = sg_uid sg x \<longrightarrow> R x y)"
  using hist
proof (induction rule: rtranclp_induct)
  case base
  then show ?case using assms by auto
next
  case (step s1 s2)
  have "uids_issued sg s2" using uids_issued_step [OF ok step.hyps(2)] step.IH by blast
  moreover have x: "sg_uid sg x \<in> snd s1"
    using assms(6,7) step.IH by (auto simp: uids_issued_def ran_def)
  from step.hyps(2) have "snd s1 \<subseteq> snd s2 \<and>
      (\<forall>y. fst s2 n = Some y \<longrightarrow> sg_uid sg y = sg_uid sg x \<longrightarrow> R x y)"
  proof cases
    case (obj_create v m z u U t r)
    then show ?thesis using x step.IH by (auto simp: stored_meta [OF ok])
  next
    case (obj_update v m old z U r)
    then show ?thesis
      using step.IH upd [of z old r] trans by (auto simp: stored_meta [OF ok])
  next
    case (obj_delete v m old U)
    then show ?thesis using step.IH by auto
  qed
  ultimately show ?case using step.IH by blast
qed

end
