(* ===== verification/Op_Strategy.thy ===== *)
theory Op_Strategy
  imports Op_Validation Storage_Api
begin

text \<open>
  The REST strategies of the three resources (\<^verbatim>\<open>pkg/server/registry/operationv2/strategy.go\<close>): what
  the API server does to an object before it stores it and which updates it refuses.  They are
  the last line of defence of the engine, since every writer goes through them; the history
  properties at the end hold for any interleaving of any clients.
\<close>

definition metav1TypeMeta :: "string \<Rightarrow> TypeMeta" where
  "metav1TypeMeta kind = \<lparr>tm_APIVersion = SchemeGroupVersion, tm_Kind = kind\<rparr>"

subsection \<open>Operations\<close>

definition operation_PrepareForCreate :: "Operation \<Rightarrow> Operation" where
  "operation_PrepareForCreate op =
     (let op1 = op\<lparr>op_Status := empty_OperationStatus\<lparr>ost_Phase := OperationPending\<rparr>\<rparr>;
          op2 = (if os_Timeout (op_Spec op1) = 0
                 then op1\<lparr>op_Spec := (op_Spec op1)\<lparr>os_Timeout := DefaultOperationTimeout\<rparr>\<rparr> else op1);
          op3 = (if os_DesiredState (op_Spec op2) = []
                 then op2\<lparr>op_Spec := (op_Spec op2)\<lparr>os_DesiredState := OperationDesiredStateActive\<rparr>\<rparr> else op2)
      in op3\<lparr>op_Type := metav1TypeMeta KindOperation\<rparr>)"

definition operation_PrepareForUpdate :: "Operation \<Rightarrow> Operation \<Rightarrow> Operation" where
  "operation_PrepareForUpdate op oldOp =
     op\<lparr>op_Spec := (op_Spec op)\<lparr>os_TargetRef := os_TargetRef (op_Spec oldOp),
          os_Action := os_Action (op_Spec oldOp), os_Timeout := os_Timeout (op_Spec oldOp),
          os_Steps := os_Steps (op_Spec oldOp)\<rparr>,
        op_Type := op_Type oldOp\<rparr>"

definition isRetryReopen :: "Operation \<Rightarrow> Operation \<Rightarrow> bool" where
  "isRetryReopen op oldOp \<longleftrightarrow>
     op_Phase oldOp \<noteq> OperationSucceeded \<and> OperationPhase_IsTerminal (op_Phase oldOp) \<and>
     op_Phase op = OperationPending \<and>
     os_DesiredState (op_Spec op) = OperationDesiredStateActive \<and>
     os_RetryGeneration (op_Spec op) > ost_ObservedRetryGeneration (op_Status oldOp) \<and>
     ost_ObservedRetryGeneration (op_Status op) = os_RetryGeneration (op_Spec op)"

definition operation_ValidateUpdate :: "Operation \<Rightarrow> Operation \<Rightarrow> field_error list" where
  "operation_ValidateUpdate op oldOp =
     (if os_TargetRef (op_Spec op) \<noteq> os_TargetRef (op_Spec oldOp) \<or>
         os_Action (op_Spec op) \<noteq> os_Action (op_Spec oldOp) \<or>
         os_Timeout (op_Spec op) \<noteq> os_Timeout (op_Spec oldOp) \<or>
         os_Steps (op_Spec op) \<noteq> os_Steps (op_Spec oldOp)
      then [FForbidden [Child ''spec''] ''operation plan is immutable''] else []) @
     (case ValidateOperationPhaseTransition (op_Phase oldOp) (op_Phase op) of
        Some err \<Rightarrow> (if \<not> isRetryReopen op oldOp
                      then [FInvalid [Child ''status'', Child ''phase''] (Error_text err)] else [])
      | None \<Rightarrow> [])"

definition attrsForOperation :: "Operation \<Rightarrow> (string \<times> string) list" where
  "attrsForOperation op =
     [(''metadata.name'', op_Name op), (''spec.targetRef.uid'', or_UID (os_TargetRef (op_Spec op)))]"

definition operationStrategy :: "(Operation \<Rightarrow> nat option) \<Rightarrow> Operation strategy" where
  "operationStrategy sizeOf = \<lparr>sg_meta = op_Meta, sg_set_meta = op_Meta_update,
     sg_PrepareForCreate = operation_PrepareForCreate,
     sg_Validate = (\<lambda>op. ValidateOperation sizeOf (Some op)),
     sg_PrepareForUpdate = operation_PrepareForUpdate,
     sg_ValidateUpdate = operation_ValidateUpdate, sg_attrs = attrsForOperation\<rparr>"

subsection \<open>Tasks\<close>

definition task_PrepareForCreate :: "OperationTask \<Rightarrow> OperationTask" where
  "task_PrepareForCreate task =
     task\<lparr>task_Status := empty_OperationTaskStatus\<lparr>tst_Phase := TaskPending\<rparr>,
          task_Type := metav1TypeMeta KindOperationTask\<rparr>"

definition task_PrepareForUpdate :: "OperationTask \<Rightarrow> OperationTask \<Rightarrow> OperationTask" where
  "task_PrepareForUpdate task oldTask = task\<lparr>task_Spec := task_Spec oldTask, task_Type := task_Type oldTask\<rparr>"

definition task_ValidateUpdate :: "OperationTask \<Rightarrow> OperationTask \<Rightarrow> field_error list" where
  "task_ValidateUpdate task oldTask =
     (if task_Spec task \<noteq> task_Spec oldTask
      then [FForbidden [Child ''spec''] ''task spec is immutable''] else []) @
     (case ValidateTaskPhaseTransition (task_Phase oldTask) (task_Phase task) of
        Some err \<Rightarrow> [FInvalid [Child ''status'', Child ''phase''] (Error_text err)] | None \<Rightarrow> []) @
     (case ValidateTaskResult (tst_Result (task_Status task)) of
        Some err \<Rightarrow> [FInvalid [Child ''status'', Child ''result''] (Error_text err)] | None \<Rightarrow> [])"

definition attrsForTask :: "OperationTask \<Rightarrow> (string \<times> string) list" where
  "attrsForTask task =
     [(''metadata.name'', task_Name task),
      (''spec.nodeRef.name'', nr_Name (tsp_NodeRef (task_Spec task))),
      (''spec.operationRef.uid'', or_UID (tsp_OperationRef (task_Spec task)))]"

definition taskStrategy :: "(OperationTask \<Rightarrow> nat option) \<Rightarrow> OperationTask strategy" where
  "taskStrategy sizeOf = \<lparr>sg_meta = task_Meta, sg_set_meta = task_Meta_update,
     sg_PrepareForCreate = task_PrepareForCreate,
     sg_Validate = (\<lambda>task. ValidateTask sizeOf (Some task)),
     sg_PrepareForUpdate = task_PrepareForUpdate,
     sg_ValidateUpdate = task_ValidateUpdate, sg_attrs = attrsForTask\<rparr>"

subsection \<open>Locks\<close>

definition lock_PrepareForCreate :: "ExecutionLock \<Rightarrow> ExecutionLock" where
  "lock_PrepareForCreate lock = lock\<lparr>lock_Type := metav1TypeMeta KindExecutionLock\<rparr>"

definition lock_PrepareForUpdate :: "ExecutionLock \<Rightarrow> ExecutionLock \<Rightarrow> ExecutionLock" where
  "lock_PrepareForUpdate lock oldLock = lock\<lparr>lock_Spec := lock_Spec oldLock, lock_Type := lock_Type oldLock\<rparr>"

definition validateLockReference :: "ObjectReference \<Rightarrow> path \<Rightarrow> field_error list" where
  "validateLockReference ref path =
     (if or_Kind ref = [] then [FRequired (path @ [Child ''kind'']) ''kind is required''] else []) @
     (if or_Name ref = [] then [FRequired (path @ [Child ''name'']) ''name is required''] else []) @
     (if or_UID ref = [] then [FRequired (path @ [Child ''uid'']) ''uid is required''] else [])"

definition lock_Validate :: "ExecutionLock \<Rightarrow> field_error list" where
  "lock_Validate lock =
     (if lock_Name lock = [] then [FRequired [Child ''metadata'', Child ''name''] ''lock name is required''] else []) @
     validateLockReference (lock_Target lock) [Child ''spec'', Child ''targetRef''] @
     validateLockReference (lock_Holder lock) [Child ''spec'', Child ''holderRef''] @
     (if or_Kind (lock_Holder lock) \<noteq> KindOperation
      then [FInvalid [Child ''spec'', Child ''holderRef'', Child ''kind''] ''holder must be an Operation''] else [])"

definition lock_ValidateUpdate :: "ExecutionLock \<Rightarrow> ExecutionLock \<Rightarrow> field_error list" where
  "lock_ValidateUpdate lock oldLock =
     (if lock_Spec lock \<noteq> lock_Spec oldLock
      then [FForbidden [Child ''spec''] ''execution lock is immutable''] else [])"

definition attrsForLock :: "ExecutionLock \<Rightarrow> (string \<times> string) list" where
  "attrsForLock lock =
     [(''metadata.name'', lock_Name lock), (''spec.targetRef.uid'', or_UID (lock_Target lock))]"

definition lockStrategy :: "ExecutionLock strategy" where
  "lockStrategy = \<lparr>sg_meta = lock_Meta, sg_set_meta = lock_Meta_update,
     sg_PrepareForCreate = lock_PrepareForCreate, sg_Validate = lock_Validate,
     sg_PrepareForUpdate = lock_PrepareForUpdate,
     sg_ValidateUpdate = lock_ValidateUpdate, sg_attrs = attrsForLock\<rparr>"

lemma operationStrategy_simps [simp]:
  "sg_meta (operationStrategy f) = op_Meta" "sg_set_meta (operationStrategy f) = op_Meta_update"
  "sg_PrepareForCreate (operationStrategy f) = operation_PrepareForCreate"
  "sg_Validate (operationStrategy f) op = ValidateOperation f (Some op)"
  "sg_PrepareForUpdate (operationStrategy f) = operation_PrepareForUpdate"
  "sg_ValidateUpdate (operationStrategy f) = operation_ValidateUpdate"
  "sg_attrs (operationStrategy f) = attrsForOperation"
  by (simp_all add: operationStrategy_def)

lemma taskStrategy_simps [simp]:
  "sg_meta (taskStrategy g) = task_Meta" "sg_set_meta (taskStrategy g) = task_Meta_update"
  "sg_PrepareForCreate (taskStrategy g) = task_PrepareForCreate"
  "sg_Validate (taskStrategy g) task = ValidateTask g (Some task)"
  "sg_PrepareForUpdate (taskStrategy g) = task_PrepareForUpdate"
  "sg_ValidateUpdate (taskStrategy g) = task_ValidateUpdate"
  "sg_attrs (taskStrategy g) = attrsForTask"
  by (simp_all add: taskStrategy_def)

lemma lockStrategy_simps [simp]:
  "sg_meta lockStrategy = lock_Meta" "sg_set_meta lockStrategy = lock_Meta_update"
  "sg_PrepareForCreate lockStrategy = lock_PrepareForCreate"
  "sg_Validate lockStrategy = lock_Validate"
  "sg_PrepareForUpdate lockStrategy = lock_PrepareForUpdate"
  "sg_ValidateUpdate lockStrategy = lock_ValidateUpdate"
  "sg_attrs lockStrategy = attrsForLock"
  by (simp_all add: lockStrategy_def)

subsection \<open>The strategies keep the metadata\<close>

lemma operationStrategy_ok [simp]: "strategy_ok (operationStrategy f)"
  by (simp add: strategy_ok_def operation_PrepareForCreate_def
      operation_PrepareForUpdate_def Let_def)

lemma taskStrategy_ok [simp]: "strategy_ok (taskStrategy f)"
  by (simp add: strategy_ok_def task_PrepareForCreate_def task_PrepareForUpdate_def)

lemma lockStrategy_ok [simp]: "strategy_ok lockStrategy"
  by (simp add: strategy_ok_def lock_PrepareForCreate_def lock_PrepareForUpdate_def)

subsection \<open>What one update can change\<close>

lemma stored_update_task:
  assumes "task_ValidateUpdate (task_PrepareForUpdate x old) old = []"
  shows "task_Spec (stored_update (taskStrategy f) r x old) = task_Spec old"
    and "task_phase_step (task_Phase old) (task_Phase (stored_update (taskStrategy f) r x old))"
  using assms
  by (auto simp: stored_update_def task_PrepareForUpdate_def task_ValidateUpdate_def
      ValidateTaskPhaseTransition_iff [symmetric] split: option.splits)

text \<open>The operation phases: a terminal phase other than Succeeded may be reopened by a retry.\<close>

definition op_phase_change :: "string \<Rightarrow> string \<Rightarrow> bool" where
  "op_phase_change p q \<longleftrightarrow> op_phase_step p q \<or>
     (p \<in> {OperationFailed, OperationTimedOut, OperationCancelled} \<and> q = OperationPending)"

lemma stored_update_operation:
  assumes "operation_ValidateUpdate (operation_PrepareForUpdate x old) old = []"
    and "y = stored_update (operationStrategy f) r x old"
  shows "os_TargetRef (op_Spec y) = os_TargetRef (op_Spec old)" "os_Action (op_Spec y) = os_Action (op_Spec old)"
    and "os_Timeout (op_Spec y) = os_Timeout (op_Spec old)" "op_Steps y = op_Steps old"
    and "op_phase_change (op_Phase old) (op_Phase y)"
  using assms
  by (auto simp: stored_update_def operation_PrepareForUpdate_def
      operation_ValidateUpdate_def op_phase_change_def ValidateOperationPhaseTransition_iff [symmetric]
      isRetryReopen_def OperationPhase_IsTerminal_def split: option.splits if_splits)

lemma stored_update_lock:
  "lock_Spec (stored_update lockStrategy r x old) = lock_Spec old"
  by (simp add: stored_update_def lock_PrepareForUpdate_def)

lemma task_phase_reach_terminal:
  "task_phase_step\<^sup>*\<^sup>* p q \<Longrightarrow> TaskPhase_IsTerminal p \<Longrightarrow> q = p"
  by (induction rule: rtranclp_induct) (auto simp: task_phase_terminal_step)

lemma op_phase_reach_succeeded: "op_phase_change\<^sup>*\<^sup>* OperationSucceeded q \<Longrightarrow> q = OperationSucceeded"
  by (induction rule: rtranclp_induct) (auto simp: op_phase_change_def op_phase_terminal_step)

subsection \<open>Versions of one object\<close>

text \<open>
  Task histories.  Whatever the clients of the API do and however their requests interleave,
  two stored versions of one task (same name and UID) have the same spec, their phases are
  connected by admissible transitions, and a terminal phase never changes again.
\<close>

lemma task_history_monotone:
  assumes "obj_history (taskStrategy f) s s'" "uids_issued (taskStrategy f) s"
    and "fst s n = Some t" "fst s' n = Some t'" "task_UID t' = task_UID t"
  shows "task_Spec t' = task_Spec t \<and> task_phase_step\<^sup>*\<^sup>* (task_Phase t) (task_Phase t') \<and>
    (TaskPhase_IsTerminal (task_Phase t) \<longrightarrow> task_Phase t' = task_Phase t)"
proof -
  let ?R = "\<lambda>x y. task_Spec y = task_Spec x \<and> task_phase_step\<^sup>*\<^sup>* (task_Phase x) (task_Phase y)"
  have "?R t t'"
  proof (rule history_relates [of "taskStrategy f" ?R s s' n t, THEN conjunct2, THEN conjunct2, rule_format])
    fix x old r
    assume "sg_ValidateUpdate (taskStrategy f) (sg_PrepareForUpdate (taskStrategy f) x old) old = []"
    then have "task_ValidateUpdate (task_PrepareForUpdate x old) old = []"
      by simp
    then show "?R old (stored_update (taskStrategy f) r x old)"
      using stored_update_task by blast
  qed (use assms in auto)
  then show ?thesis using task_phase_reach_terminal by blast
qed

text \<open>
  Operation histories.  Two stored versions of one operation have the same target, action,
  timeout and steps; their phases are connected by admissible transitions and retry reopenings,
  and an operation that once Succeeded stays Succeeded.
\<close>

lemma operation_history_immutable_plan:
  assumes "obj_history (operationStrategy f) s s'" "uids_issued (operationStrategy f) s"
    and "fst s n = Some op" "fst s' n = Some op'" "op_UID op' = op_UID op"
  shows "os_TargetRef (op_Spec op') = os_TargetRef (op_Spec op) \<and> os_Action (op_Spec op') = os_Action (op_Spec op) \<and>
    os_Timeout (op_Spec op') = os_Timeout (op_Spec op) \<and> op_Steps op' = op_Steps op \<and>
    op_phase_change\<^sup>*\<^sup>* (op_Phase op) (op_Phase op') \<and>
    (op_Phase op = OperationSucceeded \<longrightarrow> op_Phase op' = OperationSucceeded)"
proof -
  let ?R = "\<lambda>x y. os_TargetRef (op_Spec y) = os_TargetRef (op_Spec x) \<and> os_Action (op_Spec y) = os_Action (op_Spec x) \<and>
    os_Timeout (op_Spec y) = os_Timeout (op_Spec x) \<and> op_Steps y = op_Steps x \<and>
    op_phase_change\<^sup>*\<^sup>* (op_Phase x) (op_Phase y)"
  have R: "?R op op'"
  proof (rule history_relates [of "operationStrategy f" ?R s s' n op, THEN conjunct2, THEN conjunct2, rule_format])
    fix x old r
    assume "sg_ValidateUpdate (operationStrategy f) (sg_PrepareForUpdate (operationStrategy f) x old) old = []"
    then have "operation_ValidateUpdate (operation_PrepareForUpdate x old) old = []"
      by simp
    then show "?R old (stored_update (operationStrategy f) r x old)"
      using stored_update_operation [OF _ refl, of x old f r] by (auto intro: r_into_rtranclp)
  qed (use assms in auto)
  then have "op_phase_change\<^sup>*\<^sup>* (op_Phase op) (op_Phase op')" by blast
  then have "op_Phase op = OperationSucceeded \<longrightarrow> op_Phase op' = OperationSucceeded"
    using op_phase_reach_succeeded [of "op_Phase op'"] by (intro impI) (simp only:)
  with R show ?thesis by blast
qed

end
