(* ===== verification/Op_Store.thy ===== *)
theory Op_Store
  imports Op_Strategy
begin

text \<open>
  The persistence boundary of the engine (\<^verbatim>\<open>pkg/models/operationv2/store.go\<close>): compare-and-swap
  updates with their transition checks, lock acquisition and release, sorted listing with a
  continuation cursor, and the history purge.  The request context carries no data here, and the
  type assertions on storage results are discharged by the types of the storages.
\<close>

subsection \<open>The store\<close>

record 'w StoreOptions =
  so_Operations :: "(Operation, 'w) StandardStorage option"
  so_Tasks :: "(OperationTask, 'w) StandardStorage option"
  so_Locks :: "(ExecutionLock, 'w) StandardStorage option"
  so_OperationsStrong :: "(Operation, 'w) StandardStorage option"
  so_TasksStrong :: "(OperationTask, 'w) StandardStorage option"
  so_LocksStrong :: "(ExecutionLock, 'w) StandardStorage option"
  so_Now :: "('w \<Rightarrow> gotime \<times> 'w) option"

record 'w store =
  s_operations :: "(Operation, 'w) StandardStorage"
  s_tasks :: "(OperationTask, 'w) StandardStorage"
  s_locks :: "(ExecutionLock, 'w) StandardStorage"
  s_operationsStrong :: "(Operation, 'w) StandardStorage"
  s_tasksStrong :: "(OperationTask, 'w) StandardStorage"
  s_locksStrong :: "(ExecutionLock, 'w) StandardStorage"
  s_now :: "'w \<Rightarrow> gotime \<times> 'w"

text \<open>\<open>systemNow\<close> is \<^verbatim>\<open>time.Now\<close>, the default clock.\<close>

definition NewStore :: "('w \<Rightarrow> gotime \<times> 'w) \<Rightarrow> 'w StoreOptions \<Rightarrow> goerr + 'w store" where
  "NewStore systemNow opts =
     (case (so_Operations opts, so_Tasks opts, so_Locks opts) of
        (Some ops, Some tasks, Some locks) \<Rightarrow>
          Inr \<lparr>s_operations = ops, s_tasks = tasks, s_locks = locks,
               s_operationsStrong = (case so_OperationsStrong opts of None \<Rightarrow> ops | Some x \<Rightarrow> x),
               s_tasksStrong = (case so_TasksStrong opts of None \<Rightarrow> tasks | Some x \<Rightarrow> x),
               s_locksStrong = (case so_LocksStrong opts of None \<Rightarrow> locks | Some x \<Rightarrow> x),
               s_now = (case so_Now opts of None \<Rightarrow> systemNow | Some x \<Rightarrow> x)\<rparr>
      | _ \<Rightarrow> Inl (Plain ''all Operation v2 storages are required''))"

definition io_now :: "'w store \<Rightarrow> ('w, gotime) io" where
  "io_now s = (\<lambda>w. let (t, w') = s_now s w in (Inr t, w'))"

subsection \<open>List options\<close>

definition internalListOptions :: "apimachinery \<Rightarrow> ListOptions \<Rightarrow> goerr + InternalListOptions" where
  "internalListOptions am options =
     (case am_parseLabels am (lo_LabelSelector options) of
        Inl err \<Rightarrow> Inl (BadRequest (''invalid labelSelector: '' @ err))
      | Inr labelSelector \<Rightarrow>
          (case am_parseFields am (lo_FieldSelector options) of
             Inl err \<Rightarrow> Inl (BadRequest (''invalid fieldSelector: '' @ err))
           | Inr fieldSelector \<Rightarrow>
               (let internal = \<lparr>io_LabelSelector = labelSelector, io_FieldSelector = fieldSelector,
                      io_Watch = lo_Watch options, io_AllowWatchBookmarks = lo_AllowWatchBookmarks options,
                      io_ResourceVersion = lo_ResourceVersion options,
                      io_ResourceVersionMatch = lo_ResourceVersionMatch options,
                      io_TimeoutSeconds = lo_TimeoutSeconds options, io_Limit = lo_Limit options,
                      io_Continue = lo_Continue options\<rparr>
                in case am_validateListOptions am internal of
                     Some errs \<Rightarrow> Inl (BadRequest errs)
                   | None \<Rightarrow> Inr internal)))"

text \<open>\<^verbatim>\<open>fields.OneTermEqualSelector\<close> as a selector and as text.\<close>

definition OneTermEqualSelector :: "string \<Rightarrow> string \<Rightarrow> fieldsel" where
  "OneTermEqualSelector k v = [(k, True, v)]"

subsection \<open>Operations\<close>

definition GetOperation :: "'w store \<Rightarrow> string \<Rightarrow> string \<Rightarrow> ('w, Operation) io" where
  "GetOperation s name resourceVersion = io_read (st_Get (s_operations s) name resourceVersion)"

definition getOperationStrong :: "'w store \<Rightarrow> string \<Rightarrow> ('w, Operation) io" where
  "getOperationStrong s name = io_read (st_Get (s_operationsStrong s) name [])"

definition CreateOperation :: "'w store \<Rightarrow> Operation option \<Rightarrow> ('w, Operation) io" where
  "CreateOperation s op =
     (case op of None \<Rightarrow> io_err (Plain ''operation is nil'') | Some op \<Rightarrow> st_Create (s_operations s) op)"

definition ListOperations :: "apimachinery \<Rightarrow> 'w store \<Rightarrow> string \<Rightarrow> string \<Rightarrow> ('w, Operation object_list) io" where
  "ListOperations am s targetUID resourceVersion =
     (let options = empty_ListOptions\<lparr>lo_ResourceVersion := resourceVersion,
            lo_FieldSelector := (if targetUID \<noteq> [] then am_oneTermEqual am ''spec.targetRef.uid'' targetUID else [])\<rparr>
      in io_bind (io_of (internalListOptions am options))
           (\<lambda>internal. io_read (st_List (s_operationsStrong s) internal)))"

definition validateStatusMessage :: "string \<Rightarrow> goerr option" where
  "validateStatusMessage message =
     (if length message > MaxMessageSize
      then Some (Plain (''status message exceeds '' @ show_nat MaxMessageSize @ '' bytes'')) else None)"

definition updateOperation :: "'w store \<Rightarrow> string \<Rightarrow> string \<Rightarrow> string \<Rightarrow>
    (Operation \<Rightarrow> ('w, Operation) io) \<Rightarrow> ('w, Operation) io" where
  "updateOperation s name uid resourceVersion mutate =
     io_bind (io_read (st_Get (s_operations s) name [])) (\<lambda>op.
       if uid \<noteq> [] \<and> op_UID op \<noteq> uid
       then io_err (Conflict ResourceOperations name ''operation UID does not match'')
       else if resourceVersion \<noteq> [] \<and> op_RV op \<noteq> resourceVersion
       then io_err (Conflict ResourceOperations name ''resourceVersion does not match'')
       else io_try (mutate op)
         (\<lambda>mutateErr. io_err (BadRequest (Error_text mutateErr)))
         (\<lambda>updatedOperation.
            st_Update (s_operations s) name
              (updatedOperation\<lparr>op_Meta := (op_Meta updatedOperation)\<lparr>m_ResourceVersion := op_RV op\<rparr>\<rparr>)))"

definition statusRetryReopen :: "Operation \<Rightarrow> OperationStatus \<Rightarrow> bool" where
  "statusRetryReopen op status \<longleftrightarrow>
     op_Phase op \<noteq> OperationSucceeded \<and> OperationPhase_IsTerminal (op_Phase op) \<and>
     ost_Phase status = OperationPending \<and>
     os_DesiredState (op_Spec op) = OperationDesiredStateActive \<and>
     os_RetryGeneration (op_Spec op) > ost_ObservedRetryGeneration (op_Status op) \<and>
     ost_ObservedRetryGeneration status = os_RetryGeneration (op_Spec op)"

definition stampOperationStatus :: "gotime \<Rightarrow> OperationStatus \<Rightarrow> OperationStatus" where
  "stampOperationStatus now status =
     (let st1 = (if ost_Phase status = OperationRunning \<and> ost_StartedAt status = None
                 then status\<lparr>ost_StartedAt := Some now\<rparr> else status)
      in if OperationPhase_IsTerminal (ost_Phase st1) \<and> ost_FinishedAt st1 = None
         then st1\<lparr>ost_FinishedAt := Some now\<rparr> else st1)"

definition UpdateOperationStatus :: "'w store \<Rightarrow> string \<Rightarrow> string \<Rightarrow> string \<Rightarrow> OperationStatus \<Rightarrow> ('w, Operation) io" where
  "UpdateOperationStatus s name uid resourceVersion status =
     io_bind (io_check (validateStatusMessage (ost_Message status))) (\<lambda>_.
       updateOperation s name uid resourceVersion (\<lambda>op.
         io_bind (io_check (case ValidateOperationPhaseTransition (op_Phase op) (ost_Phase status) of
                     Some err \<Rightarrow> if \<not> statusRetryReopen op status then Some err else None
                   | None \<Rightarrow> None))
           (\<lambda>_. io_bind (io_now s) (\<lambda>now. io_ret (op\<lparr>op_Status := stampOperationStatus now status\<rparr>)))))"

definition UpdateOperationControl :: "'w store \<Rightarrow> string \<Rightarrow> string \<Rightarrow> string \<Rightarrow>
    (OperationSpec \<Rightarrow> goerr + OperationSpec) option \<Rightarrow> ('w, Operation) io" where
  "UpdateOperationControl s name uid resourceVersion mutate =
     updateOperation s name uid resourceVersion (\<lambda>op.
       case mutate of
         None \<Rightarrow> io_err (Plain ''control mutator is required'')
       | Some f \<Rightarrow> io_bind (io_of (f (op_Spec op))) (\<lambda>spec. io_ret (op\<lparr>op_Spec := spec\<rparr>)))"

subsection \<open>Tasks\<close>

definition GetTask :: "'w store \<Rightarrow> string \<Rightarrow> string \<Rightarrow> ('w, OperationTask) io" where
  "GetTask s name resourceVersion = io_read (st_Get (s_tasks s) name resourceVersion)"

definition getTaskStrong :: "'w store \<Rightarrow> string \<Rightarrow> ('w, OperationTask) io" where
  "getTaskStrong s name = io_read (st_Get (s_tasksStrong s) name [])"

definition CreateTask :: "'w store \<Rightarrow> OperationTask \<Rightarrow> ('w, OperationTask) io" where
  "CreateTask s task = st_Create (s_tasks s) task"

definition ListTasksByOperationUID :: "apimachinery \<Rightarrow> 'w store \<Rightarrow> string \<Rightarrow> string \<Rightarrow> ('w, OperationTask object_list) io" where
  "ListTasksByOperationUID am s operationUID resourceVersion =
     io_bind (io_of (internalListOptions am (empty_ListOptions\<lparr>
         lo_ResourceVersion := resourceVersion,
         lo_FieldSelector := am_oneTermEqual am ''spec.operationRef.uid'' operationUID\<rparr>)))
       (\<lambda>internal. io_read (st_List (s_tasksStrong s) internal))"

definition restrictToNode :: "string \<Rightarrow> InternalListOptions \<Rightarrow> InternalListOptions" where
  "restrictToNode nodeName internal =
     (if nodeName \<noteq> [] then internal\<lparr>io_FieldSelector := OneTermEqualSelector ''spec.nodeRef.name'' nodeName\<rparr> else internal)"

definition ListTasksByNode :: "apimachinery \<Rightarrow> 'w store \<Rightarrow> string \<Rightarrow> string \<Rightarrow> ('w, OperationTask object_list) io" where
  "ListTasksByNode am s nodeName resourceVersion =
     io_bind (io_of (internalListOptions am (empty_ListOptions\<lparr>lo_ResourceVersion := resourceVersion\<rparr>)))
       (\<lambda>internal. io_read (st_List (s_tasksStrong s) (restrictToNode nodeName internal)))"

definition ListTasksWithOptions :: "apimachinery \<Rightarrow> 'w store \<Rightarrow> string \<Rightarrow> ListOptions option \<Rightarrow> ('w, OperationTask object_list) io" where
  "ListTasksWithOptions am s nodeName options =
     io_bind (io_of (internalListOptions am (case options of None \<Rightarrow> empty_ListOptions | Some o1 \<Rightarrow> o1)))
       (\<lambda>internal. io_read (st_List (s_tasks s) (restrictToNode nodeName internal)))"

definition validateTaskStatus :: "OperationTaskStatus \<Rightarrow> goerr option" where
  "validateTaskStatus status =
     (case ValidateTaskResult (tst_Result status) of
        Some err \<Rightarrow> Some err
      | None \<Rightarrow>
          (case tst_Result status of
             None \<Rightarrow> None
           | Some result \<Rightarrow>
               if tst_Phase status = TaskSucceeded \<and> tr_Reason result \<noteq> []
               then Some (BadRequest ''Succeeded task must not have a result reason'')
               else if tst_Phase status \<noteq> TaskSucceeded \<and> tr_Outputs result \<noteq> []
               then Some (BadRequest ''outputs are only allowed on Succeeded tasks'')
               else None))"

definition validateAgentTaskTransition :: "OperationTask \<Rightarrow> OperationTaskStatus \<Rightarrow> goerr option" where
  "validateAgentTaskTransition task status =
     (case ValidateTaskPhaseTransition (task_Phase task) (tst_Phase status) of
        Some err \<Rightarrow> Some (Conflict ResourceTasks (task_Name task) (Error_text err))
      | None \<Rightarrow>
          if tst_Phase status = TaskCancelled \<or>
             (task_Phase task = TaskPending \<and> tst_Phase status \<noteq> TaskPending \<and> tst_Phase status \<noteq> TaskRunning)
          then Some (Conflict ResourceTasks (task_Name task)
                 (''agent cannot transition '' @ task_Phase task @ '' task to '' @ tst_Phase status))
          else None)"

definition stampTaskStatus :: "gotime \<Rightarrow> OperationTaskStatus \<Rightarrow> OperationTaskStatus" where
  "stampTaskStatus now status =
     (let st1 = (if tst_Phase status = TaskRunning \<and> tst_StartedAt status = None
                 then status\<lparr>tst_StartedAt := Some now\<rparr> else status)
      in if TaskPhase_IsTerminal (tst_Phase st1) \<and> tst_FinishedAt st1 = None
         then st1\<lparr>tst_FinishedAt := Some now\<rparr> else st1)"

definition UpdateTaskStatus :: "'w store \<Rightarrow> string \<Rightarrow> string \<Rightarrow> string \<Rightarrow> OperationTaskStatus \<Rightarrow> ('w, OperationTask) io" where
  "UpdateTaskStatus s name uid resourceVersion status =
     io_bind (io_check (validateTaskStatus status)) (\<lambda>_.
     io_bind (io_read (st_Get (s_tasks s) name [])) (\<lambda>task.
       if uid \<noteq> [] \<and> task_UID task \<noteq> uid
       then io_err (Conflict ResourceTasks name ''task UID does not match'')
       else if resourceVersion \<noteq> [] \<and> task_RV task \<noteq> resourceVersion
       then io_err (Conflict ResourceTasks name ''resourceVersion does not match'')
       else io_bind (io_check (validateAgentTaskTransition task status)) (\<lambda>_.
            io_bind (io_now s) (\<lambda>now.
              st_Update (s_tasks s) name (task\<lparr>task_Status := stampTaskStatus now status\<rparr>)))))"

definition updateTask :: "'w store \<Rightarrow> string \<Rightarrow> string \<Rightarrow> string \<Rightarrow>
    (OperationTask \<Rightarrow> goerr + OperationTask) \<Rightarrow> ('w, OperationTask) io" where
  "updateTask s name uid resourceVersion mutate =
     io_bind (io_read (st_Get (s_tasks s) name [])) (\<lambda>task.
       if uid \<noteq> [] \<and> task_UID task \<noteq> uid
       then io_err (Conflict ResourceTasks name ''task UID does not match'')
       else if resourceVersion \<noteq> [] \<and> task_RV task \<noteq> resourceVersion
       then io_err (Conflict ResourceTasks name ''resourceVersion does not match'')
       else io_bind (io_of (mutate task)) (\<lambda>updatedTask.
         io_bind
           (if TaskPhase_IsTerminal (task_Phase updatedTask) \<and> tst_FinishedAt (task_Status updatedTask) = None
            then io_bind (io_now s) (\<lambda>now.
                   io_ret (updatedTask\<lparr>task_Status := (task_Status updatedTask)\<lparr>tst_FinishedAt := Some now\<rparr>\<rparr>))
            else io_ret updatedTask)
           (\<lambda>stamped. st_Update (s_tasks s) name
              (stamped\<lparr>task_Meta := (task_Meta stamped)\<lparr>m_ResourceVersion := task_RV task\<rparr>\<rparr>))))"

definition setTerminal :: "string \<Rightarrow> string \<Rightarrow> string \<Rightarrow> string \<Rightarrow> OperationTask \<Rightarrow> goerr + OperationTask" where
  "setTerminal name expected phase reason task =
     (if task_Phase task \<noteq> expected
      then Inl (Conflict ResourceTasks name (''task is '' @ task_Phase task @ '', expected '' @ expected))
      else Inr (task\<lparr>task_Status := (task_Status task)\<lparr>tst_Phase := phase,
             tst_Result := Some \<lparr>tr_Reason = reason, tr_Message = [], tr_Outputs = []\<rparr>\<rparr>\<rparr>))"

definition updateTaskTerminal :: "'w store \<Rightarrow> string \<Rightarrow> string \<Rightarrow> string \<Rightarrow> string \<Rightarrow> string \<Rightarrow> string \<Rightarrow> ('w, OperationTask) io" where
  "updateTaskTerminal s name uid resourceVersion expected phase reason =
     updateTask s name uid resourceVersion (setTerminal name expected phase reason)"

definition CancelPendingTask :: "'w store \<Rightarrow> string \<Rightarrow> string \<Rightarrow> string \<Rightarrow> string \<Rightarrow> ('w, OperationTask) io" where
  "CancelPendingTask s name uid resourceVersion reason =
     updateTaskTerminal s name uid resourceVersion TaskPending TaskCancelled reason"

definition TimeoutRunningTask :: "'w store \<Rightarrow> string \<Rightarrow> string \<Rightarrow> string \<Rightarrow> ('w, OperationTask) io" where
  "TimeoutRunningTask s name uid resourceVersion =
     updateTaskTerminal s name uid resourceVersion TaskRunning TaskTimedOut TaskReasonDeadlineExceeded"

subsection \<open>Locks\<close>

definition GetLock :: "'w store \<Rightarrow> string \<Rightarrow> string \<Rightarrow> ('w, ExecutionLock) io" where
  "GetLock s name resourceVersion = io_read (st_Get (s_locksStrong s) name resourceVersion)"

text \<open>The lock pointer may be nil even without an error, so the result is an option.\<close>

definition AcquireLock :: "'w store \<Rightarrow> ExecutionLock \<Rightarrow> ('w, ExecutionLock option \<times> bool) io" where
  "AcquireLock s lock =
     io_try (st_Create (s_locks s) lock)
       (\<lambda>err. if \<not> IsAlreadyExists err then io_err err
              else io_try (GetLock s (lock_Name lock) [])
                     (\<lambda>getErr. if IsNotFound getErr then io_ret (None, False) else io_err getErr)
                     (\<lambda>existing. io_ret (Some existing, False)))
       (\<lambda>result. io_ret (Some result, True))"

definition ReleaseLock :: "'w store \<Rightarrow> string \<Rightarrow> string \<Rightarrow> string \<Rightarrow> ('w, unit) io" where
  "ReleaseLock s name lockUID holderUID =
     io_try (GetLock s name [])
       (\<lambda>err. if IsNotFound err then io_ret () else io_err err)
       (\<lambda>lock. if lock_UID lock \<noteq> lockUID \<or> or_UID (lock_Holder lock) \<noteq> holderUID
               then io_err (Conflict ResourceLocks name ''lock holder or UID changed'')
               else io_try (st_Delete (s_locks s) name (Some (lock_UID lock)))
                      (\<lambda>err. if IsNotFound err then io_ret () else io_err err)
                      (\<lambda>_. io_ret ()))"

subsection \<open>History purge\<close>

definition deleteObject :: "('a, 'w) StandardStorage \<Rightarrow> string \<Rightarrow> ('w, unit) io" where
  "deleteObject storage name =
     io_try (st_Delete storage name None)
       (\<lambda>err. if \<not> IsNotFound err then io_err err else io_ret ()) (\<lambda>_. io_ret ())"

definition listLocks :: "apimachinery \<Rightarrow> 'w store \<Rightarrow> ('w, ExecutionLock object_list) io" where
  "listLocks am s = io_bind (io_of (internalListOptions am empty_ListOptions))
     (\<lambda>internal. io_read (st_List (s_locks s) internal))"

definition verifyTerminalHistory :: "apimachinery \<Rightarrow> 'w store \<Rightarrow> Operation list \<Rightarrow> ('w, unit) io" where
  "verifyTerminalHistory am s ops = io_forM ops (\<lambda>o1.
     io_bind (getOperationStrong s (op_Name o1)) (\<lambda>op.
       if \<not> OperationPhase_IsTerminal (op_Phase op)
       then io_err (Plain (''operation '' @ op_Name op @ '' is not terminal''))
       else io_bind (ListTasksByOperationUID am s (op_UID op) []) (\<lambda>tasks.
         io_forM (ol_Items tasks) (\<lambda>t1.
           io_bind (getTaskStrong s (task_Name t1)) (\<lambda>task.
             if \<not> TaskPhase_IsTerminal (task_Phase task)
             then io_err (Plain (''task '' @ task_Name task @ '' is not terminal''))
             else io_ret ())))))"

definition purgeHistory :: "apimachinery \<Rightarrow> 'w store \<Rightarrow> Operation list \<Rightarrow> ('w, unit) io" where
  "purgeHistory am s ops = io_forM ops (\<lambda>op.
     io_bind (ListTasksByOperationUID am s (op_UID op) []) (\<lambda>tasks.
     io_bind (io_forM (ol_Items tasks) (\<lambda>t. deleteObject (s_tasks s) (task_Name t))) (\<lambda>_.
       deleteObject (s_operations s) (op_Name op))))"

definition deleteStaleLocks :: "apimachinery \<Rightarrow> 'w store \<Rightarrow> string \<Rightarrow> ('w, unit) io" where
  "deleteStaleLocks am s targetUID =
     io_bind (listLocks am s) (\<lambda>locks.
       io_forM (ol_Items locks) (\<lambda>lock.
         if or_UID (lock_Target lock) = targetUID then deleteObject (s_locks s) (lock_Name lock) else io_ret ()))"

definition CleanupByTargetUID :: "apimachinery \<Rightarrow> 'w store \<Rightarrow> string \<Rightarrow> ('w, unit) io" where
  "CleanupByTargetUID am s targetUID =
     (if targetUID = [] then io_err (Plain ''target UID is required'')
      else io_bind (ListOperations am s targetUID []) (\<lambda>ops.
           io_bind (verifyTerminalHistory am s (ol_Items ops)) (\<lambda>_.
           io_bind (purgeHistory am s (ol_Items ops)) (\<lambda>_.
             deleteStaleLocks am s targetUID))))"

end
