(* ===== verification/Op_Controller.thy ===== *)
theory Op_Controller
  imports Op_Reducer Op_Names Op_Store
begin

text \<open>
  The operation controller (\<^verbatim>\<open>pkg/controller/operationv2/controller.go\<close>).  It is level driven: each
  call of \<^verbatim>\<open>Reconcile\<close> derives the next action of one operation from the stored objects.  The
  controller sees the persistence layer through its own narrow \<^verbatim>\<open>Store\<close> interface, a record of
  functions here; \<open>storeInterface\<close> builds it from the store of \<^verbatim>\<open>pkg/models/operationv2\<close>.
\<close>

subsection \<open>Interfaces\<close>

record 'w Store =
  c_GetOperation :: "string \<Rightarrow> string \<Rightarrow> ('w, Operation) io"
  c_ListOperations :: "string \<Rightarrow> string \<Rightarrow> ('w, Operation object_list) io"
  c_UpdateOperationStatus :: "string \<Rightarrow> string \<Rightarrow> string \<Rightarrow> OperationStatus \<Rightarrow> ('w, Operation) io"
  c_GetTask :: "string \<Rightarrow> string \<Rightarrow> ('w, OperationTask) io"
  c_CreateTask :: "OperationTask \<Rightarrow> ('w, OperationTask) io"
  c_ListTasksByOperationUID :: "string \<Rightarrow> string \<Rightarrow> ('w, OperationTask object_list) io"
  c_CancelPendingTask :: "string \<Rightarrow> string \<Rightarrow> string \<Rightarrow> string \<Rightarrow> ('w, OperationTask) io"
  c_TimeoutRunningTask :: "string \<Rightarrow> string \<Rightarrow> string \<Rightarrow> ('w, OperationTask) io"
  c_AcquireLock :: "ExecutionLock \<Rightarrow> ('w, ExecutionLock option \<times> bool) io"
  c_GetLock :: "string \<Rightarrow> string \<Rightarrow> ('w, ExecutionLock) io"
  c_ReleaseLock :: "string \<Rightarrow> string \<Rightarrow> string \<Rightarrow> ('w, unit) io"

definition storeInterface :: "apimachinery \<Rightarrow> 'w store \<Rightarrow> 'w Store" where
  "storeInterface am s = \<lparr>c_GetOperation = GetOperation s, c_ListOperations = ListOperations am s,
     c_UpdateOperationStatus = UpdateOperationStatus s, c_GetTask = GetTask s, c_CreateTask = CreateTask s,
     c_ListTasksByOperationUID = ListTasksByOperationUID am s, c_CancelPendingTask = CancelPendingTask s,
     c_TimeoutRunningTask = TimeoutRunningTask s, c_AcquireLock = AcquireLock s, c_GetLock = GetLock s,
     c_ReleaseLock = ReleaseLock s\<rparr>"

text \<open>
  The reconciler with the library functions it calls: the hexadecimal SHA-256 digest, the JSON
  codec and the system clock.
\<close>

record 'w OperationReconciler =
  r_Store :: "'w Store option"
  r_Now :: "('w \<Rightarrow> gotime \<times> 'w) option"
  r_timeNow :: "'w \<Rightarrow> gotime \<times> 'w"
  r_sha256 :: "string \<Rightarrow> string"
  r_json :: json_codec

abbreviation rStore :: "'w OperationReconciler \<Rightarrow> 'w Store" where "rStore r \<equiv> the (r_Store r)"

definition reconciler_now :: "'w OperationReconciler \<Rightarrow> 'w \<Rightarrow> gotime \<times> 'w" where
  "reconciler_now r = (case r_Now r of Some f \<Rightarrow> f | None \<Rightarrow> r_timeNow r)"

record Result =
  Requeue :: bool
  RequeueAfter :: duration

definition noResult :: Result where "noResult = \<lparr>Requeue = False, RequeueAfter = 0\<rparr>"
definition requeueNow :: Result where "requeueNow = \<lparr>Requeue = True, RequeueAfter = 0\<rparr>"
definition requeueAfter :: "duration \<Rightarrow> Result" where "requeueAfter d = \<lparr>Requeue = False, RequeueAfter = d\<rparr>"

type_synonym 'w reconciling = "('w, Result \<times> goerr option) act"

definition rc_ok :: "Result \<Rightarrow> 'w reconciling" where "rc_ok res = (\<lambda>w. ((res, None), w))"
definition rc_fail :: "goerr \<Rightarrow> 'w reconciling" where "rc_fail e = (\<lambda>w. ((noResult, Some e), w))"

definition rc_both :: "Result \<Rightarrow> goerr \<Rightarrow> 'w reconciling" where "rc_both res e = (\<lambda>w. ((res, Some e), w))"

definition rc_bind :: "('w, 'a) io \<Rightarrow> ('a \<Rightarrow> 'w reconciling) \<Rightarrow> 'w reconciling" where
  "rc_bind m f = io_try m rc_fail f"

definition with_now :: "'w OperationReconciler \<Rightarrow> (gotime \<Rightarrow> ('w, 'c) act) \<Rightarrow> ('w, 'c) act" where
  "with_now r f = (\<lambda>w. let (t, w') = reconciler_now r w in f t w')"

subsection \<open>Waiting\<close>

definition defaultWaitRequeue :: duration where "defaultWaitRequeue = 5 * Second"
definition conflictRequeue :: duration where "conflictRequeue = 200 * Millisecond"

definition boundedWait :: "duration \<Rightarrow> duration" where
  "boundedWait wait =
     (if wait \<le> 0 then conflictRequeue else if wait > defaultWaitRequeue then defaultWaitRequeue else wait)"

definition untilDeadline :: "Operation \<Rightarrow> gotime \<Rightarrow> duration" where
  "untilDeadline op now =
     (case ost_Deadline (op_Status op) of
        None \<Rightarrow> defaultWaitRequeue
      | Some d \<Rightarrow> boundedWait (time_Sub d now))"

definition resultForConflict :: "('w, 'a) io \<Rightarrow> 'w reconciling" where
  "resultForConflict m =
     io_try m (\<lambda>err. if IsConflict err then rc_ok (requeueAfter conflictRequeue) else rc_fail err)
              (\<lambda>_. rc_ok requeueNow)"

definition conflictResult :: "goerr \<Rightarrow> 'w reconciling" where
  "conflictResult err = (if IsConflict err then rc_ok (requeueAfter conflictRequeue) else rc_fail err)"

subsection \<open>Helpers of the handlers\<close>

definition operationCanceledBeforeStart :: "Operation \<Rightarrow> OperationTask list \<Rightarrow> bool" where
  "operationCanceledBeforeStart op tasks \<longleftrightarrow> op_Phase op = OperationPending \<and>
     os_DesiredState (op_Spec op) = OperationDesiredStateCancelled \<and> tasks = []"

definition lockBelongsToOperation :: "ExecutionLock \<Rightarrow> Operation \<Rightarrow> bool" where
  "lockBelongsToOperation lock op \<longleftrightarrow> or_Name (lock_Holder lock) = op_Name op \<and>
     or_UID (lock_Holder lock) = op_UID op \<and> lock_Target lock = os_TargetRef (op_Spec op)"

definition opLockName :: "'w OperationReconciler \<Rightarrow> Operation \<Rightarrow> string" where
  "opLockName r op = LockName (r_sha256 r) (or_Kind (os_TargetRef (op_Spec op))) (or_UID (os_TargetRef (op_Spec op)))"

definition wantedLock :: "'w OperationReconciler \<Rightarrow> Operation \<Rightarrow> ExecutionLock" where
  "wantedLock r op =
     \<lparr>lock_Type = \<lparr>tm_APIVersion = SchemeGroupVersion, tm_Kind = KindExecutionLock\<rparr>,
      lock_Meta = empty_meta\<lparr>m_Name := opLockName r op\<rparr>,
      lock_Spec = \<lparr>els_TargetRef = os_TargetRef (op_Spec op),
        els_HolderRef = \<lparr>or_Kind = KindOperation, or_Name = op_Name op, or_UID = op_UID op\<rparr>\<rparr>\<rparr>"

text \<open>
  \<^verbatim>\<open>acquireLock\<close> reads the holder of the returned lock whenever it did not create it; for a nil
  lock that is a nil pointer dereference.
\<close>

definition acquireLock :: "'w OperationReconciler \<Rightarrow> Operation \<Rightarrow> ('w, ExecutionLock option \<times> bool) io" where
  "acquireLock r op =
     io_bind (c_AcquireLock (rStore r) (wantedLock r op)) (\<lambda>(lock, created).
       if created then io_ret (lock, True)
       else case lock of
              None \<Rightarrow> io_err (Panic ''invalid memory address or nil pointer dereference'')
            | Some l \<Rightarrow> io_ret (lock, lockBelongsToOperation l op))"

fun cancel_loop :: "'w OperationReconciler \<Rightarrow> OperationTask list \<Rightarrow> string \<Rightarrow> bool \<Rightarrow> ('w, bool) io" where
  "cancel_loop r [] reason changed = io_ret changed"
| "cancel_loop r (task # tasks) reason changed =
     (if task_Phase task \<noteq> TaskPending then cancel_loop r tasks reason changed
      else io_bind (c_CancelPendingTask (rStore r) (task_Name task) (task_UID task) (task_RV task) reason)
             (\<lambda>_. cancel_loop r tasks reason True))"

definition cancelPending :: "'w OperationReconciler \<Rightarrow> OperationTask list \<Rightarrow> string \<Rightarrow> ('w, bool) io" where
  "cancelPending r tasks reason = cancel_loop r tasks reason False"

definition loadOperation :: "'w OperationReconciler \<Rightarrow> string \<Rightarrow> ('w, Operation \<times> OperationTask list) io" where
  "loadOperation r name =
     io_bind (c_GetOperation (rStore r) name []) (\<lambda>op.
     io_bind (c_ListTasksByOperationUID (rStore r) (op_UID op) []) (\<lambda>taskList.
       io_ret (op, ol_Items taskList)))"

subsection \<open>Finishing\<close>

definition finishStatus :: "Operation \<Rightarrow> string \<Rightarrow> string \<Rightarrow> string \<Rightarrow> gotime \<Rightarrow> OperationStatus" where
  "finishStatus op phase reason message now =
     (op_Status op)\<lparr>ost_Phase := phase, ost_Reason := reason, ost_Message := message,
        ost_ObservedRetryGeneration := os_RetryGeneration (op_Spec op), ost_FinishedAt := Some now\<rparr>"

definition finishUpdate :: "'w OperationReconciler \<Rightarrow> Operation \<Rightarrow> ExecutionLock option \<Rightarrow> string \<Rightarrow> string \<Rightarrow> string \<Rightarrow> 'w reconciling" where
  "finishUpdate r op lock phase reason message =
     with_now r (\<lambda>now.
       io_try (c_UpdateOperationStatus (rStore r) (op_Name op) (op_UID op) (op_RV op)
                 (finishStatus op phase reason message now))
         conflictResult
         (\<lambda>updated. case lock of
             None \<Rightarrow> rc_ok noResult
           | Some l \<Rightarrow> rc_bind (c_ReleaseLock (rStore r) (lock_Name l) (lock_UID l) (op_UID updated))
                         (\<lambda>_. rc_ok noResult)))"

definition finish :: "'w OperationReconciler \<Rightarrow> Operation \<Rightarrow> ExecutionLock option \<Rightarrow> string \<Rightarrow> string \<Rightarrow> string \<Rightarrow> 'w reconciling" where
  "finish r op lock phase reason message =
     rc_bind (c_ListTasksByOperationUID (rStore r) (op_UID op) []) (\<lambda>tasks.
       let (pending, running) = activeTasks (ol_Items tasks) in
       if length pending + length running \<noteq> 0 then rc_ok (requeueAfter defaultWaitRequeue)
       else if phase = OperationSucceeded then
         (case validateAndCurrentStep op (ol_Items tasks) of
            Inl factsErr \<Rightarrow> rc_fail factsErr
          | Inr (Current _) \<Rightarrow> rc_fail (Plain (''refusing to mark incomplete operation '' @ Quote (op_Name op) @ '' succeeded''))
          | Inr Complete \<Rightarrow> finishUpdate r op lock phase reason message)
       else finishUpdate r op lock phase reason message)"

definition failInvalidFacts :: "'w OperationReconciler \<Rightarrow> Operation \<Rightarrow> ExecutionLock option \<Rightarrow> OperationTask list \<Rightarrow>
    goerr \<Rightarrow> 'w reconciling" where
  "failInvalidFacts r op lock tasks cause =
     (let (pending, running) = activeTasks tasks;
          done = finish r op lock OperationFailed OperationReasonInvalidExecutionFacts (Error_text cause)
      in if running \<noteq> []
         then rc_both (requeueAfter defaultWaitRequeue)
                (Plain (''invalid execution facts while tasks are running: '' @ Error_text cause))
         else if pending \<noteq> [] then
           io_try (cancelPending r pending TaskReasonSiblingFailed) conflictResult
             (\<lambda>changed. if changed then rc_ok requeueNow else done)
         else done)"

subsection \<open>Creating attempts\<close>

fun candidates_loop :: "stepFacts \<Rightarrow> int \<Rightarrow> NodeReference list \<Rightarrow> (NodeReference \<times> int) list option" where
  "candidates_loop facts retryGeneration [] = Some []"
| "candidates_loop facts retryGeneration (node # nodes) =
     (case nextAttempt (sf_Step facts) (sf_ByNode facts (nr_UID node)) retryGeneration of
        (attempt, eligible) \<Rightarrow>
          if \<not> eligible then None
          else (case candidates_loop facts retryGeneration nodes of
                  None \<Rightarrow> None | Some cs \<Rightarrow> Some ((node, attempt) # cs)))"

definition attemptTask :: "'w OperationReconciler \<Rightarrow> Operation \<Rightarrow> OperationStep \<Rightarrow> string \<Rightarrow> gotime \<Rightarrow>
    NodeReference \<times> int \<Rightarrow> OperationTask" where
  "attemptTask r op step payload deadline item =
     \<lparr>task_Type = \<lparr>tm_APIVersion = SchemeGroupVersion, tm_Kind = KindOperationTask\<rparr>,
      task_Meta = empty_meta\<lparr>m_Name := TaskName (r_sha256 r) (op_UID op) (os_RetryGeneration (op_Spec op))
                    (step_ID step) (nr_UID (fst item)) (snd item)\<rparr>,
      task_Spec = \<lparr>tsp_OperationRef = \<lparr>or_Kind = KindOperation, or_Name = op_Name op, or_UID = op_UID op\<rparr>,
        tsp_StepID = step_ID step, tsp_NodeRef = fst item,
        tsp_RetryGeneration = os_RetryGeneration (op_Spec op), tsp_Attempt = snd item,
        tsp_Executor = step_Executor step, tsp_Payload = payload, tsp_Deadline = deadline\<rparr>,
      task_Status = empty_OperationTaskStatus\<rparr>"

fun create_loop :: "'w OperationReconciler \<Rightarrow> OperationTask list \<Rightarrow> bool \<Rightarrow> ('w, bool) io" where
  "create_loop r [] created = io_ret created"
| "create_loop r (task # tasks) created =
     io_try (c_CreateTask (rStore r) task)
       (\<lambda>createErr.
          if \<not> IsAlreadyExists createErr then io_err createErr
          else io_bind (c_GetTask (rStore r) (task_Name task) []) (\<lambda>existing.
            if \<not> taskSpecEqual (task_Spec existing) (task_Spec task)
            then io_err (InvalidFacts (''deterministic task '' @ Quote (task_Name task) @ '' already exists with different spec''))
            else create_loop r tasks created))
       (\<lambda>_. create_loop r tasks True)"

definition createAttempts :: "'w OperationReconciler \<Rightarrow> Operation \<Rightarrow> stepFacts \<Rightarrow> OperationTask list \<Rightarrow> ('w, bool \<times> bool) io" where
  "createAttempts r op facts allTasks =
     (case candidates_loop facts (os_RetryGeneration (op_Spec op)) (sf_Incomplete facts) of
        None \<Rightarrow> io_ret (False, False)
      | Some candidates \<Rightarrow>
          (case materializePayload (r_json r) (sf_Step facts) allTasks of
             Inl err \<Rightarrow> io_err (InvalidFacts (Error_text err))
           | Inr payload \<Rightarrow>
               (case ost_Deadline (op_Status op) of
                  None \<Rightarrow> io_err (InvalidFacts (''operation '' @ Quote (op_Name op) @ '' has no deadline''))
                | Some deadline \<Rightarrow>
                    io_bind (create_loop r (map (attemptTask r op (sf_Step facts) payload deadline) candidates) False)
                      (\<lambda>created. io_ret (created, True)))))"

subsection \<open>The phases of an operation\<close>

definition skipRetry :: "'w OperationReconciler \<Rightarrow> Operation \<Rightarrow> 'w reconciling" where
  "skipRetry r op = resultForConflict (c_UpdateOperationStatus (rStore r) (op_Name op) (op_UID op) (op_RV op)
     ((op_Status op)\<lparr>ost_ObservedRetryGeneration := os_RetryGeneration (op_Spec op)\<rparr>))"

definition releaseTerminalLock :: "'w OperationReconciler \<Rightarrow> Operation \<Rightarrow> OperationTask list \<Rightarrow> 'w reconciling" where
  "releaseTerminalLock r op tasks =
     (let (pending, running) = activeTasks tasks in
      if length pending + length running \<noteq> 0
      then rc_fail (Plain (''terminal operation '' @ Quote (op_Name op) @ '' still has active tasks''))
      else io_try (c_GetLock (rStore r) (opLockName r op) [])
        (\<lambda>err. if IsNotFound err then rc_ok noResult else rc_fail err)
        (\<lambda>lock. if or_UID (lock_Holder lock) \<noteq> op_UID op then rc_ok noResult
                else rc_bind (c_ReleaseLock (rStore r) (lock_Name lock) (lock_UID lock) (op_UID op))
                       (\<lambda>_. rc_ok noResult)))"

definition reconcileCancellation :: "'w OperationReconciler \<Rightarrow> Operation \<Rightarrow> ExecutionLock option \<Rightarrow> OperationTask list \<Rightarrow> 'w reconciling" where
  "reconcileCancellation r op lock tasks =
     io_try (cancelPending r tasks TaskReasonOperationCancelled) conflictResult (\<lambda>changed.
       if changed then rc_ok requeueNow
       else if snd (activeTasks tasks) \<noteq> []
       then with_now r (\<lambda>now. rc_ok (requeueAfter (untilDeadline op now)))
       else case validateAndCurrentStep op tasks of
              Inl err \<Rightarrow> failInvalidFacts r op lock tasks err
            | Inr Complete \<Rightarrow> finish r op lock OperationSucceeded [] []
            | Inr (Current _) \<Rightarrow> finish r op lock OperationCancelled OperationReasonCancelledByRequest
                ''operation canceled; running tasks finished'')"

definition reconcileDeadline :: "'w OperationReconciler \<Rightarrow> Operation \<Rightarrow> ExecutionLock option \<Rightarrow> OperationTask list \<Rightarrow> gotime \<Rightarrow> 'w reconciling" where
  "reconcileDeadline r op lock tasks now =
     io_try (cancelPending r tasks TaskReasonOperationDeadlineExceededBeforeStart) conflictResult (\<lambda>changed.
       if changed then rc_ok requeueNow
       else
         (let running = snd (activeTasks tasks);
              graceEnd = the (ost_Deadline (op_Status op)) + ServerTerminationGrace
          in if running \<noteq> [] \<and> now < graceEnd
             then rc_ok (requeueAfter (boundedWait (time_Sub graceEnd now)))
             else if running \<noteq> [] then
               io_try (io_forM running (\<lambda>task.
                   io_bind (c_TimeoutRunningTask (rStore r) (task_Name task) (task_UID task) (task_RV task)) (\<lambda>_. io_ret ())))
                 conflictResult (\<lambda>_. rc_ok requeueNow)
             else case validateAndCurrentStep op tasks of
                    Inl err \<Rightarrow> failInvalidFacts r op lock tasks err
                  | Inr Complete \<Rightarrow> finish r op lock OperationSucceeded [] []
                  | Inr (Current _) \<Rightarrow>
                      if os_DesiredState (op_Spec op) = OperationDesiredStateCancelled
                      then finish r op lock OperationCancelled OperationReasonCancelledByRequest ''operation canceled''
                      else finish r op lock OperationTimedOut OperationReasonDeadlineExceeded ''operation deadline exceeded''))"

definition reconcileRunningStep :: "'w OperationReconciler \<Rightarrow> Operation \<Rightarrow> ExecutionLock option \<Rightarrow> OperationTask list \<Rightarrow> stepFacts \<Rightarrow> 'w reconciling" where
  "reconcileRunningStep r op lock tasks facts =
     (let (pending, running) = activeTasks (sf_Tasks facts) in
      if length pending + length running \<noteq> 0
      then with_now r (\<lambda>now. rc_ok (requeueAfter (untilDeadline op now)))
      else io_try (createAttempts r op facts tasks)
        (\<lambda>err. case err of
            InvalidFacts m \<Rightarrow> failInvalidFacts r op lock tasks err
          | _ \<Rightarrow> rc_fail err)
        (\<lambda>(created, eligible).
           if created then rc_ok requeueNow
           else if \<not> eligible
           then finish r op lock OperationFailed OperationReasonStepFailed
                  (''step '' @ Quote (step_ID (sf_Step facts)) @ '' exhausted its retry limit'')
           else rc_ok (requeueAfter defaultWaitRequeue)))"

definition reconcileRunningOperation :: "'w OperationReconciler \<Rightarrow> Operation \<Rightarrow> ExecutionLock option \<Rightarrow> OperationTask list \<Rightarrow> 'w reconciling" where
  "reconcileRunningOperation r op lock tasks =
     (case validateAndCurrentStep op tasks of
        Inl factsErr \<Rightarrow> failInvalidFacts r op lock tasks factsErr
      | Inr Complete \<Rightarrow> finish r op lock OperationSucceeded [] []
      | Inr (Current facts) \<Rightarrow>
          if os_DesiredState (op_Spec op) = OperationDesiredStateCancelled
          then reconcileCancellation r op lock tasks
          else if latestFailure facts then
            io_try (cancelPending r (sf_Tasks facts) TaskReasonSiblingFailed) conflictResult
              (\<lambda>changed. if changed then rc_ok requeueNow else reconcileRunningStep r op lock tasks facts)
          else reconcileRunningStep r op lock tasks facts)"

definition reconcileLockedOperation :: "'w OperationReconciler \<Rightarrow> Operation \<Rightarrow> ExecutionLock option \<Rightarrow> OperationTask list \<Rightarrow> bool \<Rightarrow> 'w reconciling" where
  "reconcileLockedOperation r op lock tasks retryRequested =
     (if retryRequested then
        resultForConflict (c_UpdateOperationStatus (rStore r) (op_Name op) (op_UID op) (op_RV op)
          (empty_OperationStatus\<lparr>ost_Phase := OperationPending,
             ost_ObservedRetryGeneration := os_RetryGeneration (op_Spec op)\<rparr>))
      else if op_Phase op = OperationPending then
        with_now r (\<lambda>startedAt.
          resultForConflict (c_UpdateOperationStatus (rStore r) (op_Name op) (op_UID op) (op_RV op)
            (empty_OperationStatus\<lparr>ost_Phase := OperationRunning,
               ost_ObservedRetryGeneration := os_RetryGeneration (op_Spec op),
               ost_StartedAt := Some startedAt,
               ost_Deadline := Some (startedAt + os_Timeout (op_Spec op))\<rparr>)))
      else if op_Phase op \<noteq> OperationRunning
      then rc_fail (Plain (''operation '' @ Quote (op_Name op) @ '' has non-runnable phase '' @ Quote (op_Phase op)))
      else if ost_Deadline (op_Status op) = None
      then failInvalidFacts r op lock tasks (Plain ''running operation has no deadline'')
      else with_now r (\<lambda>now.
        if deadlineExpired op now
        then with_now r (\<lambda>now'. reconcileDeadline r op lock tasks now')
        else reconcileRunningOperation r op lock tasks))"

definition retryStillLatest :: "'w OperationReconciler \<Rightarrow> Operation \<Rightarrow> ExecutionLock option \<Rightarrow> ('w, bool) io" where
  "retryStillLatest r op lock =
     io_bind (c_ListOperations (rStore r) (or_UID (os_TargetRef (op_Spec op))) []) (\<lambda>latest.
       if isLatestOperation op (ol_Items latest) then io_ret True
       else case lock of
              None \<Rightarrow> io_err (Panic ''invalid memory address or nil pointer dereference'')
            | Some l \<Rightarrow> io_bind (c_ReleaseLock (rStore r) (lock_Name l) (lock_UID l) (op_UID op)) (\<lambda>_. io_ret False))"

definition reconcileOwned :: "'w OperationReconciler \<Rightarrow> Operation \<Rightarrow> OperationTask list \<Rightarrow> bool \<Rightarrow> ExecutionLock option \<Rightarrow> 'w reconciling" where
  "reconcileOwned r op tasks retryRequested lock =
     (if retryRequested
      then rc_bind (retryStillLatest r op lock) (\<lambda>latest.
             if \<not> latest then skipRetry r op else reconcileLockedOperation r op lock tasks retryRequested)
      else reconcileLockedOperation r op lock tasks retryRequested)"

definition reconcileOperation :: "'w OperationReconciler \<Rightarrow> Operation \<Rightarrow> OperationTask list \<Rightarrow> 'w reconciling" where
  "reconcileOperation r op tasks =
     (let retryRequested = (os_RetryGeneration (op_Spec op) > ost_ObservedRetryGeneration (op_Status op)) in
      if OperationPhase_IsTerminal (op_Phase op) \<and> \<not> retryRequested then releaseTerminalLock r op tasks
      else rc_bind (c_ListOperations (rStore r) (or_UID (os_TargetRef (op_Spec op))) []) (\<lambda>targetOperations.
        if retryRequested \<and> \<not> isLatestOperation op (ol_Items targetOperations) then skipRetry r op
        else if \<not> isEarliestRunnable op (ol_Items targetOperations) then rc_ok (requeueAfter defaultWaitRequeue)
        else if operationCanceledBeforeStart op tasks
        then finish r op None OperationCancelled OperationReasonCancelledByRequest ''operation canceled before execution''
        else rc_bind (acquireLock r op) (\<lambda>(lock, owned).
          if \<not> owned then rc_ok (requeueAfter defaultWaitRequeue)
          else reconcileOwned r op tasks retryRequested lock)))"

definition Reconcile :: "'w OperationReconciler \<Rightarrow> string \<Rightarrow> 'w reconciling" where
  "Reconcile r name =
     (case r_Store r of
        None \<Rightarrow> rc_fail (Plain ''operation v2 store is required'')
      | Some _ \<Rightarrow>
          io_try (loadOperation r name)
            (\<lambda>err. if IsNotFound err then rc_ok noResult else rc_fail err)
            (\<lambda>(op, tasks). reconcileOperation r op tasks))"

end
