(* ===== verification/Op_Safety.thy ===== *)
theory Op_Safety
  imports Op_Controller
begin

text \<open>
  Safety of the controller.  The contract the reconciler needs from its \<^verbatim>\<open>Store\<close> is the locale
  \<open>operation_store\<close>; the invariant of the engine relates the stored operations, tasks and locks, and
  every handler of the controller is shown to keep it by composing specifications of the parts.
\<close>

subsection \<open>The invariant\<close>

type_synonym op_map = "string \<rightharpoonup> Operation"
type_synonym task_map = "string \<rightharpoonup> OperationTask"
type_synonym lock_map = "string \<rightharpoonup> ExecutionLock"

abbreviation task_OpUID :: "OperationTask \<Rightarrow> string" where "task_OpUID t \<equiv> or_UID (tsp_OperationRef (task_Spec t))"
abbreviation task_OpName :: "OperationTask \<Rightarrow> string" where "task_OpName t \<equiv> or_Name (tsp_OperationRef (task_Spec t))"

definition active :: "OperationTask \<Rightarrow> bool" where
  "active t \<longleftrightarrow> task_Phase t = TaskPending \<or> task_Phase t = TaskRunning"

definition idle :: "task_map \<Rightarrow> string \<Rightarrow> bool" where
  "idle T u \<longleftrightarrow> (\<forall>t \<in> ran T. task_OpUID t = u \<longrightarrow> \<not> active t)"

text \<open>Every target of every step of the operation has a succeeded task in \<open>T\<close>.\<close>

definition work_done :: "task_map \<Rightarrow> Operation \<Rightarrow> bool" where
  "work_done T op \<longleftrightarrow> (\<forall>s \<in> set (op_Steps op). \<forall>n \<in> set (step_Targets s). \<exists>t \<in> ran T.
     task_OpUID t = op_UID op \<and> task_StepID t = step_ID s \<and> task_NodeUID t = nr_UID n \<and> task_Phase t = TaskSucceeded)"

definition holds_lock :: "(string \<Rightarrow> string) \<Rightarrow> lock_map \<Rightarrow> Operation \<Rightarrow> bool" where
  "holds_lock sha L op \<longleftrightarrow>
     (\<exists>l. L (LockName sha (or_Kind (os_TargetRef (op_Spec op))) (or_UID (os_TargetRef (op_Spec op)))) = Some l \<and>
          or_UID (lock_Holder l) = op_UID op)"

text \<open>
  The invariant: objects are stored under their names, operations have distinct non-empty UIDs, an
  active task belongs to a running operation that holds the lock of its target, and all the work
  of a succeeded operation is done.
\<close>

definition engine_inv :: "(string \<Rightarrow> string) \<Rightarrow> op_map \<Rightarrow> task_map \<Rightarrow> lock_map \<Rightarrow> bool" where
  "engine_inv sha O1 T L \<longleftrightarrow>
     (\<forall>n op. O1 n = Some op \<longrightarrow> op_Name op = n \<and> op_UID op \<noteq> []) \<and>
     (\<forall>n t. T n = Some t \<longrightarrow> task_Name t = n \<and> task_Phase t \<noteq> []) \<and>
     (\<forall>n l. L n = Some l \<longrightarrow> lock_Name l = n) \<and>
     (\<forall>m n a b. O1 m = Some a \<longrightarrow> O1 n = Some b \<longrightarrow> op_UID a = op_UID b \<longrightarrow> m = n) \<and>
     (\<forall>t \<in> ran T. active t \<longrightarrow> (\<exists>op. O1 (task_OpName t) = Some op \<and> op_UID op = task_OpUID t \<and>
        op_Phase op = OperationRunning \<and> holds_lock sha L op)) \<and>
     (\<forall>op \<in> ran O1. op_Phase op = OperationSucceeded \<longrightarrow> work_done T op)"

lemma engine_invI:
  assumes "\<And>n op. O1 n = Some op \<Longrightarrow> op_Name op = n \<and> op_UID op \<noteq> []"
    and "\<And>n t. T n = Some t \<Longrightarrow> task_Name t = n \<and> task_Phase t \<noteq> []"
    and "\<And>n l. L n = Some l \<Longrightarrow> lock_Name l = n"
    and "\<And>m n a b. O1 m = Some a \<Longrightarrow> O1 n = Some b \<Longrightarrow> op_UID a = op_UID b \<Longrightarrow> m = n"
    and "\<And>n t. T n = Some t \<Longrightarrow> active t \<Longrightarrow> \<exists>op. O1 (task_OpName t) = Some op \<and> op_UID op = task_OpUID t \<and>
        op_Phase op = OperationRunning \<and> holds_lock sha L op"
    and "\<And>n op. O1 n = Some op \<Longrightarrow> op_Phase op = OperationSucceeded \<Longrightarrow> work_done T op"
  shows "engine_inv sha O1 T L"
  using assms unfolding engine_inv_def ran_def by fast

lemma engine_invD:
  assumes "engine_inv sha O1 T L"
  shows "O1 n = Some op \<Longrightarrow> op_Name op = n" "O1 n = Some op \<Longrightarrow> op_UID op \<noteq> []"
    and "T n = Some t \<Longrightarrow> task_Name t = n" "L n = Some l \<Longrightarrow> lock_Name l = n"
    and "O1 m = Some a \<Longrightarrow> O1 n = Some b \<Longrightarrow> op_UID a = op_UID b \<Longrightarrow> m = n"
    and "T n = Some t \<Longrightarrow> active t \<Longrightarrow> \<exists>op. O1 (task_OpName t) = Some op \<and> op_UID op = task_OpUID t \<and>
        op_Phase op = OperationRunning \<and> holds_lock sha L op"
    and "O1 n = Some op \<Longrightarrow> op_Phase op = OperationSucceeded \<Longrightarrow> work_done T op"
    and "T n = Some t \<Longrightarrow> task_Phase t \<noteq> []"
  using assms unfolding engine_inv_def ran_def by fast+

subsection \<open>Effects that keep the invariant\<close>

definition op_updated :: "Operation \<Rightarrow> Operation \<Rightarrow> bool" where
  "op_updated old y \<longleftrightarrow> op_Name y = op_Name old \<and> op_UID y = op_UID old \<and> op_Steps y = op_Steps old \<and>
     os_TargetRef (op_Spec y) = os_TargetRef (op_Spec old)"

definition task_updated :: "OperationTask \<Rightarrow> OperationTask \<Rightarrow> bool" where
  "task_updated old y \<longleftrightarrow> task_Name y = task_Name old \<and> task_Spec y = task_Spec old \<and>
     task_phase_step (task_Phase old) (task_Phase y)"

lemma task_phase_step_active:
  "task_phase_step p q \<Longrightarrow> p \<noteq> [] \<Longrightarrow> q = TaskPending \<or> q = TaskRunning \<Longrightarrow> p = TaskPending \<or> p = TaskRunning"
  by (auto simp: task_phase_step_def)

lemma task_updated_active: "task_updated old y \<Longrightarrow> task_Phase old \<noteq> [] \<Longrightarrow> active y \<Longrightarrow> active old"
  unfolding task_updated_def active_def using task_phase_step_active by blast

lemma task_updated_succeeded: "task_updated old y \<Longrightarrow> task_Phase old = TaskSucceeded \<Longrightarrow> task_Phase y = TaskSucceeded"
  by (auto simp: task_updated_def task_phase_terminal_step)

lemma work_done_mono:
  assumes "work_done T op"
    and "\<And>n t. T n = Some t \<Longrightarrow> task_Phase t = TaskSucceeded \<Longrightarrow>
      \<exists>t'. T' n = Some t' \<and> task_Spec t' = task_Spec t \<and> task_Phase t' = TaskSucceeded"
    and "op_UID op' = op_UID op" "op_Steps op' = op_Steps op"
  shows "work_done T' op'"
  using assms unfolding work_done_def ran_def by (fastforce simp: Ball_def Bex_def)

lemma holds_lock_cong:
  "holds_lock sha L op \<Longrightarrow> op_UID op' = op_UID op \<Longrightarrow> os_TargetRef (op_Spec op') = os_TargetRef (op_Spec op) \<Longrightarrow> holds_lock sha L op'"
  by (simp add: holds_lock_def)

lemma inv_update_operation:
  assumes inv: "engine_inv sha O1 T L" and old: "O1 n = Some old" and upd: "op_updated old y"
    and run: "\<not> idle T (op_UID old) \<Longrightarrow> op_Phase y = OperationRunning"
    and succ: "op_Phase y = OperationSucceeded \<Longrightarrow> op_Phase old \<noteq> OperationSucceeded \<Longrightarrow> work_done T old"
  shows "engine_inv sha (O1(n \<mapsto> y)) T L"
proof (rule engine_invI)
  note D = engine_invD [OF inv]
  have y: "op_Name y = n" "op_UID y = op_UID old" "op_UID y \<noteq> []" using D(1,2) [OF old] upd by (auto simp: op_updated_def)
  show "op_Name op = m \<and> op_UID op \<noteq> []" if "(O1(n \<mapsto> y)) m = Some op" for m op
    using that D(1,2) y by (auto split: if_splits)
  show "a = b" if "(O1(n \<mapsto> y)) a = Some u" "(O1(n \<mapsto> y)) b = Some v" "op_UID u = op_UID v" for a b u v
    using that D(5) y old by (fastforce split: if_splits)
  show "task_Name t = m \<and> task_Phase t \<noteq> []" if "T m = Some t" for m t using that D(3,8) by blast
  show "lock_Name l = m" if "L m = Some l" for m l using that D(4) by blast
  show "\<exists>op. (O1(n \<mapsto> y)) (task_OpName t) = Some op \<and> op_UID op = task_OpUID t \<and>
        op_Phase op = OperationRunning \<and> holds_lock sha L op" if t: "T m = Some t" "active t" for m t
  proof -
    obtain op where op: "O1 (task_OpName t) = Some op" "op_UID op = task_OpUID t"
      "op_Phase op = OperationRunning" "holds_lock sha L op" using D(6) [OF t] by blast
    show ?thesis
    proof (cases "task_OpName t = n")
      case True
      then have "op = old" using op old by simp
      then have "\<not> idle T (op_UID old)" using t op by (auto simp: idle_def ran_def)
      then have "op_Phase y = OperationRunning" by (rule run)
      moreover have "holds_lock sha L y"
        using op(4) \<open>op = old\<close> upd by (auto simp: op_updated_def intro: holds_lock_cong)
      ultimately show ?thesis using True y op \<open>op = old\<close> by simp
    qed (use op in auto)
  qed
  show "work_done T op" if "(O1(n \<mapsto> y)) m = Some op" "op_Phase op = OperationSucceeded" for m op
  proof (cases "m = n")
    case True
    then have "op = y" using that by simp
    then have "work_done T old" using that succ D(7) [OF old] by blast
    then show ?thesis using \<open>op = y\<close> upd by (auto simp: op_updated_def intro: work_done_mono)
  qed (use that D(7) in auto)
qed

lemma inv_update_task:
  assumes inv: "engine_inv sha O1 T L" and old: "T n = Some old" and upd: "task_updated old y"
  shows "engine_inv sha O1 (T(n \<mapsto> y)) L"
proof (rule engine_invI)
  note D = engine_invD [OF inv]
  have y: "task_Name y = n" "task_Spec y = task_Spec old" "task_Phase y \<noteq> []"
    using D(3,8) [OF old] upd by (auto simp: task_updated_def task_phase_step_def)
  show "op_Name op = m \<and> op_UID op \<noteq> []" if "O1 m = Some op" for m op using that D(1,2) by blast
  show "a = b" if "O1 a = Some u" "O1 b = Some v" "op_UID u = op_UID v" for a b u v using that D(5) by blast
  show "task_Name t = m \<and> task_Phase t \<noteq> []" if "(T(n \<mapsto> y)) m = Some t" for m t
    using that D(3,8) y by (auto split: if_splits)
  show "lock_Name l = m" if "L m = Some l" for m l using that D(4) by blast
  show "\<exists>op. O1 (task_OpName t) = Some op \<and> op_UID op = task_OpUID t \<and>
        op_Phase op = OperationRunning \<and> holds_lock sha L op" if t: "(T(n \<mapsto> y)) m = Some t" "active t" for m t
  proof (cases "m = n")
    case True
    then have "active old" "task_Spec t = task_Spec old" using t y task_updated_active [OF upd D(8) [OF old]] by auto
    then show ?thesis using D(6) [OF old] by simp
  qed (use t D(6) in auto)
  show "work_done (T(n \<mapsto> y)) op" if "O1 m = Some op" "op_Phase op = OperationSucceeded" for m op
    by (rule work_done_mono [OF D(7) [OF that]]) (use y old task_updated_succeeded [OF upd] in auto)
qed

lemma inv_create_task:
  assumes inv: "engine_inv sha O1 T L" and new: "T n = None" and y: "task_Name y = n" "task_Phase y \<noteq> []"
    and op: "O1 (task_OpName y) = Some op" "op_UID op = task_OpUID y" "op_Phase op = OperationRunning" "holds_lock sha L op"
  shows "engine_inv sha O1 (T(n \<mapsto> y)) L"
proof (rule engine_invI)
  note D = engine_invD [OF inv]
  show "op_Name op = m \<and> op_UID op \<noteq> []" if "O1 m = Some op" for m op using that D(1,2) by blast
  show "a = b" if "O1 a = Some u" "O1 b = Some v" "op_UID u = op_UID v" for a b u v using that D(5) by blast
  show "task_Name t = m \<and> task_Phase t \<noteq> []" if "(T(n \<mapsto> y)) m = Some t" for m t
    using that D(3,8) y by (auto split: if_splits)
  show "lock_Name l = m" if "L m = Some l" for m l using that D(4) by blast
  show "\<exists>op. O1 (task_OpName t) = Some op \<and> op_UID op = task_OpUID t \<and>
        op_Phase op = OperationRunning \<and> holds_lock sha L op" if t: "(T(n \<mapsto> y)) m = Some t" "active t" for m t
    using t D(6) op by (cases "m = n") auto
  show "work_done (T(n \<mapsto> y)) op" if "O1 m = Some op" "op_Phase op = OperationSucceeded" for m op
    by (rule work_done_mono [OF D(7) [OF that]]) (use new in auto)
qed

lemma inv_create_lock:
  assumes inv: "engine_inv sha O1 T L" and new: "L n = None" and y: "lock_Name y = n"
  shows "engine_inv sha O1 T (L(n \<mapsto> y))"
proof (rule engine_invI)
  note D = engine_invD [OF inv]
  have keep: "holds_lock sha L op \<Longrightarrow> holds_lock sha (L(n \<mapsto> y)) op" for op
    using new by (auto simp: holds_lock_def)
  show "op_Name op = m \<and> op_UID op \<noteq> []" if "O1 m = Some op" for m op using that D(1,2) by blast
  show "a = b" if "O1 a = Some u" "O1 b = Some v" "op_UID u = op_UID v" for a b u v using that D(5) by blast
  show "task_Name t = m \<and> task_Phase t \<noteq> []" if "T m = Some t" for m t using that D(3,8) by blast
  show "lock_Name l = m" if "(L(n \<mapsto> y)) m = Some l" for m l using that D(4) y by (auto split: if_splits)
  show "\<exists>op. O1 (task_OpName t) = Some op \<and> op_UID op = task_OpUID t \<and>
        op_Phase op = OperationRunning \<and> holds_lock sha (L(n \<mapsto> y)) op" if t: "T m = Some t" "active t" for m t
    using D(6) [OF t] keep by blast
  show "work_done T op" if "O1 m = Some op" "op_Phase op = OperationSucceeded" for m op using D(7) that by blast
qed

lemma inv_release_lock:
  assumes inv: "engine_inv sha O1 T L" and old: "L n = Some l" and idle: "idle T (or_UID (lock_Holder l))"
  shows "engine_inv sha O1 T (L(n := None))"
proof (rule engine_invI)
  note D = engine_invD [OF inv]
  show "op_Name op = m \<and> op_UID op \<noteq> []" if "O1 m = Some op" for m op using that D(1,2) by blast
  show "a = b" if "O1 a = Some u" "O1 b = Some v" "op_UID u = op_UID v" for a b u v using that D(5) by blast
  show "task_Name t = m \<and> task_Phase t \<noteq> []" if "T m = Some t" for m t using that D(3,8) by blast
  show "lock_Name l = m" if "(L(n := None)) m = Some l" for m l using that D(4) by (auto split: if_splits)
  show "\<exists>op. O1 (task_OpName t) = Some op \<and> op_UID op = task_OpUID t \<and>
        op_Phase op = OperationRunning \<and> holds_lock sha (L(n := None)) op" if t: "T m = Some t" "active t" for m t
  proof -
    obtain op where op: "O1 (task_OpName t) = Some op" "op_UID op = task_OpUID t"
      "op_Phase op = OperationRunning" "holds_lock sha L op" using D(6) [OF t] by blast
    have "task_OpUID t \<noteq> or_UID (lock_Holder l)" using idle t by (auto simp: idle_def ran_def)
    then have "holds_lock sha (L(n := None)) op" using op old by (auto simp: holds_lock_def)
    with op show ?thesis by blast
  qed
  show "work_done T op" if "O1 m = Some op" "op_Phase op = OperationSucceeded" for m op using D(7) that by blast
qed

lemma inv_create_operation:
  assumes inv: "engine_inv sha O1 T L" and new: "O1 n = None" and y: "op_Name y = n" "op_UID y \<noteq> []"
    and fresh: "\<And>m a. O1 m = Some a \<Longrightarrow> op_UID a \<noteq> op_UID y" and ph: "op_Phase y \<noteq> OperationSucceeded"
  shows "engine_inv sha (O1(n \<mapsto> y)) T L"
proof (rule engine_invI)
  note D = engine_invD [OF inv]
  show "op_Name op = m \<and> op_UID op \<noteq> []" if "(O1(n \<mapsto> y)) m = Some op" for m op
    using that D(1,2) y by (auto split: if_splits)
  show "a = b" if "(O1(n \<mapsto> y)) a = Some u" "(O1(n \<mapsto> y)) b = Some v" "op_UID u = op_UID v" for a b u v
    using that D(5) fresh by (auto split: if_splits dest: sym)
  show "task_Name t = m \<and> task_Phase t \<noteq> []" if "T m = Some t" for m t using that D(3,8) by blast
  show "lock_Name l = m" if "L m = Some l" for m l using that D(4) by blast
  show "\<exists>op. (O1(n \<mapsto> y)) (task_OpName t) = Some op \<and> op_UID op = task_OpUID t \<and>
        op_Phase op = OperationRunning \<and> holds_lock sha L op" if t: "T m = Some t" "active t" for m t
    using D(6) [OF t] new by auto
  show "work_done T op" if "(O1(n \<mapsto> y)) m = Some op" "op_Phase op = OperationSucceeded" for m op
    using that D(7) ph by (auto split: if_splits)
qed

subsection \<open>The contract of the store\<close>

text \<open>
  What the reconciler relies on.  \<open>vo\<close>, \<open>vt\<close> and \<open>vl\<close> are the stored operations, tasks and locks of a
  world.  Reads have no effect and return the stored objects; a status update is applied to the
  version it names and keeps the plan; a task is created only under a free name and afterwards
  changes only along the phase transitions; a lock is created only under a free name and deleted
  only for its holder.
\<close>

locale operation_store =
  fixes C :: "'w Store"
    and vo :: "'w \<Rightarrow> op_map" and vt :: "'w \<Rightarrow> task_map" and vl :: "'w \<Rightarrow> lock_map"
  assumes get_operation: "c_GetOperation C n [] w = (r, w') \<Longrightarrow>
      w' = w \<and> (\<forall>op. r = Inr op \<longrightarrow> vo w n = Some op)"
    and list_operations: "c_ListOperations C u [] w = (ro, w') \<Longrightarrow>
      w' = w \<and> (\<forall>l. ro = Inr l \<longrightarrow>
        set (ol_Items l) = {op \<in> ran (vo w). u = [] \<or> or_UID (os_TargetRef (op_Spec op)) = u})"
    and update_status: "c_UpdateOperationStatus C n u rv st w = (r, w') \<Longrightarrow>
      vt w' = vt w \<and> vl w' = vl w \<and>
      (case r of Inl e \<Rightarrow> vo w' = vo w
       | Inr y \<Rightarrow> \<exists>old. vo w n = Some old \<and> (u \<noteq> [] \<longrightarrow> op_UID old = u) \<and> (rv \<noteq> [] \<longrightarrow> op_RV old = rv) \<and>
           op_updated old y \<and> op_Spec y = op_Spec old \<and> (\<exists>t. op_Status y = stampOperationStatus t st) \<and>
           op_phase_change (op_Phase old) (ost_Phase st) \<and> vo w' = (vo w)(n \<mapsto> y))"
    and get_task: "c_GetTask C n [] w = (rt, w') \<Longrightarrow> w' = w"
    and create_task: "c_CreateTask C task w = (rt, w') \<Longrightarrow>
      vo w' = vo w \<and> vl w' = vl w \<and>
      (case rt of Inl e \<Rightarrow> vt w' = vt w
       | Inr y \<Rightarrow> vt w (task_Name task) = None \<and> task_Name y = task_Name task \<and> task_Spec y = task_Spec task \<and>
           task_Phase y = TaskPending \<and> vt w' = (vt w)(task_Name task \<mapsto> y))"
    and list_tasks: "c_ListTasksByOperationUID C u [] w = (rl, w') \<Longrightarrow>
      w' = w \<and> (\<forall>l. rl = Inr l \<longrightarrow> set (ol_Items l) = {t \<in> ran (vt w). task_OpUID t = u})"
    and cancel_pending: "c_CancelPendingTask C n u rv reason w = (rt, w') \<Longrightarrow>
      vo w' = vo w \<and> vl w' = vl w \<and>
      (case rt of Inl e \<Rightarrow> vt w' = vt w
       | Inr y \<Rightarrow> \<exists>old. vt w n = Some old \<and> task_updated old y \<and> task_Phase y = TaskCancelled \<and> vt w' = (vt w)(n \<mapsto> y))"
    and timeout_running: "c_TimeoutRunningTask C n u rv w = (rt, w') \<Longrightarrow>
      vo w' = vo w \<and> vl w' = vl w \<and>
      (case rt of Inl e \<Rightarrow> vt w' = vt w
       | Inr y \<Rightarrow> \<exists>old. vt w n = Some old \<and> task_updated old y \<and> task_Phase y = TaskTimedOut \<and> vt w' = (vt w)(n \<mapsto> y))"
    and acquire_lock: "c_AcquireLock C lk w = (ra, w') \<Longrightarrow>
      vo w' = vo w \<and> vt w' = vt w \<and>
      (case ra of Inl e \<Rightarrow> vl w' = vl w
       | Inr (l, created) \<Rightarrow>
           if created then vl w (lock_Name lk) = None \<and>
             (\<exists>y. l = Some y \<and> lock_Name y = lock_Name lk \<and> lock_Spec y = lock_Spec lk \<and> vl w' = (vl w)(lock_Name lk \<mapsto> y))
           else l \<noteq> None \<and> vl w (lock_Name lk) = l \<and> vl w' = vl w)"
    and get_lock: "c_GetLock C n [] w = (rk, w') \<Longrightarrow> w' = w \<and> (\<forall>l. rk = Inr l \<longrightarrow> vl w n = Some l)"
    and release_lock: "c_ReleaseLock C n u h w = (rr, w') \<Longrightarrow>
      vo w' = vo w \<and> vt w' = vt w \<and>
      (vl w' = vl w \<or> (\<exists>l. vl w n = Some l \<and> or_UID (lock_Holder l) = h \<and> vl w' = (vl w)(n := None)))"

text \<open>A reconciler on such a store, with a clock that does not touch the store.\<close>

locale reconciler = operation_store C vo vt vl
  for C :: "'w Store" and vo vt vl +
  fixes r :: "'w OperationReconciler"
  assumes store: "r_Store r = Some C"
    and clock: "reconciler_now r w = (t, w') \<Longrightarrow> vo w' = vo w \<and> vt w' = vt w \<and> vl w' = vl w"
begin

definition inv :: "'w \<Rightarrow> bool" where
  "inv w \<longleftrightarrow> engine_inv (r_sha256 r) (vo w) (vt w) (vl w)"

lemma rStore: "rStore r = C" by (simp add: store)

lemma inv_cong: "vo w' = vo w \<Longrightarrow> vt w' = vt w \<Longrightarrow> vl w' = vl w \<Longrightarrow> inv w' = inv w"
  by (simp add: inv_def)

text \<open>A condition on the stored objects survives a look at the clock.\<close>

definition on_views :: "('w \<Rightarrow> bool) \<Rightarrow> bool" where
  "on_views P \<longleftrightarrow> (\<forall>w w'. vo w' = vo w \<longrightarrow> vt w' = vt w \<longrightarrow> vl w' = vl w \<longrightarrow> P w \<longrightarrow> P w')"

lemma with_now_triple:
  assumes "\<And>t. triple P (f t) Q" "on_views P"
  shows "triple P (with_now r f) Q"
proof (rule tripleI)
  fix w c w' assume "P w" and run: "with_now r f w = (c, w')"
  then obtain t w1 where 1: "reconciler_now r w = (t, w1)" "f t w1 = (c, w')"
    by (cases "reconciler_now r w") (auto simp: with_now_def)
  then have "P w1" using clock [OF 1(1)] assms(2) \<open>P w\<close> unfolding on_views_def by blast
  then show "Q c w'" using tripleD [OF assms(1)] 1(2) by blast
qed

lemma rc_triple:
  assumes "\<And>w. P w \<Longrightarrow> inv w"
  shows "triple P (rc_ok x) (\<lambda>_. inv)" "triple P (rc_fail e) (\<lambda>_. inv)" "triple P (conflictResult e) (\<lambda>_. inv)"
    "triple P (rc_both x e) (\<lambda>_. inv)"
  using assms by (auto simp: triple_def rc_ok_def rc_fail_def rc_both_def conflictResult_def)

lemma release_triple:
  "triple (\<lambda>w. inv w \<and> idle (vt w) h) (c_ReleaseLock C n u h) (\<lambda>_. inv)"
proof (rule tripleI)
  fix w x w' assume P: "inv w \<and> idle (vt w) h" and run: "c_ReleaseLock C n u h w = (x, w')"
  note E = release_lock [OF run]
  then consider "vl w' = vl w" | l where "vl w n = Some l" "or_UID (lock_Holder l) = h" "vl w' = (vl w)(n := None)"
    by blast
  then show "inv w'"
  proof cases
    case 1
    then show ?thesis using E P by (simp add: inv_def)
  next
    case 2
    then have "engine_inv (r_sha256 r) (vo w) (vt w) ((vl w)(n := None))"
      using P by (intro inv_release_lock [of _ _ _ _ _ l]) (auto simp: inv_def)
    then show ?thesis using E 2 by (simp add: inv_def)
  qed
qed

lemma rc_release_triple:
  "triple (\<lambda>w. inv w \<and> idle (vt w) h) (rc_bind (c_ReleaseLock C n u h) (\<lambda>_. rc_ok x)) (\<lambda>_. inv)"
  unfolding rc_bind_def
  by (rule triple_try [where A = "\<lambda>_. inv" and B = "\<lambda>_. inv", OF triple_conseq [OF release_triple] rc_triple(2) rc_triple(1)])
    (auto split: sum.splits)

text \<open>
  A status update of the operation \<open>op\<close> the caller has read: allowed while the operation has active
  tasks only if it stays Running, and to Succeeded only when the work is done.
\<close>

lemma not_idle_running:
  assumes "inv w" "vo w (op_Name op) = Some op" "\<not> idle (vt w) (op_UID op)"
  shows "op_Phase op = OperationRunning"
proof -
  obtain n t where t: "vt w n = Some t" "task_OpUID t = op_UID op" "active t"
    using assms(3) by (auto simp: idle_def ran_def)
  note D = engine_invD [OF assms(1) [unfolded inv_def]]
  obtain op' where op': "vo w (task_OpName t) = Some op'" "op_UID op' = task_OpUID t" "op_Phase op' = OperationRunning"
    using D(6) [OF t(1,3)] by blast
  then have "task_OpName t = op_Name op" using D(5) [OF op'(1) assms(2)] t(2) by simp
  then show ?thesis using op' assms(2) by simp
qed

definition pre :: "Operation \<Rightarrow> 'w \<Rightarrow> bool" where
  "pre op w \<longleftrightarrow> inv w \<and> vo w (op_Name op) = Some op"

lemma pre_inv: "pre op w \<Longrightarrow> inv w"
  by (simp add: pre_def)

lemma on_views_pre [simp]: "on_views (pre op)" "on_views inv"
  by (auto simp: on_views_def pre_def inv_def)

lemma update_triple:
  assumes K: "\<And>w. P w \<Longrightarrow> pre op w \<and>
      (\<not> idle (vt w) (op_UID op) \<longrightarrow> op_phase_change OperationRunning (ost_Phase st) \<longrightarrow> ost_Phase st = OperationRunning) \<and>
      (ost_Phase st = OperationSucceeded \<longrightarrow> op_Phase op \<noteq> OperationSucceeded \<longrightarrow> work_done (vt w) op)"
    and T: "\<And>w w'. P w \<Longrightarrow> vt w' = vt w \<Longrightarrow> vl w' = vl w \<Longrightarrow> R w'"
  shows "triple P (c_UpdateOperationStatus C (op_Name op) (op_UID op) rv st)
    (\<lambda>x w'. inv w' \<and> (\<forall>y. x = Inr y \<longrightarrow> op_UID y = op_UID op) \<and> R w')"
proof (rule tripleI)
  fix w x w' assume P: "P w" and run: "c_UpdateOperationStatus C (op_Name op) (op_UID op) rv st w = (x, w')"
  note E = update_status [OF run] and K = K [OF P]
  have R: "R w'" using T [OF P] E by blast
  show "inv w' \<and> (\<forall>y. x = Inr y \<longrightarrow> op_UID y = op_UID op) \<and> R w'"
  proof (cases x)
    case (Inl e)
    then show ?thesis using E K P R by (auto simp: inv_def pre_def)
  next
    case (Inr y)
    then obtain t where y: "op_updated op y" "op_Status y = stampOperationStatus t st"
        "vo w' = (vo w)(op_Name op \<mapsto> y)" "op_phase_change (op_Phase op) (ost_Phase st)"
      using E K by (auto simp: pre_def)
    then have ph: "op_Phase y = ost_Phase st" by (simp add: stampOperationStatus_def Let_def)
    have "op_Phase y = OperationRunning" if "\<not> idle (vt w) (op_UID op)"
      using that not_idle_running [OF _ _ that] K y(4) ph by (simp add: pre_def)
    then have "engine_inv (r_sha256 r) ((vo w)(op_Name op \<mapsto> y)) (vt w) (vl w)"
      using K y ph by (intro inv_update_operation) (auto simp: inv_def pre_def)
    then show ?thesis using E y R Inr by (auto simp: inv_def op_updated_def)
  qed
qed

lemma result_triple:
  assumes "triple P m (\<lambda>x w. inv w \<and> R x w)"
  shows "triple P (resultForConflict m) (\<lambda>_. inv)"
  unfolding resultForConflict_def
  by (rule triple_try [where A = "\<lambda>_. inv" and B = "\<lambda>_. inv", OF triple_conseq [OF assms]])
    (auto simp: triple_def rc_ok_def rc_fail_def split: sum.splits)

lemma list_tasks_triple:
  "triple P (c_ListTasksByOperationUID C u [])
     (\<lambda>x w. P w \<and> (\<forall>l. x = Inr l \<longrightarrow> set (ol_Items l) = {t \<in> ran (vt w). task_OpUID t = u}))"
  by (rule tripleI) (use list_tasks in blast)

lemma complete_work_done:
  assumes "validateAndCurrentStep op ts = Inr Complete" "set ts = {t \<in> ran T. task_OpUID t = op_UID op}"
  shows "work_done T op"
  using assms unfolding validateAndCurrentStep_Complete step_done_def node_done_def work_done_def by blast

lemma no_active_idle:
  assumes "activeTasks ts = (p, q)" "length p + length q = 0" "set ts = {t \<in> ran T. task_OpUID t = u}"
  shows "idle T u"
  using assms by (auto simp: activeTasks_def idle_def active_def filter_empty_conv)

lemma try_conflict_triple:
  assumes "triple P m (\<lambda>x w. case x of Inl _ \<Rightarrow> inv w | Inr y \<Rightarrow> B y w)"
    and "\<And>y. triple (B y) (f y) (\<lambda>_. inv)"
  shows "triple P (io_try m conflictResult f) (\<lambda>_. inv)" "triple P (rc_bind m f) (\<lambda>_. inv)"
  unfolding rc_bind_def using triple_try [OF assms(1) _ assms(2)] rc_triple(2,3) by blast+

lemma finish_update_triple:
  "triple (\<lambda>w. pre op w \<and> idle (vt w) (op_UID op) \<and>
       (phase = OperationSucceeded \<longrightarrow> op_Phase op \<noteq> OperationSucceeded \<longrightarrow> work_done (vt w) op))
     (finishUpdate r op lock phase reason message) (\<lambda>_. inv)" (is "triple ?P _ _")
  unfolding finishUpdate_def rStore
proof (rule with_now_triple)
  show "on_views ?P" by (auto simp: on_views_def pre_def inv_def)
  fix now
  let ?st = "finishStatus op phase reason message now"
  let ?rel = "\<lambda>y. case lock of None \<Rightarrow> rc_ok noResult
    | Some l \<Rightarrow> rc_bind (c_ReleaseLock C (lock_Name l) (lock_UID l) (op_UID y)) (\<lambda>_. rc_ok noResult)"
  have ph: "ost_Phase ?st = phase" by (simp add: finishStatus_def)
  have upd: "triple ?P (c_UpdateOperationStatus C (op_Name op) (op_UID op) (op_RV op) ?st)
      (\<lambda>x w. case x of Inl _ \<Rightarrow> inv w | Inr y \<Rightarrow> inv w \<and> idle (vt w) (op_UID y))"
    by (rule triple_conseq [OF update_triple [where P = ?P and R = "\<lambda>w. idle (vt w) (op_UID op)"]])
      (auto simp: ph split: sum.splits)
  have "triple (\<lambda>w. inv w \<and> idle (vt w) (op_UID y)) (?rel y) (\<lambda>_. inv)" for y
    by (cases lock) (auto intro: rc_release_triple rc_triple(1))
  with upd show "triple ?P (io_try (c_UpdateOperationStatus C (op_Name op) (op_UID op) (op_RV op) ?st) conflictResult ?rel) (\<lambda>_. inv)"
    by (rule try_conflict_triple(1))
qed

lemma finish_triple: "triple (pre op) (finish r op lock phase reason message) (\<lambda>_. inv)"
  unfolding finish_def rStore
proof (rule try_conflict_triple(2) [where B = "\<lambda>l w. pre op w \<and> set (ol_Items l) = {t \<in> ran (vt w). task_OpUID t = op_UID op}"])
  show "triple (pre op) (c_ListTasksByOperationUID C (op_UID op) [])
      (\<lambda>x w. case x of Inl _ \<Rightarrow> inv w | Inr l \<Rightarrow> pre op w \<and> set (ol_Items l) = {t \<in> ran (vt w). task_OpUID t = op_UID op})"
    by (rule triple_conseq [OF list_tasks_triple [of "pre op"]]) (auto dest: pre_inv split: sum.splits)
  fix l :: "OperationTask object_list"
  let ?B = "\<lambda>w. pre op w \<and> set (ol_Items l) = {t \<in> ran (vt w). task_OpUID t = op_UID op}"
  obtain p q where pq: "activeTasks (ol_Items l) = (p, q)" by force
  have upd: "triple ?B (finishUpdate r op lock phase reason message) (\<lambda>_. inv)"
    if "length p + length q = 0" "phase = OperationSucceeded \<longrightarrow> validateAndCurrentStep op (ol_Items l) = Inr Complete"
    by (rule triple_pre [OF finish_update_triple])
      (use that no_active_idle [OF pq] complete_work_done [of op "ol_Items l"] in blast)
  have B: "?B w \<Longrightarrow> inv w" for w by (blast dest: pre_inv)
  show "triple ?B (let (pending, running) = activeTasks (ol_Items l) in
       if length pending + length running \<noteq> 0 then rc_ok (requeueAfter defaultWaitRequeue)
       else if phase = OperationSucceeded then
         (case validateAndCurrentStep op (ol_Items l) of
            Inl factsErr \<Rightarrow> rc_fail factsErr
          | Inr (Current _) \<Rightarrow> rc_fail (Plain (''refusing to mark incomplete operation '' @ Quote (op_Name op) @ '' succeeded''))
          | Inr Complete \<Rightarrow> finishUpdate r op lock phase reason message)
       else finishUpdate r op lock phase reason message) (\<lambda>_. inv)"
    using upd rc_triple [OF B] unfolding pq Let_def
    by (auto split: sum.splits current.splits)
qed

lemma keep_triples:
  assumes K: "\<And>w w'. K w \<Longrightarrow> vo w' = vo w \<Longrightarrow> vl w' = vl w \<Longrightarrow> K w'"
  shows "triple (\<lambda>w. inv w \<and> K w) (c_CancelPendingTask C n u rv reason) (\<lambda>_ w. inv w \<and> K w)"
    and "triple (\<lambda>w. inv w \<and> K w) (c_TimeoutRunningTask C n u rv) (\<lambda>_ w. inv w \<and> K w)"
proof (rule_tac [!] tripleI)
  fix w x w' assume P: "inv w \<and> K w"
  have step: "inv w'" if "vo w' = vo w" "vl w' = vl w"
    "vt w' = vt w \<or> (\<exists>old y. vt w n = Some old \<and> task_updated old y \<and> vt w' = (vt w)(n \<mapsto> y))"
    using that P inv_update_task unfolding inv_def by fastforce
  show "inv w' \<and> K w'" if "c_CancelPendingTask C n u rv reason w = (x, w')"
    using cancel_pending [OF that] step K P by (cases x) auto
  show "inv w' \<and> K w'" if "c_TimeoutRunningTask C n u rv w = (x, w')"
    using timeout_running [OF that] step K P by (cases x) auto
qed

lemma cancel_triple:
  assumes K: "\<And>w w'. K w \<Longrightarrow> vo w' = vo w \<Longrightarrow> vl w' = vl w \<Longrightarrow> K w'"
  shows "triple (\<lambda>w. inv w \<and> K w) (cancelPending r ts reason) (\<lambda>_ w. inv w \<and> K w)"
proof -
  have "triple (\<lambda>w. inv w \<and> K w) (cancel_loop r ts reason ch) (\<lambda>_ w. inv w \<and> K w)" for ch
  proof (induction ts arbitrary: ch)
    case (Cons t ts)
    have "triple (\<lambda>w. inv w \<and> K w) (io_bind (c_CancelPendingTask C (task_Name t) (task_UID t) (task_RV t) reason)
             (\<lambda>_. cancel_loop r ts reason True)) (\<lambda>_ w. inv w \<and> K w)"
      by (rule triple_bind [where B = "\<lambda>_ w. inv w \<and> K w"])
        (auto intro: triple_conseq [OF keep_triples(1) [of K, OF K]] Cons.IH split: sum.splits)
    then show ?case using Cons.IH by (simp add: rStore)
  qed (simp add: triple_def)
  then show ?thesis unfolding cancelPending_def .
qed

lemma pre_cancel_triple: "triple (pre op) (cancelPending r ts reason) (\<lambda>_. pre op)"
  using cancel_triple [of "\<lambda>w. vo w (op_Name op) = Some op"] by (simp add: pre_def [abs_def])

lemma cancel_then_triple:
  assumes "\<And>changed. triple (pre op) (f changed) (\<lambda>_. inv)"
  shows "triple (pre op) (io_try (cancelPending r ts reason) conflictResult f) (\<lambda>_. inv)"
  by (rule try_conflict_triple(1) [where B = "\<lambda>_. pre op", OF triple_conseq [OF pre_cancel_triple]])
    (use assms in \<open>auto dest: pre_inv split: sum.splits\<close>)

lemma rc_pre_triple:
  "triple (pre op) (rc_ok x) (\<lambda>_. inv)" "triple (pre op) (rc_fail e) (\<lambda>_. inv)"
  "triple (pre op) (with_now r (\<lambda>t. rc_ok (h t))) (\<lambda>_. inv)" "triple (pre op) (rc_both x e) (\<lambda>_. inv)"
  using rc_triple [of "pre op"] pre_inv with_now_triple [of "pre op" "\<lambda>t. rc_ok (h t)" "\<lambda>_. inv"] by auto

lemma fail_triple: "triple (pre op) (failInvalidFacts r op lock ts cause) (\<lambda>_. inv)"
proof -
  obtain p q where pq: "activeTasks ts = (p, q)" by force
  have "triple (pre op) (io_try (cancelPending r p TaskReasonSiblingFailed) conflictResult
      (\<lambda>changed. if changed then rc_ok requeueNow
         else finish r op lock OperationFailed OperationReasonInvalidExecutionFacts (Error_text cause))) (\<lambda>_. inv)"
    by (rule cancel_then_triple) (simp add: rc_pre_triple finish_triple)
  then show ?thesis unfolding failInvalidFacts_def pq Let_def by (simp add: finish_triple rc_pre_triple)
qed

lemma cancellation_triple: "triple (pre op) (reconcileCancellation r op lock ts) (\<lambda>_. inv)"
  unfolding reconcileCancellation_def
  by (rule cancel_then_triple)
    (auto simp: rc_pre_triple finish_triple fail_triple split: sum.splits current.splits)

lemma timeout_triple:
  "triple (pre op) (io_forM ts (\<lambda>task.
     io_bind (c_TimeoutRunningTask C (task_Name task) (task_UID task) (task_RV task)) (\<lambda>_. io_ret ()))) (\<lambda>_. pre op)"
proof (rule triple_forM)
  fix t
  have "triple (pre op) (c_TimeoutRunningTask C (task_Name t) (task_UID t) (task_RV t)) (\<lambda>_. pre op)"
    using keep_triples(2) [of "\<lambda>w. vo w (op_Name op) = Some op"] by (simp add: pre_def [abs_def])
  then show "triple (pre op) (io_bind (c_TimeoutRunningTask C (task_Name t) (task_UID t) (task_RV t)) (\<lambda>_. io_ret ())) (\<lambda>_. pre op)"
    by (intro triple_bind [where B = "\<lambda>_. pre op"]) (auto intro: triple_conseq triple_pure split: sum.splits)
qed

lemma deadline_triple: "triple (pre op) (reconcileDeadline r op lock ts now) (\<lambda>_. inv)"
proof -
  let ?run = "snd (activeTasks ts)"
  have "triple (pre op) (io_try (io_forM ?run (\<lambda>task.
      io_bind (c_TimeoutRunningTask C (task_Name task) (task_UID task) (task_RV task)) (\<lambda>_. io_ret ())))
      conflictResult (\<lambda>_. rc_ok requeueNow)) (\<lambda>_. inv)"
    by (rule try_conflict_triple(1) [where B = "\<lambda>_. pre op", OF triple_conseq [OF timeout_triple]])
      (auto simp: rc_pre_triple dest: pre_inv split: sum.splits)
  then show ?thesis unfolding reconcileDeadline_def rStore
    by (intro cancel_then_triple)
      (auto simp: rc_pre_triple finish_triple fail_triple Let_def split: sum.splits current.splits)
qed

text \<open>While the operation is Running and holds the lock of its target, its attempts may be created.\<close>

definition locked :: "Operation \<Rightarrow> 'w \<Rightarrow> bool" where
  "locked op w \<longleftrightarrow> vo w (op_Name op) = Some op \<and> holds_lock (r_sha256 r) (vl w) op"

lemma locked_pre: "inv w \<and> locked op w \<Longrightarrow> pre op w"
  by (simp add: locked_def pre_def)

lemma locked_cong: "locked op w \<Longrightarrow> vo w' = vo w \<Longrightarrow> vl w' = vl w \<Longrightarrow> locked op w'"
  by (simp add: locked_def)

lemma create_triple:
  assumes op: "op_Phase op = OperationRunning" and t: "task_OpName task = op_Name op" "task_OpUID task = op_UID op"
  shows "triple (\<lambda>w. inv w \<and> locked op w) (c_CreateTask C task) (\<lambda>_ w. inv w \<and> locked op w)"
proof (rule tripleI)
  fix w x w' assume P: "inv w \<and> locked op w" and run: "c_CreateTask C task w = (x, w')"
  note E = create_task [OF run]
  have "inv w'"
  proof (cases x)
    case (Inl e)
    then show ?thesis using E P by (simp add: inv_def)
  next
    case (Inr y)
    then have y: "vt w (task_Name task) = None" "task_Name y = task_Name task" "task_Spec y = task_Spec task"
      "task_Phase y = TaskPending" "vt w' = (vt w)(task_Name task \<mapsto> y)" using E by auto
    have "engine_inv (r_sha256 r) (vo w) ((vt w)(task_Name task \<mapsto> y)) (vl w)"
      by (rule inv_create_task [where op = op]) (use P y t op in \<open>auto simp: inv_def locked_def\<close>)
    then show ?thesis using E y by (simp add: inv_def)
  qed
  then show "inv w' \<and> locked op w'" using P E locked_cong by blast
qed

lemma create_loop_triple:
  assumes op: "op_Phase op = OperationRunning"
    and "\<And>t. t \<in> set ts \<Longrightarrow> task_OpName t = op_Name op \<and> task_OpUID t = op_UID op"
  shows "triple (\<lambda>w. inv w \<and> locked op w) (create_loop r ts created) (\<lambda>_ w. inv w \<and> locked op w)"
  using assms(2)
proof (induction ts arbitrary: created)
  case (Cons t ts)
  let ?P = "\<lambda>w. inv w \<and> locked op w"
  have loop: "triple ?P (create_loop r ts b) (\<lambda>_. ?P)" for b using Cons by simp
  have get: "triple ?P (c_GetTask C n []) (\<lambda>_. ?P)" for n
    by (rule tripleI) (use get_task in blast)
  have "triple ?P (io_bind (c_GetTask C (task_Name t) []) (\<lambda>existing.
            if \<not> taskSpecEqual (task_Spec existing) (task_Spec t)
            then io_err (InvalidFacts e)
            else create_loop r ts created)) (\<lambda>_. ?P)" for e
    by (rule triple_bind [where B = "\<lambda>_. ?P", OF triple_conseq [OF get]])
      (auto simp: loop intro: triple_pure split: sum.splits)
  moreover have "triple ?P (c_CreateTask C t) (\<lambda>x w. case x of Inl e \<Rightarrow> ?P w | Inr y \<Rightarrow> ?P w)"
    by (rule triple_conseq [OF create_triple [OF op, of t]]) (use Cons.prems in \<open>auto split: sum.splits\<close>)
  ultimately show ?case unfolding create_loop.simps rStore
    by (intro triple_try [where A = "\<lambda>_. ?P" and B = "\<lambda>_. ?P"]) (auto simp: loop intro: triple_pure)
qed (simp add: triple_def)

lemma create_attempts_triple:
  assumes op: "op_Phase op = OperationRunning"
  shows "triple (\<lambda>w. inv w \<and> locked op w) (createAttempts r op facts ts) (\<lambda>_. pre op)"
proof -
  have pure: "triple (\<lambda>w. inv w \<and> locked op w) (io_ret x) (\<lambda>_. pre op)"
    "triple (\<lambda>w. inv w \<and> locked op w) (io_err e) (\<lambda>_. pre op)" for x :: "bool \<times> bool" and e
    by (auto intro!: triple_pure locked_pre)
  have "triple (\<lambda>w. inv w \<and> locked op w)
      (create_loop r (map (attemptTask r op (sf_Step facts) payload deadline) cs) False) (\<lambda>_ w. inv w \<and> locked op w)" for payload deadline cs
    by (rule create_loop_triple [OF op]) (auto simp: attemptTask_def)
  then have "triple (\<lambda>w. inv w \<and> locked op w)
      (io_bind (create_loop r (map (attemptTask r op (sf_Step facts) payload deadline) cs) False)
         (\<lambda>created. io_ret (created, True))) (\<lambda>_. pre op)" for payload deadline cs
    by (intro triple_bind [where B = "\<lambda>_ w. inv w \<and> locked op w"])
      (auto intro: triple_conseq pure locked_pre split: sum.splits)
  then show ?thesis unfolding createAttempts_def
    by (auto simp: pure split: option.splits sum.splits)
qed

lemma locked_triple: "triple (pre op) m Q \<Longrightarrow> triple (\<lambda>w. inv w \<and> locked op w) m Q"
  by (erule triple_pre) (rule locked_pre)

lemma running_step_triple:
  assumes op: "op_Phase op = OperationRunning"
  shows "triple (\<lambda>w. inv w \<and> locked op w) (reconcileRunningStep r op lock ts facts) (\<lambda>_. inv)"
proof -
  obtain p q where pq: "activeTasks (sf_Tasks facts) = (p, q)" by force
  have "triple (\<lambda>w. inv w \<and> locked op w) (io_try (createAttempts r op facts ts)
        (\<lambda>err. case err of InvalidFacts m \<Rightarrow> failInvalidFacts r op lock ts err | _ \<Rightarrow> rc_fail err)
        (\<lambda>(created, eligible).
           if created then rc_ok requeueNow
           else if \<not> eligible then finish r op lock OperationFailed OperationReasonStepFailed m
           else rc_ok (requeueAfter defaultWaitRequeue))) (\<lambda>_. inv)" for m
    by (rule triple_try [where A = "\<lambda>_. pre op" and B = "\<lambda>_. pre op", OF triple_conseq [OF create_attempts_triple [OF op]]])
      (auto simp: rc_pre_triple finish_triple fail_triple split: sum.splits goerr.splits prod.splits)
  then show ?thesis unfolding reconcileRunningStep_def pq Let_def
    by (auto intro: locked_triple simp: rc_pre_triple)
qed

lemma running_triple:
  assumes op: "op_Phase op = OperationRunning"
  shows "triple (\<lambda>w. inv w \<and> locked op w) (reconcileRunningOperation r op lock ts) (\<lambda>_. inv)"
proof -
  have "triple (\<lambda>w. inv w \<and> locked op w) (io_try (cancelPending r (sf_Tasks facts) TaskReasonSiblingFailed) conflictResult
      (\<lambda>changed. if changed then rc_ok requeueNow else reconcileRunningStep r op lock ts facts)) (\<lambda>_. inv)" for facts
    by (rule try_conflict_triple(1) [where B = "\<lambda>_ w. inv w \<and> locked op w",
          OF triple_conseq [OF cancel_triple [of "locked op", OF locked_cong]]])
      (auto intro: running_step_triple [OF op] locked_triple rc_pre_triple split: sum.splits)
  then show ?thesis unfolding reconcileRunningOperation_def
    by (auto intro: locked_triple finish_triple fail_triple cancellation_triple running_step_triple [OF op]
        split: sum.splits current.splits)
qed

lemma on_views_locked [simp]: "on_views (\<lambda>w. inv w \<and> locked op w)"
  by (auto simp: on_views_def inv_def locked_def)

lemma status_triple:
  assumes "ost_Phase st = OperationPending \<or> ost_Phase st = OperationRunning \<or> ost_Phase st = op_Phase op"
  shows "triple (pre op) (resultForConflict (c_UpdateOperationStatus C (op_Name op) (op_UID op) (op_RV op) st)) (\<lambda>_. inv)"
proof (rule result_triple [OF update_triple [where P = "pre op" and R = "\<lambda>_. True"]])
  fix w assume w: "pre op w"
  have run: "op_Phase op = OperationRunning" if "\<not> idle (vt w) (op_UID op)"
    using not_idle_running [OF _ _ that] w by (simp add: pre_def)
  have "ost_Phase st = OperationRunning" if "\<not> idle (vt w) (op_UID op)" "op_phase_change OperationRunning (ost_Phase st)"
    using assms run [OF that(1)] that(2) by (auto simp: op_phase_change_def op_phase_step_def)
  then show "pre op w \<and>
      (\<not> idle (vt w) (op_UID op) \<longrightarrow> op_phase_change OperationRunning (ost_Phase st) \<longrightarrow> ost_Phase st = OperationRunning) \<and>
      (ost_Phase st = OperationSucceeded \<longrightarrow> op_Phase op \<noteq> OperationSucceeded \<longrightarrow> work_done (vt w) op)"
    using w assms by auto
qed simp

lemma locked_operation_triple:
  "triple (\<lambda>w. inv w \<and> locked op w) (reconcileLockedOperation r op lock ts retry) (\<lambda>_. inv)"
proof -
  have st: "triple (pre op) (with_now r (\<lambda>t. resultForConflict (c_UpdateOperationStatus C (op_Name op) (op_UID op) (op_RV op) (f t)))) (\<lambda>_. inv)"
    if "\<And>t. ost_Phase (f t) = OperationRunning" for f
    using with_now_triple [OF status_triple on_views_pre(1)] that by blast
  have dl: "triple (\<lambda>w. inv w \<and> locked op w) (with_now r (\<lambda>now.
        if deadlineExpired op now then with_now r (\<lambda>now'. reconcileDeadline r op lock ts now')
        else reconcileRunningOperation r op lock ts)) (\<lambda>_. inv)" if "op_Phase op = OperationRunning"
    by (rule with_now_triple)
      (auto intro: running_triple [OF that] with_now_triple [OF locked_triple [OF deadline_triple]])
  show ?thesis unfolding reconcileLockedOperation_def rStore
    using dl by (auto intro!: locked_triple st status_triple fail_triple rc_pre_triple)
qed

lemma skip_triple: "triple (pre op) (skipRetry r op) (\<lambda>_. inv)"
  unfolding skipRetry_def rStore by (rule status_triple) simp

definition latest :: "Operation \<Rightarrow> 'w \<Rightarrow> bool" where
  "latest op w \<longleftrightarrow> (\<forall>c \<in> ran (vo w). or_UID (os_TargetRef (op_Spec op)) = [] \<or>
      or_UID (os_TargetRef (op_Spec c)) = or_UID (os_TargetRef (op_Spec op)) \<longrightarrow>
      \<not> (op_UID c \<noteq> op_UID op \<and> operationBefore op c))"

lemma list_operations_triple:
  "triple P (c_ListOperations C u []) (\<lambda>x w. P w \<and> (\<forall>l. x = Inr l \<longrightarrow>
     set (ol_Items l) = {o1 \<in> ran (vo w). u = [] \<or> or_UID (os_TargetRef (op_Spec o1)) = u}))"
  by (rule tripleI) (use list_operations in blast)

lemma isLatest_iff:
  assumes "set l = {o1 \<in> ran (vo w). or_UID (os_TargetRef (op_Spec op)) = [] \<or>
    or_UID (os_TargetRef (op_Spec o1)) = or_UID (os_TargetRef (op_Spec op))}"
  shows "isLatestOperation op l \<longleftrightarrow> latest op w"
  using assms by (auto simp: isLatestOperation_def latest_def list_all_iff)

lemma still_latest_triple:
  "triple (\<lambda>w. (inv w \<and> locked op w) \<and> latest op w) (retryStillLatest r op lock)
     (\<lambda>x w. inv w \<and> locked op w \<and> x \<noteq> Inr False)"
  unfolding retryStillLatest_def rStore
proof (rule triple_bind [where B = "\<lambda>l w. inv w \<and> locked op w \<and> isLatestOperation op (ol_Items l)"])
  let ?P = "\<lambda>w. (inv w \<and> locked op w) \<and> latest op w"
  show "triple ?P (c_ListOperations C (or_UID (os_TargetRef (op_Spec op))) [])
      (\<lambda>x w. case x of Inl e \<Rightarrow> inv w \<and> locked op w \<and> (Inl e :: goerr + bool) \<noteq> Inr False
        | Inr l \<Rightarrow> inv w \<and> locked op w \<and> isLatestOperation op (ol_Items l))"
    by (rule triple_conseq [OF list_operations_triple [of ?P]]) (auto simp: isLatest_iff split: sum.splits)
qed (auto simp: triple_def)

lemma owned_triple:
  "triple (\<lambda>w. (inv w \<and> locked op w) \<and> (retry \<longrightarrow> latest op w)) (reconcileOwned r op ts retry lock) (\<lambda>_. inv)"
proof (cases retry)
  case True
  have "triple (\<lambda>w. (inv w \<and> locked op w) \<and> latest op w) (rc_bind (retryStillLatest r op lock) (\<lambda>b.
      if \<not> b then skipRetry r op else reconcileLockedOperation r op lock ts retry)) (\<lambda>_. inv)"
    by (rule try_conflict_triple(2) [where B = "\<lambda>b w. inv w \<and> locked op w", OF triple_conseq [OF still_latest_triple]])
      (auto intro: locked_triple skip_triple locked_operation_triple split: sum.splits)
  with True show ?thesis by (simp add: reconcileOwned_def cong: if_cong)
next
  case False
  then show ?thesis using locked_operation_triple by (simp add: reconcileOwned_def)
qed

lemma acquire_triple:
  "triple (\<lambda>w. pre op w \<and> (retry \<longrightarrow> latest op w)) (acquireLock r op)
     (\<lambda>x w. case x of Inl _ \<Rightarrow> inv w
        | Inr (lock, owned) \<Rightarrow> inv w \<and> (owned \<longrightarrow> locked op w \<and> (retry \<longrightarrow> latest op w)))"
proof (rule tripleI)
  fix w x w' assume P: "pre op w \<and> (retry \<longrightarrow> latest op w)" and run: "acquireLock r op w = (x, w')"
  let ?n = "opLockName r op"
  obtain y w1 where acq: "c_AcquireLock C (wantedLock r op) w = (y, w1)" by force
  note E = acquire_lock [OF acq]
  have name: "lock_Name (wantedLock r op) = ?n" and spec: "or_UID (lock_Holder (wantedLock r op)) = op_UID op"
    by (simp_all add: wantedLock_def)
  have L: "latest op w1 = latest op w" using E by (simp add: latest_def)
  have O1: "vo w1 (op_Name op) = Some op" using E P by (simp add: pre_def)
  have lockedI: "vl w1 ?n = Some l \<Longrightarrow> or_UID (lock_Holder l) = op_UID op \<Longrightarrow> locked op w1" for l
    using O1 by (auto simp: locked_def holds_lock_def opLockName_def)
  have inv1: "inv w1"
  proof (cases "\<exists>l. y = Inr (l, True)")
    case True
    then obtain l where "vl w ?n = None" "lock_Name l = ?n" "vl w1 = (vl w)(?n \<mapsto> l)" using E name by auto
    then show ?thesis using P E inv_create_lock by (simp add: inv_def pre_def)
  next
    case False
    then have "vl w1 = vl w" using E by (auto split: sum.splits prod.splits if_splits)
    then show ?thesis using P E by (simp add: inv_def pre_def)
  qed
  show "case x of Inl _ \<Rightarrow> inv w' | Inr (lock, owned) \<Rightarrow> inv w' \<and> (owned \<longrightarrow> locked op w' \<and> (retry \<longrightarrow> latest op w'))"
  proof (cases y)
    case (Inl e)
    then show ?thesis using run acq inv1 by (auto simp: acquireLock_def rStore io_bind_def)
  next
    case (Inr lc)
    obtain l created where lc: "lc = (l, created)" by force
    show ?thesis
    proof (cases created)
      case True
      then obtain k where "l = Some k" "or_UID (lock_Holder k) = op_UID op" "vl w1 ?n = Some k"
        using E Inr lc name spec by auto
      then show ?thesis using run acq inv1 Inr lc True lockedI L P by (auto simp: acquireLock_def rStore io_bind_def)
    next
      case False
      then obtain k where "l = Some k" "vl w1 ?n = Some k" using E Inr lc name by auto
      then show ?thesis using run acq inv1 Inr lc False lockedI L P
        by (auto simp: acquireLock_def rStore io_bind_def lockBelongsToOperation_def)
    qed
  qed
qed

lemma release_terminal_triple:
  "triple (\<lambda>w. pre op w \<and> set ts = {t \<in> ran (vt w). task_OpUID t = op_UID op}) (releaseTerminalLock r op ts) (\<lambda>_. inv)"
  (is "triple ?P _ _")
proof -
  obtain p q where pq: "activeTasks ts = (p, q)" by force
  have P: "?P w \<Longrightarrow> inv w" for w by (blast dest: pre_inv)
  let ?B = "\<lambda>w. inv w \<and> idle (vt w) (op_UID op)"
  have "triple ?P (io_try (c_GetLock C (opLockName r op) [])
        (\<lambda>err. if IsNotFound err then rc_ok noResult else rc_fail err)
        (\<lambda>lock. if or_UID (lock_Holder lock) \<noteq> op_UID op then rc_ok noResult
                else rc_bind (c_ReleaseLock C (lock_Name lock) (lock_UID lock) (op_UID op)) (\<lambda>_. rc_ok noResult))) (\<lambda>_. inv)"
    if "length p + length q = 0"
  proof (rule triple_try [where A = "\<lambda>_. inv" and B = "\<lambda>_. ?B"])
    show "triple ?P (c_GetLock C (opLockName r op) []) (\<lambda>x w. case x of Inl e \<Rightarrow> inv w | Inr l \<Rightarrow> ?B w)"
    proof (rule tripleI)
      fix w x w' assume "?P w" "c_GetLock C (opLockName r op) [] w = (x, w')"
      then have "w' = w" "?B w" using get_lock P no_active_idle [OF pq that] by blast+
      then show "case x of Inl e \<Rightarrow> inv w' | Inr l \<Rightarrow> ?B w'" by (simp split: sum.split)
    qed
  qed (auto intro: rc_release_triple rc_triple)
  then show ?thesis unfolding releaseTerminalLock_def pq Let_def rStore
    using rc_triple(2) [of ?P, OF P] by simp
qed

lemma operation_triple:
  "triple (\<lambda>w. pre op w \<and> set ts = {t \<in> ran (vt w). task_OpUID t = op_UID op}) (reconcileOperation r op ts) (\<lambda>_. inv)"
  (is "triple ?P _ _")
proof -
  let ?retry = "os_RetryGeneration (op_Spec op) > ost_ObservedRetryGeneration (op_Status op)"
  let ?u = "or_UID (os_TargetRef (op_Spec op))"
  have own: "triple (\<lambda>w. pre op w \<and> (?retry \<longrightarrow> latest op w)) (rc_bind (acquireLock r op) (\<lambda>(lock, owned).
      if \<not> owned then rc_ok (requeueAfter defaultWaitRequeue) else reconcileOwned r op ts ?retry lock)) (\<lambda>_. inv)"
    by (rule try_conflict_triple(2) [where B = "\<lambda>y w. case y of (lock, owned) \<Rightarrow> inv w \<and> (owned \<longrightarrow> locked op w \<and> (?retry \<longrightarrow> latest op w))",
          OF acquire_triple])
      (auto intro!: triple_pre [OF owned_triple] rc_triple split: prod.splits)
  have ok: "\<And>w. pre op w \<and> (?retry \<longrightarrow> latest op w) \<Longrightarrow> pre op w" by blast
  have body: "triple (\<lambda>w. pre op w \<and> set (ol_Items l) = {o1 \<in> ran (vo w). ?u = [] \<or> or_UID (os_TargetRef (op_Spec o1)) = ?u})
     (if ?retry \<and> \<not> isLatestOperation op (ol_Items l) then skipRetry r op
        else if \<not> isEarliestRunnable op (ol_Items l) then rc_ok (requeueAfter defaultWaitRequeue)
        else if operationCanceledBeforeStart op ts
        then finish r op None OperationCancelled OperationReasonCancelledByRequest m
        else rc_bind (acquireLock r op) (\<lambda>(lock, owned).
          if \<not> owned then rc_ok (requeueAfter defaultWaitRequeue)
          else reconcileOwned r op ts ?retry lock)) (\<lambda>_. inv)" for l :: "Operation object_list" and m
  proof (cases "?retry \<and> \<not> isLatestOperation op (ol_Items l)")
    case True
    then show ?thesis by (auto intro!: triple_pre [OF skip_triple])
  next
    case False
    then show ?thesis
      by (auto simp: isLatest_iff intro!: triple_pre [OF own] triple_pre [OF finish_triple] triple_pre [OF rc_pre_triple(1)])
  qed
  have "triple ?P (rc_bind (c_ListOperations C ?u []) (\<lambda>l.
      if ?retry \<and> \<not> isLatestOperation op (ol_Items l) then skipRetry r op
        else if \<not> isEarliestRunnable op (ol_Items l) then rc_ok (requeueAfter defaultWaitRequeue)
        else if operationCanceledBeforeStart op ts
        then finish r op None OperationCancelled OperationReasonCancelledByRequest m
        else rc_bind (acquireLock r op) (\<lambda>(lock, owned).
          if \<not> owned then rc_ok (requeueAfter defaultWaitRequeue)
          else reconcileOwned r op ts ?retry lock))) (\<lambda>_. inv)" for m
    by (rule try_conflict_triple(2) [OF triple_conseq [OF list_operations_triple [of "pre op"]] body])
      (auto dest: pre_inv split: sum.splits)
  then show ?thesis unfolding reconcileOperation_def rStore Let_def using release_terminal_triple by simp
qed

theorem Reconcile_triple: "triple inv (Reconcile r name) (\<lambda>_. inv)"
proof -
  let ?B = "\<lambda>x w. case x of (op, ts) \<Rightarrow> pre op w \<and> set ts = {t \<in> ran (vt w). task_OpUID t = op_UID op}"
  have load: "triple inv (loadOperation r name) (\<lambda>x w. case x of Inl e \<Rightarrow> inv w | Inr y \<Rightarrow> ?B y w)"
  proof -
    have get: "triple inv (c_GetOperation C name []) (\<lambda>x w. inv w \<and> (\<forall>op. x = Inr op \<longrightarrow> pre op w))"
    proof (rule tripleI)
      fix w x w' assume w: "inv w" and run: "c_GetOperation C name [] w = (x, w')"
      then show "inv w' \<and> (\<forall>op. x = Inr op \<longrightarrow> pre op w')"
        using get_operation [OF run] engine_invD(1) [OF w [unfolded inv_def]] by (auto simp: pre_def)
    qed
    have lst: "triple (pre op) (io_bind (c_ListTasksByOperationUID C (op_UID op) []) (\<lambda>l. io_ret (op, ol_Items l)))
        (\<lambda>x w. case x of Inl e \<Rightarrow> inv w | Inr y \<Rightarrow> ?B y w)" for op
      by (rule triple_bind [where B = "\<lambda>l w. pre op w \<and> set (ol_Items l) = {t \<in> ran (vt w). task_OpUID t = op_UID op}",
            OF triple_conseq [OF list_tasks_triple [of "pre op"]]])
        (auto intro: triple_pure dest: pre_inv split: sum.splits)
    show ?thesis unfolding loadOperation_def rStore
      by (rule triple_bind [where B = pre, OF triple_conseq [OF get] lst]) (auto split: sum.splits)
  qed
  have "triple inv (io_try (loadOperation r name)
      (\<lambda>err. if IsNotFound err then rc_ok noResult else rc_fail err) (\<lambda>(op, tasks). reconcileOperation r op tasks)) (\<lambda>_. inv)"
    by (rule triple_try [OF load]) (auto intro: rc_triple operation_triple split: prod.splits)
  then show ?thesis by (simp add: Reconcile_def store)
qed

end

end
