(* ===== verification/Op_Frame.thy ===== *)
theory Op_Frame
  imports Op_Controller
begin

text \<open>
  Frame rules of the controller: a preorder between worlds that every call of the store respects
  is respected by every handler, whatever the handler decides to do.  The relation may describe
  the changes of other clients as well, so these rules carry properties through interference.
\<close>

definition store_keeps :: "('w \<Rightarrow> 'w \<Rightarrow> bool) \<Rightarrow> 'w Store \<Rightarrow> bool" where
  "store_keeps R C \<longleftrightarrow>
     (\<forall>n v. io_keeps R (c_GetOperation C n v)) \<and> (\<forall>u v. io_keeps R (c_ListOperations C u v)) \<and>
     (\<forall>n u v st. io_keeps R (c_UpdateOperationStatus C n u v st)) \<and>
     (\<forall>n v. io_keeps R (c_GetTask C n v)) \<and> (\<forall>t. io_keeps R (c_CreateTask C t)) \<and>
     (\<forall>u v. io_keeps R (c_ListTasksByOperationUID C u v)) \<and>
     (\<forall>n u v x. io_keeps R (c_CancelPendingTask C n u v x)) \<and>
     (\<forall>n u v. io_keeps R (c_TimeoutRunningTask C n u v)) \<and>
     (\<forall>l. io_keeps R (c_AcquireLock C l)) \<and> (\<forall>n v. io_keeps R (c_GetLock C n v)) \<and>
     (\<forall>n u h. io_keeps R (c_ReleaseLock C n u h))"

locale store_frame =
  fixes R :: "'w \<Rightarrow> 'w \<Rightarrow> bool" and r :: "'w OperationReconciler" and C :: "'w Store"
  assumes pre: "preorder_rel R"
    and calls: "store_keeps R C"
    and store: "r_Store r = Some C"
    and clock: "reconciler_now r w = (t, w') \<Longrightarrow> R w w'"
begin

lemma rStore: "rStore r = C" by (simp add: store)

lemma call_keeps:
  "io_keeps R (c_GetOperation C n v)" "io_keeps R (c_ListOperations C n v)"
  "io_keeps R (c_UpdateOperationStatus C n u v st)" "io_keeps R (c_GetTask C n v)" "io_keeps R (c_CreateTask C task)"
  "io_keeps R (c_ListTasksByOperationUID C n v)" "io_keeps R (c_CancelPendingTask C n u v x)"
  "io_keeps R (c_TimeoutRunningTask C n u v)" "io_keeps R (c_AcquireLock C lk)" "io_keeps R (c_GetLock C n v)"
  "io_keeps R (c_ReleaseLock C n u v)"
  using calls unfolding store_keeps_def by simp_all

lemma with_now_keeps: "(\<And>t. io_keeps R (f t)) \<Longrightarrow> io_keeps R (with_now r f)"
  using clock pre unfolding io_keeps_def preorder_rel_def with_now_def
  by (metis (mono_tags, lifting) case_prod_conv surj_pair)

lemma rc_keeps: "io_keeps R (rc_ok x)" "io_keeps R (rc_fail e)" "io_keeps R (rc_both x e)" "io_keeps R (conflictResult e)"
  using pre by (auto simp: io_keeps_def preorder_rel_def rc_ok_def rc_fail_def rc_both_def conflictResult_def)

lemma rc_bind_keeps: "io_keeps R m \<Longrightarrow> (\<And>x. io_keeps R (f x)) \<Longrightarrow> io_keeps R (rc_bind m f)"
  unfolding rc_bind_def using io_keeps_try [OF pre] rc_keeps by blast

lemma result_keeps: "io_keeps R m \<Longrightarrow> io_keeps R (resultForConflict m)"
  unfolding resultForConflict_def by (rule io_keeps_try [OF pre]) (auto simp: rc_keeps)

lemmas pure_keeps = io_keeps_pure [OF pre]
lemmas keeps = call_keeps with_now_keeps rc_keeps rc_bind_keeps result_keeps pure_keeps
  io_keeps_try [OF pre] io_keeps_bind [OF pre] io_keeps_forM [OF pre]

lemma cancel_keeps: "io_keeps R (cancelPending r ts reason)"
proof -
  have "io_keeps R (cancel_loop r ts reason ch)" for ch
    by (induction ts arbitrary: ch) (auto simp: rStore pure_keeps simp del: io_ret_eq intro!: keeps)
  then show ?thesis by (simp add: cancelPending_def)
qed

lemma finish_keeps: "io_keeps R (finish r op lock phase reason message)"
proof -
  have "io_keeps R (finishUpdate r op lock phase reason message)"
    unfolding finishUpdate_def rStore by (auto intro!: keeps split: option.splits)
  then show ?thesis unfolding finish_def rStore
    by (auto intro!: keeps split: prod.splits sum.splits current.splits)
qed

lemma fail_keeps: "io_keeps R (failInvalidFacts r op lock ts cause)"
  unfolding failInvalidFacts_def Let_def
  by (auto intro!: keeps finish_keeps cancel_keeps split: prod.splits)

lemma create_keeps: "io_keeps R (createAttempts r op facts ts)"
proof -
  have "io_keeps R (create_loop r tasks ch)" for tasks ch
    by (induction tasks arbitrary: ch) (auto simp: rStore pure_keeps simp del: io_ret_eq intro!: keeps)
  then show ?thesis unfolding createAttempts_def by (auto intro!: keeps split: option.splits sum.splits)
qed

lemma running_keeps: "io_keeps R (reconcileRunningOperation r op lock ts)"
proof -
  have "io_keeps R (reconcileRunningStep r op lock ts facts)" for facts
    unfolding reconcileRunningStep_def
    by (auto intro!: keeps create_keeps fail_keeps finish_keeps split: prod.splits goerr.splits)
  moreover have "io_keeps R (reconcileCancellation r op lock ts)"
    unfolding reconcileCancellation_def
    by (auto intro!: keeps cancel_keeps fail_keeps finish_keeps split: sum.splits current.splits)
  ultimately show ?thesis unfolding reconcileRunningOperation_def
    by (auto intro!: keeps cancel_keeps fail_keeps finish_keeps split: sum.splits current.splits)
qed

lemma locked_keeps: "io_keeps R (reconcileLockedOperation r op lock ts retry)"
proof -
  have "io_keeps R (reconcileDeadline r op lock ts now)" for now
    unfolding reconcileDeadline_def Let_def rStore
    by (auto intro!: keeps cancel_keeps fail_keeps finish_keeps split: sum.splits current.splits)
  then show ?thesis unfolding reconcileLockedOperation_def rStore
    by (auto intro!: keeps fail_keeps running_keeps)
qed

lemma operation_keeps: "io_keeps R (reconcileOperation r op ts)"
proof -
  have acquire: "io_keeps R (acquireLock r op)"
    unfolding acquireLock_def rStore by (auto intro!: keeps split: prod.splits option.splits)
  have skip: "io_keeps R (skipRetry r op)" unfolding skipRetry_def rStore by (auto intro!: keeps)
  have "io_keeps R (retryStillLatest r op lock)" for lock
    unfolding retryStillLatest_def rStore by (auto intro!: keeps split: option.splits)
  then have owned: "io_keeps R (reconcileOwned r op ts retry lock)" for retry lock
    unfolding reconcileOwned_def by (auto intro!: keeps locked_keeps skip)
  have "io_keeps R (releaseTerminalLock r op ts)"
    unfolding releaseTerminalLock_def rStore by (auto intro!: keeps split: prod.splits)
  then show ?thesis unfolding reconcileOperation_def rStore Let_def
    by (auto intro!: keeps acquire skip owned finish_keeps split: prod.splits)
qed

lemma Reconcile_keeps: "io_keeps R (Reconcile r n)"
proof -
  have "io_keeps R (loadOperation r n)"
    unfolding loadOperation_def rStore by (auto intro!: keeps)
  then show ?thesis unfolding Reconcile_def store
    by (auto intro!: keeps operation_keeps split: prod.splits)
qed

end

subsection \<open>The calls of the store\<close>

text \<open>If every write of the three storages respects the relation, so does every method of the store.\<close>

definition storage_keeps :: "('w \<Rightarrow> 'w \<Rightarrow> bool) \<Rightarrow> ('a, 'w) StandardStorage \<Rightarrow> bool" where
  "storage_keeps R S \<longleftrightarrow> (\<forall>x. io_keeps R (st_Create S x)) \<and> (\<forall>n x. io_keeps R (st_Update S n x)) \<and>
     (\<forall>n u. io_keeps R (st_Delete S n u))"

locale storages_frame =
  fixes R :: "'w \<Rightarrow> 'w \<Rightarrow> bool" and s :: "'w store"
  assumes pre: "preorder_rel R"
    and storages: "storage_keeps R (s_operations s)" "storage_keeps R (s_tasks s)" "storage_keeps R (s_locks s)"
    and clock: "s_now s w = (t, w') \<Longrightarrow> R w w'"
begin

lemma write_keeps:
  "io_keeps R (st_Create (s_operations s) op)" "io_keeps R (st_Update (s_operations s) n op)"
  "io_keeps R (st_Delete (s_operations s) n u)"
  "io_keeps R (st_Create (s_tasks s) task)" "io_keeps R (st_Update (s_tasks s) n task)"
  "io_keeps R (st_Delete (s_tasks s) n u)"
  "io_keeps R (st_Create (s_locks s) lk)" "io_keeps R (st_Update (s_locks s) n lk)"
  "io_keeps R (st_Delete (s_locks s) n u)"
  using storages unfolding storage_keeps_def by simp_all

lemma now_keeps: "io_keeps R (io_now s)"
  using clock by (auto simp: io_keeps_def io_now_def Let_def split: prod.splits)

lemmas keeps = write_keeps now_keeps io_keeps_pure [OF pre] io_keeps_try [OF pre] io_keeps_bind [OF pre] io_keeps_forM [OF pre]

lemma updateOperation_keeps: "(\<And>op. io_keeps R (mutate op)) \<Longrightarrow> io_keeps R (updateOperation s n u v mutate)"
  unfolding updateOperation_def by (auto intro!: keeps)

lemma UpdateOperationStatus_keeps: "io_keeps R (UpdateOperationStatus s n u v st)"
  unfolding UpdateOperationStatus_def by (auto intro!: keeps updateOperation_keeps)

lemma UpdateOperationControl_keeps: "io_keeps R (UpdateOperationControl s n u v f)"
  unfolding UpdateOperationControl_def by (auto intro!: keeps updateOperation_keeps split: option.splits)

lemma UpdateTaskStatus_keeps: "io_keeps R (UpdateTaskStatus s n u v st)"
  unfolding UpdateTaskStatus_def by (auto intro!: keeps)

lemma updateTask_keeps: "io_keeps R (updateTask s n u v f)"
  unfolding updateTask_def by (auto intro!: keeps)

lemma CreateOperation_keeps: "io_keeps R (CreateOperation s op)"
  unfolding CreateOperation_def by (auto intro!: keeps split: option.splits)

lemma AcquireLock_keeps: "io_keeps R (AcquireLock s lk)"
  unfolding AcquireLock_def GetLock_def by (auto intro!: keeps)

lemma ReleaseLock_keeps: "io_keeps R (ReleaseLock s n u h)"
  unfolding ReleaseLock_def GetLock_def by (auto intro!: keeps)

lemma CleanupByTargetUID_keeps: "io_keeps R (CleanupByTargetUID am s u)"
  unfolding CleanupByTargetUID_def ListOperations_def Let_def verifyTerminalHistory_def getOperationStrong_def
    ListTasksByOperationUID_def getTaskStrong_def purgeHistory_def deleteObject_def deleteStaleLocks_def listLocks_def
  by (auto intro!: keeps)

lemma storeInterface_keeps: "store_keeps R (storeInterface am s)"
  unfolding store_keeps_def storeInterface_def
  by (auto intro!: keeps UpdateOperationStatus_keeps AcquireLock_keeps ReleaseLock_keeps updateTask_keeps
      simp: GetOperation_def ListOperations_def Let_def GetTask_def CreateTask_def ListTasksByOperationUID_def
        CancelPendingTask_def TimeoutRunningTask_def updateTaskTerminal_def GetLock_def)

end

end
