(* ===== verification/Op_Engine.thy ===== *)
theory Op_Engine
  imports Op_Safety Op_Frame
begin

text \<open>
  The store of \<^verbatim>\<open>pkg/models/operationv2\<close> implements the contract of the controller, and the engine as a
  whole, controller, agents and API handlers stepping in any order, keeps its invariant.
\<close>

subsection \<open>The storages of the store\<close>

text \<open>
  Three collections of one world, each with the contract of \<open>quiet_storage\<close>; the strong storages read
  the same collections.  \<open>am\<close> parses the field selectors that the store prints, and an empty selector
  selects everything.
\<close>

locale quiet_store =
  fixes am :: apimachinery and s :: "'w store"
    and opSize :: "Operation \<Rightarrow> nat option" and taskSize :: "OperationTask \<Rightarrow> nat option"
    and vo :: "'w \<Rightarrow> op_map \<times> string set" and vt :: "'w \<Rightarrow> task_map \<times> string set"
    and vl :: "'w \<Rightarrow> lock_map \<times> string set"
  assumes ops: "quiet_storage (operationStrategy opSize) (s_operations s) vo"
    and tasks: "quiet_storage (taskStrategy taskSize) (s_tasks s) vt"
    and locks: "quiet_storage lockStrategy (s_locks s) vl"
    and opsStrong: "rest_storage (operationStrategy opSize) (s_operationsStrong s) vo"
    and tasksStrong: "rest_storage (taskStrategy taskSize) (s_tasksStrong s) vt"
    and locksStrong: "rest_storage lockStrategy (s_locksStrong s) vl"
    and frame_o: "writes_keep (s_operations s) vt" "writes_keep (s_operations s) vl"
    and frame_t: "writes_keep (s_tasks s) vo" "writes_keep (s_tasks s) vl"
    and frame_l: "writes_keep (s_locks s) vo" "writes_keep (s_locks s) vt"
    and now: "s_now s w = (t, w') \<Longrightarrow> vo w' = vo w \<and> vt w' = vt w \<and> vl w' = vl w"
    and parseLabels: "am_parseLabels am [] = Inr []"
    and parseFields: "am_parseFields am [] = Inr []"
      "k = ''spec.targetRef.uid'' \<or> k = ''spec.operationRef.uid'' \<Longrightarrow>
         am_parseFields am (am_oneTermEqual am k v) = Inr [(k, True, v)]"
begin

lemma io_now_keeps: "io_now s w = (r, w') \<Longrightarrow> (\<exists>t. r = Inr t) \<and> vo w' = vo w \<and> vt w' = vt w \<and> vl w' = vl w"
  using now by (auto simp: io_now_def Let_def split: prod.splits)

lemma list_options:
  assumes "internalListOptions am (empty_ListOptions\<lparr>lo_ResourceVersion := [], lo_FieldSelector := sel\<rparr>) = Inr io"
    and "am_parseFields am sel = Inr fs"
  shows "io_FieldSelector io = fs \<and> io_LabelSelector io = [] \<and> io_ResourceVersion io = [] \<and> io_Limit io = 0 \<and> io_Continue io = []"
  using assms parseLabels by (auto simp: internalListOptions_def empty_ListOptions_def Let_def split: sum.splits option.splits)

lemma list_operations:
  assumes "ListOperations am s u [] w = (r, w')"
  shows "w' = w \<and> (\<forall>l. r = Inr l \<longrightarrow>
    set (ol_Items l) = {op \<in> ran (fst (vo w)). u = [] \<or> or_UID (os_TargetRef (op_Spec op)) = u})"
proof -
  let ?sel = "if u \<noteq> [] then am_oneTermEqual am ''spec.targetRef.uid'' u else []"
  let ?fs = "if u \<noteq> [] then [(''spec.targetRef.uid'', True, u)] else []"
  let ?io = "internalListOptions am (empty_ListOptions\<lparr>lo_ResourceVersion := [], lo_FieldSelector := ?sel\<rparr>)"
  have p: "am_parseFields am ?sel = Inr ?fs" using parseFields by simp
  have m: "matchesFields ?fs (attrsForOperation op) \<longleftrightarrow> u = [] \<or> or_UID (os_TargetRef (op_Spec op)) = u" for op
    by (simp add: matchesFields_def attrsForOperation_def)
  have eq: "ListOperations am s u [] w = io_bind (io_of ?io) (\<lambda>internal. io_read (st_List (s_operationsStrong s) internal)) w"
    by (simp add: ListOperations_def Let_def)
  show ?thesis
  proof (cases ?io)
    case (Inl e)
    then show ?thesis using assms eq by (auto simp: io_bind_def)
  next
    case (Inr io)
    then have run: "(r, w') = (st_List (s_operationsStrong s) io w, w)"
      using assms eq by (auto simp: io_bind_def)
    have "set (ol_Items l) = {op \<in> ran (fst (vo w)). u = [] \<or> or_UID (os_TargetRef (op_Spec op)) = u}" if "r = Inr l" for l
      using rest_storage.list_content [OF opsStrong, of io w l] list_options [OF Inr p] run that m by auto
    then show ?thesis using run by blast
  qed
qed

lemma list_tasks:
  assumes "ListTasksByOperationUID am s u [] w = (r, w')"
  shows "w' = w \<and> (\<forall>l. r = Inr l \<longrightarrow> set (ol_Items l) = {t \<in> ran (fst (vt w)). task_OpUID t = u})"
proof -
  let ?sel = "am_oneTermEqual am ''spec.operationRef.uid'' u"
  let ?io = "internalListOptions am (empty_ListOptions\<lparr>lo_ResourceVersion := [], lo_FieldSelector := ?sel\<rparr>)"
  have m: "matchesFields [(''spec.operationRef.uid'', True, u)] (attrsForTask t) \<longleftrightarrow> task_OpUID t = u" for t
    by (simp add: matchesFields_def attrsForTask_def)
  have eq: "ListTasksByOperationUID am s u [] w = io_bind (io_of ?io) (\<lambda>internal. io_read (st_List (s_tasksStrong s) internal)) w"
    by (simp add: ListTasksByOperationUID_def)
  show ?thesis
  proof (cases ?io)
    case (Inl e)
    then show ?thesis using assms eq by (auto simp: io_bind_def)
  next
    case (Inr io)
    then have run: "(r, w') = (st_List (s_tasksStrong s) io w, w)"
      using assms eq by (auto simp: io_bind_def)
    have "set (ol_Items l) = {t \<in> ran (fst (vt w)). task_OpUID t = u}" if "r = Inr l" for l
      using rest_storage.list_content [OF tasksStrong, of io w l] list_options [OF Inr parseFields(2)] run that m by auto
    then show ?thesis using run by blast
  qed
qed

lemma op_get: "st_Get (s_operations s) n [] w = Inr op \<Longrightarrow> fst (vo w) n = Some op"
  by (rule rest_storage.get_found [OF quiet_storage.axioms(1) [OF ops]])

lemma task_get: "st_Get (s_tasks s) n [] w = Inr t \<Longrightarrow> fst (vt w) n = Some t"
  by (rule rest_storage.get_found [OF quiet_storage.axioms(1) [OF tasks]])

lemmas op_update_effect = quiet_storage.update_effect [OF ops, unfolded operationStrategy_simps]
lemmas task_update_effect = quiet_storage.update_effect [OF tasks, unfolded taskStrategy_simps]

text \<open>An update of an operation by a mutator that keeps the metadata.\<close>

lemma update_operation:
  assumes run: "updateOperation s n u rv mutate w = (r, w')"
    and mut: "\<And>op w x w1. fst (vo w) n = Some op \<Longrightarrow> mutate op w = (x, w1) \<Longrightarrow>
      vo w1 = vo w \<and> vt w1 = vt w \<and> vl w1 = vl w \<and> (\<forall>op'. x = Inr op' \<longrightarrow> op_Meta op' = op_Meta op \<and> Q op op')"
  shows "vt w' = vt w \<and> vl w' = vl w \<and>
    (case r of Inl e \<Rightarrow> vo w' = vo w
     | Inr y \<Rightarrow> \<exists>old op' rv'. fst (vo w) n = Some old \<and> (u \<noteq> [] \<longrightarrow> op_UID old = u) \<and> (rv \<noteq> [] \<longrightarrow> op_RV old = rv) \<and>
         Q old op' \<and> op_Meta op' = op_Meta old \<and>
         operation_ValidateUpdate (operation_PrepareForUpdate op' old) old = [] \<and>
         y = stored_update (operationStrategy opSize) rv' op' old \<and> vo w' = ((fst (vo w))(n \<mapsto> y), snd (vo w)))"
proof (cases "st_Get (s_operations s) n [] w")
  case (Inl e)
  then have "r = Inl e" "w' = w" using run by (simp_all add: updateOperation_def io_bind_def)
  then show ?thesis by simp
next
  case (Inr op)
  note op = op_get [OF Inr]
  obtain x w1 where m: "mutate op w = (x, w1)" by force
  note M = mut [OF op m]
  show ?thesis
  proof (cases "u \<noteq> [] \<and> op_UID op \<noteq> u \<or> rv \<noteq> [] \<and> op_RV op \<noteq> rv \<or> (\<exists>e. x = Inl e)")
    case True
    then show ?thesis using run Inr m M
      by (auto simp: updateOperation_def io_bind_def io_try_def split: if_splits)
  next
    case False
    then obtain op' where x: "x = Inr op'" by (cases x) auto
    then have keep: "op'\<lparr>op_Meta := (op_Meta op')\<lparr>m_ResourceVersion := op_RV op\<rparr>\<rparr> = op'" using M by simp
    have upd: "st_Update (s_operations s) n op' w1 = (r, w')"
      using run False Inr m x keep by (auto simp: updateOperation_def io_bind_def io_try_def split: if_splits)
    then have F: "vt w' = vt w \<and> vl w' = vl w" using writes_keepD(2) [OF frame_o(1) upd] writes_keepD(2) [OF frame_o(2) upd] M by simp
    show ?thesis using op_update_effect [OF upd] F M x False op by (cases r) auto
  qed
qed

text \<open>An update of a task that keeps metadata and spec.\<close>

lemma task_update:
  assumes upd: "st_Update (s_tasks s) n x w1 = (r, w')" and old: "fst (vt w) n = Some old"
    and x: "task_Meta x = task_Meta old"
    and same: "vo w1 = vo w \<and> vt w1 = vt w \<and> vl w1 = vl w"
  shows "vo w' = vo w \<and> vl w' = vl w \<and>
    (case r of Inl e \<Rightarrow> vt w' = vt w
     | Inr y \<Rightarrow> task_updated old y \<and> task_Status y = task_Status x \<and> task_UID y = task_UID old \<and>
         vt w' = ((fst (vt w))(n \<mapsto> y), snd (vt w)))"
proof (cases r)
  case (Inl e)
  then show ?thesis using task_update_effect [OF upd] same writes_keepD(2) [OF frame_t(1) upd] writes_keepD(2) [OF frame_t(2) upd] by simp
next
  case (Inr y)
  then obtain rv where y: "y = stored_update (taskStrategy taskSize) rv x old"
      and val: "task_ValidateUpdate (task_PrepareForUpdate x old) old = []"
      and vt': "vt w' = ((fst (vt w))(n \<mapsto> y), snd (vt w))"
    using task_update_effect [OF upd] same old by auto
  have "task_updated old y \<and> task_Status y = task_Status x \<and> task_UID y = task_UID old"
    using stored_update_task [OF val, of taskSize rv] x
    by (simp add: y task_updated_def stored_update_def task_PrepareForUpdate_def)
  then show ?thesis using Inr vt' same writes_keepD(2) [OF frame_t(1) upd] writes_keepD(2) [OF frame_t(2) upd] by simp
qed

lemma update_task_terminal:
  assumes run: "updateTaskTerminal s n u rv expected phase reason w = (r, w')" and ph: "TaskPhase_IsTerminal phase"
  shows "vo w' = vo w \<and> vl w' = vl w \<and>
    (case r of Inl e \<Rightarrow> vt w' = vt w
     | Inr y \<Rightarrow> \<exists>old. fst (vt w) n = Some old \<and> task_Phase old = expected \<and> task_updated old y \<and> task_Phase y = phase \<and>
         vt w' = ((fst (vt w))(n \<mapsto> y), snd (vt w)))"
proof (cases "st_Get (s_tasks s) n [] w")
  case (Inl e)
  then have "r = Inl e" "w' = w" using run by (simp_all add: updateTaskTerminal_def updateTask_def io_bind_def)
  then show ?thesis by simp
next
  case (Inr t)
  note t = task_get [OF Inr]
  show ?thesis
  proof (cases "u \<noteq> [] \<and> task_UID t \<noteq> u \<or> rv \<noteq> [] \<and> task_RV t \<noteq> rv \<or> task_Phase t \<noteq> expected")
    case True
    then show ?thesis using run Inr
      by (auto simp: updateTaskTerminal_def updateTask_def setTerminal_def io_bind_def split: if_splits)
  next
    case False
    let ?t1 = "t\<lparr>task_Status := (task_Status t)\<lparr>tst_Phase := phase,
             tst_Result := Some \<lparr>tr_Reason = reason, tr_Message = [], tr_Outputs = []\<rparr>\<rparr>\<rparr>"
    obtain x w1 where w1: "vo w1 = vo w \<and> vt w1 = vt w \<and> vl w1 = vl w" and upd: "st_Update (s_tasks s) n x w1 = (r, w')"
      and x: "task_Meta x = task_Meta t" "task_Phase x = phase"
    proof (cases "tst_FinishedAt (task_Status t)")
      case None
      obtain now w1 where w1: "io_now s w = (Inr now, w1)" "vo w1 = vo w \<and> vt w1 = vt w \<and> vl w1 = vl w"
        using io_now_keeps by (metis surj_pair)
      have "st_Update (s_tasks s) n (?t1\<lparr>task_Status := (task_Status ?t1)\<lparr>tst_FinishedAt := Some now\<rparr>\<rparr>) w1 = (r, w')"
        using run Inr False None w1 ph
        by (auto simp: updateTaskTerminal_def updateTask_def setTerminal_def io_bind_def split: if_splits)
      then show ?thesis using that w1 by simp
    next
      case (Some d)
      have "st_Update (s_tasks s) n ?t1 w = (r, w')"
        using run Inr False Some
        by (auto simp: updateTaskTerminal_def updateTask_def setTerminal_def io_bind_def split: if_splits)
      then show ?thesis using that [of w ?t1] by simp
    qed
    show ?thesis using task_update [OF upd t x(1) w1] x(2) t False by (cases r) auto
  qed
qed

lemma update_task_status:
  assumes run: "UpdateTaskStatus s n u rv st w = (r, w')"
  shows "vo w' = vo w \<and> vl w' = vl w \<and>
    (case r of Inl e \<Rightarrow> vt w' = vt w
     | Inr y \<Rightarrow> \<exists>old now. fst (vt w) n = Some old \<and> (u \<noteq> [] \<longrightarrow> task_UID old = u) \<and> (rv \<noteq> [] \<longrightarrow> task_RV old = rv) \<and>
         validateTaskStatus st = None \<and> validateAgentTaskTransition old st = None \<and>
         task_updated old y \<and> task_Status y = stampTaskStatus now st \<and>
         vt w' = ((fst (vt w))(n \<mapsto> y), snd (vt w)))"
proof (cases "validateTaskStatus st = None \<and> (\<exists>t. st_Get (s_tasks s) n [] w = Inr t \<and>
    (u \<noteq> [] \<longrightarrow> task_UID t = u) \<and> (rv \<noteq> [] \<longrightarrow> task_RV t = rv) \<and> validateAgentTaskTransition t st = None)")
  case True
  then obtain t where get: "st_Get (s_tasks s) n [] w = Inr t" and t: "fst (vt w) n = Some t"
    "u \<noteq> [] \<longrightarrow> task_UID t = u" "rv \<noteq> [] \<longrightarrow> task_RV t = rv" "validateAgentTaskTransition t st = None"
    using task_get by blast
  obtain now w1 where w1: "io_now s w = (Inr now, w1)" "vo w1 = vo w \<and> vt w1 = vt w \<and> vl w1 = vl w"
    using io_now_keeps by (metis surj_pair)
  have upd: "st_Update (s_tasks s) n (t\<lparr>task_Status := stampTaskStatus now st\<rparr>) w1 = (r, w')"
    using run get t w1 True by (auto simp: UpdateTaskStatus_def io_bind_def split: if_splits)
  show ?thesis using task_update [OF upd t(1) _ w1(2)] t True by (cases r) auto
next
  case False
  have "(\<exists>e. r = Inl e) \<and> w' = w"
  proof (cases "st_Get (s_tasks s) n [] w")
    case (Inl e)
    then show ?thesis using run [symmetric] by (auto simp: UpdateTaskStatus_def io_bind_def split: option.splits)
  next
    case (Inr t)
    then show ?thesis using run False by (auto simp: UpdateTaskStatus_def io_bind_def split: option.splits if_splits)
  qed
  then show ?thesis by auto
qed

lemma update_operation_status:
  assumes run: "UpdateOperationStatus s n u rv st w = (r, w')"
  shows "vt w' = vt w \<and> vl w' = vl w \<and>
    (case r of Inl e \<Rightarrow> vo w' = vo w
     | Inr y \<Rightarrow> \<exists>old. fst (vo w) n = Some old \<and> (u \<noteq> [] \<longrightarrow> op_UID old = u) \<and> (rv \<noteq> [] \<longrightarrow> op_RV old = rv) \<and>
         op_updated old y \<and> op_Spec y = op_Spec old \<and> (\<exists>t. op_Status y = stampOperationStatus t st) \<and>
         op_phase_change (op_Phase old) (ost_Phase st) \<and> vo w' = ((fst (vo w))(n \<mapsto> y), snd (vo w)))"
proof (cases "validateStatusMessage (ost_Message st)")
  case (Some e)
  then have "r = Inl e" "w' = w" using run by (simp_all add: UpdateOperationStatus_def io_bind_def)
  then show ?thesis by simp
next
  case None
  define mutate :: "Operation \<Rightarrow> ('w, Operation) io" where
    "mutate = (\<lambda>op. io_bind (io_check (case ValidateOperationPhaseTransition (op_Phase op) (ost_Phase st) of
                     Some err \<Rightarrow> if \<not> statusRetryReopen op st then Some err else None | None \<Rightarrow> None))
           (\<lambda>_. io_bind (io_now s) (\<lambda>now. io_ret (op\<lparr>op_Status := stampOperationStatus now st\<rparr>))))"
  define Q where "Q op op' \<longleftrightarrow> (\<exists>t. op' = op\<lparr>op_Status := stampOperationStatus t st\<rparr>)" for op op' :: Operation
  have run': "updateOperation s n u rv mutate w = (r, w')"
    using run None by (simp add: UpdateOperationStatus_def io_bind_def mutate_def)
  have mut: "vo w1 = vo w \<and> vt w1 = vt w \<and> vl w1 = vl w \<and> (\<forall>op'. x = Inr op' \<longrightarrow> op_Meta op' = op_Meta op \<and> Q op op')"
    if "mutate op w = (x, w1)" for op w x w1
    using that io_now_keeps unfolding mutate_def Q_def
    by (elim io_bind_cases) (fastforce split: option.splits if_splits)+
  have ph: "ost_Phase (stampOperationStatus t st) = ost_Phase st" for t by (simp add: stampOperationStatus_def Let_def)
  have "op_updated old y \<and> op_Spec y = op_Spec old \<and> (\<exists>t. op_Status y = stampOperationStatus t st) \<and>
      op_phase_change (op_Phase old) (ost_Phase st)"
    if "Q old op'" "op_Meta op' = op_Meta old"
      and val: "operation_ValidateUpdate (operation_PrepareForUpdate op' old) old = []"
      and y: "y = stored_update (operationStrategy opSize) rv' op' old" for old op' rv' y
  proof -
    from \<open>Q old op'\<close> obtain t where t: "op' = old\<lparr>op_Status := stampOperationStatus t st\<rparr>" by (auto simp: Q_def)
    then have "op_Spec y = op_Spec old" "op_Status y = stampOperationStatus t st" "op_Name y = op_Name old" "op_UID y = op_UID old"
      by (simp_all add: y stored_update_def operation_PrepareForUpdate_def)
    moreover from this have "op_phase_change (op_Phase old) (ost_Phase st)"
      using stored_update_operation(5) [OF val y] ph by simp
    ultimately show ?thesis by (auto simp: op_updated_def)
  qed
  then show ?thesis using update_operation [OF run' mut] by (cases r) fastforce+
qed

lemma create_task:
  assumes run: "CreateTask s task w = (r, w')"
  shows "vo w' = vo w \<and> vl w' = vl w \<and>
    (case r of Inl e \<Rightarrow> vt w' = vt w
     | Inr y \<Rightarrow> fst (vt w) (task_Name task) = None \<and> task_Name y = task_Name task \<and> task_Spec y = task_Spec task \<and>
         task_Phase y = TaskPending \<and> fst (vt w') = (fst (vt w))(task_Name task \<mapsto> y))"
proof -
  have c: "st_Create (s_tasks s) task w = (r, w')" using run by (simp add: CreateTask_def)
  show ?thesis using quiet_storage.create_effect [OF tasks c] writes_keepD(1) [OF frame_t(1) c] writes_keepD(1) [OF frame_t(2) c]
    by (auto simp: stored_create_def task_PrepareForCreate_def split: sum.splits)
qed

lemma acquire_lock:
  assumes run: "AcquireLock s lk w = (r, w')"
  shows "vo w' = vo w \<and> vt w' = vt w \<and>
    (case r of Inl e \<Rightarrow> vl w' = vl w
     | Inr (l, created) \<Rightarrow>
         if created then fst (vl w) (lock_Name lk) = None \<and>
           (\<exists>y. l = Some y \<and> lock_Name y = lock_Name lk \<and> lock_Spec y = lock_Spec lk \<and>
              fst (vl w') = (fst (vl w))(lock_Name lk \<mapsto> y))
         else l \<noteq> None \<and> fst (vl w) (lock_Name lk) = l \<and> vl w' = vl w)"
proof -
  obtain c w1 where c: "st_Create (s_locks s) lk w = (c, w1)" by force
  note E = quiet_storage.create_effect [OF locks c]
    writes_keepD(1) [OF frame_l(1) c] writes_keepD(1) [OF frame_l(2) c]
  show ?thesis
  proof (cases c)
    case (Inr y)
    then have "r = Inr (Some y, True)" "w' = w1" using run c by (simp_all add: AcquireLock_def io_try_def)
    then show ?thesis using E Inr by (auto simp: stored_create_def lock_PrepareForCreate_def)
  next
    case (Inl e)
    then have same: "vo w1 = vo w \<and> vt w1 = vt w \<and> vl w1 = vl w" using E by simp
    show ?thesis
    proof (cases "IsAlreadyExists e")
      case False
      then have "r = Inl e" "w' = w1" using run c Inl by (simp_all add: AcquireLock_def io_try_def)
      then show ?thesis using same by simp
    next
      case True
      then have held: "fst (vl w1) (lock_Name lk) \<noteq> None" using E Inl by simp
      show ?thesis
      proof (cases "st_Get (s_locksStrong s) (lock_Name lk) [] w1")
        case get: (Inl e')
        then have "\<not> IsNotFound e'" using rest_storage.get_missing [OF locksStrong get] held by blast
        then have "r = Inl e'" "w' = w1" using run c Inl True get by (simp_all add: AcquireLock_def GetLock_def io_try_def)
        then show ?thesis using same by simp
      next
        case get: (Inr l)
        then have "r = Inr (Some l, False)" "w' = w1"
          using run c Inl True get by (simp_all add: AcquireLock_def GetLock_def io_try_def)
        then show ?thesis using same rest_storage.get_found [OF locksStrong get] by simp
      qed
    qed
  qed
qed

lemma get_lock: "GetLock s n [] w = (r, w') \<Longrightarrow> w' = w \<and> (\<forall>l. r = Inr l \<longrightarrow> fst (vl w) n = Some l)"
  using rest_storage.get_found [OF locksStrong] by (auto simp: GetLock_def)

lemma release_lock:
  assumes run: "ReleaseLock s n u h w = (r, w')"
  shows "vo w' = vo w \<and> vt w' = vt w \<and>
    (vl w' = vl w \<or> (\<exists>l. fst (vl w) n = Some l \<and> or_UID (lock_Holder l) = h \<and> lock_UID l = u \<and>
       fst (vl w') = (fst (vl w))(n := None)))"
proof (cases "\<exists>l. st_Get (s_locksStrong s) n [] w = Inr l \<and> lock_UID l = u \<and> or_UID (lock_Holder l) = h")
  case True
  then obtain l where get: "st_Get (s_locksStrong s) n [] w = Inr l" and l: "lock_UID l = u" "or_UID (lock_Holder l) = h" by blast
  obtain d w1 where d: "st_Delete (s_locks s) n (Some u) w = (d, w1)" by force
  note E = quiet_storage.delete_effect [OF locks d] writes_keepD(3) [OF frame_l(1) d] writes_keepD(3) [OF frame_l(2) d]
  have "w' = w1" using run get l d by (auto simp: ReleaseLock_def GetLock_def io_try_def split: sum.splits if_splits)
  then show ?thesis using E l rest_storage.get_found [OF locksStrong get] by (cases d) auto
next
  case False
  then have "w' = w" using run by (auto simp: ReleaseLock_def GetLock_def io_try_def split: sum.splits if_splits)
  then show ?thesis by simp
qed

lemma implements_operation_store:
  "operation_store (storeInterface am s) (\<lambda>w. fst (vo w)) (\<lambda>w. fst (vt w)) (\<lambda>w. fst (vl w))"
proof (unfold_locales, goal_cases)
  case (1 n w r w')
  then show ?case using op_get by (auto simp: storeInterface_def GetOperation_def)
next
  case (2 u w ro w')
  then show ?case using list_operations by (simp add: storeInterface_def)
next
  case (3 n u rv st w r w')
  then show ?case using update_operation_status [of n u rv st w r w'] by (auto simp: storeInterface_def split: sum.splits)
next
  case (4 n w rt w')
  then show ?case by (simp add: storeInterface_def GetTask_def)
next
  case (5 task w rt w')
  then show ?case using create_task [of task w rt w'] by (auto simp: storeInterface_def split: sum.splits)
next
  case (6 u w rl w')
  then show ?case using list_tasks by (simp add: storeInterface_def)
next
  case (7 n u rv reason w rt w')
  then show ?case using update_task_terminal [of n u rv TaskPending TaskCancelled reason w rt w']
    by (auto simp: storeInterface_def CancelPendingTask_def split: sum.splits)
next
  case (8 n u rv w rt w')
  then show ?case using update_task_terminal [of n u rv TaskRunning TaskTimedOut TaskReasonDeadlineExceeded w rt w']
    by (auto simp: storeInterface_def TimeoutRunningTask_def split: sum.splits)
next
  case (9 lk w ra w')
  then show ?case using acquire_lock [of lk w ra w'] by (auto simp: storeInterface_def split: sum.splits prod.splits)
next
  case (10 n w rk w')
  then show ?case using get_lock by (simp add: storeInterface_def)
next
  case (11 n u h w rr w')
  then show ?case using release_lock [of n u h w rr w'] by (auto simp: storeInterface_def)
qed

end

sublocale quiet_store \<subseteq> st: operation_store "storeInterface am s" "\<lambda>w. fst (vo w)" "\<lambda>w. fst (vt w)" "\<lambda>w. fst (vl w)"
  by (rule implements_operation_store)

subsection \<open>The engine as a transition system\<close>

text \<open>
  The steps of the engine: the controller reconciles an operation, an agent reports a task
  status, an API handler changes the control fields of an operation or submits a new one, and the
  clock ticks.  The steps occur in any order and with any arguments.
\<close>

inductive engine_step :: "'w store \<Rightarrow> 'w OperationReconciler \<Rightarrow> 'w \<Rightarrow> 'w \<Rightarrow> bool"
  for s :: "'w store" and r :: "'w OperationReconciler" where
  reconcile: "Reconcile r n w = (x, w') \<Longrightarrow> engine_step s r w w'"
| report: "UpdateTaskStatus s n u rv st w = (y, w') \<Longrightarrow> engine_step s r w w'"
| control: "UpdateOperationControl s n u rv f w = (z, w') \<Longrightarrow> engine_step s r w w'"
| submit: "CreateOperation s op w = (z, w') \<Longrightarrow> engine_step s r w w'"
| tick: "s_now s w = (t, w') \<Longrightarrow> engine_step s r w w'"

text \<open>The whole system also purges the history of deleted targets.\<close>

definition system_step :: "apimachinery \<Rightarrow> 'w store \<Rightarrow> 'w OperationReconciler \<Rightarrow> 'w \<Rightarrow> 'w \<Rightarrow> bool" where
  "system_step am s r w w' \<longleftrightarrow> engine_step s r w w' \<or> (\<exists>u x. CleanupByTargetUID am s u w = (x, w'))"

locale system_frame = storages_frame R s
  for R :: "'w \<Rightarrow> 'w \<Rightarrow> bool" and s :: "'w store" +
  fixes am :: apimachinery and r :: "'w OperationReconciler"
  assumes store: "r_Store r = Some (storeInterface am s)"
    and reconciler_clock: "reconciler_now r w = (t, w') \<Longrightarrow> R w w'"

sublocale system_frame \<subseteq> rc: store_frame R r "storeInterface am s"
  by unfold_locales (use store reconciler_clock pre storeInterface_keeps in auto)

context system_frame begin

lemma system_step_keeps:
  assumes "system_step am s r w w'"
  shows "R w w'"
  using assms unfolding system_step_def
proof
  assume "engine_step s r w w'"
  then show ?thesis
  proof cases
    case (reconcile n x)
    then show ?thesis by (rule io_keepsD [OF rc.Reconcile_keeps])
  next
    case (report n u rv st y)
    then show ?thesis by (rule io_keepsD [OF UpdateTaskStatus_keeps])
  next
    case (control n u rv f z)
    then show ?thesis by (rule io_keepsD [OF UpdateOperationControl_keeps])
  next
    case (submit op z)
    then show ?thesis by (rule io_keepsD [OF CreateOperation_keeps])
  next
    case (tick t)
    then show ?thesis by (rule clock)
  qed
qed (auto dest: io_keepsD [OF CleanupByTargetUID_keeps])

lemma system_run_keeps: "(system_step am s r)\<^sup>*\<^sup>* w w' \<Longrightarrow> R w w'"
proof (induction rule: rtranclp_induct)
  case base
  then show ?case using pre by (simp add: preorder_rel_def)
next
  case (step w1 w2)
  then show ?case using system_step_keeps pre unfolding preorder_rel_def by blast
qed

end

subsection \<open>Interference\<close>

text \<open>
  The storages shared with other clients.  A write of the engine may be preceded and followed by
  committed changes of others to any of the three collections, as described by the histories.
\<close>

definition histories :: "(Operation \<Rightarrow> nat option) \<Rightarrow> (OperationTask \<Rightarrow> nat option) \<Rightarrow>
    ('w \<Rightarrow> op_map \<times> string set) \<Rightarrow> ('w \<Rightarrow> task_map \<times> string set) \<Rightarrow> ('w \<Rightarrow> lock_map \<times> string set) \<Rightarrow>
    'w \<Rightarrow> 'w \<Rightarrow> bool" where
  "histories opSize taskSize vo vt vl w w' \<longleftrightarrow>
     obj_history (operationStrategy opSize) (vo w) (vo w') \<and> obj_history (taskStrategy taskSize) (vt w) (vt w') \<and>
     obj_history lockStrategy (vl w) (vl w')"

lemma preorder_histories [simp]: "preorder_rel (histories opSize taskSize vo vt vl)"
  by (auto simp: preorder_rel_def histories_def)

text \<open>Locks never change hands: two versions of one lock have the same holder and target.\<close>

lemma lock_history_immutable:
  assumes "obj_history lockStrategy s s'" "uids_issued lockStrategy s"
    and "fst s n = Some l" "fst s' n = Some l'" "lock_UID l' = lock_UID l"
  shows "lock_Spec l' = lock_Spec l"
  by (rule history_relates [of lockStrategy "\<lambda>x y. lock_Spec y = lock_Spec x" s s' n l,
        THEN conjunct2, THEN conjunct2, rule_format])
    (use assms in \<open>auto simp: stored_update_lock\<close>)

subsection \<open>The invariant of the engine\<close>

locale engine = quiet_store am s opSize taskSize vo vt vl
  for am and s :: "'w store" and opSize taskSize vo vt vl +
  fixes r :: "'w OperationReconciler"
  assumes r_store: "r_Store r = Some (storeInterface am s)"
    and r_clock: "reconciler_now r w = (t, w') \<Longrightarrow> vo w' = vo w \<and> vt w' = vt w \<and> vl w' = vl w"

sublocale engine \<subseteq> rc: reconciler "storeInterface am s" "\<lambda>w. fst (vo w)" "\<lambda>w. fst (vt w)" "\<lambda>w. fst (vl w)" r
  by unfold_locales (use r_store r_clock in auto)

context engine begin

lemma keeps_histories: "system_frame (histories opSize taskSize vo vt vl) s am r"
proof -
  note rest = quiet_storage.axioms(1) [OF ops] quiet_storage.axioms(1) [OF tasks] quiet_storage.axioms(1) [OF locks]
  have "storage_keeps (histories opSize taskSize vo vt vl) (s_operations s)"
    using rest_storage.create_history [OF rest(1)] rest_storage.update_history [OF rest(1)]
      rest_storage.delete_history [OF rest(1)] writes_keepD [OF frame_o(1)] writes_keepD [OF frame_o(2)]
    unfolding storage_keeps_def io_keeps_def histories_def by (metis rtranclp.rtrancl_refl)
  moreover have "storage_keeps (histories opSize taskSize vo vt vl) (s_tasks s)"
    using rest_storage.create_history [OF rest(2)] rest_storage.update_history [OF rest(2)]
      rest_storage.delete_history [OF rest(2)] writes_keepD [OF frame_t(1)] writes_keepD [OF frame_t(2)]
    unfolding storage_keeps_def io_keeps_def histories_def by (metis rtranclp.rtrancl_refl)
  moreover have "storage_keeps (histories opSize taskSize vo vt vl) (s_locks s)"
    using rest_storage.create_history [OF rest(3)] rest_storage.update_history [OF rest(3)]
      rest_storage.delete_history [OF rest(3)] writes_keepD [OF frame_l(1)] writes_keepD [OF frame_l(2)]
    unfolding storage_keeps_def io_keeps_def histories_def by (metis rtranclp.rtrancl_refl)
  ultimately show ?thesis by unfold_locales (use now r_store r_clock in \<open>auto simp: histories_def\<close>)
qed

definition einv :: "'w \<Rightarrow> bool" where
  "einv w \<longleftrightarrow> engine_inv (r_sha256 r) (fst (vo w)) (fst (vt w)) (fst (vl w)) \<and> uids_issued (operationStrategy opSize) (vo w)"

lemma issued_step:
  assumes "engine_step s r w w'" "uids_issued (operationStrategy opSize) (vo w)"
  shows "uids_issued (operationStrategy opSize) (vo w')"
proof -
  have "obj_history (operationStrategy opSize) (vo w) (vo w')"
    using system_frame.system_step_keeps [OF keeps_histories] assms(1) by (auto simp: system_step_def histories_def)
  then show ?thesis using assms(2)
    by (induction rule: rtranclp_induct) (auto intro: uids_issued_step)
qed

lemma control_inv:
  assumes run: "UpdateOperationControl s n u rv f w = (x, w')" and inv: "rc.inv w"
  shows "rc.inv w'"
proof -
  define mutate :: "Operation \<Rightarrow> ('w, Operation) io" where
    "mutate = (\<lambda>op. case f of None \<Rightarrow> io_err (Plain ''control mutator is required'')
       | Some f \<Rightarrow> io_bind (io_of (f (op_Spec op))) (\<lambda>spec. io_ret (op\<lparr>op_Spec := spec\<rparr>)))"
  have run': "updateOperation s n u rv mutate w = (x, w')" using run by (simp add: UpdateOperationControl_def mutate_def)
  have mut: "vo w1 = vo w \<and> vt w1 = vt w \<and> vl w1 = vl w \<and>
      (\<forall>op'. y = Inr op' \<longrightarrow> op_Meta op' = op_Meta op \<and> op_Status op' = op_Status op)"
    if "mutate op w = (y, w1)" for op w y w1
    using that unfolding mutate_def by (cases f) (auto elim!: io_bind_cases)
  note U = update_operation [OF run', where Q = "\<lambda>op op'. op_Status op' = op_Status op", OF mut]
  show ?thesis
  proof (cases x)
    case (Inl e)
    then show ?thesis using U inv by (simp add: rc.inv_def)
  next
    case (Inr y)
    then obtain old op' rv' where old: "fst (vo w) n = Some old" and op': "op_Status op' = op_Status old" "op_Meta op' = op_Meta old"
      and val: "operation_ValidateUpdate (operation_PrepareForUpdate op' old) old = []"
      and y: "y = stored_update (operationStrategy opSize) rv' op' old" and vo': "vo w' = ((fst (vo w))(n \<mapsto> y), snd (vo w))"
      using U by auto
    have st: "op_Status y = op_Status old" "op_Name y = op_Name old" "op_UID y = op_UID old"
      using op' by (simp_all add: y stored_update_def operation_PrepareForUpdate_def)
    have nm: "op_Name old = n" using engine_invD(1) [OF inv [unfolded rc.inv_def] old] .
    have "engine_inv (r_sha256 r) ((fst (vo w))(n \<mapsto> y)) (fst (vt w)) (fst (vl w))"
    proof (rule inv_update_operation [OF inv [unfolded rc.inv_def] old])
      show "op_updated old y" using st stored_update_operation [OF val y] by (simp add: op_updated_def)
      show "op_Phase y = OperationRunning" if "\<not> idle (fst (vt w)) (op_UID old)"
        using rc.not_idle_running [OF inv] that old nm st by simp
    qed (use st in auto)
    then show ?thesis using U vo' by (simp add: rc.inv_def)
  qed
qed

lemma report_inv:
  assumes run: "UpdateTaskStatus s n u rv st w = (x, w')" and inv: "rc.inv w"
  shows "rc.inv w'"
  using update_task_status [OF run] inv inv_update_task unfolding rc.inv_def
  by (cases x) fastforce+

lemma submit_inv:
  assumes run: "CreateOperation s op w = (x, w')" and inv: "einv w"
  shows "rc.inv w'"
proof (cases op)
  case None
  then show ?thesis using run inv by (simp add: CreateOperation_def einv_def rc.inv_def)
next
  case (Some o1)
  then have c: "st_Create (s_operations s) o1 w = (x, w')" using run by (simp add: CreateOperation_def)
  note E = quiet_storage.create_effect [OF ops c] writes_keepD(1) [OF frame_o(1) c] writes_keepD(1) [OF frame_o(2) c]
  show ?thesis
  proof (cases x)
    case (Inl e)
    then show ?thesis using E inv by (simp add: einv_def rc.inv_def)
  next
    case (Inr y)
    then obtain u t rv where y: "u \<noteq> []" "u \<notin> snd (vo w)" "y = stored_create (operationStrategy opSize) u t rv o1"
      "fst (vo w) (op_Name o1) = None" "vo w' = ((fst (vo w))(op_Name o1 \<mapsto> y), insert u (snd (vo w)))" using E by auto
    have "op_Name y = op_Name o1" "op_UID y = u" "op_Phase y = OperationPending"
      using stored_meta(1) [OF operationStrategy_ok, of opSize u t rv o1] y(3)
      by (simp_all add: stored_create_def operation_PrepareForCreate_def Let_def)
    moreover have "op_UID a \<noteq> u" if "fst (vo w) m = Some a" for m a
      using inv that y(2) by (auto simp: einv_def uids_issued_def ran_def)
    ultimately have "engine_inv (r_sha256 r) ((fst (vo w))(op_Name o1 \<mapsto> y)) (fst (vt w)) (fst (vl w))"
      using inv y(1,4) by (intro inv_create_operation) (auto simp: einv_def)
    then show ?thesis using E y(5) by (simp add: rc.inv_def)
  qed
qed

lemma engine_step_inv:
  assumes "engine_step s r w w'" "einv w"
  shows "einv w'"
proof -
  have inv: "rc.inv w" using assms(2) by (simp add: einv_def rc.inv_def)
  from assms(1) have "rc.inv w'"
  proof cases
    case (reconcile n x)
    then show ?thesis using tripleD [OF rc.Reconcile_triple inv] by blast
  next
    case (report n u rv st y)
    then show ?thesis using report_inv inv by blast
  next
    case (control n u rv f z)
    then show ?thesis using control_inv inv by blast
  next
    case (submit op z)
    then show ?thesis using submit_inv assms(2) by blast
  next
    case (tick t)
    then show ?thesis using now inv by (simp add: rc.inv_def)
  qed
  then show ?thesis using issued_step [OF assms(1)] assms(2) by (simp add: einv_def rc.inv_def)
qed

lemma engine_run_inv: "(engine_step s r)\<^sup>*\<^sup>* w w' \<Longrightarrow> einv w \<Longrightarrow> einv w'"
  by (induction rule: rtranclp_induct) (auto intro: engine_step_inv)

end

end
