(* ===== verification/Op_Typing.thy ===== *)
theory Op_Typing
  imports Op_Engine
begin

text \<open>
  The types of the stored objects beyond what their Go types say: which plans, specifications, phases
  and results can ever be stored.  The strategies check an object when it is created and let
  updates touch only part of it, so the checks of the creation hold for every version.
\<close>

lemma history_inv:
  assumes "obj_history sg s s'" "\<And>n x. fst s n = Some x \<Longrightarrow> P n x"
    and create: "\<And>x u t r. sg_Validate sg (sg_PrepareForCreate sg x) = [] \<Longrightarrow> P (sg_name sg x) (stored_create sg u t r x)"
    and update: "\<And>n old x r. P n old \<Longrightarrow> sg_name sg x = sg_name sg old \<Longrightarrow> sg_ValidateUpdate sg (sg_PrepareForUpdate sg x old) old = [] \<Longrightarrow>
      P n (stored_update sg r x old)"
    and "fst s' n = Some x"
  shows "P n x"
proof -
  have "\<forall>n x. fst s' n = Some x \<longrightarrow> P n x"
    using assms(1)
  proof (induction rule: rtranclp_induct)
    case base
    then show ?case using assms(2) by blast
  next
    case (step y z)
    from step.hyps(2) show ?case
    proof cases
      case (obj_create v n x u U t r)
      then show ?thesis using step.IH create by auto
    next
      case (obj_update v n old x U r)
      then show ?thesis using step.IH update by auto
    next
      case (obj_delete v n old U)
      then show ?thesis using step.IH by (auto split: if_splits)
    qed
  qed
  then show ?thesis using assms(5) by blast
qed

definition op_phases :: "string set" where
  "op_phases = {OperationPending, OperationRunning, OperationSucceeded, OperationFailed, OperationTimedOut, OperationCancelled}"

definition task_phases :: "string set" where
  "task_phases = {TaskPending, TaskRunning, TaskSucceeded, TaskFailed, TaskTimedOut, TaskCancelled}"

text \<open>A reference as the validation demands it.\<close>

definition full_ref :: "ObjectReference \<Rightarrow> bool" where
  "full_ref ref \<longleftrightarrow> \<not> TrimSpace_empty (or_Kind ref) \<and> \<not> TrimSpace_empty (or_Name ref) \<and> or_UID ref \<noteq> []"

definition op_typed :: "string \<Rightarrow> Operation \<Rightarrow> bool" where
  "op_typed n op \<longleftrightarrow> op_Name op = n \<and> n \<noteq> [] \<and> op_Type op = metav1TypeMeta KindOperation \<and> full_ref (os_TargetRef (op_Spec op)) \<and>
     os_Action (op_Spec op) \<noteq> [] \<and> MinOperationTimeout \<le> os_Timeout (op_Spec op) \<and> os_Timeout (op_Spec op) \<le> MaxOperationTimeout \<and>
     op_Steps op \<noteq> [] \<and> length (op_Steps op) \<le> MaxSteps \<and> wf_steps {} (op_Steps op) \<and> op_Phase op \<in> op_phases"

definition task_typed :: "string \<Rightarrow> OperationTask \<Rightarrow> bool" where
  "task_typed n t \<longleftrightarrow> task_Name t = n \<and> n \<noteq> [] \<and> task_Type t = metav1TypeMeta KindOperationTask \<and> full_ref (tsp_OperationRef (task_Spec t)) \<and>
     task_StepID t \<noteq> [] \<and> tsp_Executor (task_Spec t) \<noteq> [] \<and> tsp_Deadline (task_Spec t) \<noteq> 0 \<and> 0 \<le> tsp_RetryGeneration (task_Spec t) \<and>
     0 \<le> tsp_Attempt (task_Spec t) \<and> length (tsp_Payload (task_Spec t)) \<le> MaxStepPayloadSize \<and>
     task_Phase t \<in> task_phases \<and> ValidateTaskResult (tst_Result (task_Status t)) = None"

definition lock_typed :: "string \<Rightarrow> ExecutionLock \<Rightarrow> bool" where
  "lock_typed n l \<longleftrightarrow> lock_Name l = n \<and> n \<noteq> [] \<and> or_UID (lock_Target l) \<noteq> [] \<and> or_Kind (lock_Holder l) = KindOperation \<and> or_UID (lock_Holder l) \<noteq> []"

lemma op_phases_closed: "p \<in> op_phases \<Longrightarrow> op_phase_change p q \<Longrightarrow> q \<in> op_phases"
  by (auto simp: op_phase_change_def op_phase_step_def op_phases_def OperationPhase_IsTerminal_def)

lemma task_phases_closed: "p \<in> task_phases \<Longrightarrow> task_phase_step p q \<Longrightarrow> q \<in> task_phases"
  by (auto simp: task_phase_step_def task_phases_def TaskPhase_IsTerminal_def)

lemma op_history_typed:
  assumes "obj_history (operationStrategy f) s s'" "fst s = Map.empty" "fst s' n = Some op"
  shows "op_typed n op"
  using assms(1)
proof (rule history_inv)
  fix x u t r
  assume "sg_Validate (operationStrategy f) (sg_PrepareForCreate (operationStrategy f) x) = []"
  then have "wf_operation (operation_PrepareForCreate x)" by (simp add: validate_wf)
  moreover have "op_Name (operation_PrepareForCreate x) = op_Name x" "op_Phase (operation_PrepareForCreate x) = OperationPending"
    "op_Type (operation_PrepareForCreate x) = metav1TypeMeta KindOperation"
    by (simp_all add: operation_PrepareForCreate_def Let_def)
  ultimately show "op_typed (sg_name (operationStrategy f) x) (stored_create (operationStrategy f) u t r x)"
    by (simp add: op_typed_def stored_create_def wf_operation_def full_ref_def op_phases_def Let_def)
next
  fix n old x r
  assume old: "op_typed n old" and nm: "sg_name (operationStrategy f) x = sg_name (operationStrategy f) old"
    and v: "sg_ValidateUpdate (operationStrategy f) (sg_PrepareForUpdate (operationStrategy f) x old) old = []"
  have upd: "operation_ValidateUpdate (operation_PrepareForUpdate x old) old = []" using v by simp
  let ?y = "stored_update (operationStrategy f) r x old"
  have "op_Name ?y = op_Name old" "op_Type ?y = op_Type old"
    using nm by (simp_all add: stored_update_def operation_PrepareForUpdate_def)
  then show "op_typed n ?y"
    using old stored_update_operation [OF upd refl, of f r] op_phases_closed [of "op_Phase old" "op_Phase ?y"]
    by (simp add: op_typed_def)
qed (use assms(2,3) in auto)

lemma task_history_typed:
  assumes "obj_history (taskStrategy f) s s'" "fst s = Map.empty" "fst s' n = Some t"
  shows "task_typed n t"
  using assms(1)
proof (rule history_inv)
  fix x u ti r
  assume "sg_Validate (taskStrategy f) (sg_PrepareForCreate (taskStrategy f) x) = []"
  then show "task_typed (sg_name (taskStrategy f) x) (stored_create (taskStrategy f) u ti r x)"
    by (auto simp: task_typed_def stored_create_def task_PrepareForCreate_def ValidateTask_def validateReference_def full_ref_def
        task_phases_def ValidateTaskResult_def empty_OperationTaskStatus_def Let_def split: if_splits)
next
  fix n old x r
  assume old: "task_typed n old" and nm: "sg_name (taskStrategy f) x = sg_name (taskStrategy f) old"
    and v: "sg_ValidateUpdate (taskStrategy f) (sg_PrepareForUpdate (taskStrategy f) x old) old = []"
  have upd: "task_ValidateUpdate (task_PrepareForUpdate x old) old = []" using v by simp
  let ?y = "stored_update (taskStrategy f) r x old"
  have "task_Name ?y = task_Name old" "task_Type ?y = task_Type old" "ValidateTaskResult (tst_Result (task_Status ?y)) = None"
    using nm upd by (auto simp: stored_update_def task_PrepareForUpdate_def task_ValidateUpdate_def split: option.splits)
  then show "task_typed n ?y"
    using old stored_update_task [OF upd, of f r] task_phases_closed [of "task_Phase old" "task_Phase ?y"]
    by (simp add: task_typed_def)
qed (use assms(2,3) in auto)

lemma lock_history_typed:
  assumes "obj_history lockStrategy s s'" "fst s = Map.empty" "fst s' n = Some l"
  shows "lock_typed n l"
  using assms(1)
proof (rule history_inv)
  fix x u t r
  assume "sg_Validate lockStrategy (sg_PrepareForCreate lockStrategy x) = []"
  then show "lock_typed (sg_name lockStrategy x) (stored_create lockStrategy u t r x)"
    by (auto simp: lock_typed_def stored_create_def lock_PrepareForCreate_def lock_Validate_def validateLockReference_def split: if_splits)
next
  fix n old x r
  assume "lock_typed n old" "sg_name lockStrategy x = sg_name lockStrategy old"
  then show "lock_typed n (stored_update lockStrategy r x old)"
    by (simp add: lock_typed_def stored_update_def lock_PrepareForUpdate_def)
qed (use assms(2,3) in auto)

end
