(* ===== verification/Mem_Storage.thy ===== *)
theory Mem_Storage
  imports Op_Engine
begin

text \<open>
  A reference storage.  The collections are lists in memory, driven by the REST strategies of the
  repository exactly as the API server drives them: prepare, validate, check name, UID and
  resource version, then store.  It meets the storage contract for every strategy, which shows
  that the contract can be met together with the strategies of the engine, and it is the storage
  on which the theorems about the engine are evaluated.
\<close>

subsection \<open>A collection\<close>

record 'a coll =
  co_items :: "'a list"
  co_next :: nat
  co_rev :: nat

definition coll_find :: "'a strategy \<Rightarrow> 'a coll \<Rightarrow> string \<Rightarrow> 'a option" where
  "coll_find sg c n = find (\<lambda>x. sg_name sg x = n) (co_items c)"

definition issued :: "nat \<Rightarrow> string set" where
  "issued k = (\<lambda>i. ''uid-'' @ show_nat i) ` {..<k}"

definition coll_view :: "'a strategy \<Rightarrow> 'a coll \<Rightarrow> (string \<rightharpoonup> 'a) \<times> string set" where
  "coll_view sg c = (coll_find sg c, issued (co_next c))"

fun dedup :: "('a \<Rightarrow> string) \<Rightarrow> 'a list \<Rightarrow> 'a list" where
  "dedup nm [] = []"
| "dedup nm (x # xs) = x # filter (\<lambda>y. nm y \<noteq> nm x) (dedup nm xs)"

definition coll_put :: "'a strategy \<Rightarrow> string \<Rightarrow> 'a \<Rightarrow> 'a coll \<Rightarrow> 'a coll" where
  "coll_put sg n y c = c\<lparr>co_items := y # filter (\<lambda>x. sg_name sg x \<noteq> n) (co_items c), co_rev := Suc (co_rev c)\<rparr>"

subsection \<open>The storage\<close>

definition mem_create :: "'a strategy \<Rightarrow> ('w \<Rightarrow> 'a coll) \<Rightarrow> ('a coll \<Rightarrow> 'w \<Rightarrow> 'w) \<Rightarrow> ('w \<Rightarrow> gotime) \<Rightarrow> 'a \<Rightarrow> ('w, 'a) io" where
  "mem_create sg get put clk x w =
     (let c = get w; p = sg_PrepareForCreate sg x in
      if sg_Validate sg p \<noteq> [] then (Inl (Invalid '''' (sg_name sg x) (sg_Validate sg p)), w)
      else if coll_find sg c (sg_name sg x) \<noteq> None then (Inl (AlreadyExists '''' (sg_name sg x)), w)
      else let y = stored_create sg (''uid-'' @ show_nat (co_next c)) (clk w) (show_nat (Suc (co_rev c))) x
           in (Inr y, put ((coll_put sg (sg_name sg x) y c)\<lparr>co_next := Suc (co_next c)\<rparr>) w))"

definition mem_update :: "'a strategy \<Rightarrow> ('w \<Rightarrow> 'a coll) \<Rightarrow> ('a coll \<Rightarrow> 'w \<Rightarrow> 'w) \<Rightarrow> string \<Rightarrow> 'a \<Rightarrow> ('w, 'a) io" where
  "mem_update sg get put n x w =
     (let c = get w in
      case coll_find sg c n of
        None \<Rightarrow> (Inl (NotFound '''' n), w)
      | Some old \<Rightarrow>
          if sg_name sg x \<noteq> n then (Inl (BadRequest ''name mismatch''), w)
          else if sg_uid sg x \<noteq> sg_uid sg old \<or> sg_rv sg x \<noteq> [] \<and> sg_rv sg x \<noteq> sg_rv sg old
          then (Inl (Conflict '''' n ''the object has been modified''), w)
          else if sg_ValidateUpdate sg (sg_PrepareForUpdate sg x old) old \<noteq> []
          then (Inl (Invalid '''' n (sg_ValidateUpdate sg (sg_PrepareForUpdate sg x old) old)), w)
          else let y = stored_update sg (show_nat (Suc (co_rev c))) x old
               in (Inr y, put (coll_put sg n y c) w))"

definition mem_delete :: "'a strategy \<Rightarrow> ('w \<Rightarrow> 'a coll) \<Rightarrow> ('a coll \<Rightarrow> 'w \<Rightarrow> 'w) \<Rightarrow> string \<Rightarrow> string option \<Rightarrow> ('w, unit) io" where
  "mem_delete sg get put n pre w =
     (let c = get w in
      case coll_find sg c n of
        None \<Rightarrow> (Inl (NotFound '''' n), w)
      | Some old \<Rightarrow>
          if (case pre of None \<Rightarrow> False | Some u \<Rightarrow> sg_uid sg old \<noteq> u)
          then (Inl (Conflict '''' n ''precondition failed''), w)
          else (Inr (), put (c\<lparr>co_items := filter (\<lambda>x. sg_name sg x \<noteq> n) (co_items c), co_rev := Suc (co_rev c)\<rparr>) w))"

definition mem_storage :: "'a strategy \<Rightarrow> ('w \<Rightarrow> 'a coll) \<Rightarrow> ('a coll \<Rightarrow> 'w \<Rightarrow> 'w) \<Rightarrow> ('w \<Rightarrow> gotime) \<Rightarrow> ('a, 'w) StandardStorage" where
  "mem_storage sg get put clk =
     \<lparr>st_Get = (\<lambda>n rv w. case coll_find sg (get w) n of None \<Rightarrow> Inl (NotFound '''' n) | Some x \<Rightarrow> Inr x),
      st_List = (\<lambda>opts w. Inr \<lparr>ol_Items = filter (\<lambda>x. matchesFields (io_FieldSelector opts) (sg_attrs sg x))
                    (dedup (sg_name sg) (co_items (get w))),
                  ol_ResourceVersion = show_nat (co_rev (get w)), ol_Continue = [], ol_RemainingItemCount = None\<rparr>),
      st_Create = mem_create sg get put clk, st_Update = mem_update sg get put, st_Delete = mem_delete sg get put\<rparr>"

subsection \<open>It meets the contract\<close>

lemma find_filter_other:
  "find (\<lambda>x. f x = m) (filter (\<lambda>x. f x \<noteq> n) xs) = (if m = n then None else find (\<lambda>x. f x = m) xs)"
  by (induction xs) auto

lemma coll_find_put:
  "sg_name sg y = n \<Longrightarrow> coll_find sg (coll_put sg n y c) = (coll_find sg c)(n \<mapsto> y)"
  by (rule ext) (auto simp: coll_find_def coll_put_def find_filter_other)

lemma coll_find_name: "coll_find sg c n = Some x \<Longrightarrow> sg_name sg x = n"
  by (auto simp: coll_find_def find_Some_iff)

lemma coll_find_next [simp]: "coll_find sg (c\<lparr>co_next := k\<rparr>) = coll_find sg c"
  by (rule ext) (simp add: coll_find_def)

lemma ran_find: "y \<in> ran (\<lambda>n. find (\<lambda>x. nm x = n) xs) \<longleftrightarrow> find (\<lambda>x. nm x = nm y) xs = Some y"
proof
  assume "y \<in> ran (\<lambda>n. find (\<lambda>x. nm x = n) xs)"
  then obtain n where n: "find (\<lambda>x. nm x = n) xs = Some y" by (auto simp: ran_def)
  then have "nm y = n" by (auto simp: find_Some_iff)
  with n show "find (\<lambda>x. nm x = nm y) xs = Some y" by simp
qed (auto simp: ran_def)

lemma dedup_facts:
  "distinct (map nm (dedup nm xs)) \<and> set (dedup nm xs) = ran (\<lambda>n. find (\<lambda>x. nm x = n) xs)"
proof (induction xs)
  case (Cons x xs)
  have "ran (\<lambda>n. find (\<lambda>y. nm y = n) (x # xs)) = insert x {y \<in> ran (\<lambda>n. find (\<lambda>y. nm y = n) xs). nm y \<noteq> nm x}"
    unfolding set_eq_iff insert_iff mem_Collect_eq ran_find by (auto split: if_splits)
  moreover have "distinct (map nm (dedup nm (x # xs)))"
    using Cons by (auto simp: distinct_map inj_on_def)
  ultimately show ?case using Cons by simp
qed (simp add: ran_def)

lemma uid_fresh: "''uid-'' @ show_nat k \<notin> issued k"
  by (auto simp: issued_def show_nat_inject)

lemma issued_Suc: "issued (Suc k) = insert (''uid-'' @ show_nat k) (issued k)"
  by (simp add: issued_def lessThan_Suc)

lemma mem_create_cases:
  assumes ok: "strategy_ok sg" and put: "\<And>c w. get (put c w) = c"
    and run: "mem_create sg get put clk x w = (r, w')"
  shows "case r of
      Inr y \<Rightarrow> \<exists>u t rv. u \<noteq> [] \<and> u \<notin> snd (coll_view sg (get w)) \<and> y = stored_create sg u t rv x \<and>
        fst (coll_view sg (get w)) (sg_name sg x) = None \<and> sg_Validate sg (sg_PrepareForCreate sg x) = [] \<and>
        coll_view sg (get w') = ((fst (coll_view sg (get w)))(sg_name sg x \<mapsto> y), insert u (snd (coll_view sg (get w))))
    | Inl e \<Rightarrow> w' = w \<and> (IsAlreadyExists e \<longrightarrow> fst (coll_view sg (get w)) (sg_name sg x) \<noteq> None)"
proof (cases r)
  case (Inl e)
  then show ?thesis using run
    by (auto simp: mem_create_def Let_def coll_view_def IsAlreadyExists_def split: if_splits)
next
  case (Inr y)
  let ?c = "get w"
  let ?u = "''uid-'' @ show_nat (co_next ?c)"
  from Inr run have y: "y = stored_create sg ?u (clk w) (show_nat (Suc (co_rev ?c))) x"
    "sg_Validate sg (sg_PrepareForCreate sg x) = []" "coll_find sg ?c (sg_name sg x) = None"
    "w' = put ((coll_put sg (sg_name sg x) y ?c)\<lparr>co_next := Suc (co_next ?c)\<rparr>) w"
    by (auto simp: mem_create_def Let_def split: if_splits)
  have nm: "sg_name sg y = sg_name sg x" using y(1) stored_meta [OF ok] by simp
  have "coll_find sg ((coll_put sg (sg_name sg x) y ?c)\<lparr>co_next := Suc (co_next ?c)\<rparr>) = (coll_find sg ?c)(sg_name sg x \<mapsto> y)"
    using coll_find_put [OF nm, of ?c] by simp
  then have view: "coll_view sg (get w') = ((coll_find sg ?c)(sg_name sg x \<mapsto> y), insert ?u (issued (co_next ?c)))"
    using y(4) put by (simp add: coll_view_def issued_Suc)
  show ?thesis
    unfolding Inr sum.case
  proof (intro exI conjI)
    show "?u \<noteq> []" by simp
    show "?u \<notin> snd (coll_view sg (get w))" using uid_fresh by (simp add: coll_view_def)
    show "y = stored_create sg ?u (clk w) (show_nat (Suc (co_rev ?c))) x" by (rule y(1))
    show "fst (coll_view sg (get w)) (sg_name sg x) = None" using y(3) by (simp add: coll_view_def)
    show "coll_view sg (get w') = ((fst (coll_view sg (get w)))(sg_name sg x \<mapsto> y), insert ?u (snd (coll_view sg (get w))))"
      using view by (simp add: coll_view_def)
  qed (rule y(2))
qed

lemma mem_update_cases:
  assumes ok: "strategy_ok sg" and put: "\<And>c w. get (put c w) = c"
    and run: "mem_update sg get put n x w = (r, w')"
  shows "case r of
      Inr y \<Rightarrow> \<exists>old rv. fst (coll_view sg (get w)) n = Some old \<and> (sg_rv sg x = [] \<or> sg_rv sg x = sg_rv sg old) \<and>
        sg_name sg x = sg_name sg old \<and> sg_uid sg x = sg_uid sg old \<and>
        sg_ValidateUpdate sg (sg_PrepareForUpdate sg x old) old = [] \<and> y = stored_update sg rv x old \<and>
        coll_view sg (get w') = ((fst (coll_view sg (get w)))(n \<mapsto> y), snd (coll_view sg (get w)))
    | Inl e \<Rightarrow> w' = w"
proof (cases r)
  case (Inl e)
  then show ?thesis using run by (auto simp: mem_update_def Let_def split: if_splits option.splits)
next
  case (Inr y)
  let ?c = "get w"
  from Inr run obtain old where y: "coll_find sg ?c n = Some old" "sg_name sg x = n" "sg_uid sg x = sg_uid sg old"
    "sg_rv sg x = [] \<or> sg_rv sg x = sg_rv sg old" "sg_ValidateUpdate sg (sg_PrepareForUpdate sg x old) old = []"
    "y = stored_update sg (show_nat (Suc (co_rev ?c))) x old" "w' = put (coll_put sg n y ?c) w"
    by (auto simp: mem_update_def Let_def split: if_splits option.splits)
  have nm: "sg_name sg y = n" using y stored_meta [OF ok] by simp
  have "coll_view sg (get w') = ((coll_find sg ?c)(n \<mapsto> y), snd (coll_view sg (get w)))"
    using coll_find_put [OF nm, of ?c] y(7) put by (simp add: coll_view_def) (simp add: coll_put_def)
  then show ?thesis using Inr y coll_find_name [OF y(1)] by (auto simp: coll_view_def)
qed

lemma mem_delete_cases:
  assumes put: "\<And>c w. get (put c w) = c" and run: "mem_delete sg get put n pre w = (r, w')"
  shows "case r of
      Inr _ \<Rightarrow> \<exists>old. fst (coll_view sg (get w)) n = Some old \<and> (case pre of Some u \<Rightarrow> sg_uid sg old = u | None \<Rightarrow> True) \<and>
        coll_view sg (get w') = ((fst (coll_view sg (get w)))(n := None), snd (coll_view sg (get w)))
    | Inl e \<Rightarrow> w' = w \<and> (IsNotFound e \<longrightarrow> fst (coll_view sg (get w)) n = None)"
proof (cases r)
  case (Inl e)
  then show ?thesis using run
    by (auto simp: mem_delete_def Let_def coll_view_def IsNotFound_def split: if_splits option.splits)
next
  case (Inr y)
  let ?c = "get w"
  from Inr run obtain old where y: "coll_find sg ?c n = Some old" "case pre of None \<Rightarrow> True | Some u \<Rightarrow> sg_uid sg old = u"
    "w' = put (?c\<lparr>co_items := filter (\<lambda>x. sg_name sg x \<noteq> n) (co_items ?c), co_rev := Suc (co_rev ?c)\<rparr>) w"
    by (auto simp: mem_delete_def Let_def split: if_splits option.splits)
  have "coll_find sg (?c\<lparr>co_items := filter (\<lambda>x. sg_name sg x \<noteq> n) (co_items ?c), co_rev := Suc (co_rev ?c)\<rparr>) =
      (coll_find sg ?c)(n := None)"
    by (rule ext) (simp add: coll_find_def find_filter_other)
  then have "coll_view sg (get w') = ((coll_find sg ?c)(n := None), snd (coll_view sg ?c))"
    using y(3) put by (simp add: coll_view_def)
  then show ?thesis using Inr y by (auto simp: coll_view_def split: option.splits)
qed

theorem mem_quiet_storage:
  assumes ok: "strategy_ok sg" and put: "\<And>c w. get (put c w) = c"
  shows "quiet_storage sg (mem_storage sg get put clk) (\<lambda>w. coll_view sg (get w))"
proof (unfold_locales, goal_cases)
  case (1 n w x)
  then show ?case by (auto simp: mem_storage_def coll_view_def split: option.splits)
next
  case (2 n w e)
  then show ?case by (auto simp: mem_storage_def coll_view_def split: option.splits)
next
  case (3 opts w l)
  let ?d = "dedup (sg_name sg) (co_items (get w))"
  have items: "ol_Items l = filter (\<lambda>x. matchesFields (io_FieldSelector opts) (sg_attrs sg x)) ?d"
    using 3(1) by (auto simp: mem_storage_def)
  have "coll_find sg (get w) = (\<lambda>n. find (\<lambda>x. sg_name sg x = n) (co_items (get w)))"
    by (rule ext) (simp add: coll_find_def)
  then have d: "distinct (map (sg_name sg) ?d)" "set ?d = ran (fst (coll_view sg (get w)))"
    using dedup_facts [of "sg_name sg" "co_items (get w)"] by (simp_all add: coll_view_def)
  show ?case unfolding items using d by (simp add: distinct_map_filter)
next
  case (4 x w r w')
  then have "mem_create sg get put clk x w = (r, w')" by (simp add: mem_storage_def)
  note C = mem_create_cases [OF assms this]
  show ?case
  proof (cases r)
    case (Inr y)
    then obtain u t rv where "u \<noteq> []" "u \<notin> snd (coll_view sg (get w))" "y = stored_create sg u t rv x"
      "fst (coll_view sg (get w)) (sg_name sg x) = None" "sg_Validate sg (sg_PrepareForCreate sg x) = []"
      "coll_view sg (get w') = ((fst (coll_view sg (get w)))(sg_name sg x \<mapsto> y), insert u (snd (coll_view sg (get w))))"
      using C by auto
    then have "obj_step sg (coll_view sg (get w)) (coll_view sg (get w'))"
      using obj_create [of "fst (coll_view sg (get w))" "sg_name sg x" sg x u "snd (coll_view sg (get w))" t rv] by simp
    then show ?thesis by blast
  qed (use C in simp)
next
  case (5 n x w r w')
  then have "mem_update sg get put n x w = (r, w')" by (simp add: mem_storage_def)
  note C = mem_update_cases [OF assms this]
  show ?case
  proof (cases r)
    case (Inr y)
    then obtain old rv where "fst (coll_view sg (get w)) n = Some old" "sg_name sg x = sg_name sg old" "sg_uid sg x = sg_uid sg old"
      "sg_ValidateUpdate sg (sg_PrepareForUpdate sg x old) old = []" "y = stored_update sg rv x old"
      "coll_view sg (get w') = ((fst (coll_view sg (get w)))(n \<mapsto> y), snd (coll_view sg (get w)))" using C by auto
    then have "obj_step sg (coll_view sg (get w)) (coll_view sg (get w'))"
      using obj_update [of "fst (coll_view sg (get w))" n old sg x "snd (coll_view sg (get w))" rv] by simp
    then show ?thesis by blast
  qed (use C in simp)
next
  case (6 n pre w d w')
  then have "mem_delete sg get put n pre w = (d, w')" by (simp add: mem_storage_def)
  note C = mem_delete_cases [OF put this]
  show ?case
  proof (cases d)
    case (Inr y)
    then obtain old where "fst (coll_view sg (get w)) n = Some old"
      "coll_view sg (get w') = ((fst (coll_view sg (get w)))(n := None), snd (coll_view sg (get w)))" using C by auto
    then have "obj_step sg (coll_view sg (get w)) (coll_view sg (get w'))"
      using obj_delete [of "fst (coll_view sg (get w))" n old sg "snd (coll_view sg (get w))"] by simp
    then show ?thesis by blast
  qed (use C in simp)
next
  case (7 x w r w')
  then have "mem_create sg get put clk x w = (r, w')" by (simp add: mem_storage_def)
  from mem_create_cases [OF assms this] show ?case by (auto split: sum.splits)
next
  case (8 n x w r w')
  then have "mem_update sg get put n x w = (r, w')" by (simp add: mem_storage_def)
  from mem_update_cases [OF assms this] show ?case by (auto split: sum.splits)
next
  case (9 n pre w d w')
  then have "mem_delete sg get put n pre w = (d, w')" by (simp add: mem_storage_def)
  from mem_delete_cases [OF put this] show ?case by (auto split: sum.splits)
qed

subsection \<open>Field selectors\<close>

text \<open>
  Printing and parsing of one-term field selectors as \<^verbatim>\<open>k8s.io/apimachinery/pkg/fields\<close> documents them:
  the value is escaped with backslashes.
\<close>

definition special :: "char \<Rightarrow> bool" where
  "special c \<longleftrightarrow> c = CHR 0x5C \<or> c = CHR ''='' \<or> c = CHR '',''"

fun escape :: "string \<Rightarrow> string" where
  "escape [] = []"
| "escape (c # cs) = (if special c then CHR 0x5C # c # escape cs else c # escape cs)"

fun unescape :: "string \<Rightarrow> string option" where
  "unescape [] = Some []"
| "unescape [c] = (if special c then None else Some [c])"
| "unescape (c # d # cs) =
     (if c = CHR 0x5C then (if special d then map_option ((#) d) (unescape cs) else None)
      else if special c then None else map_option ((#) c) (unescape (d # cs)))"

lemma unescape_plain: "\<not> special c \<Longrightarrow> unescape (c # cs) = map_option ((#) c) (unescape cs)"
  by (cases cs) (auto simp: special_def)

lemma unescape_escape: "unescape (escape v) = Some v"
  by (induction v) (auto simp: unescape_plain)

definition parseOneTerm :: "string \<Rightarrow> string + fieldsel" where
  "parseOneTerm t =
     (if t = [] then Inr []
      else case dropWhile (\<lambda>c. c \<noteq> CHR ''='') t of
             [] \<Rightarrow> Inl ''invalid selector''
           | _ # rest \<Rightarrow> (case unescape rest of
                 None \<Rightarrow> Inl ''invalid selector''
               | Some v \<Rightarrow> Inr [(takeWhile (\<lambda>c. c \<noteq> CHR ''='') t, True, v)]))"

definition memAm :: apimachinery where
  "memAm = \<lparr>am_oneTermEqual = (\<lambda>k v. k @ ''='' @ escape v),
     am_parseLabels = (\<lambda>l. if l = [] then Inr [] else Inl ''unsupported''),
     am_parseFields = parseOneTerm, am_validateListOptions = (\<lambda>_. None)\<rparr>"

lemma parseOneTerm_eq:
  assumes "CHR ''='' \<notin> set k"
  shows "parseOneTerm (k @ ''='' @ escape v) = Inr [(k, True, v)]"
proof -
  have "takeWhile (\<lambda>c. c \<noteq> CHR ''='') (k @ ''='' @ escape v) = k"
    "dropWhile (\<lambda>c. c \<noteq> CHR ''='') (k @ ''='' @ escape v) = ''='' @ escape v"
    using assms by (auto simp: takeWhile_append dropWhile_append)
  then show ?thesis by (simp add: parseOneTerm_def unescape_escape)
qed

subsection \<open>A world\<close>

record mem =
  mem_ops :: "Operation coll"
  mem_tasks :: "OperationTask coll"
  mem_locks :: "ExecutionLock coll"
  mem_clock :: gotime

definition empty_coll :: "'a coll" where "empty_coll = \<lparr>co_items = [], co_next = 0, co_rev = 0\<rparr>"

definition mem0 :: mem where
  "mem0 = \<lparr>mem_ops = empty_coll, mem_tasks = empty_coll, mem_locks = empty_coll, mem_clock = 0\<rparr>"

definition anySize :: "'a \<Rightarrow> nat option" where "anySize x = Some 0"

definition memNow :: "mem \<Rightarrow> gotime \<times> mem" where
  "memNow w = (mem_clock w, w\<lparr>mem_clock := mem_clock w + Second\<rparr>)"

definition memStore :: "mem store" where
  "memStore =
     (let so = mem_storage (operationStrategy anySize) mem_ops (\<lambda>c. mem_ops_update (\<lambda>_. c)) mem_clock;
          st = mem_storage (taskStrategy anySize) mem_tasks (\<lambda>c. mem_tasks_update (\<lambda>_. c)) mem_clock;
          sl = mem_storage lockStrategy mem_locks (\<lambda>c. mem_locks_update (\<lambda>_. c)) mem_clock
      in \<lparr>s_operations = so, s_tasks = st, s_locks = sl, s_operationsStrong = so, s_tasksStrong = st,
          s_locksStrong = sl, s_now = memNow\<rparr>)"

definition view_ops :: "mem \<Rightarrow> op_map \<times> string set" where
  "view_ops w = coll_view (operationStrategy anySize) (mem_ops w)"
definition view_tasks :: "mem \<Rightarrow> task_map \<times> string set" where
  "view_tasks w = coll_view (taskStrategy anySize) (mem_tasks w)"
definition view_locks :: "mem \<Rightarrow> lock_map \<times> string set" where
  "view_locks w = coll_view lockStrategy (mem_locks w)"

definition memJson :: json_codec where
  "memJson = \<lparr>jc_unmarshalMap = (\<lambda>_. Inr None), jc_marshalString = Inr, jc_marshalMap = (\<lambda>_. Inr [])\<rparr>"

definition memReconciler :: "mem OperationReconciler" where
  "memReconciler = \<lparr>r_Store = Some (storeInterface memAm memStore), r_Now = None, r_timeNow = memNow,
     r_sha256 = id, r_json = memJson\<rparr>"

lemma mem_writes:
  "mem_create sg get put clk x w = (r, w') \<Longrightarrow> (\<And>c w. v (put c w) = v w) \<Longrightarrow> v w' = v w"
  "mem_update sg get put n x w = (r, w') \<Longrightarrow> (\<And>c w. v (put c w) = v w) \<Longrightarrow> v w' = v w"
  "mem_delete sg get put n pre w = (d, w') \<Longrightarrow> (\<And>c w. v (put c w) = v w) \<Longrightarrow> v w' = v w"
  by (auto simp: mem_create_def mem_update_def mem_delete_def Let_def split: if_splits option.splits)

lemma mem_writes_keep:
  "(\<And>c w. v (put c w) = v w) \<Longrightarrow> writes_keep (mem_storage sg get put clk) v"
  unfolding writes_keep_def mem_storage_def by (auto intro: mem_writes)

interpretation mem_ops: quiet_storage "operationStrategy anySize" "s_operations memStore" view_ops
  unfolding memStore_def Let_def view_ops_def [abs_def] store.simps by (rule mem_quiet_storage) simp_all

interpretation mem_tasks: quiet_storage "taskStrategy anySize" "s_tasks memStore" view_tasks
  unfolding memStore_def Let_def view_tasks_def [abs_def] store.simps by (rule mem_quiet_storage) simp_all

interpretation mem_locks: quiet_storage lockStrategy "s_locks memStore" view_locks
  unfolding memStore_def Let_def view_locks_def [abs_def] store.simps by (rule mem_quiet_storage) simp_all

interpretation mem_engine: engine memAm memStore anySize anySize view_ops view_tasks view_locks memReconciler
proof (intro engine.intro quiet_store.intro engine_axioms.intro, goal_cases)
  case 1 show ?case by (rule mem_ops.quiet_storage_axioms)
next
  case 2 show ?case by (rule mem_tasks.quiet_storage_axioms)
next
  case 3 show ?case by (rule mem_locks.quiet_storage_axioms)
next
  case 4 show ?case using mem_ops.rest_storage_axioms by (simp add: memStore_def Let_def)
next
  case 5 show ?case using mem_tasks.rest_storage_axioms by (simp add: memStore_def Let_def)
next
  case 6 show ?case using mem_locks.rest_storage_axioms by (simp add: memStore_def Let_def)
qed (auto simp: memStore_def Let_def view_ops_def view_tasks_def view_locks_def memNow_def memAm_def
      memReconciler_def reconciler_now_def parseOneTerm_def unescape_escape intro!: mem_writes_keep)

text \<open>The same storage as one that other clients use at the same time.\<close>

interpretation mem_system: system_frame "histories anySize anySize view_ops view_tasks view_locks" memStore memAm memReconciler
  by (rule mem_engine.keeps_histories)

end
