(* ===== verification/Op_Paging.thy ===== *)
theory Op_Paging
  imports Mem_Storage
begin

text \<open>
  Listing operations page by page (\<^verbatim>\<open>ListOperationsWithOptions\<close> of \<^verbatim>\<open>pkg/models/operationv2/store.go\<close>):
  the selected operations are sorted newest first and a page ends with an opaque continuation
  token that names its last element, so that the next page can be found by binary search.
\<close>

subsection \<open>Unpadded URL-safe base64\<close>

text \<open>\<^verbatim>\<open>base64.RawURLEncoding\<close> of the standard library: decoding skips line breaks and ignores trailing bits.\<close>

definition b64_alphabet :: string where
  "b64_alphabet = ''ABCDEFGHIJKLMNOPQRSTUVWXYZabcdefghijklmnopqrstuvwxyz0123456789-_''"

definition b64_char :: "nat \<Rightarrow> char" where "b64_char n = b64_alphabet ! n"

definition b64_val :: "char \<Rightarrow> nat option" where
  "b64_val c = map_of (zip b64_alphabet [0..<64]) c"

definition byte :: "char \<Rightarrow> nat" where "byte c = of_char c"

fun EncodeToString :: "string \<Rightarrow> string" where
  "EncodeToString [] = []"
| "EncodeToString [a] = [b64_char (byte a div 4), b64_char (byte a mod 4 * 16)]"
| "EncodeToString [a, b] =
     [b64_char (byte a div 4), b64_char (byte a mod 4 * 16 + byte b div 16), b64_char (byte b mod 16 * 4)]"
| "EncodeToString (a # b # c # rest) =
     b64_char (byte a div 4) # b64_char (byte a mod 4 * 16 + byte b div 16) #
     b64_char (byte b mod 16 * 4 + byte c div 64) # b64_char (byte c mod 64) # EncodeToString rest"

fun decode_quanta :: "nat list \<Rightarrow> string option" where
  "decode_quanta [] = Some []"
| "decode_quanta [v] = None"
| "decode_quanta [v, x] = Some [char_of (v * 4 + x div 16)]"
| "decode_quanta [v, x, y] = Some [char_of (v * 4 + x div 16), char_of (x mod 16 * 16 + y div 4)]"
| "decode_quanta (v # x # y # z # rest) =
     map_option (\<lambda>s. char_of (v * 4 + x div 16) # char_of (x mod 16 * 16 + y div 4) # char_of (y mod 4 * 64 + z) # s)
       (decode_quanta rest)"

definition DecodeString :: "string \<Rightarrow> string option" where
  "DecodeString s =
     (let t = filter (\<lambda>c. c \<noteq> CHR 0x0A \<and> c \<noteq> CHR 0x0D) s in
      if list_all (\<lambda>c. b64_val c \<noteq> None) t then decode_quanta (map (\<lambda>c. the (b64_val c)) t) else None)"

lemma b64_table: "n < 64 \<Longrightarrow> b64_val (b64_char n) = Some n \<and> b64_char n \<noteq> CHR 0x0A \<and> b64_char n \<noteq> CHR 0x0D"
proof -
  have len: "length b64_alphabet = 64" by (simp add: b64_alphabet_def)
  have d: "distinct b64_alphabet" by (simp add: b64_alphabet_def)
  have "CHR 0x0A \<notin> set b64_alphabet" "CHR 0x0D \<notin> set b64_alphabet" by (simp_all add: b64_alphabet_def)
  moreover assume n: "n < 64"
  moreover have "b64_char n \<in> set b64_alphabet" using n len by (simp add: b64_char_def)
  moreover have "b64_val (b64_char n) = Some n"
    using map_of_zip_nth [of b64_alphabet "[0..<64]" n] len d n by (simp add: b64_val_def b64_char_def)
  ultimately show ?thesis by metis
qed

lemma byte_less: "byte c < 256" by (simp add: byte_def)

lemma byte_char: "char_of (byte c) = c" by (simp add: byte_def)

fun quanta :: "string \<Rightarrow> nat list" where
  "quanta [] = []"
| "quanta [a] = [byte a div 4, byte a mod 4 * 16]"
| "quanta [a, b] = [byte a div 4, byte a mod 4 * 16 + byte b div 16, byte b mod 16 * 4]"
| "quanta (a # b # c # rest) =
     byte a div 4 # (byte a mod 4 * 16 + byte b div 16) # (byte b mod 16 * 4 + byte c div 64) # byte c mod 64 # quanta rest"

lemma EncodeToString_quanta: "EncodeToString s = map b64_char (quanta s) \<and> list_all (\<lambda>n. n < 64) (quanta s)"
proof (induction s rule: quanta.induct)
  case (2 a)
  then show ?case using byte_less [of a] by auto
next
  case (3 a b)
  then show ?case using byte_less [of a] byte_less [of b] by auto
next
  case (4 a b c rest)
  then show ?case using byte_less [of a] byte_less [of b] byte_less [of c] by auto
qed simp

lemma decode_quanta_quanta: "decode_quanta (quanta s) = Some s"
proof (induction s rule: quanta.induct)
  case (2 a)
  have "byte a div 4 * 4 + byte a mod 4 * 16 div 16 = byte a" by simp
  then show ?case by (simp only: quanta.simps decode_quanta.simps byte_char)
next
  case (3 a b)
  let ?x = "byte a mod 4 * 16 + byte b div 16"
  have q: "byte b div 16 < 16" using byte_less [of b] by auto
  then have "?x div 16 = byte a mod 4" "?x mod 16 = byte b div 16" by auto
  then have "byte a div 4 * 4 + ?x div 16 = byte a" "?x mod 16 * 16 + byte b mod 16 * 4 div 4 = byte b" by simp_all
  then show ?case by (simp only: quanta.simps decode_quanta.simps byte_char)
next
  case (4 a b c rest)
  let ?x = "byte a mod 4 * 16 + byte b div 16" and ?y = "byte b mod 16 * 4 + byte c div 64"
  have q: "byte b div 16 < 16" "byte c div 64 < 4" using byte_less [of b] byte_less [of c] by auto
  then have "?x div 16 = byte a mod 4" "?x mod 16 = byte b div 16" "?y div 4 = byte b mod 16" "?y mod 4 = byte c div 64" by auto
  then have "byte a div 4 * 4 + ?x div 16 = byte a" "?x mod 16 * 16 + ?y div 4 = byte b" "?y mod 4 * 64 + byte c mod 64 = byte c"
    by simp_all
  then show ?case using 4 by (simp only: quanta.simps decode_quanta.simps byte_char) simp
qed simp

lemma DecodeString_EncodeToString: "DecodeString (EncodeToString s) = Some s"
proof -
  have q: "\<And>n. n \<in> set (quanta s) \<Longrightarrow> n < 64" "EncodeToString s = map b64_char (quanta s)"
    using EncodeToString_quanta [of s] by (auto simp: list_all_iff)
  have "filter (\<lambda>c. c \<noteq> CHR 0x0A \<and> c \<noteq> CHR 0x0D) (EncodeToString s) = map b64_char (quanta s)"
    unfolding q(2) by (rule filter_True) (use q(1) b64_table in auto)
  moreover have "list_all (\<lambda>c. b64_val c \<noteq> None) (map b64_char (quanta s))"
    using q(1) b64_table by (auto simp: list_all_iff)
  moreover have "map (\<lambda>c. the (b64_val c)) (map b64_char (quanta s)) = quanta s"
    using q(1) b64_table by (auto intro!: map_idI)
  ultimately show ?thesis by (simp add: DecodeString_def decode_quanta_quanta)
qed

subsection \<open>Continuation tokens\<close>

definition operationContinueTokenVersion :: int where "operationContinueTokenVersion = 1"

record operationContinueToken =
  ct_Version :: int
  ct_ResourceVersion :: string
  ct_CreationTimestamp :: gotime
  ct_UID :: string

text \<open>The JSON form of a token, as \<^verbatim>\<open>encoding/json\<close> writes and reads it.\<close>

record token_codec =
  tc_Marshal :: "operationContinueToken \<Rightarrow> string + string"
  tc_Unmarshal :: "string \<Rightarrow> operationContinueToken option"

definition encodeOperationContinue :: "token_codec \<Rightarrow> operationContinueToken \<Rightarrow> goerr + string" where
  "encodeOperationContinue tc token =
     (case tc_Marshal tc token of
        Inl err \<Rightarrow> Inl (Plain (''encode operation continue token: '' @ err))
      | Inr payload \<Rightarrow> Inr (EncodeToString payload))"

definition decodeOperationContinue :: "token_codec \<Rightarrow> string \<Rightarrow> goerr + operationContinueToken option" where
  "decodeOperationContinue tc val =
     (if val = [] then Inr None
      else case DecodeString val of
             None \<Rightarrow> Inl (BadRequest ''invalid operation continue token'')
           | Some payload \<Rightarrow>
               (case tc_Unmarshal tc payload of
                  None \<Rightarrow> Inl (BadRequest ''invalid operation continue token'')
                | Some token \<Rightarrow>
                    if ct_Version token \<noteq> operationContinueTokenVersion \<or> ct_UID token = []
                    then Inl (BadRequest ''invalid operation continue token'')
                    else Inr (Some token)))"

subsection \<open>Pages\<close>

definition operationNewer :: "Operation \<Rightarrow> Operation \<Rightarrow> bool" where
  "operationNewer left right =
     (if op_Created left \<noteq> op_Created right then op_Created left > op_Created right
      else op_UID left > op_UID right)"

definition operationAfterCursor :: "Operation \<Rightarrow> operationContinueToken \<Rightarrow> bool" where
  "operationAfterCursor op token =
     (if op_Created op < ct_CreationTimestamp token then True
      else if op_Created op > ct_CreationTimestamp token then False
      else op_UID op < ct_UID token)"

text \<open>What \<^verbatim>\<open>ListOperationsWithOptions\<close> does with the list the storage returned.\<close>

definition pageOf :: "token_codec \<Rightarrow> operationContinueToken option \<Rightarrow> int \<Rightarrow> Operation object_list \<Rightarrow> goerr + Operation object_list" where
  "pageOf tc continueToken pageLimit list0 =
     (let items = go_sort operationNewer (ol_Items list0);
          start = (case continueToken of
                     None \<Rightarrow> 0
                   | Some token \<Rightarrow> Search (length items) (\<lambda>i. operationAfterCursor (items ! i) token));
          rest = (if start > 0 then drop start items else items);
          list1 = list0\<lparr>ol_Items := rest\<rparr>
      in if pageLimit = 0 then Inr list1
         else
           (let stop = (if pageLimit < int (length rest) then nat pageLimit else length rest);
                remaining = length rest - stop
            in if remaining = 0 then Inr (list1\<lparr>ol_Items := take stop rest\<rparr>)
               else
                 (let page = take stop rest;
                      lastOp = last page;
                      resourceVersion = (if ol_ResourceVersion list0 = [] then
                          (case continueToken of Some token \<Rightarrow> ct_ResourceVersion token | None \<Rightarrow> []) else ol_ResourceVersion list0)
                  in case encodeOperationContinue tc \<lparr>ct_Version = operationContinueTokenVersion,
                          ct_ResourceVersion = resourceVersion, ct_CreationTimestamp = op_Created lastOp, ct_UID = op_UID lastOp\<rparr> of
                       Inl err \<Rightarrow> Inl err
                     | Inr encoded \<Rightarrow> Inr (list1\<lparr>ol_Items := page, ol_Continue := encoded,
                          ol_RemainingItemCount := Some (int remaining)\<rparr>))))"

definition ListOperationsWithOptions :: "apimachinery \<Rightarrow> token_codec \<Rightarrow> 'w store \<Rightarrow> ListOptions option \<Rightarrow> ('w, Operation object_list) io" where
  "ListOperationsWithOptions am tc s options0 =
     (let options = (case options0 of None \<Rightarrow> empty_ListOptions | Some x \<Rightarrow> x) in
      if lo_Watch options then
        io_bind (io_of (internalListOptions am options)) (\<lambda>internal. io_read (st_List (s_operations s) internal))
      else if lo_Limit options < 0 then io_err (BadRequest ''limit must be a non-negative integer'')
      else io_bind (io_of (decodeOperationContinue tc (lo_Continue options))) (\<lambda>continueToken.
        let storageOptions = options\<lparr>lo_Limit := 0, lo_Continue := []\<rparr> in
        if (case continueToken of None \<Rightarrow> False
            | Some token \<Rightarrow> lo_ResourceVersion storageOptions \<noteq> [] \<and> lo_ResourceVersion storageOptions \<noteq> ct_ResourceVersion token)
        then io_err (BadRequest ''resourceVersion does not match continue token'')
        else
          (let storageOptions1 = (case continueToken of None \<Rightarrow> storageOptions
                 | Some token \<Rightarrow> storageOptions\<lparr>lo_ResourceVersion := ct_ResourceVersion token\<rparr>)
           in io_bind (io_of (internalListOptions am storageOptions1)) (\<lambda>internal.
              io_bind (io_read (st_List (s_operations s) internal)) (\<lambda>list0.
                io_of (pageOf tc continueToken (lo_Limit options) list0))))))"

subsection \<open>The order of a listing\<close>

lemma operationNewer_linear:
  assumes "inj_on op_UID A"
  shows "strict_linear_on A operationNewer"
  unfolding strict_linear_on_def
proof (intro conjI ballI impI)
  fix x y assume "x \<in> A" "y \<in> A" "x \<noteq> y"
  then have "op_UID x \<noteq> op_UID y" using assms by (auto dest: inj_onD)
  then show "operationNewer x y \<or> operationNewer y x" by (auto simp: operationNewer_def)
qed (auto simp: operationNewer_def split: if_splits)

definition cursorOf :: "string \<Rightarrow> Operation \<Rightarrow> operationContinueToken" where
  "cursorOf rv op = \<lparr>ct_Version = operationContinueTokenVersion, ct_ResourceVersion = rv,
     ct_CreationTimestamp = op_Created op, ct_UID = op_UID op\<rparr>"

lemma after_cursor: "operationAfterCursor op (cursorOf rv x) \<longleftrightarrow> operationNewer x op"
  by (auto simp: operationAfterCursor_def operationNewer_def cursorOf_def)

lemma Search_cursor:
  assumes lin: "strict_linear_on (set xs) operationNewer" and srt: "sorted_wrt operationNewer xs" and j: "j < length xs"
  shows "Search (length xs) (\<lambda>i. operationAfterCursor (xs ! i) (cursorOf rv (xs ! j))) = Suc j"
proof -
  let ?f = "\<lambda>i. operationAfterCursor (xs ! i) (cursorOf rv (xs ! j))"
  have f: "?f i \<longleftrightarrow> j < i" if "i < length xs" for i
  proof
    assume "j < i"
    then show "?f i" using srt that by (simp add: after_cursor sorted_wrt_iff_nth_less)
  next
    assume fi: "?f i"
    show "j < i"
    proof (rule ccontr)
      assume "\<not> j < i"
      then have "i = j \<or> operationNewer (xs ! i) (xs ! j)"
        using srt j unfolding sorted_wrt_iff_nth_less by (meson linorder_neqE_nat)
      moreover have "operationNewer (xs ! j) (xs ! i)" using fi by (simp add: after_cursor)
      ultimately show False using lin nth_mem [OF that] nth_mem [OF j] unfolding strict_linear_on_def by metis
    qed
  qed
  then have mono: "\<forall>k l. k \<le> l \<and> l < length xs \<and> ?f k \<longrightarrow> ?f l" by auto
  note S = Search_correct [OF mono]
  show ?thesis
  proof (rule antisym)
    show "Search (length xs) ?f \<le> Suc j" 
      using S(1) S(2) [of "Suc j"] S(3) [of "Suc j"] f [of "Suc j"] j
      by (cases "Suc j < length xs") (auto simp: not_less intro: ccontr)
    show "Suc j \<le> Search (length xs) ?f" using S(3) [of j] f [of j] j by (meson Suc_leI less_irrefl linorder_not_less)
  qed
qed

subsection \<open>Following the pages\<close>

text \<open>A client that asks for page after page until it gets one without a continuation token.\<close>

fun follow :: "apimachinery \<Rightarrow> token_codec \<Rightarrow> 'w store \<Rightarrow> nat \<Rightarrow> ListOptions \<Rightarrow> 'w \<Rightarrow> goerr + Operation list" where
  "follow am tc s 0 options w = Inl (Plain ''too many pages'')"
| "follow am tc s (Suc k) options w =
     (case fst (ListOperationsWithOptions am tc s (Some options) w) of
        Inl e \<Rightarrow> Inl e
      | Inr l \<Rightarrow> if ol_Continue l = [] then Inr (ol_Items l)
                else (case follow am tc s k (options\<lparr>lo_Continue := ol_Continue l\<rparr>) w of
                        Inl e \<Rightarrow> Inl e | Inr rest \<Rightarrow> Inr (ol_Items l @ rest)))"

text \<open>
  The JSON form of a token is read back unchanged, which \<^verbatim>\<open>encoding/json\<close> does for valid UTF-8 text and, since
  \<^verbatim>\<open>time.Time\<close> is written with its nanoseconds, for every time of the years 0 to 9999.
\<close>

definition codec_ok :: "token_codec \<Rightarrow> operationContinueToken \<Rightarrow> bool" where
  "codec_ok tc t \<longleftrightarrow> (\<exists>p. tc_Marshal tc t = Inr p \<and> p \<noteq> [] \<and> tc_Unmarshal tc p = Some t)"

lemma EncodeToString_nonempty: "s \<noteq> [] \<Longrightarrow> EncodeToString s \<noteq> []"
  by (cases s rule: EncodeToString.cases) auto

lemma encode_decode:
  assumes "codec_ok tc (cursorOf rv x)" "op_UID x \<noteq> []"
  shows "\<exists>e. encodeOperationContinue tc (cursorOf rv x) = Inr e \<and> e \<noteq> [] \<and>
    decodeOperationContinue tc e = Inr (Some (cursorOf rv x))"
proof -
  obtain p where p: "tc_Marshal tc (cursorOf rv x) = Inr p" "p \<noteq> []" "tc_Unmarshal tc p = Some (cursorOf rv x)"
    using assms(1) by (auto simp: codec_ok_def)
  then show ?thesis using assms(2) EncodeToString_nonempty [OF p(2)]
    by (simp add: encodeOperationContinue_def decodeOperationContinue_def DecodeString_EncodeToString cursorOf_def)
qed

text \<open>One page, from position \<open>k\<close> of the sorted list.\<close>

lemma pageOf_step:
  assumes inj: "inj_on op_UID (set (ol_Items l0))" and dist: "distinct (ol_Items l0)"
    and xs: "xs = go_sort operationNewer (ol_Items l0)" and L: "0 < L"
    and tok: "tok = (if k = 0 then None else Some (cursorOf rv (xs ! (k - 1))))" and k: "k \<le> length xs"
    and l0: "ol_Continue l0 = []" and codec: "\<forall>x \<in> set xs. codec_ok tc (cursorOf (ol_ResourceVersion l0) x)" and uid: "\<forall>x \<in> set xs. op_UID x \<noteq> []"
    and rv: "k \<noteq> 0 \<longrightarrow> ol_ResourceVersion l0 = [] \<longrightarrow> rv = []"
  shows "\<exists>l. pageOf tc tok L l0 = Inr l \<and> ol_Items l = take (nat L) (drop k xs) \<and>
    (if length xs - k \<le> nat L then ol_Continue l = []
     else ol_Continue l \<noteq> [] \<and>
       decodeOperationContinue tc (ol_Continue l) = Inr (Some (cursorOf (ol_ResourceVersion l0) (xs ! (k + nat L - 1)))))"
proof -
  have lin: "strict_linear_on (set xs) operationNewer" using inj xs by (simp add: operationNewer_linear)
  have srt: "sorted_wrt operationNewer xs" using sorted_go_sort_strict [OF _ dist] lin xs by simp
  define start where "start = (case tok of None \<Rightarrow> 0 | Some token \<Rightarrow> Search (length xs) (\<lambda>i. operationAfterCursor (xs ! i) token))"
  have start: "start = k"
    using Search_cursor [OF lin srt, of "k - 1" rv] k tok by (cases "k = 0") (auto simp: start_def)
  then have rest: "(if start > 0 then drop start xs else xs) = drop k xs" by simp
  let ?n = "length xs - k" and ?m = "nat L"
  have rvs: "(if ol_ResourceVersion l0 = [] then (case tok of Some token \<Rightarrow> ct_ResourceVersion token | None \<Rightarrow> []) else ol_ResourceVersion l0)
      = ol_ResourceVersion l0"
    using tok rv by (auto simp: cursorOf_def)
  show ?thesis
  proof (cases "?n \<le> ?m")
    case True
    then have "pageOf tc tok L l0 = Inr (l0\<lparr>ol_Items := drop k xs\<rparr>)"
      using L rest unfolding pageOf_def xs [symmetric] start_def [symmetric] Let_def by auto
    then show ?thesis using True l0 by simp
  next
    case False
    let ?page = "take ?m (drop k xs)"
    have last: "last ?page = xs ! (k + ?m - 1)" using False L by (simp add: last_conv_nth)
    have "xs ! (k + ?m - 1) \<in> set xs" using False L by (intro nth_mem) auto
    then obtain e where e: "encodeOperationContinue tc (cursorOf (ol_ResourceVersion l0) (xs ! (k + ?m - 1))) = Inr e" "e \<noteq> []"
      "decodeOperationContinue tc e = Inr (Some (cursorOf (ol_ResourceVersion l0) (xs ! (k + ?m - 1))))"
      using encode_decode codec uid by blast
    have "pageOf tc tok L l0 = Inr (l0\<lparr>ol_Items := ?page, ol_Continue := e, ol_RemainingItemCount := Some (int (?n - ?m))\<rparr>)"
      using False L rest e(1) unfolding pageOf_def xs [symmetric] start_def [symmetric] Let_def rvs last [symmetric] cursorOf_def
      by auto
    then show ?thesis using False e by simp
  qed
qed

text \<open>The storage answers every listing with these options and resource versions with the same list.\<close>

definition stable_list :: "apimachinery \<Rightarrow> 'w store \<Rightarrow> ListOptions \<Rightarrow> Operation object_list \<Rightarrow> 'w \<Rightarrow> bool" where
  "stable_list am s options l0 w \<longleftrightarrow>
     \<not> lo_Watch options \<and> lo_ResourceVersion options = [] \<and> ol_Continue l0 = [] \<and>
     distinct (ol_Items l0) \<and> inj_on op_UID (set (ol_Items l0)) \<and> (\<forall>x \<in> set (ol_Items l0). op_UID x \<noteq> []) \<and>
     (\<forall>rv \<in> {[], ol_ResourceVersion l0}. \<exists>io.
        internalListOptions am (options\<lparr>lo_Limit := 0, lo_Continue := [], lo_ResourceVersion := rv\<rparr>) = Inr io \<and>
        st_List (s_operations s) io w = Inr l0)"

lemma list_page:
  assumes st: "stable_list am s options l0 w" and L: "0 < lo_Limit options"
    and tok: "decodeOperationContinue tc c = Inr tok"
    and rv: "\<And>t. tok = Some t \<Longrightarrow> ct_ResourceVersion t = ol_ResourceVersion l0"
  shows "fst (ListOperationsWithOptions am tc s (Some (options\<lparr>lo_Continue := c\<rparr>)) w) = pageOf tc tok (lo_Limit options) l0"
proof -
  let ?rv = "case tok of None \<Rightarrow> [] | Some t \<Rightarrow> ol_ResourceVersion l0"
  have "?rv \<in> {[], ol_ResourceVersion l0}" by (simp split: option.split)
  then obtain io where io: "internalListOptions am (options\<lparr>lo_Limit := 0, lo_Continue := [], lo_ResourceVersion := ?rv\<rparr>) = Inr io"
    "st_List (s_operations s) io w = Inr l0" using st by (auto simp: stable_list_def)
  have same: "(case tok of None \<Rightarrow> options\<lparr>lo_Continue := c, lo_Limit := 0, lo_Continue := []\<rparr>
      | Some t \<Rightarrow> options\<lparr>lo_Continue := c, lo_Limit := 0, lo_Continue := [], lo_ResourceVersion := ct_ResourceVersion t\<rparr>)
      = options\<lparr>lo_Limit := 0, lo_Continue := [], lo_ResourceVersion := ?rv\<rparr>"
    using st rv by (cases tok) (simp_all add: stable_list_def)
  have none: "options\<lparr>lo_Limit := 0, lo_Continue := [], lo_ResourceVersion := []\<rparr> = options\<lparr>lo_Limit := 0, lo_Continue := []\<rparr>"
    using st by (simp add: stable_list_def)
  show ?thesis
    using st L tok io same none
    by (cases tok) (simp_all add: ListOperationsWithOptions_def stable_list_def io_bind_def Let_def)
qed

lemma follow_from:
  assumes st: "stable_list am s options l0 w" and L: "0 < lo_Limit options"
    and codec: "\<forall>x \<in> set (ol_Items l0). codec_ok tc (cursorOf (ol_ResourceVersion l0) x)"
    and xs: "xs = go_sort operationNewer (ol_Items l0)"
    and k: "k \<le> length xs" and fuel: "length xs - k < fuel"
    and c: "decodeOperationContinue tc c = Inr (if k = 0 then None else Some (cursorOf (ol_ResourceVersion l0) (xs ! (k - 1))))"
  shows "follow am tc s fuel (options\<lparr>lo_Continue := c\<rparr>) w = Inr (drop k xs)"
  using k fuel c
proof (induction fuel arbitrary: k c)
  case (Suc fuel)
  let ?L = "lo_Limit options" and ?tok = "if k = 0 then None else Some (cursorOf (ol_ResourceVersion l0) (xs ! (k - 1)))"
  have "ct_ResourceVersion t = ol_ResourceVersion l0" if "?tok = Some t" for t
    using that by (auto simp: cursorOf_def split: if_splits)
  note P = list_page [OF st L Suc.prems(3) this]
  obtain l where l: "pageOf tc ?tok ?L l0 = Inr l" "ol_Items l = take (nat ?L) (drop k xs)"
    and cont: "if length xs - k \<le> nat ?L then ol_Continue l = []
     else ol_Continue l \<noteq> [] \<and>
       decodeOperationContinue tc (ol_Continue l) = Inr (Some (cursorOf (ol_ResourceVersion l0) (xs ! (k + nat ?L - 1))))"
    using pageOf_step [OF _ _ xs L refl Suc.prems(1), where tc = tc and rv = "ol_ResourceVersion l0"] st xs codec
    by (auto simp: stable_list_def)
  show ?case
  proof (cases "length xs - k \<le> nat ?L")
    case True
    then show ?thesis using P l cont by simp
  next
    case False
    let ?k = "k + nat ?L"
    have "follow am tc s fuel (options\<lparr>lo_Continue := ol_Continue l\<rparr>) w = Inr (drop ?k xs)"
      by (rule Suc.IH) (use False L Suc.prems cont in auto)
    moreover have "take (nat ?L) (drop k xs) @ drop ?k xs = drop k xs"
      by (metis add.commute append_take_drop_id drop_drop)
    ultimately show ?thesis using P l cont False by simp
  qed
qed simp

subsection \<open>A concrete codec\<close>

text \<open>A token format for the examples: the fields in order, each closed by a zero byte.\<close>

definition text_int :: "string \<Rightarrow> int" where
  "text_int s = (case s of [] \<Rightarrow> 0 | c # r \<Rightarrow> if c = CHR ''-'' then - int (digits_val r) else int (digits_val s))"

lemma text_int_show: "text_int (show_int i) = i"
proof (cases "i < 0")
  case True
  then show ?thesis using show_nat_digits [of "nat (- i)"] by (simp add: text_int_def show_int_def)
next
  case False
  then show ?thesis using show_nat_digits [of "nat i"] show_nat_no_sign [of "nat i"]
    by (auto simp: text_int_def show_int_def split: list.split)
qed

definition cut :: "string \<Rightarrow> string \<times> string" where
  "cut s = (takeWhile (\<lambda>c. c \<noteq> CHR 0x00) s, tl (dropWhile (\<lambda>c. c \<noteq> CHR 0x00) s))"

lemma cut_append: "CHR 0x00 \<notin> set a \<Longrightarrow> cut (a @ CHR 0x00 # s) = (a, s)"
  by (induction a) (auto simp: cut_def)

definition textCodec :: token_codec where
  "textCodec = \<lparr>tc_Marshal = (\<lambda>t. Inr (show_int (ct_Version t) @ CHR 0x00 # show_int (ct_CreationTimestamp t) @ CHR 0x00 #
       ct_ResourceVersion t @ CHR 0x00 # ct_UID t)),
     tc_Unmarshal = (\<lambda>p. let (v, p1) = cut p; (t, p2) = cut p1; (rv, u) = cut p2
       in Some \<lparr>ct_Version = text_int v, ct_ResourceVersion = rv, ct_CreationTimestamp = text_int t, ct_UID = u\<rparr>)\<rparr>"

lemma textCodec_ok: "CHR 0x00 \<notin> set (ct_ResourceVersion t) \<Longrightarrow> codec_ok textCodec t"
proof -
  have z: "CHR 0x00 \<notin> set (show_int i)" for i using show_int_digits [of "CHR 0x00" i] by (auto simp: is_digit_def)
  assume "CHR 0x00 \<notin> set (ct_ResourceVersion t)"
  then show ?thesis using z by (simp add: codec_ok_def textCodec_def cut_append text_int_show)
qed

subsection \<open>Properties\<close>

text \<open>
  C19.  Paging is complete.  Whatever positive page size a client chooses, following the
  continuation tokens ends after at most one page per operation and one more, and the
  concatenated pages are exactly the selected operations, each once, newest first.
\<close>

theorem paging_complete:
  assumes "stable_list am s options l0 w" "0 < lo_Limit options" "lo_Continue options = []"
    and "\<forall>x \<in> set (ol_Items l0). codec_ok tc (cursorOf (ol_ResourceVersion l0) x)"
  shows "follow am tc s (Suc (length (ol_Items l0))) options w = Inr (go_sort operationNewer (ol_Items l0)) \<and>
    mset (go_sort operationNewer (ol_Items l0)) = mset (ol_Items l0) \<and>
    sorted_wrt operationNewer (go_sort operationNewer (ol_Items l0))"
proof -
  have "decodeOperationContinue tc [] = Inr (if 0 = 0 then None else Some x)" for x
    by (simp add: decodeOperationContinue_def)
  then have "follow am tc s (Suc (length (ol_Items l0))) (options\<lparr>lo_Continue := []\<rparr>) w =
      Inr (drop 0 (go_sort operationNewer (ol_Items l0)))"
    by (intro follow_from [OF assms(1,2,4) refl]) simp_all
  moreover have "options\<lparr>lo_Continue := []\<rparr> = options" using assms(3) by simp
  moreover have "sorted_wrt operationNewer (go_sort operationNewer (ol_Items l0))"
    using assms(1) operationNewer_linear by (intro sorted_go_sort_strict) (auto simp: stable_list_def)
  ultimately show ?thesis by simp
qed

definition page_op :: "string \<Rightarrow> gotime \<Rightarrow> Operation" where
  "page_op u t = sample_op\<lparr>op_Meta := (sample_meta u u [])\<lparr>m_CreationTimestamp := t\<rparr>\<rparr>"

definition page_world :: mem where
  "page_world = mem0\<lparr>mem_ops := \<lparr>co_items = [page_op ''a'' 1, page_op ''b'' 2, page_op ''c'' 2], co_next = 3, co_rev = 7\<rparr>\<rparr>"

theorem paging_complete_witness:
  "follow memAm textCodec memStore 4 (empty_ListOptions\<lparr>lo_Limit := 2\<rparr>) page_world =
     Inr [page_op ''c'' 2, page_op ''b'' 2, page_op ''a'' 1]"
proof -
  let ?o = "empty_ListOptions\<lparr>lo_Limit := 2\<rparr>" and ?items = "[page_op ''a'' 1, page_op ''b'' 2, page_op ''c'' 2]"
  let ?l = "\<lparr>ol_Items = ?items, ol_ResourceVersion = ''7'', ol_Continue = [], ol_RemainingItemCount = None\<rparr> :: Operation object_list"
  have seven: "show_nat 7 = ''7''" by code_simp
  have names: "op_Name (page_op u t) = u" "op_UID (page_op u t) = u" "op_Created (page_op u t) = t" for u t
    by (simp_all add: page_op_def sample_meta_def)
  have "inj_on op_UID (set ?items)" by (auto simp: inj_on_def names)
  moreover have "distinct ?items" using names by (auto dest: arg_cong [where f = op_UID])
  ultimately have "stable_list memAm memStore ?o ?l page_world"
    by (simp add: stable_list_def names empty_ListOptions_def internalListOptions_def memAm_def parseOneTerm_def memStore_def
        Let_def mem_storage_def page_world_def matchesFields_def seven operationStrategy_def)
  moreover have "\<forall>x \<in> set (ol_Items ?l). codec_ok textCodec (cursorOf (ol_ResourceVersion ?l) x)"
    by (simp add: textCodec_ok cursorOf_def)
  ultimately have "follow memAm textCodec memStore (Suc (length (ol_Items ?l))) ?o page_world = Inr (go_sort operationNewer (ol_Items ?l))"
    using paging_complete [of memAm memStore ?o ?l page_world textCodec] by (simp add: empty_ListOptions_def)
  moreover have "go_sort operationNewer ?items = [page_op ''c'' 2, page_op ''b'' 2, page_op ''a'' 1]"
    by (simp add: go_sort_def operationNewer_def names)
  ultimately show ?thesis by (simp add: eval_nat_numeral)
qed

text \<open>
  C20.  Tokens round trip.  The token a page ends with is read back by the next request as the same
  cursor, for every operation with a UID and every resource version.
\<close>

theorem continue_token_roundtrip:
  assumes "codec_ok tc (cursorOf rv op)" "op_UID op \<noteq> []"
  shows "\<exists>e. encodeOperationContinue tc (cursorOf rv op) = Inr e \<and> e \<noteq> [] \<and>
    decodeOperationContinue tc e = Inr (Some (cursorOf rv op))"
  by (rule encode_decode [OF assms])

theorem continue_token_roundtrip_witness:
  "\<exists>e. encodeOperationContinue textCodec (cursorOf ''7'' (sample_op\<lparr>op_Meta := sample_meta ''op'' ''u'' ''3''\<rparr>)) = Inr e \<and> e \<noteq> [] \<and>
    decodeOperationContinue textCodec e = Inr (Some (cursorOf ''7'' (sample_op\<lparr>op_Meta := sample_meta ''op'' ''u'' ''3''\<rparr>)))"
  by (rule continue_token_roundtrip) (simp_all add: textCodec_ok cursorOf_def sample_meta_def)

end
