(* ===== verification/Op_Handler.thy ===== *)
theory Op_Handler
  imports Op_Paging
begin

text \<open>
  The HTTP handlers of the operations API (\<^verbatim>\<open>pkg/apis/operations/v1alpha1/handler.go\<close>).  A request is
  what a handler reads of it: the decoded body (or the text of the decoding error), the path
  parameter, the query and the authenticated user.  A response is the status code with the
  entity, the error status or the watch that is written.  The reader of clusters and nodes, the
  storage watches, the HTTP exchange with an agent and the TLS files are arguments.
\<close>

subsection \<open>Requests and responses\<close>

record UserInfo =
  u_Name :: string
  u_Groups :: "string list"

record 'e request =
  rq_Entity :: "string + 'e"
  rq_Name :: string
  rq_Query :: "(string \<times> string) list"
  rq_User :: "UserInfo option"

datatype ('b, 'wa) response =
    Entity nat 'b
  | StatusError nat goerr
  | ServeWatch 'wa duration
  | RawBody nat string string

text \<open>\<^verbatim>\<open>url.Values.Get\<close>: the first value of a key, or the empty string.\<close>

definition values_Get :: "(string \<times> string) list \<Rightarrow> string \<Rightarrow> string" where
  "values_Get q k = (case map_of q k of None \<Rightarrow> [] | Some v \<Rightarrow> v)"

fun httpCode :: "goerr \<Rightarrow> nat" where
  "httpCode (NotFound _ _) = 404"
| "httpCode (AlreadyExists _ _) = 409"
| "httpCode (Conflict _ _ _) = 409"
| "httpCode (BadRequest _) = 400"
| "httpCode (Invalid _ _ _) = 422"
| "httpCode (ForbiddenErr _ _ _) = 403"
| "httpCode (ServiceUnavailable _) = 503"
| "httpCode _ = 500"

definition writeError :: "goerr \<Rightarrow> ('b, 'wa) response" where
  "writeError err = StatusError (httpCode err) err"

definition respond :: "nat \<Rightarrow> ('w, 'b) io \<Rightarrow> ('w, ('b, 'wa) response) act" where
  "respond code m = io_try m (\<lambda>err w. (writeError err, w)) (\<lambda>x w. (Entity code x, w))"

definition http_err :: "goerr \<Rightarrow> ('w, ('b, 'wa) response) act" where
  "http_err err = (\<lambda>w. (writeError err, w))"

subsection \<open>Agents\<close>

definition agentUsernamePrefix :: string where "agentUsernamePrefix = ''system:kc-agent:''"
definition agentGroup :: string where "agentGroup = ''system:kc-agents''"
definition defaultWatchTimeout :: duration where "defaultWatchTimeout = 30 * Minute"

definition hasGroup :: "UserInfo \<Rightarrow> string \<Rightarrow> bool" where
  "hasGroup user wanted \<longleftrightarrow> wanted \<in> set (u_Groups user)"

definition agentIDFromRequest :: "'e request \<Rightarrow> string \<times> bool" where
  "agentIDFromRequest req =
     (case rq_User req of
        None \<Rightarrow> ([], False)
      | Some user \<Rightarrow>
          if \<not> hasGroup user agentGroup \<or> \<not> prefix agentUsernamePrefix (u_Name user) then ([], False)
          else (let id = TrimPrefix (u_Name user) agentUsernamePrefix in (id, id \<noteq> [])))"

definition conditionalAgentID :: "string \<Rightarrow> bool \<Rightarrow> string" where
  "conditionalAgentID agentID ok = (if ok then agentID else [])"

definition conflictOperation :: "string \<Rightarrow> string \<Rightarrow> goerr" where
  "conflictOperation name message = Conflict ResourceOperations name message"

subsection \<open>List options of a request\<close>

text \<open>\<^verbatim>\<open>strconv.ParseBool\<close>.\<close>

definition ParseBool :: "string \<Rightarrow> bool option" where
  "ParseBool s =
     (if s \<in> {''1'', ''t'', ''T'', ''true'', ''TRUE'', ''True''} then Some True
      else if s \<in> {''0'', ''f'', ''F'', ''false'', ''FALSE'', ''False''} then Some False else None)"

text \<open>The four parameters that need parsing, in the order of the code; an absent one keeps its default.\<close>

definition optional :: "(string \<Rightarrow> 'a option) \<Rightarrow> ('a \<Rightarrow> bool) \<Rightarrow> string \<Rightarrow> ('a \<Rightarrow> ListOptions \<Rightarrow> ListOptions) \<Rightarrow>
    string \<Rightarrow> ListOptions \<Rightarrow> goerr + ListOptions" where
  "optional parse ok message set_field val options =
     (if val = [] then Inr options
      else case parse val of
             None \<Rightarrow> Inl (BadRequest message)
           | Some x \<Rightarrow> if ok x then Inr (set_field x options) else Inl (BadRequest message))"

definition parseWatch :: "string \<Rightarrow> ListOptions \<Rightarrow> goerr + ListOptions" where
  "parseWatch = optional ParseBool (\<lambda>_. True) ''watch must be a boolean'' (\<lambda>b. lo_Watch_update (\<lambda>_. b))"

definition parseBookmarks :: "string \<Rightarrow> ListOptions \<Rightarrow> goerr + ListOptions" where
  "parseBookmarks = optional ParseBool (\<lambda>_. True) ''allowWatchBookmarks must be a boolean'' (\<lambda>b. lo_AllowWatchBookmarks_update (\<lambda>_. b))"

definition parseLimit :: "string \<Rightarrow> ListOptions \<Rightarrow> goerr + ListOptions" where
  "parseLimit = optional ParseInt (\<lambda>n. \<not> n < 0) ''limit must be a non-negative integer'' (\<lambda>n. lo_Limit_update (\<lambda>_. n))"

definition parseTimeout :: "string \<Rightarrow> ListOptions \<Rightarrow> goerr + ListOptions" where
  "parseTimeout = optional ParseInt (\<lambda>n. \<not> n \<le> 0) ''timeoutSeconds must be a positive integer'' (\<lambda>n. lo_TimeoutSeconds_update (\<lambda>_. Some n))"

definition parseListOptions :: "'e request \<Rightarrow> goerr + ListOptions" where
  "parseListOptions req =
     (let vals = rq_Query req;
          options0 = empty_ListOptions\<lparr>lo_LabelSelector := values_Get vals ''labelSelector'',
            lo_FieldSelector := values_Get vals ''fieldSelector'',
            lo_ResourceVersion := values_Get vals ''resourceVersion'', lo_Continue := values_Get vals ''continue'',
            lo_ResourceVersionMatch := values_Get vals ''resourceVersionMatch''\<rparr>
      in case parseWatch (values_Get vals ''watch'') options0 of
           Inl err \<Rightarrow> Inl err
         | Inr options1 \<Rightarrow>
             (case parseBookmarks (values_Get vals ''allowWatchBookmarks'') options1 of
                Inl err \<Rightarrow> Inl err
              | Inr options2 \<Rightarrow>
                  (case parseLimit (values_Get vals ''limit'') options2 of
                     Inl err \<Rightarrow> Inl err
                   | Inr options3 \<Rightarrow> parseTimeout (values_Get vals ''timeoutSeconds'') options3)))"

definition watchTimeout :: "ListOptions option \<Rightarrow> duration" where
  "watchTimeout options =
     (case options of
        None \<Rightarrow> defaultWatchTimeout
      | Some o1 \<Rightarrow> (case lo_TimeoutSeconds o1 of None \<Rightarrow> defaultWatchTimeout | Some n \<Rightarrow> int64 (n * Second)))"

subsection \<open>Watches of the store\<close>

text \<open>The \<^verbatim>\<open>Watch\<close> methods of the storages; what a watch delivers is not modelled, so it is opaque here.\<close>

record ('w, 'wa) Watchers =
  wa_operations :: "InternalListOptions \<Rightarrow> 'w \<Rightarrow> goerr + 'wa"
  wa_tasks :: "InternalListOptions \<Rightarrow> 'w \<Rightarrow> goerr + 'wa"

definition WatchOperationsWithOptions :: "apimachinery \<Rightarrow> ('w, 'wa) Watchers \<Rightarrow> ListOptions option \<Rightarrow> ('w, 'wa) io" where
  "WatchOperationsWithOptions am wa options =
     io_bind (io_of (internalListOptions am (case options of None \<Rightarrow> empty_ListOptions | Some o1 \<Rightarrow> o1)))
       (\<lambda>internal. io_read (wa_operations wa internal))"

definition WatchOperations :: "apimachinery \<Rightarrow> ('w, 'wa) Watchers \<Rightarrow> string \<Rightarrow> ('w, 'wa) io" where
  "WatchOperations am wa resourceVersion =
     WatchOperationsWithOptions am wa (Some (empty_ListOptions\<lparr>lo_ResourceVersion := resourceVersion\<rparr>))"

definition WatchTasksWithOptions :: "apimachinery \<Rightarrow> ('w, 'wa) Watchers \<Rightarrow> string \<Rightarrow> ListOptions option \<Rightarrow> ('w, 'wa) io" where
  "WatchTasksWithOptions am wa nodeName options =
     io_bind (io_of (internalListOptions am (case options of None \<Rightarrow> empty_ListOptions | Some o1 \<Rightarrow> o1)))
       (\<lambda>internal. io_read (wa_tasks wa (restrictToNode nodeName internal)))"

definition WatchTasks :: "apimachinery \<Rightarrow> ('w, 'wa) Watchers \<Rightarrow> string \<Rightarrow> string \<Rightarrow> ('w, 'wa) io" where
  "WatchTasks am wa nodeName resourceVersion =
     WatchTasksWithOptions am wa nodeName (Some (empty_ListOptions\<lparr>lo_ResourceVersion := resourceVersion\<rparr>))"

subsection \<open>The handler\<close>

text \<open>What the handlers read of a cluster and of a node.\<close>

record Cluster =
  cl_Name :: string
  cl_UID :: string

record Node =
  nd_Name :: string
  nd_UID :: string
  nd_Ipv4DefaultIP :: string
  nd_AgentLogPort :: int

record 'w OperatorReader =
  rd_GetClusterEx :: "string \<Rightarrow> string \<Rightarrow> 'w \<Rightarrow> goerr + Cluster"
  rd_GetNodeEx :: "string \<Rightarrow> string \<Rightarrow> 'w \<Rightarrow> goerr + Node"

record TLSConfig =
  tls_MinVersion :: nat
  tls_RootCAs :: string
  tls_Certificates :: "string list"
  tls_ServerName :: string

datatype Transport = HTTPTransport "TLSConfig option" | OtherTransport

record Client =
  hc_Timeout :: duration
  hc_Transport :: Transport

record 'w handler =
  h_store :: "'w store"
  h_clusterReader :: "'w OperatorReader"
  h_logClient :: Client

subsubsection \<open>Creating operations\<close>

fun enrich_targets :: "'w OperatorReader \<Rightarrow> (string \<rightharpoonup> Node) \<Rightarrow> NodeReference list \<Rightarrow>
    ('w, (string \<rightharpoonup> Node) \<times> NodeReference list) io" where
  "enrich_targets rd nodes [] = io_ret (nodes, [])"
| "enrich_targets rd nodes (target # rest) =
     io_bind (case nodes (nr_Name target) of
                Some node \<Rightarrow> io_ret node
              | None \<Rightarrow> io_read (rd_GetNodeEx rd (nr_Name target) []))
       (\<lambda>node.
          if nd_UID node \<noteq> nr_UID target
          then io_err (Conflict ''nodes'' (nd_Name node) ''node UID does not match'')
          else io_bind (enrich_targets rd (nodes(nr_Name target \<mapsto> node)) rest)
                 (\<lambda>(nodes', rest'). io_ret (nodes', target\<lparr>nr_IP := nd_Ipv4DefaultIP node\<rparr> # rest')))"

fun enrich_steps :: "'w OperatorReader \<Rightarrow> (string \<rightharpoonup> Node) \<Rightarrow> OperationStep list \<Rightarrow> ('w, OperationStep list) io" where
  "enrich_steps rd nodes [] = io_ret []"
| "enrich_steps rd nodes (st # rest) =
     io_bind (enrich_targets rd nodes (step_Targets st)) (\<lambda>(nodes', targets).
       io_bind (enrich_steps rd nodes' rest) (\<lambda>rest'. io_ret (st\<lparr>step_Targets := targets\<rparr> # rest')))"

definition validateAndEnrichTargetIPs :: "Operation \<Rightarrow> 'w OperatorReader \<Rightarrow> ('w, Operation) io" where
  "validateAndEnrichTargetIPs op nodeReader =
     io_bind (enrich_steps nodeReader Map.empty (op_Steps op))
       (\<lambda>steps. io_ret (op\<lparr>op_Spec := (op_Spec op)\<lparr>os_Steps := steps\<rparr>\<rparr>))"

definition KindCluster :: string where "KindCluster = ''Cluster''"

definition validateTargetRefs :: "'w handler \<Rightarrow> Operation \<Rightarrow> ('w, Operation) io" where
  "validateTargetRefs h op =
     (if or_Kind (os_TargetRef (op_Spec op)) \<noteq> KindCluster
      then io_err (BadRequest ''v2 operations may target only Cluster objects'')
      else io_bind (io_read (rd_GetClusterEx (h_clusterReader h) (or_Name (os_TargetRef (op_Spec op))) []))
             (\<lambda>clusterObj.
                if cl_UID clusterObj \<noteq> or_UID (os_TargetRef (op_Spec op))
                then io_err (Conflict ''clusters'' (cl_Name clusterObj) ''cluster UID does not match'')
                else validateAndEnrichTargetIPs op (h_clusterReader h)))"

definition defaulted :: "Operation \<Rightarrow> Operation" where
  "defaulted op =
     (let op1 = (if os_Timeout (op_Spec op) = 0
                 then op\<lparr>op_Spec := (op_Spec op)\<lparr>os_Timeout := DefaultOperationTimeout\<rparr>\<rparr> else op)
      in if os_DesiredState (op_Spec op1) = []
         then op1\<lparr>op_Spec := (op_Spec op1)\<lparr>os_DesiredState := OperationDesiredStateActive\<rparr>\<rparr> else op1)"

definition createOperation :: "(Operation \<Rightarrow> nat option) \<Rightarrow> 'w handler \<Rightarrow> Operation request \<Rightarrow> ('w, (Operation, 'wa) response) act" where
  "createOperation sizeOf h req =
     (case rq_Entity req of
        Inl err \<Rightarrow> http_err (BadRequest err)
      | Inr body \<Rightarrow>
          (let op = defaulted body; errs = ValidateOperation sizeOf (Some op) in
           if errs \<noteq> [] then http_err (InvalidOperation (op_Name op) errs)
           else respond 201 (io_bind (validateTargetRefs h op) (\<lambda>op'. CreateOperation (h_store h) (Some op')))))"

subsubsection \<open>Reading operations\<close>

definition getOperation :: "'w handler \<Rightarrow> unit request \<Rightarrow> ('w, (Operation, 'wa) response) act" where
  "getOperation h req = respond 200 (GetOperation (h_store h) (rq_Name req) (values_Get (rq_Query req) ''resourceVersion''))"

definition listOperations :: "apimachinery \<Rightarrow> token_codec \<Rightarrow> ('w, 'wa) Watchers \<Rightarrow> 'w handler \<Rightarrow> unit request \<Rightarrow>
    ('w, (Operation object_list, 'wa) response) act" where
  "listOperations am tc wa h req =
     (case parseListOptions req of
        Inl err \<Rightarrow> http_err err
      | Inr options \<Rightarrow>
          if lo_Watch options
          then io_try (WatchOperationsWithOptions am wa (Some options)) http_err
                 (\<lambda>watcher w. (ServeWatch watcher (watchTimeout (Some options)), w))
          else respond 200 (ListOperationsWithOptions am tc (h_store h) (Some options)))"

subsubsection \<open>Control requests\<close>

definition readControlRequest :: "OperationControlRequest request \<Rightarrow> goerr + OperationControlRequest" where
  "readControlRequest req =
     (case rq_Entity req of
        Inl err \<Rightarrow> Inl (BadRequest err)
      | Inr r \<Rightarrow>
          if cr_UID r = [] \<or> cr_ResourceVersion r = []
          then Inl (BadRequest ''uid and resourceVersion are required'') else Inr r)"

definition cancelSpec :: "OperationSpec \<Rightarrow> goerr + OperationSpec" where
  "cancelSpec spec = Inr (spec\<lparr>os_DesiredState := OperationDesiredStateCancelled\<rparr>)"

definition cancelOperation :: "'w handler \<Rightarrow> OperationControlRequest request \<Rightarrow> ('w, (Operation, 'wa) response) act" where
  "cancelOperation h req =
     (case readControlRequest req of
        Inl err \<Rightarrow> http_err err
      | Inr preconditions \<Rightarrow>
          io_try (GetOperation (h_store h) (rq_Name req) []) http_err (\<lambda>op.
            if op_UID op \<noteq> cr_UID preconditions
            then http_err (conflictOperation (op_Name op) ''operation UID does not match'')
            else if op_Phase op \<noteq> OperationPending \<and> op_Phase op \<noteq> OperationRunning
            then http_err (BadRequest ''only Pending or Running operations may be canceled'')
            else if os_DesiredState (op_Spec op) \<noteq> OperationDesiredStateActive
            then http_err (conflictOperation (op_Name op) ''operation is already canceled'')
            else respond 200 (UpdateOperationControl (h_store h) (op_Name op) (op_UID op)
                   (cr_ResourceVersion preconditions) (Some cancelSpec))))"

definition retryablePhase :: "string \<Rightarrow> bool" where
  "retryablePhase phase \<longleftrightarrow> phase = OperationFailed \<or> phase = OperationTimedOut \<or> phase = OperationCancelled"

definition ensureTasksTerminal :: "apimachinery \<Rightarrow> 'w handler \<Rightarrow> Operation \<Rightarrow> ('w, unit) io" where
  "ensureTasksTerminal am h op =
     io_bind (ListTasksByOperationUID am (h_store h) (op_UID op) []) (\<lambda>tasks.
       if list_ex (\<lambda>t. \<not> TaskPhase_IsTerminal (task_Phase t)) (ol_Items tasks)
       then io_err (conflictOperation (op_Name op) ''operation still has active tasks'') else io_ret ())"

definition operationLess :: "Operation \<Rightarrow> Operation \<Rightarrow> bool" where
  "operationLess left right =
     (if op_Created left \<noteq> op_Created right then op_Created left < op_Created right
      else (case (ParseUint (op_RV left), ParseUint (op_RV right)) of
              (Some leftRevision, Some rightRevision) \<Rightarrow>
                if leftRevision \<noteq> rightRevision then leftRevision < rightRevision else op_UID left < op_UID right
            | _ \<Rightarrow> op_UID left < op_UID right))"

definition isLast :: "Operation \<Rightarrow> Operation list \<Rightarrow> bool" where
  "isLast op items =
     (let xs = go_sort operationLess items in \<not> (xs = [] \<or> op_UID (last xs) \<noteq> op_UID op))"

definition ensureLatestOperation :: "apimachinery \<Rightarrow> 'w handler \<Rightarrow> Operation \<Rightarrow> ('w, unit) io" where
  "ensureLatestOperation am h op =
     io_bind (ListOperations am (h_store h) (or_UID (os_TargetRef (op_Spec op))) []) (\<lambda>operationList.
       if isLast op (ol_Items operationList) then io_ret ()
       else io_err (conflictOperation (op_Name op) ''only the latest operation for a target may be retried''))"

definition loadRetryableOperation :: "apimachinery \<Rightarrow> 'w handler \<Rightarrow> string \<Rightarrow> OperationControlRequest \<Rightarrow> ('w, Operation) io" where
  "loadRetryableOperation am h name preconditions =
     io_bind (GetOperation (h_store h) name []) (\<lambda>op.
       if op_UID op \<noteq> cr_UID preconditions
       then io_err (conflictOperation (op_Name op) ''operation UID does not match'')
       else if \<not> retryablePhase (op_Phase op)
       then io_err (BadRequest ''only Failed, TimedOut or Canceled operations may be retried'')
       else io_bind (ensureTasksTerminal am h op) (\<lambda>_.
            io_bind (ensureLatestOperation am h op) (\<lambda>_. io_ret op)))"

definition retrySpec :: "OperationSpec \<Rightarrow> goerr + OperationSpec" where
  "retrySpec spec = Inr (spec\<lparr>os_DesiredState := OperationDesiredStateActive,
     os_RetryGeneration := int64 (os_RetryGeneration spec + 1)\<rparr>)"

definition retryOperation :: "apimachinery \<Rightarrow> 'w handler \<Rightarrow> OperationControlRequest request \<Rightarrow> ('w, (Operation, 'wa) response) act" where
  "retryOperation am h req =
     (case readControlRequest req of
        Inl err \<Rightarrow> http_err err
      | Inr preconditions \<Rightarrow>
          respond 200 (io_bind (loadRetryableOperation am h (rq_Name req) preconditions) (\<lambda>op.
            UpdateOperationControl (h_store h) (op_Name op) (op_UID op) (cr_ResourceVersion preconditions) (Some retrySpec))))"

subsubsection \<open>Tasks\<close>

definition listTasks :: "apimachinery \<Rightarrow> ('w, 'wa) Watchers \<Rightarrow> 'w handler \<Rightarrow> unit request \<Rightarrow>
    ('w, (OperationTask object_list, 'wa) response) act" where
  "listTasks am wa h req =
     (case parseListOptions req of
        Inl err \<Rightarrow> http_err err
      | Inr options \<Rightarrow>
          (let (agentID, isAgent) = agentIDFromRequest req in
           if lo_Watch options
           then io_try (WatchTasksWithOptions am wa (conditionalAgentID agentID isAgent) (Some options)) http_err
                  (\<lambda>watcher w. (ServeWatch watcher (watchTimeout (Some options)), w))
           else respond 200 (ListTasksWithOptions am (h_store h) (conditionalAgentID agentID isAgent) (Some options))))"

definition getTask :: "'w handler \<Rightarrow> unit request \<Rightarrow> ('w, (OperationTask, 'wa) response) act" where
  "getTask h req =
     io_try (GetTask (h_store h) (rq_Name req) (values_Get (rq_Query req) ''resourceVersion'')) http_err (\<lambda>task.
       let (agentID, isAgent) = agentIDFromRequest req in
       if isAgent \<and> nr_Name (tsp_NodeRef (task_Spec task)) \<noteq> agentID
       then http_err (ForbiddenErr ResourceTasks (task_Name task) ''task belongs to another agent'')
       else (\<lambda>w. (Entity 200 task, w)))"

definition updateTaskStatus :: "'w handler \<Rightarrow> OperationTask request \<Rightarrow> ('w, (OperationTask, 'wa) response) act" where
  "updateTaskStatus h req =
     (let (agentID, ok) = agentIDFromRequest req in
      if \<not> ok then http_err (ForbiddenErr ResourceTasks (rq_Name req) ''agent certificate is required'')
      else case rq_Entity req of
             Inl err \<Rightarrow> http_err (BadRequest err)
           | Inr incoming \<Rightarrow>
               if task_Name incoming \<noteq> [] \<and> task_Name incoming \<noteq> rq_Name req
               then http_err (BadRequest ''task name does not match URL'')
               else io_try (GetTask (h_store h) (rq_Name req) []) http_err (\<lambda>current.
                 if nr_Name (tsp_NodeRef (task_Spec current)) \<noteq> agentID
                 then http_err (ForbiddenErr ResourceTasks (task_Name current) ''task belongs to another agent'')
                 else if task_UID incoming = [] \<or> task_RV incoming = []
                 then http_err (BadRequest ''task UID and resourceVersion are required'')
                 else respond 200 (UpdateTaskStatus (h_store h) (task_Name current) (task_UID incoming)
                        (task_RV incoming) (task_Status incoming))))"

subsubsection \<open>Task logs\<close>

text \<open>\<^verbatim>\<open>url.PathEscape\<close> and \<^verbatim>\<open>url.QueryEscape\<close>, \<^verbatim>\<open>url.Values.Encode\<close> (the keys in sorted order) and \<^verbatim>\<open>net.JoinHostPort\<close>.\<close>

definition unreserved :: "char \<Rightarrow> bool" where
  "unreserved c \<longleftrightarrow> c \<in> set ''ABCDEFGHIJKLMNOPQRSTUVWXYZabcdefghijklmnopqrstuvwxyz0123456789-_.~''"

definition upper_hex :: "nat \<Rightarrow> char" where
  "upper_hex n = (if n < 10 then char_of (48 + n) else char_of (55 + n))"

definition percent :: "char \<Rightarrow> string" where
  "percent c = [CHR ''%'', upper_hex (byte c div 16), upper_hex (byte c mod 16)]"

definition PathEscape :: "string \<Rightarrow> string" where
  "PathEscape s = concat (map (\<lambda>c. if unreserved c \<or> c \<in> set ''$&+=:@'' then [c] else percent c) s)"

definition QueryEscape :: "string \<Rightarrow> string" where
  "QueryEscape s = concat (map (\<lambda>c. if c = CHR '' '' then ''+'' else if unreserved c then [c] else percent c) s)"

definition values_Encode :: "(string \<times> string) list \<Rightarrow> string" where
  "values_Encode q = Join (map (\<lambda>(k, v). QueryEscape k @ ''='' @ QueryEscape v) (sort_key fst q)) ''&''"

definition JoinHostPort :: "string \<Rightarrow> string \<Rightarrow> string" where
  "JoinHostPort host port = (if CHR '':'' \<in> set host then ''['' @ host @ '']:'' @ port else host @ '':'' @ port)"

definition DefaultAgentLogPort :: int where "DefaultAgentLogPort = 10260"

definition taskLogEndpoint :: "Node \<Rightarrow> OperationTask \<Rightarrow> (string \<times> string) list \<Rightarrow> string + string" where
  "taskLogEndpoint node task query =
     (let port = (if nd_AgentLogPort node = 0 then DefaultAgentLogPort else nd_AgentLogPort node) in
      if port < 1 \<or> port > 65535 then Inl (''agent log port '' @ show_int port @ '' is invalid'')
      else Inr (''https://'' @ JoinHostPort (nd_Ipv4DefaultIP node) (show_int port) @ ''/v1/tasks/'' @
             PathEscape (task_UID task) @ ''/logs?'' @ values_Encode query))"

record tls_files =
  tf_LoadX509KeyPair :: "string \<Rightarrow> string \<Rightarrow> string + string"
  tf_ReadFile :: "string \<Rightarrow> string + string"
  tf_AppendCertsFromPEM :: "string \<Rightarrow> bool"

definition VersionTLS12 :: nat where "VersionTLS12 = 771"

definition newLogClient :: "tls_files \<Rightarrow> string \<Rightarrow> string \<Rightarrow> string \<Rightarrow> goerr + Client" where
  "newLogClient tf caFile certFile keyFile =
     (case tf_LoadX509KeyPair tf certFile keyFile of
        Inl err \<Rightarrow> Inl (Plain err)
      | Inr certificate \<Rightarrow>
          (case tf_ReadFile tf caFile of
             Inl err \<Rightarrow> Inl (Plain err)
           | Inr caData \<Rightarrow>
               if \<not> tf_AppendCertsFromPEM tf caData then Inl (Plain ''agent log CA contains no certificates'')
               else Inr \<lparr>hc_Timeout = 15 * Second, hc_Transport = HTTPTransport (Some \<lparr>tls_MinVersion = VersionTLS12,
                      tls_RootCAs = caData, tls_Certificates = [certificate], tls_ServerName = []\<rparr>)\<rparr>))"

text \<open>The exchange with the agent: parsing the URL of a request, and sending it with a client.\<close>

record upstream =
  up_StatusCode :: nat
  up_ContentType :: string
  up_Body :: string
  up_ReadError :: bool

record 'w http_io =
  ht_NewRequest :: "string \<Rightarrow> string option"
  ht_Do :: "Client \<Rightarrow> string \<Rightarrow> 'w \<Rightarrow> string + upstream"

definition clientFor :: "Client \<Rightarrow> string \<Rightarrow> Client" where
  "clientFor client serverName =
     (case hc_Transport client of
        HTTPTransport cfg \<Rightarrow>
          client\<lparr>hc_Transport := HTTPTransport (map_option (\<lambda>c. c\<lparr>tls_ServerName := serverName\<rparr>) cfg)\<rparr>
      | OtherTransport \<Rightarrow> client)"

definition fetchTaskLog :: "'w http_io \<Rightarrow> Client \<Rightarrow> string \<Rightarrow> ('w, (unit, 'wa) response) act" where
  "fetchTaskLog ht client endpoint =
     (case ht_NewRequest ht endpoint of
        Some err \<Rightarrow> http_err (InternalErr err)
      | None \<Rightarrow> (\<lambda>w.
          case ht_Do ht client endpoint w of
            Inl _ \<Rightarrow> (writeError (ServiceUnavailable ''agent Task log endpoint is unavailable''), w)
          | Inr up \<Rightarrow>
              if up_ReadError up \<or> length (take (1048576 + 1) (up_Body up)) > 1048576
              then (writeError (InternalErr ''read agent Task log response failed or exceeded 1 MiB''), w)
              else (RawBody (up_StatusCode up) (up_ContentType up) (up_Body up), w)))"

definition getTaskLogs :: "'w http_io \<Rightarrow> 'w handler \<Rightarrow> unit request \<Rightarrow> ('w, (unit, 'wa) response) act" where
  "getTaskLogs ht h req =
     io_try (GetTask (h_store h) (rq_Name req) []) http_err (\<lambda>task.
     io_try (io_read (rd_GetNodeEx (h_clusterReader h) (nr_Name (tsp_NodeRef (task_Spec task))) [])) http_err (\<lambda>node.
       if nd_UID node \<noteq> task_NodeUID task \<or> nd_Ipv4DefaultIP node = []
       then http_err (Conflict ResourceTasks (task_Name task) ''task Node identity or management IP is unavailable'')
       else
         (let query = [(''offset'', values_Get (rq_Query req) ''offset''), (''limit'', values_Get (rq_Query req) ''limit'')] in
          case taskLogEndpoint node task query of
            Inl err \<Rightarrow> http_err (Conflict ResourceTasks (task_Name task) err)
          | Inr endpoint \<Rightarrow>
              fetchTaskLog ht (clientFor (h_logClient h) (nr_Name (tsp_NodeRef (task_Spec task)))) endpoint)))"

end
