(* ===== verification/Go_Utf8.thy ===== *)
theory Go_Utf8
  imports Go_Prelude
begin

text \<open>
  The part of \<^verbatim>\<open>unicode/utf8\<close> that the agent uses to cut messages: decoding the last rune of a byte
  string.  Bytes are numbers here; \<open>rune_size\<close> is the width that \<^verbatim>\<open>DecodeRuneInString\<close> returns for a valid
  encoding at the head, \<open>None\<close> is its answer \<^verbatim>\<open>(RuneError, 1)\<close>.
\<close>

definition bytes_of :: "string \<Rightarrow> nat list" where
  "bytes_of s = map of_char s"

definition cont_byte :: "nat \<Rightarrow> bool" where
  "cont_byte b \<longleftrightarrow> 128 \<le> b \<and> b \<le> 191"

definition second_ok :: "nat \<Rightarrow> nat \<Rightarrow> bool" where
  "second_ok a b \<longleftrightarrow>
     (if a = 224 then 160 else if a = 240 then 144 else 128) \<le> b \<and>
     b \<le> (if a = 237 then 159 else if a = 244 then 143 else 191)"

fun rune_size :: "nat list \<Rightarrow> nat option" where
  "rune_size [] = None"
| "rune_size (a # r) =
     (if a < 128 then Some 1
      else if 194 \<le> a \<and> a \<le> 223 then
        (case r of b # _ \<Rightarrow> if second_ok a b then Some 2 else None | _ \<Rightarrow> None)
      else if 224 \<le> a \<and> a \<le> 239 then
        (case r of b # c # _ \<Rightarrow> if second_ok a b \<and> cont_byte c then Some 3 else None | _ \<Rightarrow> None)
      else if 240 \<le> a \<and> a \<le> 244 then
        (case r of b # c # d # _ \<Rightarrow> if second_ok a b \<and> cont_byte c \<and> cont_byte d then Some 4 else None | _ \<Rightarrow> None)
      else None)"

text \<open>
  \<^verbatim>\<open>DecodeLastRuneInString\<close>: an ASCII byte stands for itself; otherwise the nearest byte before the last
  one that can start a rune, at most four bytes from the end, is decoded, and the answer counts
  only if the rune ends where the string ends.  The search is over the distance \<open>k\<close> from the end.
\<close>

definition rune_start :: "nat \<Rightarrow> bool" where
  "rune_start b \<longleftrightarrow> \<not> cont_byte b"

function back_to_start :: "nat list \<Rightarrow> nat \<Rightarrow> nat" where
  "back_to_start s k =
     (if k \<le> 4 \<and> k \<le> length s \<and> \<not> rune_start (s ! (length s - k)) then back_to_start s (Suc k) else k)"
  by pat_completeness auto
termination
  by (relation "measure (\<lambda>(s, k). 5 - k)") auto

declare back_to_start.simps [simp del]

definition last_start :: "nat list \<Rightarrow> nat" where
  "last_start s = min (length s) (back_to_start s 2)"

text \<open>Whether the answer for a non-empty string is \<^verbatim>\<open>(RuneError, 1)\<close>.\<close>

definition last_rune_bad :: "nat list \<Rightarrow> bool" where
  "last_rune_bad s \<longleftrightarrow>
     \<not> last s < 128 \<and> rune_size (drop (length s - last_start s) s) \<noteq> Some (last_start s)"

subsection \<open>Well-formed text\<close>

definition is_rune :: "nat list \<Rightarrow> bool" where
  "is_rune r \<longleftrightarrow> rune_size r = Some (length r)"

definition valid_utf8 :: "nat list \<Rightarrow> bool" where
  "valid_utf8 s \<longleftrightarrow> (\<exists>rs. s = concat rs \<and> (\<forall>r \<in> set rs. is_rune r))"

definition lead_len :: "nat \<Rightarrow> nat" where
  "lead_len a = (if a < 128 then 1 else if a \<le> 223 then 2 else if a \<le> 239 then 3 else 4)"

lemma second_cont: "second_ok a b \<Longrightarrow> cont_byte b"
  by (auto simp: second_ok_def cont_byte_def split: if_splits)

lemma rune_facts:
  assumes "rune_size r = Some n"
  shows "r \<noteq> []" "1 \<le> n" "n \<le> 4" "n \<le> length r" "n = lead_len (hd r)" "rune_start (r ! 0)"
    "\<And>i. 0 < i \<Longrightarrow> i < n \<Longrightarrow> cont_byte (r ! i)"
proof -
  obtain a s where r: "r = a # s" using assms by (cases r) auto
  show "r \<noteq> []" "1 \<le> n" "n \<le> 4" "n \<le> length r" "n = lead_len (hd r)" "rune_start (r ! 0)"
    using assms unfolding r by (auto simp: lead_len_def rune_start_def cont_byte_def split: if_splits list.splits)
  show "cont_byte (r ! i)" if "0 < i" "i < n" for i
  proof -
    have "i = Suc 0 \<or> i = Suc (Suc 0) \<or> i = Suc (Suc (Suc 0))" using that \<open>n \<le> 4\<close> by linarith
    then show ?thesis using assms \<open>i < n\<close> unfolding r
      by (elim disjE) (auto split: if_splits list.splits dest: second_cont)
  qed
qed

lemma back_to_start_eq:
  assumes "i \<le> k" "k \<le> 4" "k \<le> length s" "\<And>j. i \<le> j \<Longrightarrow> j < k \<Longrightarrow> cont_byte (s ! (length s - j))"
    and "rune_start (s ! (length s - k))"
  shows "back_to_start s i = k"
  using assms
proof (induction "k - i" arbitrary: i)
  case 0
  then show ?case by (subst back_to_start.simps) simp
next
  case (Suc d)
  then have "cont_byte (s ! (length s - i))" by simp
  moreover have "back_to_start s (Suc i) = k" using Suc by (intro Suc.hyps(1)) auto
  ultimately show ?case using Suc by (subst back_to_start.simps) (simp add: rune_start_def)
qed

lemma last_rune_good_iff:
  assumes "s \<noteq> []"
  shows "\<not> last_rune_bad s \<longleftrightarrow> (\<exists>k \<le> length s. rune_size (drop (length s - k) s) = Some k)"
proof
  assume good: "\<not> last_rune_bad s"
  show "\<exists>k \<le> length s. rune_size (drop (length s - k) s) = Some k"
  proof (cases "last s < 128")
    case True
    have "drop (length s - 1) s = [last s]"
      using assms by (metis append_butlast_last_id append_eq_conv_conj length_butlast)
    then have "rune_size (drop (length s - 1) s) = Some 1" using True by simp
    moreover have "1 \<le> length s" using assms by (cases s) auto
    ultimately show ?thesis by blast
  next
    case False
    then show ?thesis using good by (auto simp: last_rune_bad_def last_start_def intro!: exI [of _ "last_start s"])
  qed
next
  assume "\<exists>k \<le> length s. rune_size (drop (length s - k) s) = Some k"
  then obtain k where k: "k \<le> length s" "rune_size (drop (length s - k) s) = Some k" by blast
  note f = rune_facts [OF k(2)]
  have nth: "drop (length s - k) s ! (k - j) = s ! (length s - j)" if "j \<le> k" for j using k(1) that by simp
  show "\<not> last_rune_bad s"
  proof (cases "k = 1")
    case True
    have "drop (length s - 1) s = [last s]"
      using assms by (metis append_butlast_last_id append_eq_conv_conj length_butlast)
    then show ?thesis using k(2) True by (auto simp: last_rune_bad_def split: if_splits)
  next
    case False
    have "back_to_start s 2 = k"
    proof (rule back_to_start_eq)
      show "cont_byte (s ! (length s - j))" if "2 \<le> j" "j < k" for j
        using f(7) [of "k - j"] nth [of j] that by simp
      show "rune_start (s ! (length s - k))" using f(6) k(1) by simp
    qed (use f False k in auto)
    then have "last_start s = k" using k(1) by (simp add: last_start_def)
    then show ?thesis using k(2) by (simp add: last_rune_bad_def)
  qed
qed

text \<open>A non-empty proper prefix of a rune.\<close>

definition partial_rune :: "nat list \<Rightarrow> bool" where
  "partial_rune p \<longleftrightarrow> p \<noteq> [] \<and> (\<exists>r. is_rune r \<and> length p < length r \<and> p = take (length p) r)"

lemma valid_last_good:
  assumes "valid_utf8 s" "s \<noteq> []"
  shows "\<not> last_rune_bad s"
proof -
  obtain rs where rs: "s = concat rs" "\<forall>r \<in> set rs. is_rune r" using assms(1) by (auto simp: valid_utf8_def)
  then have "rs \<noteq> []" using assms(2) by auto
  then obtain qs r where qs: "rs = qs @ [r]" by (metis append_butlast_last_id)
  then have "is_rune r" "drop (length s - length r) s = r" "length r \<le> length s" using rs by auto
  then show ?thesis unfolding last_rune_good_iff [OF assms(2)] is_rune_def by auto
qed

lemma partial_last_bad:
  assumes "partial_rune p"
  shows "last_rune_bad (a @ p)"
proof (rule ccontr)
  obtain r where r: "is_rune r" "length p < length r" "p = take (length p) r" and p: "p \<noteq> []"
    using assms by (auto simp: partial_rune_def)
  note fr = rune_facts [OF r(1) [unfolded is_rune_def]]
  have pn: "p ! i = r ! i" if "i < length p" for i using r(3) that by (metis nth_take)
  assume "\<not> last_rune_bad (a @ p)"
  then obtain k where k: "k \<le> length (a @ p)" and sz: "rune_size (drop (length (a @ p) - k) (a @ p)) = Some k"
    using last_rune_good_iff [of "a @ p"] p by auto
  let ?q = "drop (length (a @ p) - k) (a @ p)"
  note fq = rune_facts [OF sz]
  consider "k < length p" | "k = length p" | "length p < k" by linarith
  then show False
  proof cases
    case 1
    then have "?q ! 0 = r ! (length p - k)" using fq(2) pn [of "length p - k"] by (simp add: nth_append)
    moreover have "cont_byte (r ! (length p - k))" using fr(7) [of "length p - k"] 1 r(2) fq(2) by simp
    ultimately show False using fq(6) by (simp add: rune_start_def)
  next
    case 2
    then have "?q = p" by simp
    then have "k = lead_len (hd p)" using fq(5) by simp
    moreover have "hd p = hd r" using pn [of 0] p fr(1) by (simp add: hd_conv_nth)
    ultimately show False using fr(5) 2 r(2) by simp
  next
    case 3
    then have "?q ! (k - length p) = p ! 0" using k p by (simp add: nth_append)
    moreover have "cont_byte (?q ! (k - length p))" using fq(7) [of "k - length p"] 3 p by simp
    ultimately show False using fr(6) pn [of 0] p by (simp add: rune_start_def)
  qed
qed

lemma valid_take:
  assumes "valid_utf8 s"
  shows "\<exists>a p. take n s = a @ p \<and> valid_utf8 a \<and> (p = [] \<or> partial_rune p)"
proof -
  obtain rs where "s = concat rs" "\<forall>r \<in> set rs. is_rune r" using assms by (auto simp: valid_utf8_def)
  then have "\<exists>qs p. take n s = concat qs @ p \<and> (\<forall>r \<in> set qs. is_rune r) \<and> (p = [] \<or> partial_rune p)"
  proof (induction rs arbitrary: s n)
    case (Cons r rs)
    show ?case
    proof (cases "n < length r")
      case True
      then have "take n s = concat [] @ take n r" using Cons.prems by simp
      moreover have "take n r = [] \<or> partial_rune (take n r)" using True Cons.prems by (auto simp: partial_rune_def)
      ultimately show ?thesis by (metis empty_iff list.set(1))
    next
      case False
      from Cons.IH [OF refl] Cons.prems obtain qs p where
        "take (n - length r) (concat rs) = concat qs @ p" "\<forall>r \<in> set qs. is_rune r" "p = [] \<or> partial_rune p" by force
      then have "take n s = concat (r # qs) @ p" "\<forall>r \<in> set (r # qs). is_rune r" "p = [] \<or> partial_rune p"
        using Cons.prems False by auto
      then show ?thesis by blast
    qed
  qed (auto intro: exI [of _ "[]"])
  then show ?thesis unfolding valid_utf8_def by blast
qed

lemma partial_butlast: "partial_rune p \<Longrightarrow> butlast p = [] \<or> partial_rune (butlast p)"
proof -
  assume "partial_rune p"
  then obtain r where r: "is_rune r" "length p < length r" "p = take (length p) r" by (auto simp: partial_rune_def)
  have "butlast p = take (length p - 1) p" by (rule butlast_conv_take)
  also have "\<dots> = take (length p - 1) r" by (subst r(3)) simp
  finally have "butlast p = take (length (butlast p)) r" using r(2) by (simp add: min.absorb2)
  then show ?thesis using r(1,2) unfolding partial_rune_def by (metis length_butlast less_imp_diff_less)
qed

lemma partial_short: "partial_rune p \<Longrightarrow> length p \<le> 3"
  unfolding partial_rune_def is_rune_def using rune_facts(3) by fastforce

end
