(* ===== verification/Op_Agent.thy ===== *)
theory Op_Agent
  imports Op_Handler Go_Utf8
begin

text \<open>
  The agent of a node (\<^verbatim>\<open>pkg/agent/operationv2\<close>): a single worker that picks one task of its node at a time,
  marks it Running, runs the executor named by the task under the task's deadline and reports the
  result.  The API client, the informer cache, the work queue, the log files and what executors do
  to the node are arguments; the world is the state they share.
\<close>

subsection \<open>Contexts and errors\<close>

text \<open>
  A context is asked for its error in a world.  The error of an executor keeps its text and whether
  \<^verbatim>\<open>errors.Is\<close> finds \<^verbatim>\<open>context.DeadlineExceeded\<close> in its chain.
\<close>

record ExecError =
  xe_Text :: string
  xe_Deadline :: bool

type_synonym 'w ctx = "'w \<Rightarrow> ExecError option"

definition DeadlineExceeded :: ExecError where
  "DeadlineExceeded = \<lparr>xe_Text = ''context deadline exceeded'', xe_Deadline = True\<rparr>"

definition Background :: "'w ctx" where "Background = (\<lambda>_. None)"

definition WithDeadline :: "('w \<Rightarrow> gotime) \<Rightarrow> 'w ctx \<Rightarrow> gotime \<Rightarrow> 'w ctx" where
  "WithDeadline clock parent d =
     (\<lambda>w. case parent w of Some e \<Rightarrow> Some e | None \<Rightarrow> if d \<le> clock w then Some DeadlineExceeded else None)"

definition plainErr :: "string \<Rightarrow> ExecError" where
  "plainErr m = \<lparr>xe_Text = m, xe_Deadline = False\<rparr>"

text \<open>\<^verbatim>\<open>fmt.Errorf("...: %w", err)\<close>.\<close>

definition wrapErr :: "string \<Rightarrow> ExecError \<Rightarrow> ExecError" where
  "wrapErr m e = e\<lparr>xe_Text := m @ '': '' @ xe_Text e\<rparr>"

type_synonym 'w writer = "string \<Rightarrow> 'w \<Rightarrow> string option \<times> 'w"

definition Discard :: "'w writer" where "Discard = (\<lambda>_ w. (None, w))"

type_synonym 'w Executor = "'w ctx \<Rightarrow> OperationTask \<Rightarrow> 'w writer \<Rightarrow> 'w \<Rightarrow> (ExecError + TaskResult) \<times> 'w"

subsection \<open>The executor registry\<close>

type_synonym 'w Registry = "string \<rightharpoonup> 'w Executor"

definition NewRegistry :: "'w Registry" where "NewRegistry = Map.empty"

definition Register :: "'w Registry \<Rightarrow> string \<Rightarrow> 'w Executor option \<Rightarrow> goerr + 'w Registry" where
  "Register r name executor =
     (if name = [] then Inl (Plain ''executor name is required'')
      else case executor of
             None \<Rightarrow> Inl (Plain (''executor '' @ Quote name @ '' is nil''))
           | Some e \<Rightarrow>
               if r name \<noteq> None then Inl (Plain (''executor '' @ Quote name @ '' is already registered''))
               else Inr (r(name \<mapsto> e)))"

subsection \<open>The worker\<close>

definition syncKey :: string where "syncKey = ''tasks''"
definition serverCallTimeout :: duration where "serverCallTimeout = 30 * Second"

record 'w TaskClient =
  tc_Get :: "'w ctx \<Rightarrow> string \<Rightarrow> ('w, OperationTask) io"
  tc_UpdateStatus :: "'w ctx \<Rightarrow> OperationTask \<Rightarrow> ('w, OperationTask) io"

record 'w TaskLog =
  tl_CreateOperationDir :: "string \<Rightarrow> 'w \<Rightarrow> string option \<times> 'w"
  tl_CreateStepLogFile :: "string \<Rightarrow> string \<Rightarrow> 'w \<Rightarrow> (string + 'w writer) \<times> 'w"

record 'w Worker =
  wk_agentID :: string
  wk_nodeUID :: string
  wk_client :: "'w TaskClient"
  wk_registry :: "'w Registry"
  wk_oplog :: "'w TaskLog"
  wk_informer :: "'w \<Rightarrow> OperationTask list"
  wk_queueAdd :: "'w \<Rightarrow> 'w"
  wk_queueGet :: "'w \<Rightarrow> bool \<times> 'w"
  wk_queueDone :: "'w \<Rightarrow> 'w"
  wk_queueForget :: "'w \<Rightarrow> 'w"
  wk_queueAddRateLimited :: "'w \<Rightarrow> 'w"
  wk_runCtx :: "'w ctx"
  wk_clock :: "'w \<Rightarrow> gotime"
  wk_RFC3339 :: "gotime \<Rightarrow> string"

subsubsection \<open>Messages\<close>

function trim_bad :: "string \<Rightarrow> string" where
  "trim_bad s = (if s \<noteq> [] \<and> last_rune_bad (bytes_of s) then trim_bad (butlast s) else s)"
  by pat_completeness auto
termination
  by (relation "measure length") auto

declare trim_bad.simps [simp del]

definition truncateMessage :: "string \<Rightarrow> nat \<Rightarrow> string" where
  "truncateMessage message limit = (if length message \<le> limit then message else trim_bad (take limit message))"

definition boundedMessage :: "string \<Rightarrow> string" where
  "boundedMessage message = truncateMessage message MaxMessageSize"

definition unavailableLogNoticeLimit :: nat where "unavailableLogNoticeLimit = MaxMessageSize div 4"

definition taskResultMessage :: "string \<Rightarrow> string option \<Rightarrow> string" where
  "taskResultMessage message logErr =
     (case logErr of
        None \<Rightarrow> boundedMessage message
      | Some err \<Rightarrow>
          (let notice = truncateMessage (''; agent task log unavailable: '' @ err) unavailableLogNoticeLimit
           in truncateMessage message (MaxMessageSize - length notice) @ notice))"

subsubsection \<open>Choosing a task\<close>

definition eligibleTasks :: "'w Worker \<Rightarrow> 'w \<Rightarrow> OperationTask list" where
  "eligibleTasks wk w = filter (\<lambda>task. \<not> (nr_Name (tsp_NodeRef (task_Spec task)) \<noteq> wk_agentID wk \<or>
     task_NodeUID task \<noteq> wk_nodeUID wk \<or> TaskPhase_IsTerminal (task_Phase task))) (wk_informer wk w)"

definition taskBefore :: "OperationTask \<Rightarrow> OperationTask \<Rightarrow> bool" where
  "taskBefore a b =
     (if task_Created a = task_Created b then
        (case (ParseUint (task_RV a), ParseUint (task_RV b)) of
           (Some ra, Some rb) \<Rightarrow> if ra \<noteq> rb then ra < rb else task_UID a < task_UID b
         | _ \<Rightarrow> task_UID a < task_UID b)
      else task_Created a < task_Created b)"

definition selectTask :: "OperationTask list \<Rightarrow> goerr + OperationTask option" where
  "selectTask tasks =
     (let running = filter (\<lambda>t. task_Phase t = TaskRunning) tasks;
          pending = filter (\<lambda>t. task_Phase t = [] \<or> task_Phase t = TaskPending) tasks
      in if length running > 1
         then Inl (Plain (''found '' @ show_nat (length running) @ '' Running tasks for one agent; refusing concurrent execution''))
         else case running of
                t # _ \<Rightarrow> Inr (Some t)
              | [] \<Rightarrow> (case go_sort taskBefore pending of [] \<Rightarrow> Inr None | t # _ \<Rightarrow> Inr (Some t)))"

definition withTimeout :: "'w Worker \<Rightarrow> 'w ctx \<Rightarrow> 'w \<Rightarrow> 'w ctx" where
  "withTimeout wk ctx w = WithDeadline (wk_clock wk) ctx (wk_clock wk w + serverCallTimeout)"

definition queueAdd :: "'w Worker \<Rightarrow> ('w, unit) io" where
  "queueAdd wk = (\<lambda>w. (Inr (), wk_queueAdd wk w))"

definition getLiveTask :: "'w Worker \<Rightarrow> 'w ctx \<Rightarrow> OperationTask \<Rightarrow> ('w, OperationTask option) io" where
  "getLiveTask wk ctx selected =
     io_try (\<lambda>w. tc_Get (wk_client wk) (withTimeout wk ctx w) (task_Name selected) w)
       (\<lambda>err. if IsNotFound err then io_ret None else io_err err)
       (\<lambda>live.
          if task_UID live \<noteq> task_UID selected \<or> nr_Name (tsp_NodeRef (task_Spec live)) \<noteq> wk_agentID wk \<or>
             task_NodeUID live \<noteq> wk_nodeUID wk
          then io_err (Plain (''task '' @ Quote (task_Name selected) @ '' identity changed during dispatch''))
          else if TaskPhase_IsTerminal (task_Phase live) then io_bind (queueAdd wk) (\<lambda>_. io_ret None)
          else io_ret (Some live))"

definition startPendingTask :: "'w Worker \<Rightarrow> 'w ctx \<Rightarrow> OperationTask \<Rightarrow> ('w, OperationTask) io" where
  "startPendingTask wk ctx live =
     (if task_Phase live = TaskPending
      then (\<lambda>w. tc_UpdateStatus (wk_client wk) (withTimeout wk ctx w)
              (live\<lparr>task_Status := empty_OperationTaskStatus\<lparr>tst_Phase := TaskRunning\<rparr>\<rparr>) w)
      else io_ret live)"

subsubsection \<open>Running a task\<close>

definition finishTask :: "'w Worker \<Rightarrow> 'w ctx \<Rightarrow> OperationTask \<Rightarrow> string \<Rightarrow> TaskResult \<Rightarrow> ('w, unit) io" where
  "finishTask wk ctx task phase result =
     io_try (\<lambda>w. tc_UpdateStatus (wk_client wk) (withTimeout wk ctx w)
               (task\<lparr>task_Status := (task_Status task)\<lparr>tst_Phase := phase, tst_Result := Some result\<rparr>\<rparr>) w)
       (\<lambda>err. io_try (\<lambda>w. tc_Get (wk_client wk) (withTimeout wk ctx w) (task_Name task) w)
          (\<lambda>getErr. io_err err)
          (\<lambda>latest. if task_UID latest = task_UID task \<and> TaskPhase_IsTerminal (task_Phase latest)
                     then queueAdd wk else io_err err))
       (\<lambda>_. queueAdd wk)"

definition finishFailure :: "'w Worker \<Rightarrow> OperationTask \<Rightarrow> 'w writer \<Rightarrow> string option \<Rightarrow> 'w ctx \<Rightarrow>
    string \<Rightarrow> string \<Rightarrow> string \<Rightarrow> ('w, unit) io" where
  "finishFailure wk task writer logErr ctx phase reason message = (\<lambda>w.
     let (werr, w1) = writer (''['' @ wk_RFC3339 wk (wk_clock wk w) @ ''] ERROR: '' @ message @ [CHR 0x0A]) w;
         logErr' = (case werr of Some e \<Rightarrow> Some e | None \<Rightarrow> logErr)
     in finishTask wk ctx task phase
          \<lparr>tr_Reason = reason, tr_Message = taskResultMessage message logErr', tr_Outputs = []\<rparr> w1)"

definition openLog :: "'w Worker \<Rightarrow> OperationTask \<Rightarrow> 'w \<Rightarrow> ('w writer \<times> string option) \<times> 'w" where
  "openLog wk task w =
     (let (_, w1) = tl_CreateOperationDir (wk_oplog wk) (task_UID task) w;
          (lw, w2) = tl_CreateStepLogFile (wk_oplog wk) (task_UID task) ''task'' w1
      in case lw of
           Inl err \<Rightarrow> ((Discard, Some err), w2)
         | Inr writer \<Rightarrow>
             (let (_, w3) = writer ([CHR 0x0A] @ ''--- reconcile '' @ wk_RFC3339 wk (wk_clock wk w2) @ '' ---'' @ [CHR 0x0A]) w2
              in ((writer, None), w3)))"

text \<open>What \<^verbatim>\<open>execute\<close> does with the answer of the executor.\<close>

definition concludeTask :: "'w Worker \<Rightarrow> 'w ctx \<Rightarrow> OperationTask \<Rightarrow> 'w writer \<Rightarrow> string option \<Rightarrow>
    ExecError + TaskResult \<Rightarrow> ('w, unit) io" where
  "concludeTask wk parent task writer logErr answer = (\<lambda>w.
     case parent w of
       Some err \<Rightarrow> (Inl (CtxErr (xe_Text err)), w)
     | None \<Rightarrow>
         if (case WithDeadline (wk_clock wk) parent (tsp_Deadline (task_Spec task)) w of Some e \<Rightarrow> xe_Deadline e | None \<Rightarrow> False) \<or>
            (case answer of Inl e \<Rightarrow> xe_Deadline e | Inr _ \<Rightarrow> False)
         then finishFailure wk task writer logErr Background TaskTimedOut TaskReasonDeadlineExceeded
                (''task deadline exceeded'' @ (case answer of Inl e \<Rightarrow> '': '' @ xe_Text e | Inr _ \<Rightarrow> [])) w
         else (case answer of
                 Inl e \<Rightarrow> finishFailure wk task writer logErr parent TaskFailed TaskReasonExecutionFailed (xe_Text e) w
               | Inr result \<Rightarrow> finishTask wk parent task TaskSucceeded
                   (result\<lparr>tr_Reason := [], tr_Message := taskResultMessage (tr_Message result) logErr\<rparr>) w))"

definition execute :: "'w Worker \<Rightarrow> 'w ctx \<Rightarrow> OperationTask \<Rightarrow> ('w, unit) io" where
  "execute wk parent task = (\<lambda>w.
     let ((writer, logErr), w1) = openLog wk task w in
     case wk_registry wk (tsp_Executor (task_Spec task)) of
       None \<Rightarrow> finishFailure wk task writer logErr parent TaskFailed TaskReasonExecutionFailed
                 (''executor '' @ Quote (tsp_Executor (task_Spec task)) @ '' is not registered'') w1
     | Some executor \<Rightarrow>
         if tsp_Deadline (task_Spec task) = 0
         then finishFailure wk task writer logErr parent TaskFailed TaskReasonExecutionFailed ''task has no deadline'' w1
         else (let (answer, w2) = executor (WithDeadline (wk_clock wk) parent (tsp_Deadline (task_Spec task))) task writer w1
               in concludeTask wk parent task writer logErr answer w2))"

definition worker_sync :: "'w Worker \<Rightarrow> 'w ctx \<Rightarrow> ('w, unit) io" where
  "worker_sync wk ctx =
     io_bind (\<lambda>w. (selectTask (eligibleTasks wk w), w)) (\<lambda>selected.
       case selected of
         None \<Rightarrow> io_ret ()
       | Some sel \<Rightarrow>
           io_bind (getLiveTask wk ctx sel) (\<lambda>live.
             case live of
               None \<Rightarrow> io_ret ()
             | Some l \<Rightarrow>
                 io_bind (startPendingTask wk ctx l) (\<lambda>live'.
                   if task_Phase live' \<noteq> TaskRunning
                   then io_err (Plain (''task '' @ Quote (task_Name live') @ '' has unsupported active phase '' @ Quote (task_Phase live')))
                   else execute wk ctx live')))"

text \<open>One turn of the loop; \<open>stopped\<close> tells whether the stop channel is closed.\<close>

definition processNext :: "'w Worker \<Rightarrow> ('w \<Rightarrow> bool) \<Rightarrow> 'w \<Rightarrow> bool \<times> 'w" where
  "processNext wk stopped w =
     (let (shutdown, w1) = wk_queueGet wk w in
      if shutdown then (False, w1)
      else if stopped w1 then (False, wk_queueDone wk w1)
      else case worker_sync wk (wk_runCtx wk) w1 of
             (Inl err, w2) \<Rightarrow> (True, wk_queueDone wk (wk_queueAddRateLimited wk w2))
           | (Inr _, w2) \<Rightarrow> (True, wk_queueDone wk (wk_queueForget wk w2)))"

subsection \<open>Executors\<close>

text \<open>The strict JSON decoders of the payloads.\<close>

definition NoopExecutorName :: string where "NoopExecutorName = ''Noop/v1''"
definition maxNoopOutputs :: nat where "maxNoopOutputs = 32"

definition validateOutputs :: "(string \<times> string) list \<Rightarrow> ExecError option" where
  "validateOutputs outputs =
     (if length outputs > maxNoopOutputs then Some (plainErr ''noop outputs exceed limit'')
      else if list_ex (\<lambda>(key, val). key = [] \<or> length key > MaxOutputKeySize \<or> length val > MaxOutputValueSize) outputs
      then Some (plainErr ''noop output is too large or has an empty key'') else None)"

definition noResult :: TaskResult where "noResult = \<lparr>tr_Reason = [], tr_Message = [], tr_Outputs = []\<rparr>"

definition NoopExecutor :: "(string \<Rightarrow> string + (string \<times> string) list) \<Rightarrow> 'w Executor" where
  "NoopExecutor decode ctx task log w =
     (case decode (tsp_Payload (task_Spec task)) of
        Inl err \<Rightarrow> (Inl (plainErr (''decode Noop/v1 payload: '' @ err)), w)
      | Inr outputs \<Rightarrow>
          (case validateOutputs outputs of
             Some err \<Rightarrow> (Inl err, w)
           | None \<Rightarrow>
               (let (werr, w1) = log (''noop completed'' @ [CHR 0x0A]) w in
                case werr of
                  Some err \<Rightarrow> (Inl (plainErr (''write noop log: '' @ err)), w1)
                | None \<Rightarrow> (Inr (noResult\<lparr>tr_Outputs := outputs\<rparr>), w1))))"

definition NodePreflightExecutorName :: string where "NodePreflightExecutorName = ''NodePreflight/v1''"
definition maxPreflightChecks :: nat where "maxPreflightChecks = 64"

record NodePreflightPayload =
  np_RequiredExecutables :: "string list"
  np_RequiredPaths :: "string list"

text \<open>What the preflight reads of the node; \<open>os_Stat\<close> answers whether the path exists or an error.\<close>

record 'w node_os =
  os_LookPath :: "string \<Rightarrow> 'w \<Rightarrow> bool"
  os_Stat :: "string \<Rightarrow> 'w \<Rightarrow> string + bool"
  os_Hostname :: "'w \<Rightarrow> string + string"
  os_GOOS :: string
  os_GOARCH :: string

fun check_executables :: "'w node_os \<Rightarrow> 'w ctx \<Rightarrow> 'w \<Rightarrow> string list \<Rightarrow> ExecError + string list" where
  "check_executables os ctx w [] = Inr []"
| "check_executables os ctx w (name # rest) =
     (case ctx w of
        Some err \<Rightarrow> Inl err
      | None \<Rightarrow>
          if name = [] \<or> CHR ''/'' \<in> set name then Inl (plainErr (''invalid executable name '' @ Quote name))
          else (case check_executables os ctx w rest of
                  Inl err \<Rightarrow> Inl err
                | Inr missing \<Rightarrow> Inr (if os_LookPath os name w then missing else (''executable:'' @ name) # missing)))"

fun check_paths :: "'w node_os \<Rightarrow> 'w ctx \<Rightarrow> 'w \<Rightarrow> string list \<Rightarrow> ExecError + string list" where
  "check_paths os ctx w [] = Inr []"
| "check_paths os ctx w (path # rest) =
     (case ctx w of
        Some err \<Rightarrow> Inl err
      | None \<Rightarrow>
          if path = [] then Inl (plainErr ''required path must not be empty'')
          else (case os_Stat os path w of
                  Inl err \<Rightarrow> Inl (plainErr (''stat '' @ Quote path @ '': '' @ err))
                | Inr found \<Rightarrow>
                    (case check_paths os ctx w rest of
                       Inl err \<Rightarrow> Inl err
                     | Inr missing \<Rightarrow> Inr (if found then missing else (''path:'' @ path) # missing))))"

definition NodePreflight :: "(string \<Rightarrow> string + NodePreflightPayload) \<Rightarrow> 'w node_os \<Rightarrow> 'w Executor" where
  "NodePreflight decode os ctx task log w =
     (case decode (tsp_Payload (task_Spec task)) of
        Inl err \<Rightarrow> (Inl (plainErr (''decode NodePreflight/v1 payload: '' @ err)), w)
      | Inr payload \<Rightarrow>
          if length (np_RequiredExecutables payload) + length (np_RequiredPaths payload) > maxPreflightChecks
          then (Inl (plainErr (''preflight supports at most '' @ show_nat maxPreflightChecks @ '' checks'')), w)
          else (case check_executables os ctx w (np_RequiredExecutables payload) of
                  Inl err \<Rightarrow> (Inl err, w)
                | Inr m1 \<Rightarrow>
                    (case check_paths os ctx w (np_RequiredPaths payload) of
                       Inl err \<Rightarrow> (Inl err, w)
                     | Inr m2 \<Rightarrow>
                         (let missing = go_sort (<) (m1 @ m2) in
                          if missing \<noteq> []
                          then (Inl (plainErr (''node preflight failed: '' @ Join missing '', '')),
                                snd (log (''preflight missing: '' @ Join missing '', '' @ [CHR 0x0A]) w))
                          else (case os_Hostname os w of
                                  Inl err \<Rightarrow> (Inl (plainErr (''read hostname: '' @ err)), w)
                                | Inr hostname \<Rightarrow>
                                    (Inr (noResult\<lparr>tr_Outputs := [(''hostname'', hostname), (''os'', os_GOOS os), (''arch'', os_GOARCH os)]\<rparr>),
                                     snd (log (''node preflight passed'' @ [CHR 0x0A]) w)))))))"

subsubsection \<open>Steps made of commands\<close>

text \<open>The step model of \<^verbatim>\<open>pkg/scheme/core/v1/operation_types.go\<close>.\<close>

definition CommandShell :: string where "CommandShell = ''shell''"
definition CommandTemplateRender :: string where "CommandTemplateRender = ''templateRender''"
definition CommandCustom :: string where "CommandCustom = ''custom''"
definition ActionInstall :: string where "ActionInstall = ''install''"
definition ActionUninstall :: string where "ActionUninstall = ''uninstall''"
definition ActionUpgrade :: string where "ActionUpgrade = ''upgrade''"

record TemplateCommand =
  tcm_Identity :: string
  tcm_Data :: string

record Command =
  cmd_Type :: string
  cmd_ShellCommand :: "string list"
  cmd_Identity :: string
  cmd_CustomCommand :: string
  cmd_Template :: "TemplateCommand option"

record StepNode =
  sn_ID :: string
  sn_IPv4 :: string
  sn_NodeIPv4 :: string
  sn_Hostname :: string

record CoreStep =
  cs_ID :: string
  cs_Name :: string
  cs_Nodes :: "StepNode list"
  cs_Action :: string
  cs_Timeout :: duration
  cs_ErrIgnore :: bool
  cs_Commands :: "Command list"
  cs_BeforeRunCommands :: "Command list"
  cs_AfterRunCommands :: "Command list"
  cs_RetryTimes :: int
  cs_AutomaticRetry :: bool

record CommandStepPayload =
  csp_Step :: CoreStep
  csp_LastTaskReply :: string
  csp_DryRun :: bool

text \<open>
  The registered components: a template renderer or an agent step is an instance that decodes its
  data and then acts on the node; \<open>None\<close> stands for a registered object of the wrong type.  The
  execution context names the task and carries the reply of the previous one.
\<close>

record exec_env =
  ev_OperationID :: string
  ev_StepID :: string
  ev_RepoMirror :: string
  ev_ExtraData :: string
  ev_DryRun :: bool

record 'w renderer =
  rn_Unmarshal :: "string \<Rightarrow> string option"
  rn_Render :: "exec_env \<Rightarrow> string \<Rightarrow> 'w \<Rightarrow> ExecError option \<times> 'w"

record 'w agent_step =
  as_Unmarshal :: "string \<Rightarrow> string option"
  as_Runnable :: bool
  as_Install :: "exec_env \<Rightarrow> string \<Rightarrow> 'w \<Rightarrow> (ExecError + string) \<times> 'w"
  as_Uninstall :: "exec_env \<Rightarrow> string \<Rightarrow> 'w \<Rightarrow> (ExecError + string) \<times> 'w"

record 'w components =
  co_LoadTemplate :: "string \<Rightarrow> 'w renderer option option"
  co_LoadAgentStep :: "string \<Rightarrow> 'w agent_step option"
  co_RunCmd :: "exec_env \<Rightarrow> string \<Rightarrow> string list \<Rightarrow> 'w \<Rightarrow> ExecError option \<times> 'w"

definition renderTemplate :: "'w components \<Rightarrow> exec_env \<Rightarrow> TemplateCommand option \<Rightarrow> 'w \<Rightarrow> ExecError option \<times> 'w" where
  "renderTemplate co env command w =
     (case command of
        None \<Rightarrow> (Some (plainErr ''template command is required''), w)
      | Some c \<Rightarrow>
          (case co_LoadTemplate co (tcm_Identity c) of
             None \<Rightarrow> (Some (plainErr (''template renderer '' @ Quote (tcm_Identity c) @ '' is not registered'')), w)
           | Some None \<Rightarrow> (Some (plainErr (''template renderer '' @ Quote (tcm_Identity c) @ '' has invalid type'')), w)
           | Some (Some rn) \<Rightarrow>
               (case rn_Unmarshal rn (tcm_Data c) of
                  Some err \<Rightarrow> (Some (plainErr (''decode template renderer '' @ Quote (tcm_Identity c) @ '': '' @ err)), w)
                | None \<Rightarrow>
                    (case rn_Render rn env (tcm_Data c) w of
                       (Some err, w1) \<Rightarrow> (Some (wrapErr (''render template '' @ Quote (tcm_Identity c)) err), w1)
                     | (None, w1) \<Rightarrow> (None, w1)))))"

definition runCustom :: "'w components \<Rightarrow> exec_env \<Rightarrow> CoreStep \<Rightarrow> Command \<Rightarrow> 'w \<Rightarrow> (ExecError + string) \<times> 'w" where
  "runCustom co env st command w =
     (case co_LoadAgentStep co (cmd_Identity command) of
        None \<Rightarrow> (Inl (plainErr (''custom step '' @ Quote (cmd_Identity command) @ '' is not registered'')), w)
      | Some s \<Rightarrow>
          (case as_Unmarshal s (cmd_CustomCommand command) of
             Some err \<Rightarrow> (Inl (plainErr (''decode custom step '' @ Quote (cmd_Identity command) @ '': '' @ err)), w)
           | None \<Rightarrow>
               if \<not> as_Runnable s then (Inl (plainErr (''custom step '' @ Quote (cmd_Identity command) @ '' has invalid type'')), w)
               else if cs_Action st = ActionInstall then as_Install s env (cmd_CustomCommand command) w
               else if cs_Action st = ActionUninstall then as_Uninstall s env (cmd_CustomCommand command) w
               else (Inl (plainErr (''custom step '' @ Quote (cmd_Identity command) @ '' has unsupported action '' @ Quote (cs_Action st))), w)))"

definition runCommand :: "'w components \<Rightarrow> exec_env \<Rightarrow> CoreStep \<Rightarrow> Command \<Rightarrow> string \<Rightarrow> 'w \<Rightarrow> (ExecError + string) \<times> 'w" where
  "runCommand co env st command response w =
     (if cmd_Type command = CommandShell then
        (case cmd_ShellCommand command of
           [] \<Rightarrow> (Inl (plainErr ''shell command must not be empty''), w)
         | prog # args \<Rightarrow>
             (case co_RunCmd co env prog args w of
                (Some err, w1) \<Rightarrow> (Inl (wrapErr ''run shell command'' err), w1)
              | (None, w1) \<Rightarrow> (Inr response, w1)))
      else if cmd_Type command = CommandTemplateRender then
        (case renderTemplate co env (cmd_Template command) w of
           (Some err, w1) \<Rightarrow> (Inl err, w1) | (None, w1) \<Rightarrow> (Inr response, w1))
      else if cmd_Type command = CommandCustom then runCustom co env st command w
      else (Inl (plainErr (''unsupported command type '' @ Quote (cmd_Type command))), w))"

fun run_commands :: "'w components \<Rightarrow> exec_env \<Rightarrow> CoreStep \<Rightarrow> 'w ctx \<Rightarrow> 'w writer \<Rightarrow> nat \<Rightarrow> nat \<Rightarrow> Command list \<Rightarrow> string \<Rightarrow>
    'w \<Rightarrow> (ExecError + string) \<times> 'w" where
  "run_commands co env st ctx log i n [] response w = (Inr response, w)"
| "run_commands co env st ctx log i n (command # rest) response w =
     (case ctx w of
        Some err \<Rightarrow> (Inl err, w)
      | None \<Rightarrow>
          (let w1 = snd (log (''command '' @ show_nat (Suc i) @ ''/'' @ show_nat n @ '': '' @ cmd_Type command @ [CHR 0x0A]) w) in
           case runCommand co env st command response w1 of
             (Inl err, w2) \<Rightarrow> (Inl err, w2)
           | (Inr response', w2) \<Rightarrow> run_commands co env st ctx log (Suc i) n rest response' w2))"

definition CommandStepExecutorName :: string where "CommandStepExecutorName = ''CommandStep/v1''"

definition stepCommands :: "CoreStep \<Rightarrow> Command list" where
  "stepCommands st = cs_BeforeRunCommands st @ cs_Commands st @ cs_AfterRunCommands st"

definition CommandStepExecutor :: "(string \<Rightarrow> string + CommandStepPayload) \<Rightarrow> 'w components \<Rightarrow> string \<Rightarrow> 'w Executor" where
  "CommandStepExecutor decode co repoMirror ctx task log w =
     (case decode (tsp_Payload (task_Spec task)) of
        Inl err \<Rightarrow> (Inl (plainErr (''decode CommandStep/v1 payload: '' @ err)), w)
      | Inr payload \<Rightarrow>
          (let env = \<lparr>ev_OperationID = task_UID task, ev_StepID = ''task'', ev_RepoMirror = repoMirror,
                 ev_ExtraData = csp_LastTaskReply payload, ev_DryRun = csp_DryRun payload\<rparr>;
               commands = stepCommands (csp_Step payload)
           in case run_commands co env (csp_Step payload) ctx log 0 (length commands) commands [] w of
                (Inl err, w1) \<Rightarrow> (Inl err, w1)
              | (Inr response, w1) \<Rightarrow>
                  if length response > MaxOutputValueSize
                  then (Inl (plainErr (''step response exceeds '' @ show_nat MaxOutputValueSize @ '' bytes'')), w1)
                  else (Inr (noResult\<lparr>tr_Outputs := [(''response'', response)]\<rparr>), w1)))"

end
