(* ===== verification/Op_Handler_Props.thy ===== *)
theory Op_Handler_Props
  imports Op_Handler "HOL-Library.Code_Target_Nat"
begin

text \<open>
  What the handlers guarantee.  They drive the store only through the steps of the engine, an
  agent can change nothing but the status of its own tasks, control requests change exactly the
  control fields, and an operation is stored only with the addresses of existing nodes.
\<close>

subsection \<open>Case rules\<close>

lemma respond_cases:
  assumes "respond code m w = (x, w')"
  obtains e where "m w = (Inl e, w')" "x = writeError e" | y where "m w = (Inr y, w')" "x = Entity code y"
  using assms unfolding respond_def by (elim io_try_cases) auto

lemma http_err_eq [simp]: "http_err e w = (writeError e, w)" by (simp add: http_err_def)

lemma writeError_not_Entity [simp]: "writeError e \<noteq> Entity c y" "Entity c y \<noteq> writeError e"
  by (simp_all add: writeError_def)

lemma read_cases:
  assumes "io_try (io_read f) http_err g w = (x, w')"
  obtains e where "f w = Inl e" "w' = w" "x = writeError e" | y where "f w = Inr y" "g y w = (x, w')"
  using assms by (auto simp: io_try_def split: sum.splits)

subsection \<open>Target addresses\<close>

text \<open>
  The reference for the loop with its cache of nodes: every target is looked up for itself.
\<close>

definition enrichTarget :: "'w OperatorReader \<Rightarrow> 'w \<Rightarrow> NodeReference \<Rightarrow> goerr + NodeReference" where
  "enrichTarget rd w target =
     (case rd_GetNodeEx rd (nr_Name target) [] w of
        Inl err \<Rightarrow> Inl err
      | Inr node \<Rightarrow> if nd_UID node \<noteq> nr_UID target
                     then Inl (Conflict ''nodes'' (nd_Name node) ''node UID does not match'')
                     else Inr (target\<lparr>nr_IP := nd_Ipv4DefaultIP node\<rparr>))"

fun mapE :: "('a \<Rightarrow> goerr + 'b) \<Rightarrow> 'a list \<Rightarrow> goerr + 'b list" where
  "mapE f [] = Inr []"
| "mapE f (x # xs) = (case f x of Inl e \<Rightarrow> Inl e | Inr y \<Rightarrow> (case mapE f xs of Inl e \<Rightarrow> Inl e | Inr ys \<Rightarrow> Inr (y # ys)))"

definition enrichStep :: "'w OperatorReader \<Rightarrow> 'w \<Rightarrow> OperationStep \<Rightarrow> goerr + OperationStep" where
  "enrichStep rd w st =
     (case mapE (enrichTarget rd w) (step_Targets st) of Inl e \<Rightarrow> Inl e | Inr ts \<Rightarrow> Inr (st\<lparr>step_Targets := ts\<rparr>))"

definition enrichPlan :: "'w OperatorReader \<Rightarrow> 'w \<Rightarrow> OperationStep list \<Rightarrow> goerr + OperationStep list" where
  "enrichPlan rd w = mapE (enrichStep rd w)"

definition cached :: "'w OperatorReader \<Rightarrow> 'w \<Rightarrow> (string \<rightharpoonup> Node) \<Rightarrow> bool" where
  "cached rd w nodes \<longleftrightarrow> (\<forall>n node. nodes n = Some node \<longrightarrow> rd_GetNodeEx rd n [] w = Inr node)"

lemma cached_lookup:
  assumes "cached rd w nodes"
  shows "(case nodes n of Some node \<Rightarrow> io_ret node | None \<Rightarrow> io_read (rd_GetNodeEx rd n [])) w = (rd_GetNodeEx rd n [] w, w)"
  using assms by (auto simp: cached_def split: option.split)

lemma enrich_targets_eq:
  assumes "cached rd w nodes"
  shows "\<exists>nodes'. cached rd w nodes' \<and> enrich_targets rd nodes ts w =
    (case mapE (enrichTarget rd w) ts of Inl e \<Rightarrow> Inl e | Inr ts' \<Rightarrow> Inr (nodes', ts'), w)"
  using assms
proof (induction ts arbitrary: nodes)
  case (Cons t ts)
  note look = cached_lookup [OF Cons.prems, of "nr_Name t"]
  show ?case
  proof (cases "rd_GetNodeEx rd (nr_Name t) [] w")
    case (Inl e)
    then show ?thesis using look Cons.prems by (auto simp: io_bind_def enrichTarget_def [of rd w t])
  next
    case (Inr node)
    then have "cached rd w (nodes(nr_Name t \<mapsto> node))" using Cons.prems by (simp add: cached_def)
    from Cons.IH [OF this] obtain nodes' where "cached rd w nodes'" "enrich_targets rd (nodes(nr_Name t \<mapsto> node)) ts w =
        (case mapE (enrichTarget rd w) ts of Inl e \<Rightarrow> Inl e | Inr ts' \<Rightarrow> Inr (nodes', ts'), w)" by blast
    then show ?thesis using look Inr
      by (intro exI [of _ nodes']) (simp add: io_bind_def enrichTarget_def [of rd w t] split: sum.split)
  qed
qed auto

lemma enrich_steps_eq:
  assumes "cached rd w nodes"
  shows "enrich_steps rd nodes sts w = (enrichPlan rd w sts, w)"
  using assms
proof (induction sts arbitrary: nodes)
  case (Cons st sts)
  obtain nodes' where n: "cached rd w nodes'" "enrich_targets rd nodes (step_Targets st) w =
      (case mapE (enrichTarget rd w) (step_Targets st) of Inl e \<Rightarrow> Inl e | Inr ts' \<Rightarrow> Inr (nodes', ts'), w)"
    using enrich_targets_eq [OF Cons.prems] by blast
  show ?case using n(2) Cons.IH [OF n(1)]
    by (simp add: io_bind_def enrichPlan_def enrichStep_def split: sum.split)
qed (simp add: enrichPlan_def)

lemma validateAndEnrichTargetIPs_eq:
  "validateAndEnrichTargetIPs op rd w =
     (case enrichPlan rd w (op_Steps op) of Inl e \<Rightarrow> Inl e | Inr sts \<Rightarrow> Inr (op\<lparr>op_Spec := (op_Spec op)\<lparr>os_Steps := sts\<rparr>\<rparr>), w)"
  by (simp add: validateAndEnrichTargetIPs_def io_bind_def enrich_steps_eq cached_def split: sum.split)

lemma validateTargetRefs_world: "validateTargetRefs h op w = (r, w') \<Longrightarrow> w' = w"
  by (auto simp: validateTargetRefs_def validateAndEnrichTargetIPs_eq io_bind_def split: if_splits sum.splits)

lemma validateTargetRefs_Inr:
  "validateTargetRefs h op w = (Inr op', w') \<longleftrightarrow> w' = w \<and> or_Kind (os_TargetRef (op_Spec op)) = KindCluster \<and>
     (\<exists>c sts. rd_GetClusterEx (h_clusterReader h) (or_Name (os_TargetRef (op_Spec op))) [] w = Inr c \<and>
        cl_UID c = or_UID (os_TargetRef (op_Spec op)) \<and> enrichPlan (h_clusterReader h) w (op_Steps op) = Inr sts \<and>
        op' = op\<lparr>op_Spec := (op_Spec op)\<lparr>os_Steps := sts\<rparr>\<rparr>)"
  by (auto simp: validateTargetRefs_def validateAndEnrichTargetIPs_eq io_bind_def split: sum.split)

lemma mapE_Inr: "mapE f xs = Inr ys \<longleftrightarrow> list_all2 (\<lambda>x y. f x = Inr y) xs ys"
proof (induction xs arbitrary: ys)
  case (Cons x xs)
  show ?case
    by (cases "f x"; cases "mapE f xs"; cases ys) (simp_all add: Cons.IH [symmetric])
qed auto

subsection \<open>The handlers take steps of the engine\<close>

inductive api_step :: "apimachinery \<Rightarrow> (Operation \<Rightarrow> nat option) \<Rightarrow> 'w handler \<Rightarrow> 'w OperationReconciler \<Rightarrow> 'w \<Rightarrow> 'w \<Rightarrow> bool"
  for am :: apimachinery and sizeOf :: "Operation \<Rightarrow> nat option" and h :: "'w handler" and r :: "'w OperationReconciler" where
  api_create: "createOperation sizeOf h req w = (x :: (Operation, unit) response, w') \<Longrightarrow> api_step am sizeOf h r w w'"
| api_cancel: "cancelOperation h creq w = (x :: (Operation, unit) response, w') \<Longrightarrow> api_step am sizeOf h r w w'"
| api_retry: "retryOperation am h creq w = (x :: (Operation, unit) response, w') \<Longrightarrow> api_step am sizeOf h r w w'"
| api_report: "updateTaskStatus h treq w = (y :: (OperationTask, unit) response, w') \<Longrightarrow> api_step am sizeOf h r w w'"
| api_reconcile: "Reconcile r n w = (z, w') \<Longrightarrow> api_step am sizeOf h r w w'"

lemma create_step:
  assumes "createOperation sizeOf h req w = (x, w')"
  shows "w' = w \<or> engine_step (h_store h) r w w'"
proof (cases "rq_Entity req")
  case (Inl e)
  then show ?thesis using assms by (simp add: createOperation_def)
next
  case (Inr body)
  then show ?thesis using assms
    by (auto simp: createOperation_def Let_def split: if_splits elim!: respond_cases io_bind_cases
        dest: validateTargetRefs_world intro: engine_step.submit)
qed

lemma cancel_step:
  assumes "cancelOperation h req w = (x, w')"
  shows "w' = w \<or> engine_step (h_store h) r w w'"
proof (cases "readControlRequest req")
  case (Inl e)
  then show ?thesis using assms by (simp add: cancelOperation_def)
next
  case (Inr p)
  then show ?thesis using assms unfolding cancelOperation_def GetOperation_def
    by (auto split: if_splits elim!: respond_cases read_cases intro: engine_step.control)
qed

lemma load_world: "loadRetryableOperation am h n p w = (r, w') \<Longrightarrow> w' = w"
  by (auto simp: loadRetryableOperation_def ensureTasksTerminal_def ensureLatestOperation_def GetOperation_def
      ListTasksByOperationUID_def ListOperations_def Let_def split: if_splits elim!: io_bind_cases)

lemma retry_step:
  assumes "retryOperation am h req w = (x, w')"
  shows "w' = w \<or> engine_step (h_store h) r w w'"
proof (cases "readControlRequest req")
  case (Inl e)
  then show ?thesis using assms by (simp add: retryOperation_def)
next
  case (Inr p)
  then show ?thesis using assms unfolding retryOperation_def
    by (auto elim!: respond_cases io_bind_cases dest!: load_world intro: engine_step.control)
qed

lemma report_step:
  assumes "updateTaskStatus h req w = (x, w')"
  shows "w' = w \<or> engine_step (h_store h) r w w'"
  using assms unfolding updateTaskStatus_def GetTask_def Let_def
  by (auto split: if_splits prod.splits sum.splits elim!: respond_cases read_cases intro: engine_step.report)

lemma api_step_engine: "api_step am sizeOf h r w w' \<Longrightarrow> w' = w \<or> engine_step (h_store h) r w w'"
proof (induction rule: api_step.induct)
  case api_reconcile
  then show ?case by (blast intro: engine_step.reconcile)
qed (rule create_step cancel_step retry_step report_step, assumption)+

lemma api_run_engine: "(api_step am sizeOf h r)\<^sup>*\<^sup>* w w' \<Longrightarrow> (engine_step (h_store h) r)\<^sup>*\<^sup>* w w'"
proof (induction rule: rtranclp_induct)
  case (step y z)
  then show ?case using api_step_engine [OF step.hyps(2)] by (metis rtranclp.rtrancl_into_rtrancl)
qed simp

subsection \<open>The effect of a control request\<close>

context quiet_store begin

lemma update_operation_control:
  assumes run: "UpdateOperationControl s n u rv (Some f) w = (x, w')"
  shows "vt w' = vt w \<and> vl w' = vl w \<and>
    (case x of Inl e \<Rightarrow> vo w' = vo w
     | Inr y \<Rightarrow> \<exists>old spec. fst (vo w) n = Some old \<and> (u \<noteq> [] \<longrightarrow> op_UID old = u) \<and> (rv \<noteq> [] \<longrightarrow> op_RV old = rv) \<and>
         f (op_Spec old) = Inr spec \<and> op_Status y = op_Status old \<and> op_Name y = op_Name old \<and> op_UID y = op_UID old \<and>
         op_Spec y = (op_Spec old)\<lparr>os_DesiredState := os_DesiredState spec, os_RetryGeneration := os_RetryGeneration spec\<rparr> \<and>
         vo w' = ((fst (vo w))(n \<mapsto> y), snd (vo w)))"
proof -
  define mutate :: "Operation \<Rightarrow> ('w, Operation) io" where
    "mutate = (\<lambda>op. io_bind (io_of (f (op_Spec op))) (\<lambda>spec. io_ret (op\<lparr>op_Spec := spec\<rparr>)))"
  define Q where "Q op op' \<longleftrightarrow> (\<exists>spec. f (op_Spec op) = Inr spec \<and> op' = op\<lparr>op_Spec := spec\<rparr>)" for op op' :: Operation
  have run': "updateOperation s n u rv mutate w = (x, w')" using run by (simp add: UpdateOperationControl_def mutate_def)
  have mut: "vo w1 = vo w \<and> vt w1 = vt w \<and> vl w1 = vl w \<and> (\<forall>op'. y = Inr op' \<longrightarrow> op_Meta op' = op_Meta op \<and> Q op op')"
    if "mutate op w = (y, w1)" for op w y w1
    using that unfolding mutate_def Q_def by (auto elim!: io_bind_cases)
  note U = update_operation [OF run', where Q = Q, OF mut]
  show ?thesis
  proof (cases x)
    case (Inr y)
    then obtain old op' rv' where old: "fst (vo w) n = Some old" "u \<noteq> [] \<longrightarrow> op_UID old = u" "rv \<noteq> [] \<longrightarrow> op_RV old = rv"
      and op': "Q old op'" and y: "y = stored_update (operationStrategy opSize) rv' op' old"
      and vo': "vo w' = ((fst (vo w))(n \<mapsto> y), snd (vo w))" using U by auto
    from op' obtain spec where sp: "f (op_Spec old) = Inr spec" "op' = old\<lparr>op_Spec := spec\<rparr>" by (auto simp: Q_def)
    then have "op_Status y = op_Status old" "op_Name y = op_Name old" "op_UID y = op_UID old"
      "op_Spec y = (op_Spec old)\<lparr>os_DesiredState := os_DesiredState spec, os_RetryGeneration := os_RetryGeneration spec\<rparr>"
      by (simp_all add: y stored_update_def operation_PrepareForUpdate_def)
    then show ?thesis using Inr U old sp(1) vo' by auto
  qed (use U in simp)
qed

lemma list_tasks_terminal:
  assumes "ensureTasksTerminal am h op w = (Inr x, w')" "h_store h = s" "t \<in> ran (fst (vt w))" "task_OpUID t = op_UID op"
  shows "TaskPhase_IsTerminal (task_Phase t)"
proof -
  from assms(1,2) obtain l w1 where l: "ListTasksByOperationUID am s (op_UID op) [] w = (Inr l, w1)"
    "\<not> list_ex (\<lambda>t. \<not> TaskPhase_IsTerminal (task_Phase t)) (ol_Items l)"
    by (auto simp: ensureTasksTerminal_def elim!: io_bind_cases split: if_splits)
  then have "t \<in> set (ol_Items l)" using list_tasks [OF l(1)] assms(3,4) by auto
  then show ?thesis using l(2) by (auto simp: list_ex_iff)
qed

end

subsection \<open>A world for the examples\<close>

definition sampleReader :: "mem OperatorReader" where
  "sampleReader = \<lparr>rd_GetClusterEx = (\<lambda>n _ _. Inr \<lparr>cl_Name = n, cl_UID = ''c-uid''\<rparr>),
     rd_GetNodeEx = (\<lambda>n _ _. Inr \<lparr>nd_Name = n, nd_UID = n @ ''-uid'', nd_Ipv4DefaultIP = ''10.0.0.7'', nd_AgentLogPort = 0\<rparr>)\<rparr>"

definition sampleHandler :: "mem handler" where
  "sampleHandler = \<lparr>h_store = memStore, h_clusterReader = sampleReader,
     h_logClient = \<lparr>hc_Timeout = 0, hc_Transport = HTTPTransport (Some \<lparr>tls_MinVersion = VersionTLS12, tls_RootCAs = [],
       tls_Certificates = [], tls_ServerName = []\<rparr>)\<rparr>\<rparr>"

definition failed_op :: Operation where
  "failed_op = sample_op\<lparr>op_Status := empty_OperationStatus\<lparr>ost_Phase := OperationFailed\<rparr>\<rparr>"

definition api_world :: mem where
  "api_world = mem0\<lparr>mem_ops := \<lparr>co_items = [failed_op], co_next = 0, co_rev = 8\<rparr>,
     mem_tasks := \<lparr>co_items = [sample_task 0 TaskFailed, (sample_task 1 TaskPending)\<lparr>task_Spec := (task_Spec (sample_task 1 []))
       \<lparr>tsp_OperationRef := \<lparr>or_Kind = KindOperation, or_Name = ''other'', or_UID = ''other-uid''\<rparr>\<rparr>\<rparr>], co_next = 0, co_rev = 8\<rparr>\<rparr>"

definition agent_request :: "string \<Rightarrow> string \<Rightarrow> OperationTask request" where
  "agent_request node phase = \<lparr>rq_Entity = Inr (sample_task 1 phase), rq_Name = ''task1'', rq_Query = [],
     rq_User = Some \<lparr>u_Name = agentUsernamePrefix @ node, u_Groups = [agentGroup]\<rparr>\<rparr>"

definition control_request :: "OperationControlRequest request" where
  "control_request = \<lparr>rq_Entity = Inr \<lparr>cr_UID = ''op-uid'', cr_ResourceVersion = ''7''\<rparr>, rq_Name = ''op'', rq_Query = [], rq_User = None\<rparr>"

lemma sample_quiet: "quiet_store memAm (h_store sampleHandler) anySize anySize view_ops view_tasks view_locks"
  using mem_engine.quiet_store_axioms by (simp add: sampleHandler_def)

subsection \<open>Properties\<close>



text \<open>A collection stores every object under its name.\<close>

definition keyed_by :: "('a \<Rightarrow> string) \<Rightarrow> (string \<rightharpoonup> 'a) \<Rightarrow> bool" where
  "keyed_by nm m \<longleftrightarrow> (\<forall>n x. m n = Some x \<longrightarrow> nm x = n)"

lemma sample_keyed: "keyed_by (\<lambda>op. op_Name op) (fst (view_ops w))" "keyed_by (\<lambda>t. task_Name t) (fst (view_tasks w))"
  by (auto simp: keyed_by_def view_ops_def view_tasks_def coll_view_def coll_find_def find_Some_iff)

definition agent_phase_step :: "string \<Rightarrow> string \<Rightarrow> bool" where
  "agent_phase_step old new \<longleftrightarrow> new \<noteq> TaskCancelled \<and>
     (old = [] \<and> new = TaskPending \<or> old = TaskPending \<and> new \<in> {TaskPending, TaskRunning} \<or>
      old = TaskRunning \<and> new \<in> {TaskRunning, TaskSucceeded, TaskFailed, TaskTimedOut} \<or> TaskPhase_IsTerminal old \<and> new = old)"

lemma validateAgentTaskTransition_iff:
  "validateAgentTaskTransition task st = None \<longleftrightarrow> agent_phase_step (task_Phase task) (tst_Phase st)"
  by (auto simp: validateAgentTaskTransition_def agent_phase_step_def ValidateTaskPhaseTransition_def validatePhaseTransition_def
      TaskPhase_IsTerminal_def split: option.splits if_splits)

lemma agentIDFromRequest_True:
  "agentIDFromRequest req = (a, True) \<longleftrightarrow> a \<noteq> [] \<and> (\<exists>user. rq_User req = Some user \<and> agentGroup \<in> set (u_Groups user) \<and>
     u_Name user = agentUsernamePrefix @ a)"
  by (auto simp: agentIDFromRequest_def hasGroup_def TrimPrefix_def prefix_def Let_def split: option.splits)

lemma report_change:
  assumes "updateTaskStatus h req w = (resp, w')" "w' \<noteq> w"
  shows "\<exists>agent incoming current y. agentIDFromRequest req = (agent, True) \<and> rq_Entity req = Inr incoming \<and>
    st_Get (s_tasks (h_store h)) (rq_Name req) [] w = Inr current \<and> nr_Name (tsp_NodeRef (task_Spec current)) = agent \<and>
    task_UID incoming \<noteq> [] \<and> task_RV incoming \<noteq> [] \<and>
    UpdateTaskStatus (h_store h) (task_Name current) (task_UID incoming) (task_RV incoming) (task_Status incoming) w = (y, w') \<and>
    (\<forall>z. y = Inr z \<longrightarrow> resp = Entity 200 z)"
  using assms unfolding updateTaskStatus_def GetTask_def Let_def
  by (auto split: if_splits prod.splits sum.splits elim!: respond_cases read_cases)

lemma report_confined:
  assumes "quiet_store am (h_store h) opSize taskSize vo vt vl"
    and "keyed_by (\<lambda>t. task_Name t) (fst (vt w))" and "updateTaskStatus h req w = (resp, w')"
  shows "vo w' = vo w \<and> vl w' = vl w \<and> (vt w' = vt w \<or>
    (\<exists>user agent incoming old new. rq_User req = Some user \<and> agentGroup \<in> set (u_Groups user) \<and>
       u_Name user = agentUsernamePrefix @ agent \<and> agent \<noteq> [] \<and> rq_Entity req = Inr incoming \<and>
       fst (vt w) (rq_Name req) = Some old \<and> nr_Name (tsp_NodeRef (task_Spec old)) = agent \<and>
       task_UID old = task_UID incoming \<and> task_RV old = task_RV incoming \<and> task_Name new = task_Name old \<and> task_Spec new = task_Spec old \<and>
       agent_phase_step (task_Phase old) (task_Phase new) \<and> resp = Entity 200 new \<and>
       vt w' = ((fst (vt w))(rq_Name req \<mapsto> new), snd (vt w))))"
proof (cases "w' = w")
  case False
  then obtain agent incoming current y where ag: "agentIDFromRequest req = (agent, True)" and en: "rq_Entity req = Inr incoming"
    and get: "st_Get (s_tasks (h_store h)) (rq_Name req) [] w = Inr current"
    and node: "nr_Name (tsp_NodeRef (task_Spec current)) = agent" and id: "task_UID incoming \<noteq> []" "task_RV incoming \<noteq> []"
    and upd: "UpdateTaskStatus (h_store h) (task_Name current) (task_UID incoming) (task_RV incoming) (task_Status incoming) w = (y, w')"
    and resp: "\<forall>z. y = Inr z \<longrightarrow> resp = Entity 200 z"
    using report_change [OF assms(3)] by blast
  have cur: "fst (vt w) (rq_Name req) = Some current" by (rule quiet_store.task_get [OF assms(1) get])
  then have nm: "task_Name current = rq_Name req" using assms(2) by (auto simp: keyed_by_def)
  note U = quiet_store.update_task_status [OF assms(1) upd]
  have ph: "tst_Phase (stampTaskStatus t st) = tst_Phase st" for t st by (simp add: stampTaskStatus_def Let_def)
  show ?thesis
  proof (cases y)
    case (Inr new)
    then show ?thesis using U cur nm id ag en node resp
      by (auto simp: agentIDFromRequest_True validateAgentTaskTransition_iff ph task_updated_def)
  qed (use U in simp)
qed simp

text \<open>
  C13.  Agents are confined.  A status report changes no operation and no lock, and if it changes a task then
  the caller presented an agent identity, the task is assigned to the node of that identity, the
  report names the UID and the resource version of the stored task, the spec is unchanged and the
  phase moves by a transition that agents may make (never to Canceled, and out of Pending only to
  Running).  Otherwise the stored tasks are untouched.
\<close>

theorem agents_confined:
  assumes "quiet_store am (h_store h) opSize taskSize vo vt vl"
    and "keyed_by (\<lambda>t. task_Name t) (fst (vt w))" and "updateTaskStatus h req w = (resp, w')"
  shows "vo w' = vo w \<and> vl w' = vl w \<and> (vt w' = vt w \<or>
    (\<exists>user agent incoming old new. rq_User req = Some user \<and> agentGroup \<in> set (u_Groups user) \<and>
       u_Name user = agentUsernamePrefix @ agent \<and> agent \<noteq> [] \<and> rq_Entity req = Inr incoming \<and>
       fst (vt w) (rq_Name req) = Some old \<and> nr_Name (tsp_NodeRef (task_Spec old)) = agent \<and>
       task_UID old = task_UID incoming \<and> task_RV old = task_RV incoming \<and> task_Name new = task_Name old \<and> task_Spec new = task_Spec old \<and>
       agent_phase_step (task_Phase old) (task_Phase new) \<and> resp = Entity 200 new \<and>
       vt w' = ((fst (vt w))(rq_Name req \<mapsto> new), snd (vt w))))"
  by (rule report_confined [OF assms])

theorem agents_confined_witness:
  "\<exists>new. fst (view_tasks (snd (updateTaskStatus sampleHandler (agent_request ''node'' TaskRunning) api_world ::
       (OperationTask, unit) response \<times> mem))) ''task1'' = Some new \<and> task_Phase new = TaskRunning \<and>
     agent_phase_step TaskPending (task_Phase new)"
proof -
  let ?run = "updateTaskStatus sampleHandler (agent_request ''node'' TaskRunning) api_world :: (OperationTask, unit) response \<times> mem"
  have old: "fst (view_tasks api_world) ''task1'' = Some ((sample_task 1 TaskPending)\<lparr>task_Spec := (task_Spec (sample_task 1 []))
       \<lparr>tsp_OperationRef := \<lparr>or_Kind = KindOperation, or_Name = ''other'', or_UID = ''other-uid''\<rparr>\<rparr>\<rparr>)"
    by code_simp
  have changed: "map_option (\<lambda>t. task_Phase t) (fst (view_tasks (snd ?run)) ''task1'') = Some TaskRunning" by code_simp
  then have ne: "view_tasks (snd ?run) \<noteq> view_tasks api_world" using old by (auto simp: sample_defs)
  show ?thesis
    using agents_confined [OF sample_quiet sample_keyed(2) prod.collapse [symmetric, of ?run]] ne old changed
    by (auto simp: agent_request_def sample_defs)
qed

lemma operationLess_before: "operationLess = operationBefore"
  by (rule ext, rule ext) (auto simp: operationLess_def operationBefore_def split: option.split)

lemma control_request_Inr:
  "readControlRequest req = Inr p \<longleftrightarrow> rq_Entity req = Inr p \<and> cr_UID p \<noteq> [] \<and> cr_ResourceVersion p \<noteq> []"
  by (auto simp: readControlRequest_def split: sum.splits)

lemma defaulted_keeps [simp]:
  "op_Steps (defaulted op) = op_Steps op" "os_TargetRef (op_Spec (defaulted op)) = os_TargetRef (op_Spec op)"
  "op_Meta (defaulted op) = op_Meta op"
  by (simp_all add: defaulted_def Let_def)

lemma enrichPlan_Inr:
  assumes "enrichPlan rd w sts = Inr sts'"
  shows "list_all2 (\<lambda>st st'. st' = st\<lparr>step_Targets := step_Targets st'\<rparr> \<and>
      list_all2 (\<lambda>t t'. \<exists>node. rd_GetNodeEx rd (nr_Name t) [] w = Inr node \<and> nd_UID node = nr_UID t \<and>
        t' = t\<lparr>nr_IP := nd_Ipv4DefaultIP node\<rparr>) (step_Targets st) (step_Targets st')) sts sts'"
proof -
  have T: "\<exists>node. rd_GetNodeEx rd (nr_Name t) [] w = Inr node \<and> nd_UID node = nr_UID t \<and> t' = t\<lparr>nr_IP := nd_Ipv4DefaultIP node\<rparr>"
    if "enrichTarget rd w t = Inr t'" for t t'
    using that by (auto simp: enrichTarget_def split: sum.splits if_splits)
  have S: "st' = st\<lparr>step_Targets := step_Targets st'\<rparr> \<and> list_all2 (\<lambda>t t'. enrichTarget rd w t = Inr t') (step_Targets st) (step_Targets st')"
    if "enrichStep rd w st = Inr st'" for st st'
    using that by (auto simp: enrichStep_def mapE_Inr split: sum.splits)
  have "list_all2 (\<lambda>st st'. enrichStep rd w st = Inr st') sts sts'" using assms by (simp add: enrichPlan_def mapE_Inr)
  then show ?thesis
  proof (rule list_all2_mono)
    fix a b assume "enrichStep rd w a = Inr b"
    note ab = S [OF this]
    show "b = a\<lparr>step_Targets := step_Targets b\<rparr> \<and> list_all2 (\<lambda>t t'. \<exists>node. rd_GetNodeEx rd (nr_Name t) [] w = Inr node \<and>
        nd_UID node = nr_UID t \<and> t' = t\<lparr>nr_IP := nd_Ipv4DefaultIP node\<rparr>) (step_Targets a) (step_Targets b)"
      by (rule conjI [OF conjunct1 [OF ab] list_all2_mono [OF conjunct2 [OF ab] T]])
  qed
qed

lemma create_change:
  assumes "createOperation sizeOf h req w = (resp, w')"
  shows "w' = w \<and> (\<forall>op. resp \<noteq> Entity 201 op) \<or>
    (\<exists>body op' y. rq_Entity req = Inr body \<and> ValidateOperation sizeOf (Some (defaulted body)) = [] \<and>
       validateTargetRefs h (defaulted body) w = (Inr op', w) \<and> CreateOperation (h_store h) (Some op') w = (y, w') \<and>
       resp = (case y of Inl e \<Rightarrow> writeError e | Inr z \<Rightarrow> Entity 201 z))"
proof (cases "rq_Entity req")
  case (Inl e)
  then show ?thesis using assms by (auto simp: createOperation_def)
next
  case (Inr body)
  show ?thesis
  proof (cases "ValidateOperation sizeOf (Some (defaulted body)) = []")
    case True
    then have "respond 201 (io_bind (validateTargetRefs h (defaulted body)) (\<lambda>op'. CreateOperation (h_store h) (Some op'))) w = (resp, w')"
      using assms Inr by (simp add: createOperation_def Let_def)
    then show ?thesis using Inr True
      by (elim respond_cases io_bind_cases) (auto dest: validateTargetRefs_world)
  qed (use assms Inr in \<open>auto simp: createOperation_def Let_def\<close>)
qed

text \<open>
  C14.  Creation is checked.  A creation request either leaves all collections as they are, or its
  defaulted operation passed validation, targets an existing cluster with the UID it names, and is
  stored once, Pending, under its own name with the plan of the request in which every target
  has the UID of the node of its name and carries that node's address.  The loop that fetches
  each node at most once agrees with looking up every target.
\<close>

theorem create_checked:
  assumes "quiet_store am (h_store h) opSize taskSize vo vt vl" and "createOperation sizeOf h req w = (resp, w')"
  shows "vt w' = vt w \<and> vl w' = vl w \<and>
    (vo w' = vo w \<and> (\<forall>op. resp \<noteq> Entity 201 op) \<or>
     (\<exists>body c new u. rq_Entity req = Inr body \<and> ValidateOperation sizeOf (Some (defaulted body)) = [] \<and>
        or_Kind (os_TargetRef (op_Spec body)) = KindCluster \<and>
        rd_GetClusterEx (h_clusterReader h) (or_Name (os_TargetRef (op_Spec body))) [] w = Inr c \<and>
        cl_UID c = or_UID (os_TargetRef (op_Spec body)) \<and>
        list_all2 (\<lambda>st st'. st' = st\<lparr>step_Targets := step_Targets st'\<rparr> \<and>
            list_all2 (\<lambda>t t'. \<exists>node. rd_GetNodeEx (h_clusterReader h) (nr_Name t) [] w = Inr node \<and> nd_UID node = nr_UID t \<and>
              t' = t\<lparr>nr_IP := nd_Ipv4DefaultIP node\<rparr>) (step_Targets st) (step_Targets st'))
          (op_Steps body) (op_Steps new) \<and>
        op_Phase new = OperationPending \<and> resp = Entity 201 new \<and> fst (vo w) (op_Name body) = None \<and> u \<notin> snd (vo w) \<and>
        vo w' = ((fst (vo w))(op_Name body \<mapsto> new), insert u (snd (vo w)))))"
proof (cases "w' = w \<and> (\<forall>op. resp \<noteq> Entity 201 op)")
  case False
  obtain body op' y where en: "rq_Entity req = Inr body" "ValidateOperation sizeOf (Some (defaulted body)) = []"
    and refs: "validateTargetRefs h (defaulted body) w = (Inr op', w)"
    and run: "CreateOperation (h_store h) (Some op') w = (y, w')" and resp: "resp = (case y of Inl e \<Rightarrow> writeError e | Inr z \<Rightarrow> Entity 201 z)"
    using create_change [OF assms(2)] False by blast
  obtain c sts where c: "or_Kind (os_TargetRef (op_Spec body)) = KindCluster"
      "rd_GetClusterEx (h_clusterReader h) (or_Name (os_TargetRef (op_Spec body))) [] w = Inr c"
      "cl_UID c = or_UID (os_TargetRef (op_Spec body))" and sts: "enrichPlan (h_clusterReader h) w (op_Steps body) = Inr sts"
    and op': "op' = (defaulted body)\<lparr>op_Spec := (op_Spec (defaulted body))\<lparr>os_Steps := sts\<rparr>\<rparr>"
    using refs by (auto simp: validateTargetRefs_Inr)
  have cr: "st_Create (s_operations (h_store h)) op' w = (y, w')" using run by (simp add: CreateOperation_def)
  note q = quiet_store.ops [OF assms(1)] and fr = quiet_store.frame_o [OF assms(1)]
  have keep: "vt w' = vt w" "vl w' = vl w" using writes_keepD(1) [OF fr(1) cr] writes_keepD(1) [OF fr(2) cr] by simp_all
  show ?thesis
  proof (cases y)
    case (Inl e)
    then show ?thesis using quiet_storage.create_effect [OF q cr] keep resp by simp
  next
    case (Inr new)
    then obtain u t rv where new: "u \<notin> snd (vo w)" "new = stored_create (operationStrategy opSize) u t rv op'"
      "fst (vo w) (op_Name op') = None" "vo w' = ((fst (vo w))(op_Name op' \<mapsto> new), insert u (snd (vo w)))"
      using quiet_storage.create_effect [OF q cr] by auto
    have nm: "op_Name op' = op_Name body" using op' by simp
    have "op_Steps new = sts" "op_Phase new = OperationPending"
      using new(2) op' by (simp_all add: stored_create_def operation_PrepareForCreate_def Let_def)
    then show ?thesis using Inr new keep resp c sts en enrichPlan_Inr [OF sts] nm by auto
  qed
qed simp

definition create_request :: "Operation request" where
  "create_request = \<lparr>rq_Entity = Inr (sample_op\<lparr>op_Meta := sample_meta ''op2'' [] [], op_Status := empty_OperationStatus\<rparr>),
     rq_Name = [], rq_Query = [], rq_User = None\<rparr>"

theorem create_checked_witness:
  "\<exists>new. fst (view_ops (snd (createOperation anySize sampleHandler create_request api_world :: (Operation, unit) response \<times> mem))) ''op2'' =
     Some new \<and> op_Phase new = OperationPending"
proof -
  let ?run = "createOperation anySize sampleHandler create_request api_world :: (Operation, unit) response \<times> mem"
  have "case fst ?run of Entity c y \<Rightarrow> c = 201 | _ \<Rightarrow> False" by code_simp
  then obtain y where "fst ?run = Entity 201 y" by (cases "fst ?run") auto
  then show ?thesis using create_checked [OF sample_quiet prod.collapse [symmetric, of ?run]]
    by (auto simp: create_request_def sample_meta_def)
qed

lemma cancel_change:
  assumes "cancelOperation h req w = (resp, w')"
  shows "w' = w \<and> (\<forall>op. resp \<noteq> Entity 200 op) \<or>
    (\<exists>p old y. readControlRequest req = Inr p \<and> st_Get (s_operations (h_store h)) (rq_Name req) [] w = Inr old \<and>
       op_UID old = cr_UID p \<and> op_Phase old \<in> {OperationPending, OperationRunning} \<and>
       os_DesiredState (op_Spec old) = OperationDesiredStateActive \<and>
       UpdateOperationControl (h_store h) (op_Name old) (op_UID old) (cr_ResourceVersion p) (Some cancelSpec) w = (y, w') \<and>
       resp = (case y of Inl e \<Rightarrow> writeError e | Inr z \<Rightarrow> Entity 200 z))"
proof (cases "readControlRequest req")
  case (Inr p)
  then show ?thesis using assms unfolding cancelOperation_def GetOperation_def
    by (auto split: if_splits elim!: respond_cases read_cases)
qed (use assms in \<open>auto simp: cancelOperation_def\<close>)

text \<open>
  C15.  Cancelling.  A cancel request changes at most the operation it names, and only if that is Pending or
  Running, still desired Active, and has the UID and the resource version of the request; then
  the desired state becomes Canceled and nothing else of spec and status changes.  In every
  other case an error is written and no collection changes.
\<close>

theorem cancel_effect:
  assumes "quiet_store am (h_store h) opSize taskSize vo vt vl" and "keyed_by (\<lambda>op. op_Name op) (fst (vo w))"
    and "cancelOperation h req w = (resp, w')"
  shows "vt w' = vt w \<and> vl w' = vl w \<and>
    (vo w' = vo w \<and> (\<forall>op. resp \<noteq> Entity 200 op) \<or>
     (\<exists>p old new. rq_Entity req = Inr p \<and> fst (vo w) (rq_Name req) = Some old \<and> op_UID old = cr_UID p \<and>
        op_RV old = cr_ResourceVersion p \<and> op_Phase old \<in> {OperationPending, OperationRunning} \<and>
        os_DesiredState (op_Spec old) = OperationDesiredStateActive \<and> resp = Entity 200 new \<and>
        op_Spec new = (op_Spec old)\<lparr>os_DesiredState := OperationDesiredStateCancelled\<rparr> \<and> op_Status new = op_Status old \<and>
        vo w' = ((fst (vo w))(rq_Name req \<mapsto> new), snd (vo w))))"
proof (cases "w' = w \<and> (\<forall>op. resp \<noteq> Entity 200 op)")
  case False
  obtain p old y where p: "readControlRequest req = Inr p" and get: "st_Get (s_operations (h_store h)) (rq_Name req) [] w = Inr old"
    and old: "op_UID old = cr_UID p" "op_Phase old \<in> {OperationPending, OperationRunning}"
      "os_DesiredState (op_Spec old) = OperationDesiredStateActive"
    and upd: "UpdateOperationControl (h_store h) (op_Name old) (op_UID old) (cr_ResourceVersion p) (Some cancelSpec) w = (y, w')"
    and resp: "resp = (case y of Inl e \<Rightarrow> writeError e | Inr z \<Rightarrow> Entity 200 z)"
    using cancel_change [OF assms(3)] False by blast
  have cur: "fst (vo w) (rq_Name req) = Some old" by (rule quiet_store.op_get [OF assms(1) get])
  then have nm: "op_Name old = rq_Name req" using assms(2) by (auto simp: keyed_by_def)
  note U = quiet_store.update_operation_control [OF assms(1) upd]
  show ?thesis
    using U resp cur nm old p by (cases y) (auto simp: control_request_Inr cancelSpec_def)
qed simp

definition running_world :: mem where
  "running_world = api_world\<lparr>mem_ops := \<lparr>co_items = [sample_op], co_next = 0, co_rev = 8\<rparr>\<rparr>"

theorem cancel_effect_witness:
  "\<exists>new. fst (view_ops (snd (cancelOperation sampleHandler control_request running_world :: (Operation, unit) response \<times> mem))) ''op'' =
     Some new \<and> os_DesiredState (op_Spec new) = OperationDesiredStateCancelled"
proof -
  let ?run = "cancelOperation sampleHandler control_request running_world :: (Operation, unit) response \<times> mem"
  have "case fst ?run of Entity c y \<Rightarrow> c = 200 | _ \<Rightarrow> False" by code_simp
  then obtain y where "fst ?run = Entity 200 y" by (cases "fst ?run") auto
  then show ?thesis using cancel_effect [OF sample_quiet sample_keyed(1) prod.collapse [symmetric, of ?run]]
    by (auto simp: control_request_def)
qed

lemma load_Inr:
  assumes "loadRetryableOperation am h n p w = (Inr op, w')"
  shows "st_Get (s_operations (h_store h)) n [] w = Inr op \<and> op_UID op = cr_UID p \<and> retryablePhase (op_Phase op) \<and>
    (\<exists>x. ensureTasksTerminal am h op w = (Inr x, w)) \<and> (\<exists>x. ensureLatestOperation am h op w = (Inr x, w))"
proof -
  have w: "ensureTasksTerminal am h op w = (r, w1) \<Longrightarrow> w1 = w" "ensureLatestOperation am h op w = (r, w1) \<Longrightarrow> w1 = w" for op w r w1
    by (auto simp: ensureTasksTerminal_def ensureLatestOperation_def ListTasksByOperationUID_def ListOperations_def Let_def
        split: if_splits elim!: io_bind_cases)
  show ?thesis using assms unfolding loadRetryableOperation_def GetOperation_def
    by (auto simp: io_bind_Inr split: if_splits dest: w)
qed

text \<open>
  C16.  Retrying.  A retry request that is answered with 200 found the named operation, with the UID and
  resource version of the request, Failed, TimedOut or Canceled, with no task that is not
  terminal, and last in the order of its target; it sets the desired state Active and the next
  retry generation and changes nothing else.  Any other answer leaves all collections unchanged.
\<close>

theorem retry_effect:
  assumes "quiet_store am (h_store h) opSize taskSize vo vt vl" and "keyed_by (\<lambda>op. op_Name op) (fst (vo w))"
    and "retryOperation am h req w = (resp, w')"
  shows "vt w' = vt w \<and> vl w' = vl w \<and>
    (vo w' = vo w \<and> (\<forall>op. resp \<noteq> Entity 200 op) \<or>
     (\<exists>p old new l. rq_Entity req = Inr p \<and> fst (vo w) (rq_Name req) = Some old \<and> op_UID old = cr_UID p \<and>
        op_RV old = cr_ResourceVersion p \<and> op_Phase old \<in> {OperationFailed, OperationTimedOut, OperationCancelled} \<and>
        (\<forall>t \<in> ran (fst (vt w)). task_OpUID t = op_UID old \<longrightarrow> TaskPhase_IsTerminal (task_Phase t)) \<and>
        set l = {x \<in> ran (fst (vo w)). or_UID (os_TargetRef (op_Spec old)) = [] \<or>
          or_UID (os_TargetRef (op_Spec x)) = or_UID (os_TargetRef (op_Spec old))} \<and> isLast old l \<and> resp = Entity 200 new \<and>
        op_Spec new = (op_Spec old)\<lparr>os_DesiredState := OperationDesiredStateActive,
          os_RetryGeneration := int64 (os_RetryGeneration (op_Spec old) + 1)\<rparr> \<and> op_Status new = op_Status old \<and>
        vo w' = ((fst (vo w))(rq_Name req \<mapsto> new), snd (vo w))))"
proof (cases "\<exists>p old w1. readControlRequest req = Inr p \<and> loadRetryableOperation am h (rq_Name req) p w = (Inr old, w1)")
  case True
  then obtain p old w1 where p: "readControlRequest req = Inr p" and ld: "loadRetryableOperation am h (rq_Name req) p w = (Inr old, w1)"
    by blast
  have w1: "w1 = w" by (rule load_world [OF ld])
  obtain y where upd: "UpdateOperationControl (h_store h) (op_Name old) (op_UID old) (cr_ResourceVersion p) (Some retrySpec) w = (y, w')"
    and resp: "resp = (case y of Inl e \<Rightarrow> writeError e | Inr z \<Rightarrow> Entity 200 z)"
    using assms(3) p ld w1 by (auto simp: retryOperation_def io_bind_def elim!: respond_cases)
  note L = load_Inr [OF ld]
  have cur: "fst (vo w) (rq_Name req) = Some old" using quiet_store.op_get [OF assms(1)] L by blast
  then have nm: "op_Name old = rq_Name req" using assms(2) by (auto simp: keyed_by_def)
  have allTerminal: "\<forall>t \<in> ran (fst (vt w)). task_OpUID t = op_UID old \<longrightarrow> TaskPhase_IsTerminal (task_Phase t)"
    using quiet_store.list_tasks_terminal [OF assms(1) _ refl] L by blast
  from L obtain l where l: "ListOperations am (h_store h) (or_UID (os_TargetRef (op_Spec old))) [] w = (Inr l, w)" "isLast old (ol_Items l)"
    by (auto simp: ensureLatestOperation_def io_bind_Inr ListOperations_def Let_def split: if_splits)
  have items: "set (ol_Items l) = {x \<in> ran (fst (vo w)). or_UID (os_TargetRef (op_Spec old)) = [] \<or>
      or_UID (os_TargetRef (op_Spec x)) = or_UID (os_TargetRef (op_Spec old))}"
    using quiet_store.list_operations [OF assms(1) l(1)] by auto
  have ph: "op_Phase old \<in> {OperationFailed, OperationTimedOut, OperationCancelled}" using L by (auto simp: retryablePhase_def)
  note U = quiet_store.update_operation_control [OF assms(1) upd]
  show ?thesis
  proof (cases y)
    case (Inr new)
    then have "op_RV old = cr_ResourceVersion p" "op_Status new = op_Status old"
      "op_Spec new = (op_Spec old)\<lparr>os_DesiredState := OperationDesiredStateActive,
          os_RetryGeneration := int64 (os_RetryGeneration (op_Spec old) + 1)\<rparr>"
      "vo w' = ((fst (vo w))(rq_Name req \<mapsto> new), snd (vo w))" "vt w' = vt w" "vl w' = vl w"
      using U cur nm p by (auto simp: control_request_Inr retrySpec_def)
    moreover have "rq_Entity req = Inr p" "op_UID old = cr_UID p" "resp = Entity 200 new"
      using p L resp Inr by (simp_all add: control_request_Inr)
    ultimately show ?thesis using cur ph allTerminal items l(2) by blast
  qed (use U resp in simp)
next
  case False
  then have "w' = w \<and> (\<exists>e. resp = writeError e)" using assms(3)
    by (cases "readControlRequest req") (auto simp: retryOperation_def elim!: respond_cases io_bind_cases dest: load_world)
  then show ?thesis by auto
qed

theorem retry_effect_witness:
  "\<exists>new. fst (view_ops (snd (retryOperation memAm sampleHandler control_request api_world :: (Operation, unit) response \<times> mem))) ''op'' =
     Some new \<and> os_RetryGeneration (op_Spec new) = 1 \<and> operationNeedsExecution new"
proof -
  let ?run = "retryOperation memAm sampleHandler control_request api_world :: (Operation, unit) response \<times> mem"
  have "case fst ?run of Entity c y \<Rightarrow> c = 200 | _ \<Rightarrow> False" by code_simp
  then obtain y where "fst ?run = Entity 200 y" by (cases "fst ?run") auto
  moreover have "fst (view_ops api_world) ''op'' = Some failed_op" by code_simp
  moreover have "int64 1 = 1" by (simp add: int64_def)
  ultimately show ?thesis using retry_effect [OF sample_quiet sample_keyed(1) prod.collapse [symmetric, of ?run]]
    by (auto simp: control_request_def operationNeedsExecution_def failed_op_def sample_defs)
qed

text \<open>
  C17.  Retry and scheduling agree.  The handler sorts the operations of the target and compares the last
  one; the controller checks that none comes after.  For operations with numeric resource
  versions and distinct UIDs the two decide the same.
\<close>

theorem latest_agrees:
  assumes "\<forall>x \<in> set ops. ParseUint (op_RV x) \<noteq> None" "inj_on op_UID (set ops)" "distinct ops" "op \<in> set ops"
  shows "isLast op ops \<longleftrightarrow> isLatestOperation op ops"
proof -
  let ?xs = "go_sort operationBefore ops"
  have lin: "strict_linear_on (set ops) operationBefore" using assms(1,2) by (intro operationBefore_linear) auto
  have srt: "sorted_wrt operationBefore ?xs" by (rule sorted_go_sort_strict [OF lin assms(3)])
  have ne: "?xs \<noteq> []" using assms(4) by (metis empty_iff list.set(1) set_go_sort)
  then have last: "last ?xs \<in> set ops" using last_in_set by fastforce
  have gt: "x = last ?xs \<or> operationBefore x (last ?xs)" if "x \<in> set ops" for x
  proof -
    have "x \<in> set (butlast ?xs @ [last ?xs])" using that ne by (simp del: set_append)
    moreover have "sorted_wrt operationBefore (butlast ?xs @ [last ?xs])" using srt ne by simp
    ultimately show ?thesis by (auto simp: sorted_wrt_append)
  qed
  have asym: "\<not> operationBefore y x" if "x \<in> set ops" "y \<in> set ops" "operationBefore x y" for x y
    using lin that unfolding strict_linear_on_def by blast
  have "isLast op ops \<longleftrightarrow> last ?xs = op"
    using ne last assms(2,4) by (auto simp: isLast_def operationLess_before Let_def dest: inj_onD)
  also have "\<dots> \<longleftrightarrow> isLatestOperation op ops"
  proof
    assume "last ?xs = op"
    then show "isLatestOperation op ops" using gt asym assms(4) by (auto simp: isLatestOperation_def list_all_iff)
  next
    assume l: "isLatestOperation op ops"
    show "last ?xs = op"
    proof (rule ccontr)
      assume ne': "last ?xs \<noteq> op"
      then have "operationBefore op (last ?xs)" "op_UID (last ?xs) \<noteq> op_UID op"
        using gt [OF assms(4)] last assms(2,4) by (auto dest: inj_onD)
      then show False using l last by (auto simp: isLatestOperation_def list_all_iff)
    qed
  qed
  finally show ?thesis .
qed

definition versioned_op :: "string \<Rightarrow> gotime \<Rightarrow> string \<Rightarrow> Operation" where
  "versioned_op u t rv = sample_op\<lparr>op_Meta := (sample_meta u u rv)\<lparr>m_CreationTimestamp := t\<rparr>\<rparr>"

theorem latest_agrees_witness:
  "isLast (versioned_op ''b'' 2 ''5'') [versioned_op ''b'' 2 ''5'', versioned_op ''a'' 2 ''4''] \<and>
   isLatestOperation (versioned_op ''b'' 2 ''5'') [versioned_op ''b'' 2 ''5'', versioned_op ''a'' 2 ''4'']"
proof -
  let ?a = "versioned_op ''a'' 2 ''4''" and ?b = "versioned_op ''b'' 2 ''5''"
  have rv: "ParseUint (op_RV ?a) \<noteq> None" "ParseUint (op_RV ?b) \<noteq> None" by code_simp+
  have u: "op_UID ?a = ''a''" "op_UID ?b = ''b''" by (simp_all add: versioned_op_def sample_meta_def)
  then have d: "?a \<noteq> ?b" by auto
  have i: "inj_on op_UID (set [?b, ?a])" using u by (simp add: inj_on_def)
  have "isLast ?b [?b, ?a]" by code_simp
  then show ?thesis using latest_agrees [OF _ i, of ?b] rv d by auto
qed

lemma optional_Inr:
  "optional parse ok e f val options = Inr x \<longleftrightarrow> (if val = [] then x = options else \<exists>y. parse val = Some y \<and> ok y \<and> x = f y options)"
  by (auto simp: optional_def split: option.splits)

lemma bool_options:
  "parseWatch v options = Inr x \<Longrightarrow> lo_Limit x = lo_Limit options \<and> lo_TimeoutSeconds x = lo_TimeoutSeconds options"
  "parseBookmarks v options = Inr x \<Longrightarrow> lo_Limit x = lo_Limit options \<and> lo_TimeoutSeconds x = lo_TimeoutSeconds options"
  by (auto simp: parseWatch_def parseBookmarks_def optional_Inr split: if_splits)

lemma ParseInt_range:
  assumes "ParseInt s = Some n"
  shows "MinInt64 \<le> n \<and> n \<le> MaxInt64"
  using assms by (auto simp: ParseInt_def Let_def MinInt64_def MaxInt64_def split: list.splits option.splits if_splits)

text \<open>
  List options are in range.  The options of an accepted list request have a limit between 0 and the
  largest 64-bit integer, so paging never takes the branch for negative limits, and the timeout of an
  accepted watch is either the default or a positive number of seconds; up to 9223372036 seconds
  (about 292 years) it is that many nanoseconds without wrap-around.
\<close>

theorem list_options_in_range:
  assumes "parseListOptions req = Inr options"
  shows "0 \<le> lo_Limit options \<and> lo_Limit options \<le> MaxInt64 \<and>
    (case lo_TimeoutSeconds options of
       None \<Rightarrow> watchTimeout (Some options) = defaultWatchTimeout
     | Some n \<Rightarrow> 0 < n \<and> n \<le> MaxInt64 \<and>
         (n \<le> 9223372036 \<longrightarrow> watchTimeout (Some options) = n * Second \<and> 0 < watchTimeout (Some options)))"
proof -
  obtain o2 o3 v v' where o4: "parseTimeout v' o3 = Inr options" and o3: "parseLimit v o2 = Inr o3"
    and o2: "lo_Limit o2 = 0" "lo_TimeoutSeconds o2 = None"
  proof -
    from assms obtain o1 o2 o3 where o: "parseBookmarks (values_Get (rq_Query req) ''allowWatchBookmarks'') o1 = Inr o2"
      "parseLimit (values_Get (rq_Query req) ''limit'') o2 = Inr o3"
      "parseTimeout (values_Get (rq_Query req) ''timeoutSeconds'') o3 = Inr options"
      and "lo_Limit o1 = 0" "lo_TimeoutSeconds o1 = None"
      unfolding parseListOptions_def Let_def by (fastforce simp: empty_ListOptions_def dest: bool_options split: sum.splits)
    then show thesis using that [OF o(3,2)] bool_options(2) [OF o(1)] by simp
  qed
  have lim: "0 \<le> lo_Limit options \<and> lo_Limit options \<le> MaxInt64"
    using o2 o3 o4 by (auto simp: parseLimit_def parseTimeout_def optional_Inr MaxInt64_def dest!: ParseInt_range split: if_splits)
  have tmo: "lo_TimeoutSeconds options = Some n \<Longrightarrow> 0 < n \<and> n \<le> MaxInt64" for n
    using o2 o3 o4 by (auto simp: parseLimit_def parseTimeout_def optional_Inr dest: ParseInt_range split: if_splits)
  have wt: "n \<le> 9223372036 \<Longrightarrow> 0 < n \<Longrightarrow> int64 (n * Second) = n * Second \<and> 0 < n * Second" for n
    by (auto simp: Second_def MinInt64_def MaxInt64_def intro!: int64_id)
  show ?thesis using lim tmo wt by (auto simp: watchTimeout_def split: option.split)
qed

definition watch_request :: "string \<Rightarrow> unit request" where
  "watch_request n = \<lparr>rq_Entity = Inl [], rq_Name = [], rq_Query = [(''watch'', ''1''), (''limit'', ''50''), (''timeoutSeconds'', n)], rq_User = None\<rparr>"

theorem list_options_in_range_witness:
  "\<exists>options. parseListOptions (watch_request ''60'') = Inr options \<and> lo_TimeoutSeconds options = Some 60 \<and>
     watchTimeout (Some options) = 60 * Second"
proof -
  have "case parseListOptions (watch_request ''60'') of Inl _ \<Rightarrow> False | Inr x \<Rightarrow> lo_TimeoutSeconds x = Some 60" by code_simp
  then obtain x where x: "parseListOptions (watch_request ''60'') = Inr x" "lo_TimeoutSeconds x = Some 60"
    by (cases "parseListOptions (watch_request ''60'')") auto
  then show ?thesis using list_options_in_range [OF x(1)] by auto
qed

text \<open>Beyond that bound the product wraps around: an accepted watch can have a negative timeout.\<close>

lemma watch_timeout_wraps:
  "case parseListOptions (watch_request ''9223372037'') of Inl _ \<Rightarrow> False | Inr x \<Rightarrow> lo_Watch x \<and> watchTimeout (Some x) < 0"
  by code_simp

lemma upper_hex_unreserved: "n < 16 \<Longrightarrow> unreserved (upper_hex n)"
proof -
  have "\<forall>n \<in> set [0..<16]. unreserved (upper_hex n)" by code_simp
  then show "n < 16 \<Longrightarrow> unreserved (upper_hex n)" by simp
qed

lemma percent_plain: "x \<in> set (percent c) \<Longrightarrow> unreserved x \<or> x = CHR ''%''"
proof -
  have "byte c div 16 < 16" "byte c mod 16 < 16" using byte_less [of c] by auto
  then show "x \<in> set (percent c) \<Longrightarrow> unreserved x \<or> x = CHR ''%''" using upper_hex_unreserved by (auto simp: percent_def)
qed

lemma PathEscape_plain: "x \<in> set (PathEscape s) \<Longrightarrow> unreserved x \<or> x \<in> set ''$&+=:@%''"
  by (auto simp: PathEscape_def dest: percent_plain split: if_splits)

lemma QueryEscape_plain: "x \<in> set (QueryEscape s) \<Longrightarrow> unreserved x \<or> x \<in> set ''+%''"
  by (auto simp: QueryEscape_def dest: percent_plain split: if_splits)

lemma log_query: "values_Encode [(''offset'', a), (''limit'', b)] = ''limit='' @ QueryEscape b @ ''&offset='' @ QueryEscape a"
proof -
  have "QueryEscape ''offset'' = ''offset''" "QueryEscape ''limit'' = ''limit''" "''limit'' < ''offset''" by code_simp+
  then show ?thesis by (simp add: values_Encode_def less_le_not_le)
qed

lemma task_logs_cases:
  assumes "getTaskLogs ht h req w = (RawBody code ctype body :: (unit, 'wa) response, w')"
  shows "\<exists>task node endpoint. GetTask (h_store h) (rq_Name req) [] w = (Inr task, w) \<and>
    rd_GetNodeEx (h_clusterReader h) (nr_Name (tsp_NodeRef (task_Spec task))) [] w = Inr node \<and>
    nd_UID node = task_NodeUID task \<and> nd_Ipv4DefaultIP node \<noteq> [] \<and>
    taskLogEndpoint node task [(''offset'', values_Get (rq_Query req) ''offset''), (''limit'', values_Get (rq_Query req) ''limit'')]
      = Inr endpoint \<and>
    fetchTaskLog ht (clientFor (h_logClient h) (nr_Name (tsp_NodeRef (task_Spec task)))) endpoint w = (RawBody code ctype body :: (unit, 'wa) response, w')"
  using assms unfolding getTaskLogs_def GetTask_def Let_def
  by (elim read_cases) (auto simp: writeError_def split: if_splits sum.splits)

text \<open>
  C18.  Log requests reach the right agent.  A log response that is passed on came from the address that the
  cluster reader has for the node of the task, whose UID is the UID the task was created for, over a
  TLS connection that verifies the node name; the path and query of the request contain no byte
  of the task UID or of the client's parameters that could end a path segment or a query value, and
  the body is at most one MiB.
\<close>

theorem task_logs_confined:
  assumes "getTaskLogs ht h req w = (RawBody code ctype body :: (unit, 'wa) response, w')" and "hc_Transport (h_logClient h) = HTTPTransport (Some cfg)"
  shows "w' = w \<and> length body \<le> 1048576 \<and>
    (\<exists>task node port path offset limit up. GetTask (h_store h) (rq_Name req) [] w = (Inr task, w) \<and>
       rd_GetNodeEx (h_clusterReader h) (nr_Name (tsp_NodeRef (task_Spec task))) [] w = Inr node \<and>
       nd_UID node = task_NodeUID task \<and> nd_Ipv4DefaultIP node \<noteq> [] \<and> 1 \<le> port \<and> port \<le> 65535 \<and>
       ht_Do ht ((h_logClient h)\<lparr>hc_Transport := HTTPTransport (Some (cfg\<lparr>tls_ServerName := nr_Name (tsp_NodeRef (task_Spec task))\<rparr>))\<rparr>)
         (''https://'' @ JoinHostPort (nd_Ipv4DefaultIP node) (show_int port) @ ''/v1/tasks/'' @ path @ ''/logs?limit='' @ limit @ ''&offset='' @ offset) w
         = Inr up \<and> up_Body up = body \<and> up_StatusCode up = code \<and>
       set (path @ limit @ offset) \<inter> set ''/?#'' = {} \<and> set (limit @ offset) \<inter> set ''&='' = {})"
proof -
  obtain task node endpoint where task: "GetTask (h_store h) (rq_Name req) [] w = (Inr task, w)"
    and node: "rd_GetNodeEx (h_clusterReader h) (nr_Name (tsp_NodeRef (task_Spec task))) [] w = Inr node"
      "nd_UID node = task_NodeUID task" "nd_Ipv4DefaultIP node \<noteq> []"
    and ep: "taskLogEndpoint node task [(''offset'', values_Get (rq_Query req) ''offset''), (''limit'', values_Get (rq_Query req) ''limit'')]
        = Inr endpoint"
    and fetch: "fetchTaskLog ht (clientFor (h_logClient h) (nr_Name (tsp_NodeRef (task_Spec task)))) endpoint w = (RawBody code ctype body :: (unit, 'wa) response, w')"
    using task_logs_cases [OF assms(1)] by blast
  obtain up where up: "ht_Do ht (clientFor (h_logClient h) (nr_Name (tsp_NodeRef (task_Spec task)))) endpoint w = Inr up"
      "up_Body up = body" "up_StatusCode up = code" "length body \<le> 1048576" "w' = w"
    using fetch by (auto simp: fetchTaskLog_def writeError_def split: sum.splits option.splits if_splits)
  define port where "port = (if nd_AgentLogPort node = 0 then DefaultAgentLogPort else nd_AgentLogPort node)"
  have port: "1 \<le> port" "port \<le> 65535" and url: "endpoint =
      ''https://'' @ JoinHostPort (nd_Ipv4DefaultIP node) (show_int port) @ ''/v1/tasks/'' @ PathEscape (task_UID task) @ ''/logs?limit='' @
      QueryEscape (values_Get (rq_Query req) ''limit'') @ ''&offset='' @ QueryEscape (values_Get (rq_Query req) ''offset'')"
    using ep unfolding taskLogEndpoint_def Let_def port_def [symmetric] log_query by (simp_all split: if_splits)
  have plain: "set (PathEscape s) \<inter> set ''/?#'' = {}" "set (QueryEscape s) \<inter> set ''/?#&='' = {}" for s
    using PathEscape_plain [of _ s] QueryEscape_plain [of _ s] by (auto simp: unreserved_def)
  have cl: "clientFor (h_logClient h) (nr_Name (tsp_NodeRef (task_Spec task))) =
      (h_logClient h)\<lparr>hc_Transport := HTTPTransport (Some (cfg\<lparr>tls_ServerName := nr_Name (tsp_NodeRef (task_Spec task))\<rparr>))\<rparr>"
    using assms(2) by (simp add: clientFor_def)
  show ?thesis
    using task node port up(2-) up(1) [unfolded cl url] plain by (auto intro!: exI)
qed

definition sampleHttp :: "mem http_io" where
  "sampleHttp = \<lparr>ht_NewRequest = (\<lambda>_. None),
     ht_Do = (\<lambda>c url _. Inr \<lparr>up_StatusCode = 200, up_ContentType = ''text/plain'', up_Body = ''ok'', up_ReadError = False\<rparr>)\<rparr>"

definition log_request :: "unit request" where
  "log_request = \<lparr>rq_Entity = Inl [], rq_Name = ''task0'', rq_Query = [(''offset'', ''0&a=b'')], rq_User = None\<rparr>"

theorem task_logs_confined_witness:
  "\<exists>task node. GetTask memStore ''task0'' [] api_world = (Inr task, api_world) \<and>
     rd_GetNodeEx sampleReader (nr_Name (tsp_NodeRef (task_Spec task))) [] api_world = Inr node \<and> nd_UID node = task_NodeUID task"
proof -
  let ?run = "getTaskLogs sampleHttp sampleHandler log_request api_world :: (unit, unit) response \<times> mem"
  have r: "fst ?run = RawBody 200 ''text/plain'' ''ok''" by code_simp
  obtain w' where "?run = (RawBody 200 ''text/plain'' ''ok'', w')" using r by (metis prod.collapse)
  from task_logs_confined [OF this] show ?thesis by (force simp: sampleHandler_def log_request_def)
qed

end
