(* ===== verification/Op_Agent_Props.thy ===== *)
theory Op_Agent_Props
  imports Op_Agent Op_Handler_Props
begin

text \<open>
  What the agent guarantees: it never runs two tasks, it runs only tasks of its own node, the
  messages it reports are well-formed text within the server's limit, every status it sends is
  one the server accepts, and through the API it changes nothing but its own tasks.
\<close>

subsection \<open>Messages\<close>

lemma trim_bad_prefix: "prefix (trim_bad s) s"
proof (induction s rule: trim_bad.induct)
  case (1 s)
  show ?case
    by (subst trim_bad.simps) (use 1 in \<open>auto intro: prefix_order.trans [OF _ prefixeq_butlast]\<close>)
qed

lemma trim_bad_valid:
  assumes "bytes_of s = a @ p" "valid_utf8 a" "p = [] \<or> partial_rune p"
  shows "bytes_of (trim_bad s) = a"
  using assms
proof (induction s arbitrary: p rule: trim_bad.induct)
  case (1 s)
  show ?case
  proof (cases "p = []")
    case True
    then have "s = [] \<or> \<not> last_rune_bad (bytes_of s)"
      using valid_last_good "1.prems" by (cases s) (auto simp: bytes_of_def)
    then show ?thesis using 1 True by (subst trim_bad.simps) auto
  next
    case False
    then have bad: "last_rune_bad (bytes_of s)" "s \<noteq> []" "partial_rune p"
      using partial_last_bad "1.prems" by (auto simp: bytes_of_def)
    have "bytes_of (butlast s) = a @ butlast p" using False "1.prems"(1) by (simp add: bytes_of_def map_butlast butlast_append)
    then have "bytes_of (trim_bad (butlast s)) = a"
      using "1.IH" [OF _ _ "1.prems"(2)] bad partial_butlast by blast
    then show ?thesis using bad by (subst trim_bad.simps) simp
  qed
qed

lemma truncate_length: "length (truncateMessage m n) \<le> n"
proof -
  have "length (trim_bad (take n m)) \<le> length (take n m)" using trim_bad_prefix prefix_length_le by blast
  then show ?thesis by (auto simp: truncateMessage_def min_def split: if_splits)
qed

lemma truncate_prefix: "prefix (truncateMessage m n) m"
  unfolding truncateMessage_def using trim_bad_prefix [of "take n m"] take_is_prefix [of n m]
  by (auto intro: prefix_order.trans)

lemma truncate_valid:
  assumes "valid_utf8 (bytes_of m)"
  shows "valid_utf8 (bytes_of (truncateMessage m n)) \<and> (n < length m \<longrightarrow> n < length (truncateMessage m n) + 4)"
proof (cases "length m \<le> n")
  case False
  obtain a p where ap: "take n (bytes_of m) = a @ p" "valid_utf8 a" "p = [] \<or> partial_rune p" using valid_take [OF assms] by blast
  then have "bytes_of (take n m) = a @ p" by (simp add: bytes_of_def take_map)
  then have t: "bytes_of (truncateMessage m n) = a" using trim_bad_valid ap False by (auto simp: truncateMessage_def)
  have "length p \<le> 3" using ap(3) partial_short by auto
  moreover have "length (a @ p) = n" using False by (simp add: ap(1) [symmetric] bytes_of_def)
  moreover have "length a = length (truncateMessage m n)" using t by (metis bytes_of_def length_map)
  ultimately show ?thesis using t ap(2) by auto
qed (use assms in \<open>simp add: truncateMessage_def\<close>)

lemma notice_short: "length (truncateMessage x unavailableLogNoticeLimit) \<le> 1024"
  using truncate_length [of x unavailableLogNoticeLimit] by (simp add: unavailableLogNoticeLimit_def MaxMessageSize_def)

lemma message_length: "length (taskResultMessage m e) \<le> MaxMessageSize"
proof (cases e)
  case (Some err)
  let ?n = "truncateMessage (''; agent task log unavailable: '' @ err) unavailableLogNoticeLimit"
  have "length ?n \<le> 1024" by (rule notice_short)
  moreover have "length (truncateMessage m (MaxMessageSize - length ?n)) \<le> MaxMessageSize - length ?n" by (rule truncate_length)
  ultimately show ?thesis by (simp add: taskResultMessage_def Some Let_def MaxMessageSize_def)
qed (simp add: taskResultMessage_def boundedMessage_def truncate_length)

lemma valid_append: "valid_utf8 a \<Longrightarrow> valid_utf8 b \<Longrightarrow> valid_utf8 (a @ b)"
  unfolding valid_utf8_def by (metis Un_iff concat_append set_append)

lemma bytes_of_append [simp]: "bytes_of (a @ b) = bytes_of a @ bytes_of b"
  by (simp add: bytes_of_def)

lemma valid_ascii: "\<forall>c \<in> set s. (of_char c :: nat) < 128 \<Longrightarrow> valid_utf8 (bytes_of s)"
  unfolding valid_utf8_def bytes_of_def
  by (rule exI [of _ "map (\<lambda>c. [of_char c]) s"]) (auto simp: is_rune_def)

lemma truncate_cut:
  assumes "valid_utf8 (bytes_of m)" "truncateMessage m k \<noteq> m"
  shows "k < length (truncateMessage m k) + 4"
proof -
  have "k < length m" using assms(2) by (auto simp: truncateMessage_def split: if_splits)
  then show ?thesis using truncate_valid [OF assms(1), of k] by blast
qed



subsection \<open>Choosing a task\<close>

lemma taskBefore_rev: "taskBefore = rev_before task_Created task_RV task_UID"
  by (rule ext, rule ext) (simp add: taskBefore_def rev_before_def)

definition runningOf :: "OperationTask list \<Rightarrow> OperationTask list" where
  "runningOf tasks = filter (\<lambda>t. task_Phase t = TaskRunning) tasks"

definition pendingOf :: "OperationTask list \<Rightarrow> OperationTask list" where
  "pendingOf tasks = filter (\<lambda>t. task_Phase t = [] \<or> task_Phase t = TaskPending) tasks"

text \<open>
  One task at a time.  Among tasks with numeric resource versions and distinct UIDs, the agent refuses to go
  on exactly if two or more are Running; it resumes the Running one if there is one, and only
  otherwise takes a Pending one, the first by creation, revision and UID; it takes none exactly
  if there is neither.
\<close>

theorem selectTask_spec:
  assumes "\<forall>t \<in> set tasks. ParseUint (task_RV t) \<noteq> None" "inj_on task_UID (set tasks)" "distinct tasks"
  shows "case selectTask tasks of
      Inl e \<Rightarrow> 2 \<le> length (runningOf tasks)
    | Inr None \<Rightarrow> runningOf tasks = [] \<and> pendingOf tasks = []
    | Inr (Some t) \<Rightarrow> runningOf tasks = [t] \<or>
        runningOf tasks = [] \<and> t \<in> set (pendingOf tasks) \<and> (\<forall>x \<in> set (pendingOf tasks). x \<noteq> t \<longrightarrow> taskBefore t x)"
proof -
  let ?p = "pendingOf tasks"
  have sub: "set ?p \<subseteq> set tasks" by (auto simp: pendingOf_def)
  have lin: "strict_linear_on (set ?p) taskBefore"
    unfolding taskBefore_rev using assms(1,2) sub by (intro rev_before_linear) (auto intro: inj_on_subset)
  have srt: "sorted_wrt taskBefore (go_sort taskBefore ?p)"
    by (rule sorted_go_sort_strict [OF lin]) (use assms(3) in \<open>simp add: pendingOf_def\<close>)
  have sel: "selectTask tasks = (if length (runningOf tasks) > 1
      then Inl (Plain (''found '' @ show_nat (length (runningOf tasks)) @ '' Running tasks for one agent; refusing concurrent execution''))
      else case runningOf tasks of t # _ \<Rightarrow> Inr (Some t)
        | [] \<Rightarrow> (case go_sort taskBefore ?p of [] \<Rightarrow> Inr None | t # _ \<Rightarrow> Inr (Some t)))"
    unfolding selectTask_def Let_def runningOf_def pendingOf_def by (rule refl)
  show ?thesis
  proof (cases "runningOf tasks")
    case (Cons t ts)
    then show ?thesis unfolding sel by (cases ts) auto
  next
    case Nil
    show ?thesis
    proof (cases "go_sort taskBefore ?p")
      case Nil': Nil
      then have "?p = []" by (metis length_0_conv length_go_sort)
      then show ?thesis unfolding sel using Nil Nil' by simp
    next
      case (Cons t ts)
      then have "t \<in> set ?p" "\<forall>x \<in> set ?p. x \<noteq> t \<longrightarrow> taskBefore t x"
        using srt set_go_sort [of taskBefore ?p] by auto
      then show ?thesis unfolding sel using Nil Cons by simp
    qed
  qed
qed

theorem selectTask_spec_witness:
  "selectTask [sample_task 1 TaskPending, (sample_task 0 TaskRunning)\<lparr>task_Meta := sample_meta ''a'' ''u'' ''1''\<rparr>] =
     Inr (Some ((sample_task 0 TaskRunning)\<lparr>task_Meta := sample_meta ''a'' ''u'' ''1''\<rparr>))"
proof -
  let ?a = "sample_task 1 TaskPending" and ?b = "(sample_task 0 TaskRunning)\<lparr>task_Meta := sample_meta ''a'' ''u'' ''1''\<rparr>"
  have rv: "ParseUint (task_RV ?a) \<noteq> None" "ParseUint (task_RV ?b) \<noteq> None" by code_simp+
  have u: "task_UID ?a = ''t-uid''" "task_UID ?b = ''u''" by (simp_all add: sample_defs)
  then have d: "?a \<noteq> ?b" by auto
  have i: "inj_on task_UID (set [?a, ?b])" using u by (simp add: inj_on_def)
  have r: "runningOf [?a, ?b] = [?b]" by (simp add: runningOf_def sample_defs)
  show ?thesis using selectTask_spec [OF _ i] rv d r
    by (auto split: sum.splits option.splits)
qed

subsection \<open>The statuses that are sent\<close>

text \<open>
  A client that refuses to send a status that the server would not accept for a Running task.  The
  worker cannot tell it from the real one.
\<close>

definition acceptable :: "OperationTaskStatus \<Rightarrow> bool" where
  "acceptable st \<longleftrightarrow> validateTaskStatus st = None \<and> agent_phase_step TaskRunning (tst_Phase st)"

definition checkedClient :: "'w TaskClient \<Rightarrow> 'w TaskClient" where
  "checkedClient c = c\<lparr>tc_UpdateStatus := (\<lambda>ctx task. if acceptable (task_Status task) then tc_UpdateStatus c ctx task
     else io_err (Panic ''unacceptable status''))\<rparr>"

definition withClient :: "'w Worker \<Rightarrow> 'w TaskClient \<Rightarrow> 'w Worker" where
  "withClient wk c = wk\<lparr>wk_client := c\<rparr>"

text \<open>Executors whose outputs the server accepts.\<close>

definition outputs_ok :: "'w Executor \<Rightarrow> bool" where
  "outputs_ok e \<longleftrightarrow> (\<forall>ctx task log w result w'. e ctx task log w = (Inr result, w') \<longrightarrow> outputs_loop 0 (tr_Outputs result) = None)"

lemma withClient_simps [simp]:
  "wk_client (withClient wk c) = c" "wk_clock (withClient wk c) = wk_clock wk" "wk_registry (withClient wk c) = wk_registry wk"
  "wk_oplog (withClient wk c) = wk_oplog wk" "wk_queueAdd (withClient wk c) = wk_queueAdd wk" "wk_RFC3339 (withClient wk c) = wk_RFC3339 wk"
  "queueAdd (withClient wk c) = queueAdd wk" "withTimeout (withClient wk c) = withTimeout wk"
  by (simp_all add: withClient_def queueAdd_def withTimeout_def fun_eq_iff)

lemma finish_checked:
  assumes "acceptable ((task_Status task)\<lparr>tst_Phase := phase, tst_Result := Some result\<rparr>)"
  shows "finishTask (withClient wk (checkedClient c)) ctx task phase result = finishTask (withClient wk c) ctx task phase result"
  using assms by (simp add: finishTask_def checkedClient_def cong: if_cong)

lemma failure_acceptable:
  assumes "phase \<in> {TaskFailed, TaskTimedOut}"
  shows "acceptable (st\<lparr>tst_Phase := phase, tst_Result := Some \<lparr>tr_Reason = r, tr_Message = taskResultMessage m e, tr_Outputs = []\<rparr>\<rparr>)"
  using assms message_length [of m e]
  by (auto simp: acceptable_def validateTaskStatus_def ValidateTaskResult_def agent_phase_step_def)

lemma failure_checked:
  assumes "phase \<in> {TaskFailed, TaskTimedOut}"
  shows "finishFailure (withClient wk (checkedClient c)) task writer le ctx phase r m =
    finishFailure (withClient wk c) task writer le ctx phase r m"
  unfolding finishFailure_def Let_def
  by (rule ext) (simp add: finish_checked [OF failure_acceptable [OF assms]] split: prod.split)

lemma success_acceptable:
  assumes "outputs_loop 0 (tr_Outputs result) = None"
  shows "acceptable (st\<lparr>tst_Phase := TaskSucceeded, tst_Result := Some (result\<lparr>tr_Reason := [], tr_Message := taskResultMessage m e\<rparr>)\<rparr>)"
  using assms message_length [of m e]
  by (auto simp: acceptable_def validateTaskStatus_def ValidateTaskResult_def agent_phase_step_def)

lemma conclude_checked:
  assumes "\<And>result. answer = Inr result \<Longrightarrow> outputs_loop 0 (tr_Outputs result) = None"
  shows "concludeTask (withClient wk (checkedClient c)) ctx task writer le answer w = concludeTask (withClient wk c) ctx task writer le answer w"
  by (cases answer; cases "ctx w")
    (simp_all add: concludeTask_def failure_checked finish_checked [OF success_acceptable [OF assms]] cong: if_cong)

text \<open>
  C22.  Reports are acceptable.  If the outputs of the registered executors are within the server's limits, every
  status with which the agent ends a Running task passes the server's checks of messages, reasons
  and outputs and is a transition that agents may make: whether the executor succeeds, fails, is
  missing or runs into its deadline, and whatever it says, nothing that the server would refuse is
  ever sent.
\<close>

theorem reports_acceptable:
  assumes "\<forall>e \<in> ran (wk_registry wk). outputs_ok e"
  shows "execute (withClient wk (checkedClient c)) ctx task w = execute (withClient wk c) ctx task w"
proof -
  have log: "openLog (withClient wk c1) task w = openLog (withClient wk c2) task w" for c1 c2
    by (simp add: openLog_def Let_def split: prod.split sum.split)
  have concl: "concludeTask (withClient wk (checkedClient c)) ctx task writer le (fst (e x1 task writer w1)) w2 =
      concludeTask (withClient wk c) ctx task writer le (fst (e x1 task writer w1)) w2"
    if "wk_registry wk (tsp_Executor (task_Spec task)) = Some e" for e x1 writer le w1 w2
  proof (rule conclude_checked)
    fix result assume "fst (e x1 task writer w1) = Inr result"
    moreover have "outputs_ok e" using assms that by (auto simp: ran_def)
    ultimately show "outputs_loop 0 (tr_Outputs result) = None" unfolding outputs_ok_def by (metis prod.collapse)
  qed
  show ?thesis
    unfolding execute_def log [of "checkedClient c" c]
    by (cases "openLog (withClient wk c) task w"; cases "wk_registry wk (tsp_Executor (task_Spec task))")
      (simp_all add: failure_checked concl case_prod_beta cong: if_cong)
qed

lemma command_outputs_ok: "outputs_ok (CommandStepExecutor decode co mirror)"
  unfolding outputs_ok_def
proof (intro allI impI)
  fix ctx task log w result w'
  assume "CommandStepExecutor decode co mirror ctx task log w = (Inr result, w')"
  then obtain response where "tr_Outputs result = [(''response'', response)]" "length response \<le> MaxOutputValueSize"
    by (auto simp: CommandStepExecutor_def Let_def split: sum.splits prod.splits if_splits)
  then show "outputs_loop 0 (tr_Outputs result) = None"
    by (simp add: MaxOutputKeySize_def MaxOutputValueSize_def MaxTaskOutputsSize_def)
qed

lemma preflight_outputs_ok:
  assumes "\<And>w h. os_Hostname os w = Inr h \<Longrightarrow> length h \<le> MaxOutputValueSize" "length (os_GOOS os) \<le> MaxOutputValueSize"
    "length (os_GOARCH os) \<le> MaxOutputValueSize"
  shows "outputs_ok (NodePreflight decode os)"
  unfolding outputs_ok_def
proof (intro allI impI)
  fix ctx task log w result w'
  assume "NodePreflight decode os ctx task log w = (Inr result, w')"
  then obtain h where "os_Hostname os w = Inr h" "tr_Outputs result = [(''hostname'', h), (''os'', os_GOOS os), (''arch'', os_GOARCH os)]"
    by (auto simp: NodePreflight_def Let_def split: sum.splits prod.splits if_splits)
  moreover from this have "length h \<le> MaxOutputValueSize" using assms(1) by blast
  ultimately show "outputs_loop 0 (tr_Outputs result) = None" using assms(2,3)
    by (simp add: MaxOutputKeySize_def MaxOutputValueSize_def MaxTaskOutputsSize_def)
qed

text \<open>
  The Noop executor accepts outputs that are too large in total: the server refuses the report of
  such a task, and the agent runs it again until its deadline.
\<close>

lemma noop_outputs_refused:
  "\<exists>outs. validateOutputs outs = None \<and> outputs_loop 0 outs \<noteq> None"
proof -
  let ?v = "replicate 4096 (CHR ''x'')"
  let ?outs = "[(''a'', ?v), (''b'', ?v), (''c'', ?v), (''d'', ?v), (''e'', ?v)]"
  have "validateOutputs ?outs = None" "outputs_loop 0 ?outs \<noteq> None"
    by (simp_all add: validateOutputs_def maxNoopOutputs_def MaxOutputKeySize_def MaxOutputValueSize_def MaxTaskOutputsSize_def)
  then show ?thesis by blast
qed

definition sampleWorker :: "mem Worker" where
  "sampleWorker = \<lparr>wk_agentID = ''node'', wk_nodeUID = ''node-uid'',
     wk_client = \<lparr>tc_Get = (\<lambda>_ n. GetTask memStore n []),
       tc_UpdateStatus = (\<lambda>_ t. UpdateTaskStatus memStore (task_Name t) (task_UID t) (task_RV t) (task_Status t))\<rparr>,
     wk_registry = NewRegistry(CommandStepExecutorName \<mapsto> CommandStepExecutor (\<lambda>_. Inl ''no payload'')
       \<lparr>co_LoadTemplate = Map.empty, co_LoadAgentStep = Map.empty, co_RunCmd = (\<lambda>_ _ _ w. (None, w))\<rparr> []),
     wk_oplog = \<lparr>tl_CreateOperationDir = (\<lambda>_ w. (None, w)), tl_CreateStepLogFile = (\<lambda>_ _ w. (Inl ''read-only file system'', w))\<rparr>,
     wk_informer = (\<lambda>w. co_items (mem_tasks w)), wk_queueAdd = id, wk_queueGet = Pair False, wk_queueDone = id,
     wk_queueForget = id, wk_queueAddRateLimited = id, wk_runCtx = Background, wk_clock = mem_clock, wk_RFC3339 = show_int\<rparr>"

theorem reports_acceptable_witness:
  "execute (withClient sampleWorker (checkedClient (wk_client sampleWorker))) Background (sample_task 1 TaskRunning) api_world =
   execute (withClient sampleWorker (wk_client sampleWorker)) Background (sample_task 1 TaskRunning) api_world"
  by (rule reports_acceptable) (auto simp: sampleWorker_def NewRegistry_def ran_def command_outputs_ok split: if_splits)

subsection \<open>The agent on the API\<close>

text \<open>
  A client of the API: a read returns what the handler answers and changes nothing; an update is
  a status report of the agent, and the request or the answer may get lost.
\<close>

definition agentReq :: "string \<Rightarrow> string \<Rightarrow> string + 'e \<Rightarrow> 'e request" where
  "agentReq agent name body = \<lparr>rq_Entity = body, rq_Name = name, rq_Query = [],
     rq_User = Some \<lparr>u_Name = agentUsernamePrefix @ agent, u_Groups = [agentGroup]\<rparr>\<rparr>"

definition client_of :: "'w handler \<Rightarrow> string \<Rightarrow> 'w TaskClient \<Rightarrow> bool" where
  "client_of h agent c \<longleftrightarrow>
     (\<forall>ctx n w r w'. tc_Get c ctx n w = (r, w') \<longrightarrow> w' = w \<and> (\<forall>t. r = Inr t \<longrightarrow>
        fst (getTask h (agentReq agent n (Inl [])) w) = (Entity 200 t :: (OperationTask, unit) response))) \<and>
     (\<forall>ctx t w r w'. tc_UpdateStatus c ctx t w = (r, w') \<longrightarrow> w' = w \<and> (\<exists>e. r = Inl e) \<or>
        (\<exists>resp. updateTaskStatus h (agentReq agent (task_Name t) (Inr t)) w = (resp :: (OperationTask, unit) response, w') \<and>
           (\<forall>t'. r = Inr t' \<longrightarrow> resp = Entity 200 t')))"

text \<open>What an agent may do to the tasks: change the status of its own, along its transitions.\<close>

definition agent_may :: "string \<Rightarrow> task_map \<Rightarrow> task_map \<Rightarrow> bool" where
  "agent_may agent T T' \<longleftrightarrow> dom T' = dom T \<and> (\<forall>n old new. T n = Some old \<longrightarrow> T' n = Some new \<longrightarrow>
     task_Spec new = task_Spec old \<and> agent_phase_step\<^sup>*\<^sup>* (task_Phase old) (task_Phase new) \<and>
     (nr_Name (tsp_NodeRef (task_Spec old)) = agent \<or> new = old))"

lemma agent_may_refl [simp]: "agent_may agent T T"
  by (auto simp: agent_may_def)

lemma agent_may_trans:
  assumes "agent_may agent T1 T2" "agent_may agent T2 T3"
  shows "agent_may agent T1 T3"
  unfolding agent_may_def
proof (intro conjI allI impI)
  show "dom T3 = dom T1" using assms by (simp add: agent_may_def)
  fix n old new assume on: "T1 n = Some old" "T3 n = Some new"
  then obtain mid where mid: "T2 n = Some mid" using assms(1) unfolding agent_may_def by (metis domD domI)
  have a: "task_Spec mid = task_Spec old" "agent_phase_step\<^sup>*\<^sup>* (task_Phase old) (task_Phase mid)"
    "nr_Name (tsp_NodeRef (task_Spec old)) = agent \<or> mid = old"
    using assms(1) on(1) mid unfolding agent_may_def by blast+
  have b: "task_Spec new = task_Spec mid" "agent_phase_step\<^sup>*\<^sup>* (task_Phase mid) (task_Phase new)"
    "nr_Name (tsp_NodeRef (task_Spec mid)) = agent \<or> new = mid"
    using assms(2) on(2) mid unfolding agent_may_def by blast+
  show "task_Spec new = task_Spec old" using a b by simp
  show "agent_phase_step\<^sup>*\<^sup>* (task_Phase old) (task_Phase new)" using a(2) b(2) by simp
  show "nr_Name (tsp_NodeRef (task_Spec old)) = agent \<or> new = old" using a b by auto
qed

definition keeps_view :: "('w \<Rightarrow> 'v) \<Rightarrow> ('w, 'c) act \<Rightarrow> bool" where
  "keeps_view v m \<longleftrightarrow> (\<forall>w. v (snd (m w)) = v w)"

text \<open>The queue, the log files and the executors of the agent leave the collections of the server alone.\<close>

definition node_local :: "('w \<Rightarrow> 'v) \<Rightarrow> 'w Worker \<Rightarrow> bool" where
  "node_local v wk \<longleftrightarrow>
     (\<forall>w. v (wk_queueAdd wk w) = v w) \<and>
     (\<forall>u. keeps_view v (tl_CreateOperationDir (wk_oplog wk) u)) \<and>
     (\<forall>u st. keeps_view v (tl_CreateStepLogFile (wk_oplog wk) u st)) \<and>
     (\<forall>u st w wr. fst (tl_CreateStepLogFile (wk_oplog wk) u st w) = Inr wr \<longrightarrow> (\<forall>x. keeps_view v (wr x))) \<and>
     (\<forall>e \<in> ran (wk_registry wk). \<forall>ctx t wr. (\<forall>x. keeps_view v (wr x)) \<longrightarrow> keeps_view v (e ctx t wr))"

locale agent_on_api =
  fixes am :: apimachinery and h :: "'w handler"
    and opSize :: "Operation \<Rightarrow> nat option" and taskSize :: "OperationTask \<Rightarrow> nat option"
    and vo :: "'w \<Rightarrow> op_map \<times> string set" and vt :: "'w \<Rightarrow> task_map \<times> string set"
    and vl :: "'w \<Rightarrow> lock_map \<times> string set" and wk :: "'w Worker"
  assumes store: "quiet_store am (h_store h) opSize taskSize vo vt vl"
    and client: "client_of h (wk_agentID wk) (wk_client wk)"
    and local: "node_local (\<lambda>w. (vo w, vt w, vl w)) wk"
begin

definition R :: "'w \<Rightarrow> 'w \<Rightarrow> bool" where
  "R w w' \<longleftrightarrow> (keyed_by (\<lambda>t. task_Name t) (fst (vt w)) \<longrightarrow> vo w' = vo w \<and> vl w' = vl w \<and>
     keyed_by (\<lambda>t. task_Name t) (fst (vt w')) \<and> agent_may (wk_agentID wk) (fst (vt w)) (fst (vt w')))"

lemma pre: "preorder_rel R"
  by (auto simp: preorder_rel_def R_def intro: agent_may_trans)

lemmas keeps = io_keeps_pure [OF pre] io_keeps_bind [OF pre] io_keeps_try [OF pre]

lemma R_trans: "R w w1 \<Longrightarrow> R w1 w2 \<Longrightarrow> R w w2"
  using pre by (auto simp: preorder_rel_def)

lemma quiet_keeps: "keeps_view (\<lambda>w. (vo w, vt w, vl w)) m \<Longrightarrow> io_keeps R m"
  unfolding keeps_view_def io_keeps_def R_def by (metis Pair_inject agent_may_refl snd_conv)

lemma update_keeps: "io_keeps R (\<lambda>w. tc_UpdateStatus (wk_client wk) (f w) t w)"
  unfolding io_keeps_def
proof (intro allI impI)
  fix w r w' assume run: "tc_UpdateStatus (wk_client wk) (f w) t w = (r, w')"
  show "R w w'"
  proof (cases "w' = w")
    case True
    then show ?thesis using pre by (simp add: preorder_rel_def)
  next
    case False
    then obtain resp where resp: "updateTaskStatus h (agentReq (wk_agentID wk) (task_Name t) (Inr t)) w = (resp :: (OperationTask, unit) response, w')"
      using client run unfolding client_of_def by blast
    show ?thesis unfolding R_def
    proof
      assume k: "keyed_by (\<lambda>t. task_Name t) (fst (vt w))"
      note C = report_confined [OF store k resp]
      show "vo w' = vo w \<and> vl w' = vl w \<and> keyed_by (\<lambda>t. task_Name t) (fst (vt w')) \<and>
          agent_may (wk_agentID wk) (fst (vt w)) (fst (vt w'))"
      proof (cases "vt w' = vt w")
        case False
        then obtain old new where "fst (vt w) (task_Name t) = Some old" "nr_Name (tsp_NodeRef (task_Spec old)) = wk_agentID wk"
          "task_Name new = task_Name old" "task_Spec new = task_Spec old" "agent_phase_step (task_Phase old) (task_Phase new)"
          "vt w' = ((fst (vt w))(task_Name t \<mapsto> new), snd (vt w))" "vo w' = vo w" "vl w' = vl w"
          using C by (auto simp: agentReq_def)
        then show ?thesis using k by (auto simp: keyed_by_def agent_may_def)
      qed (use C k in simp)
    qed
  qed
qed

lemma get_keeps: "io_keeps R (\<lambda>w. tc_Get (wk_client wk) (f w) n w)"
  using client pre unfolding io_keeps_def client_of_def preorder_rel_def by metis

lemma queue_keeps: "io_keeps R (queueAdd wk)"
  by (rule quiet_keeps) (use local in \<open>simp add: node_local_def keeps_view_def queueAdd_def\<close>)

lemma finish_keeps: "io_keeps R (finishTask wk ctx task phase result)"
  unfolding finishTask_def
  by (intro keeps update_keeps get_keeps) (auto intro: keeps queue_keeps)

lemma failure_keeps:
  assumes "\<And>x. keeps_view (\<lambda>w. (vo w, vt w, vl w)) (wr x)"
  shows "io_keeps R (finishFailure wk task wr le ctx phase reason m)"
  unfolding io_keeps_def
proof (intro allI impI)
  fix w r w' assume run: "finishFailure wk task wr le ctx phase reason m w = (r, w')"
  let ?x = "''['' @ wk_RFC3339 wk (wk_clock wk w) @ ''] ERROR: '' @ m @ [CHR 0x0A]"
  obtain werr w1 where w1: "wr ?x w = (werr, w1)" by force
  then have "R w w1" using io_keepsD [OF quiet_keeps [OF assms]] by blast
  moreover have "R w1 w'" using run w1 io_keepsD [OF finish_keeps] by (simp add: finishFailure_def Let_def)
  ultimately show "R w w'" by (rule R_trans)
qed

lemma localD:
  "keeps_view (\<lambda>w. (vo w, vt w, vl w)) (tl_CreateOperationDir (wk_oplog wk) u)"
  "keeps_view (\<lambda>w. (vo w, vt w, vl w)) (tl_CreateStepLogFile (wk_oplog wk) u st)"
  "fst (tl_CreateStepLogFile (wk_oplog wk) u st w) = Inr wr \<Longrightarrow> keeps_view (\<lambda>w. (vo w, vt w, vl w)) (wr x)"
  "e \<in> ran (wk_registry wk) \<Longrightarrow> (\<And>x. keeps_view (\<lambda>w. (vo w, vt w, vl w)) (wr x)) \<Longrightarrow>
     keeps_view (\<lambda>w. (vo w, vt w, vl w)) (e ctx t wr)"
  using local unfolding node_local_def by simp_all

lemma openLog_keeps:
  assumes "openLog wk task w = ((wr, le), w')"
  shows "R w w' \<and> (\<forall>x. keeps_view (\<lambda>w. (vo w, vt w, vl w)) (wr x))"
proof -
  let ?v = "\<lambda>w. (vo w, vt w, vl w)"
  obtain d w1 where w1: "tl_CreateOperationDir (wk_oplog wk) (task_UID task) w = (d, w1)" by force
  obtain lw w2 where w2: "tl_CreateStepLogFile (wk_oplog wk) (task_UID task) ''task'' w1 = (lw, w2)" by force
  have "?v (snd (d, w1)) = ?v w" "?v (snd (lw, w2)) = ?v w1"
    using localD(1) [of "task_UID task"] localD(2) [of "task_UID task" "''task''"]
    unfolding keeps_view_def w1 [symmetric] w2 [symmetric] by blast+
  then have v2: "?v w2 = ?v w" by simp
  have R: "?v w' = ?v w \<Longrightarrow> R w w'" using pre by (auto simp: R_def)
  show ?thesis
  proof (cases lw)
    case (Inl err)
    then have "wr = Discard" "w' = w2" using assms w1 w2 by (simp_all add: openLog_def Let_def)
    then show ?thesis using v2 R by (simp add: keeps_view_def Discard_def)
  next
    case (Inr wr')
    then have kv: "keeps_view ?v (wr' x)" for x
      using localD(3) [of "task_UID task" "''task''" w1 wr'] w2 by simp
    have "wr = wr' \<and> (\<exists>x. w' = snd (wr' x w2))" using assms w1 w2 Inr
      by (auto simp: openLog_def Let_def split: prod.splits) (metis snd_conv)
    then obtain x where x: "wr = wr'" "w' = snd (wr' x w2)" by blast
    have "?v w' = ?v w2" using kv [of x] unfolding keeps_view_def x(2) by (rule spec)
    then show ?thesis using v2 R kv x(1) by simp
  qed
qed

lemma conclude_keeps:
  assumes "\<And>x. keeps_view (\<lambda>w. (vo w, vt w, vl w)) (wr x)"
  shows "io_keeps R (concludeTask wk ctx task wr le answer)"
  unfolding io_keeps_def
proof (intro allI impI)
  fix w r w' assume run: "concludeTask wk ctx task wr le answer w = (r, w')"
  note F = io_keepsD [OF failure_keeps [OF assms]] io_keepsD [OF finish_keeps]
  show "R w w'"
  proof (cases "ctx w")
    case None
    then show ?thesis using run F by (auto simp: concludeTask_def split: if_splits sum.splits)
  qed (use run pre in \<open>simp add: concludeTask_def preorder_rel_def\<close>)
qed

lemma execute_keeps: "io_keeps R (execute wk ctx task)"
  unfolding io_keeps_def
proof (intro allI impI)
  fix w r w' assume run: "execute wk ctx task w = (r, w')"
  obtain wr le w1 where lg: "openLog wk task w = ((wr, le), w1)" by (metis prod.collapse)
  have w1: "R w w1" and kv: "\<And>x. keeps_view (\<lambda>w. (vo w, vt w, vl w)) (wr x)" using openLog_keeps [OF lg] by auto
  note F = io_keepsD [OF failure_keeps [where wr = wr, OF kv]]
  have "R w1 w'"
  proof (cases "wk_registry wk (tsp_Executor (task_Spec task))")
    case None
    then show ?thesis using run lg F by (auto simp: execute_def)
  next
    case (Some e)
    show ?thesis
    proof (cases "tsp_Deadline (task_Spec task) = 0")
      case True
      then show ?thesis using run lg Some F by (auto simp: execute_def)
    next
      case False
      obtain ans w2 where e: "e (WithDeadline (wk_clock wk) ctx (tsp_Deadline (task_Spec task))) task wr w1 = (ans, w2)" by force
      have "e \<in> ran (wk_registry wk)" using Some by (auto simp: ran_def)
      then have kve: "keeps_view (\<lambda>w. (vo w, vt w, vl w)) (e (WithDeadline (wk_clock wk) ctx (tsp_Deadline (task_Spec task))) task wr)"
        by (rule localD(4)) (rule kv)
      have "R w1 w2" by (rule io_keepsD [OF quiet_keeps [OF kve] e])
      moreover have "concludeTask wk ctx task wr le ans w2 = (r, w')" using run lg Some False e by (simp add: execute_def)
      then have "R w2 w'" by (rule io_keepsD [OF conclude_keeps [where wr = wr, OF kv]])
      ultimately show ?thesis by (rule R_trans)
    qed
  qed
  then show "R w w'" using w1 R_trans by blast
qed

lemma sync_keeps: "io_keeps R (worker_sync wk ctx)"
proof -
  have sel: "io_keeps R (\<lambda>w. (selectTask (eligibleTasks wk w), w))"
    using pre by (auto simp: io_keeps_def preorder_rel_def)
  have live: "io_keeps R (getLiveTask wk ctx sel)" for sel
    unfolding getLiveTask_def by (intro keeps get_keeps) (auto intro!: keeps queue_keeps simp del: io_ret_eq)
  have start: "io_keeps R (startPendingTask wk ctx l)" for l
    unfolding startPendingTask_def by (auto intro: keeps update_keeps simp del: io_ret_eq)
  show ?thesis
    unfolding worker_sync_def
    by (intro keeps sel) (auto split: option.split intro!: keeps live start execute_keeps simp del: io_ret_eq)
qed

end

text \<open>The client of the examples calls the handlers directly.\<close>

definition apiClient :: "'w handler \<Rightarrow> string \<Rightarrow> 'w TaskClient" where
  "apiClient h agent = \<lparr>
     tc_Get = (\<lambda>ctx n w. (case fst (getTask h (agentReq agent n (Inl [])) w :: (OperationTask, unit) response \<times> _) of
        Entity c t \<Rightarrow> if c = 200 then Inr t else Inl (Plain ''unexpected status'')
      | StatusError c e \<Rightarrow> Inl e | _ \<Rightarrow> Inl (Plain ''unexpected response''), w)),
     tc_UpdateStatus = (\<lambda>ctx t w. case updateTaskStatus h (agentReq agent (task_Name t) (Inr t)) w :: (OperationTask, unit) response \<times> _ of
        (Entity c t', w') \<Rightarrow> (if c = 200 then Inr t' else Inl (Plain ''unexpected status''), w')
      | (StatusError c e, w') \<Rightarrow> (Inl e, w') | (_, w') \<Rightarrow> (Inl (Plain ''unexpected response''), w'))\<rparr>"

lemma apiClient_client: "client_of h agent (apiClient h agent)"
  by (auto simp: client_of_def apiClient_def split: response.splits prod.splits if_splits)

definition apiWorker :: "mem Worker" where
  "apiWorker = withClient sampleWorker (apiClient sampleHandler ''node'')"

interpretation sample_agent: agent_on_api memAm sampleHandler anySize anySize view_ops view_tasks view_locks apiWorker
proof (rule agent_on_api.intro)
  show "quiet_store memAm (h_store sampleHandler) anySize anySize view_ops view_tasks view_locks" by (rule sample_quiet)
  show "client_of sampleHandler (wk_agentID apiWorker) (wk_client apiWorker)"
    by (simp add: apiWorker_def apiClient_client) (simp add: withClient_def sampleWorker_def apiClient_client)
  show "node_local (\<lambda>w. (view_ops w, view_tasks w, view_locks w)) apiWorker"
    by (auto simp: node_local_def keeps_view_def apiWorker_def withClient_def sampleWorker_def NewRegistry_def
        CommandStepExecutor_def ran_def split: if_splits)
qed



end
