(* ===== verification/Op_Log.thy ===== *)
theory Op_Log
  imports Op_Handler_Props
begin

text \<open>
  Task logs on a node: the log files (\<^verbatim>\<open>pkg/oplog/operation_log.go\<close>, \<^verbatim>\<open>fileutil.Peek\<close>) and the HTTPS endpoint
  that serves them to the server (\<^verbatim>\<open>pkg/agent/operationv2/logserver.go\<close>).  The file system is a map from
  paths to contents; an error is either ``not exist'' or a text.
\<close>

subsection \<open>Paths\<close>

text \<open>
  \<^verbatim>\<open>filepath.Clean\<close> and \<^verbatim>\<open>filepath.Join\<close> for rooted paths: empty elements and \<^verbatim>\<open>.\<close> disappear and \<^verbatim>\<open>..\<close> removes the
  element before it, if any.  The log directory is absolute (\<open>oplog_Validate\<close>).
\<close>

abbreviation splitSlash :: "string \<Rightarrow> string \<Rightarrow> string list" where
  "splitSlash \<equiv> splitOn (CHR ''/'')"

definition clean_step :: "string list \<Rightarrow> string \<Rightarrow> string list" where
  "clean_step out e =
     (if e = [] \<or> e = ''.'' then out
      else if e = ''..'' then (case out of [] \<Rightarrow> [] | _ # r \<Rightarrow> r)
      else e # out)"

definition clean_elems :: "string list \<Rightarrow> string list" where
  "clean_elems es = rev (foldl clean_step [] es)"

definition rooted :: "string list \<Rightarrow> string" where
  "rooted es = CHR ''/'' # Join es ''/''"

definition Clean :: "string \<Rightarrow> string" where
  "Clean p = rooted (clean_elems (splitSlash [] p))"

definition filepath_Join :: "string list \<Rightarrow> string" where
  "filepath_Join parts = Clean (Join (filter (\<lambda>p. p \<noteq> []) parts) ''/'')"

subsection \<open>Log files\<close>

definition OperationLogSuffix :: string where "OperationLogSuffix = ''.log''"
definition MaximumThreshold :: int where "MaximumThreshold = 1048576"

record LogOptions =
  lg_Dir :: string
  lg_OplogThreshold :: int

definition oplog_Validate :: "LogOptions \<Rightarrow> string list" where
  "oplog_Validate s =
     (if lg_Dir s = [] then [''the dir for storing operation logs is not specified'']
      else if lg_Dir s = ''/'' then [''the dir for storing operation logs cannot be root path'']
      else if \<not> prefix ''/'' (lg_Dir s) then [''the dir for storing operation logs must be absolute'']
      else if lg_OplogThreshold s \<le> 0 then [''the threshold must be greater than 0'']
      else if lg_OplogThreshold s > MaximumThreshold then [''the threshold exceeded the limit, the maximum threshold is 1MB'']
      else [])"

datatype fserr = NotExist | FsErr string

definition GetOperationDir :: "LogOptions \<Rightarrow> string \<Rightarrow> fserr + string" where
  "GetOperationDir cfg opID = (if opID = [] then Inl (FsErr ''opID is invalid'') else Inr (filepath_Join [lg_Dir cfg, opID]))"

definition GetStepLogFile :: "LogOptions \<Rightarrow> string \<Rightarrow> string \<Rightarrow> fserr + string" where
  "GetStepLogFile cfg opID stepID =
     (if opID = [] \<or> stepID = [] then Inl (FsErr ''opId or stepId is invalid'')
      else Inr (filepath_Join [lg_Dir cfg, opID, stepID @ OperationLogSuffix]))"

definition Peek :: "(string \<rightharpoonup> string) \<Rightarrow> string \<Rightarrow> int \<Rightarrow> int \<Rightarrow> fserr + string" where
  "Peek files path offset len =
     (case files path of
        None \<Rightarrow> Inl NotExist
      | Some content \<Rightarrow>
          if offset < 0 then Inl (FsErr ''invalid argument'')
          else if len < 0 then Inr (drop (nat offset) content)
          else Inr (take (nat len) (drop (nat offset) content)))"

definition GetStepLogContent :: "LogOptions \<Rightarrow> (string \<rightharpoonup> string) \<Rightarrow> string \<Rightarrow> string \<Rightarrow> int \<Rightarrow> int \<Rightarrow>
    fserr + string \<times> int \<times> int" where
  "GetStepLogContent cfg files opID stepID offset len =
     (if opID = [] \<or> stepID = [] then Inl (FsErr ''opId or stepId is invalid'')
      else
        (let realLen0 = (if len > 0 \<and> len \<le> lg_OplogThreshold cfg then len else lg_OplogThreshold cfg);
             filename = filepath_Join [lg_Dir cfg, opID, stepID @ OperationLogSuffix]
         in case files filename of
              None \<Rightarrow> Inl NotExist
            | Some stat \<Rightarrow>
                (let logSize = int (length stat);
                     remainSize = int64 (logSize - offset);
                     realLen = (if remainSize > 0 then (if remainSize < realLen0 then remainSize else realLen0) else 0)
                 in case Peek files filename offset realLen of
                      Inl err \<Rightarrow> Inl err
                    | Inr content \<Rightarrow> Inr (content, int (length content), logSize))))"

subsection \<open>The log endpoint\<close>

definition DefaultAgentLogAddress :: string where "DefaultAgentLogAddress = '':10260''"
definition DefaultServerClientIdentity :: string where "DefaultServerClientIdentity = ''system:kc-server''"
definition maxLogReadSize :: int where "maxLogReadSize = 1048576"

record LogHandler =
  lh_ExpectedClientCommonName :: string

definition expectedClientCommonName :: "LogHandler \<Rightarrow> string" where
  "expectedClientCommonName h = (if lh_ExpectedClientCommonName h = [] then DefaultServerClientIdentity else lh_ExpectedClientCommonName h)"

text \<open>The TLS state of a request: the common names of the peer certificates and the number of verified chains.\<close>

record tls_state =
  ts_PeerCommonNames :: "string list"
  ts_VerifiedChains :: nat

record log_request =
  lr_TLS :: "tls_state option"
  lr_Path :: string
  lr_Query :: "(string \<times> string) list"

definition validLogClient :: "log_request \<Rightarrow> string \<Rightarrow> bool" where
  "validLogClient req expected =
     (case lr_TLS req of
        None \<Rightarrow> False
      | Some st \<Rightarrow> \<not> (ts_PeerCommonNames st = [] \<or> ts_VerifiedChains st = 0) \<and> hd (ts_PeerCommonNames st) = expected)"

definition taskUIDFromLogPath :: "string \<Rightarrow> string \<times> bool" where
  "taskUIDFromLogPath requestPath =
     (if \<not> prefix ''/v1/tasks/'' requestPath \<or> \<not> suffix ''/logs'' requestPath then ([], False)
      else (let uid = TrimSuffix (TrimPrefix requestPath ''/v1/tasks/'') ''/logs'' in
            if uid = [] \<or> CHR ''/'' \<in> set uid \<or> uid = ''.'' \<or> uid = ''..'' then ([], False) else (uid, True)))"

definition parseNonNegativeInt64 :: "string \<Rightarrow> int \<Rightarrow> string + int" where
  "parseNonNegativeInt64 val defaultValue =
     (if val = [] then Inr defaultValue
      else case ParseInt val of
             None \<Rightarrow> Inl ''value must be a non-negative integer''
           | Some parsed \<Rightarrow> if parsed < 0 then Inl ''value must be a non-negative integer'' else Inr parsed)"

definition parseLogLimit :: "string \<Rightarrow> string + int" where
  "parseLogLimit val =
     (case parseNonNegativeInt64 val maxLogReadSize of
        Inl _ \<Rightarrow> Inl (''limit must be between 1 and '' @ show_int maxLogReadSize)
      | Inr parsed \<Rightarrow>
          if parsed = 0 \<or> parsed > maxLogReadSize then Inl (''limit must be between 1 and '' @ show_int maxLogReadSize) else Inr parsed)"

datatype log_response =
    HttpError nat string
  | LogContent string int int

definition ServeHTTP :: "LogHandler \<Rightarrow> (string \<Rightarrow> string \<Rightarrow> int \<Rightarrow> int \<Rightarrow> fserr + string \<times> int \<times> int) \<Rightarrow> log_request \<Rightarrow> log_response" where
  "ServeHTTP h logs req =
     (if \<not> validLogClient req (expectedClientCommonName h)
      then HttpError 401 ''verified kc-server client certificate is required''
      else let (taskUID, ok) = taskUIDFromLogPath (lr_Path req) in
        if \<not> ok then HttpError 404 ''404 page not found''
        else case parseNonNegativeInt64 (values_Get (lr_Query req) ''offset'') 0 of
               Inl _ \<Rightarrow> HttpError 400 ''invalid offset''
             | Inr offset \<Rightarrow>
                 (case parseLogLimit (values_Get (lr_Query req) ''limit'') of
                    Inl err \<Rightarrow> HttpError 400 err
                  | Inr limit \<Rightarrow>
                      (case logs taskUID ''task'' offset limit of
                         Inl NotExist \<Rightarrow> LogContent [] 0 0
                       | Inl (FsErr _) \<Rightarrow> HttpError 500 ''read task log failed''
                       | Inr (content, delivered, sz) \<Rightarrow> LogContent content sz delivered)))"

text \<open>The server around it: TLS 1.2 with required and verified client certificates.\<close>

record LogServerOptions =
  lso_Address :: string
  lso_TLSCertFile :: string
  lso_TLSKeyFile :: string
  lso_ClientCAFile :: string
  lso_ExpectedClientCommonName :: string
  lso_HasLogs :: bool

record LogServer =
  ls_Addr :: string
  ls_Handler :: LogHandler
  ls_MinVersion :: nat
  ls_Certificate :: string
  ls_ClientCAs :: string
  ls_RequireAndVerifyClientCert :: bool

definition NewLogServer :: "tls_files \<Rightarrow> LogServerOptions option \<Rightarrow> goerr + LogServer" where
  "NewLogServer tf options =
     (case options of
        None \<Rightarrow> Inl (Plain ''log server options are required'')
      | Some opts \<Rightarrow>
          (let addr = (if lso_Address opts = [] then DefaultAgentLogAddress else lso_Address opts) in
           if \<not> lso_HasLogs opts \<or> lso_TLSCertFile opts = [] \<or> lso_TLSKeyFile opts = [] \<or> lso_ClientCAFile opts = []
           then Inl (Plain ''task logs, TLS certificate, key, and client CA are required'')
           else case tf_LoadX509KeyPair tf (lso_TLSCertFile opts) (lso_TLSKeyFile opts) of
                  Inl err \<Rightarrow> Inl (Plain (''load agent serving certificate: '' @ err))
                | Inr certificate \<Rightarrow>
                    (case tf_ReadFile tf (lso_ClientCAFile opts) of
                       Inl err \<Rightarrow> Inl (Plain (''read client CA: '' @ err))
                     | Inr caPEM \<Rightarrow>
                         if \<not> tf_AppendCertsFromPEM tf caPEM then Inl (Plain ''client CA contains no certificates'')
                         else Inr \<lparr>ls_Addr = addr, ls_Handler = \<lparr>lh_ExpectedClientCommonName = lso_ExpectedClientCommonName opts\<rparr>,
                                ls_MinVersion = VersionTLS12, ls_Certificate = certificate, ls_ClientCAs = caPEM,
                                ls_RequireAndVerifyClientCert = True\<rparr>)))"

subsection \<open>Confinement of paths\<close>

definition plain_elem :: "string \<Rightarrow> bool" where
  "plain_elem e \<longleftrightarrow> e \<noteq> [] \<and> e \<noteq> ''.'' \<and> e \<noteq> ''..'' \<and> CHR ''/'' \<notin> set e"

lemma foldl_plain: "\<forall>e \<in> set es. plain_elem e \<Longrightarrow> foldl clean_step out es = rev es @ out"
  by (induction es arbitrary: out) (auto simp: clean_step_def plain_elem_def)

lemma clean_append_plain:
  assumes "\<forall>e \<in> set es. plain_elem e"
  shows "clean_elems (ds @ es) = clean_elems ds @ es"
  using assms by (simp add: clean_elems_def foldl_plain)

text \<open>Joining plain names to a directory stays below the directory.\<close>

lemma filepath_Join_below:
  assumes "dir \<noteq> []" "plain_elem a" "plain_elem b"
  shows "filepath_Join [dir, a, b] = rooted (clean_elems (splitSlash [] dir) @ [a, b])"
proof -
  have ne: "a \<noteq> []" "b \<noteq> []" and sl: "CHR ''/'' \<notin> set a" "CHR ''/'' \<notin> set b" using assms by (auto simp: plain_elem_def)
  have "Join (filter (\<lambda>p. p \<noteq> []) [dir, a, b]) ''/'' = dir @ CHR ''/'' # (a @ CHR ''/'' # b)" using assms ne by simp
  moreover have "splitSlash [] (dir @ CHR ''/'' # (a @ CHR ''/'' # b)) = splitSlash [] dir @ [a, b]"
    using sl by (simp add: splitOn_append splitOn_no)
  ultimately show ?thesis using assms clean_append_plain [of "[a, b]" "splitSlash [] dir"] by (simp add: filepath_Join_def Clean_def)
qed

subsection \<open>Task paths\<close>

lemma overlap_logs:
  assumes "suffix ''/logs'' (''/v1/tasks/'' @ q)" "\<not> suffix ''/logs'' q"
  shows "q = ''logs''"
proof -
  obtain zs where zs: "''/v1/tasks/'' @ q = zs @ ''/logs''" using assms(1) by (auto simp: suffix_def)
  from zs obtain us where "''/v1/tasks/'' = zs @ us \<and> us @ q = ''/logs'' \<or> ''/v1/tasks/'' @ us = zs \<and> q = us @ ''/logs''"
    unfolding append_eq_append_conv2 by metis
  then have us: "''/v1/tasks/'' = zs @ us" "us @ q = ''/logs''" using assms(2) by (auto simp: suffix_def)
  have "us \<noteq> []" using us(2) assms(2) by auto
  then obtain vs where "us = vs @ [CHR ''/'']" using us(1)
    by (metis append_butlast_last_id last_appendR last.simps list.distinct(1))
  then show ?thesis using us(2) by (cases vs) (auto simp: append_eq_Cons_conv Cons_eq_append_conv)
qed

lemma taskUID_iff:
  "taskUIDFromLogPath p = (u, True) \<longleftrightarrow> plain_elem u \<and> (p = ''/v1/tasks/'' @ u @ ''/logs'' \<or> p = ''/v1/tasks/logs'' \<and> u = ''logs'')"
proof
  assume l: "taskUIDFromLogPath p = (u, True)"
  then obtain q where q: "p = ''/v1/tasks/'' @ q" and sfx: "suffix ''/logs'' p"
    by (auto simp: taskUIDFromLogPath_def prefix_def split: if_splits)
  have tp: "TrimPrefix p ''/v1/tasks/'' = q" using q by (simp add: TrimPrefix_def)
  have u: "u = TrimSuffix q ''/logs''" "plain_elem u"
    using l tp q sfx by (auto simp: taskUIDFromLogPath_def Let_def plain_elem_def split: if_splits)
  show "plain_elem u \<and> (p = ''/v1/tasks/'' @ u @ ''/logs'' \<or> p = ''/v1/tasks/logs'' \<and> u = ''logs'')"
  proof (cases "suffix ''/logs'' q")
    case True
    then obtain r where "q = r @ ''/logs''" by (auto simp: suffix_def)
    then show ?thesis using u q by (simp add: TrimSuffix_def suffix_def)
  next
    case False
    then have "q = ''logs''" using overlap_logs q sfx by blast
    then show ?thesis using u q False by (simp add: TrimSuffix_def)
  qed
next
  assume r: "plain_elem u \<and> (p = ''/v1/tasks/'' @ u @ ''/logs'' \<or> p = ''/v1/tasks/logs'' \<and> u = ''logs'')"
  then show "taskUIDFromLogPath p = (u, True)"
  proof (elim conjE disjE)
    assume u: "plain_elem u" and p: "p = ''/v1/tasks/'' @ u @ ''/logs''"
    have "prefix ''/v1/tasks/'' p" "TrimPrefix p ''/v1/tasks/'' = u @ ''/logs''" using p by (simp_all add: TrimPrefix_def)
    moreover have "suffix ''/logs'' p" using p suffixI [of p "''/v1/tasks/'' @ u" "''/logs''"] by simp
    moreover have "TrimSuffix (u @ ''/logs'') ''/logs'' = u" by (simp add: TrimSuffix_def suffix_def)
    ultimately show ?thesis using u unfolding taskUIDFromLogPath_def Let_def plain_elem_def by auto
  next
    assume "plain_elem u" "p = ''/v1/tasks/logs''" "u = ''logs''"
    then show ?thesis by (simp add: taskUIDFromLogPath_def TrimPrefix_def TrimSuffix_def suffix_def plain_elem_def)
  qed
qed

text \<open>
  Log paths.  The endpoint takes from a request path exactly the task UID that the server put there: a
  path is accepted with UID \<open>u\<close> if it is the path for \<open>u\<close> and \<open>u\<close> is a plain name, not empty, not \<^verbatim>\<open>.\<close>
  or \<^verbatim>\<open>..\<close> and without a slash.  The single exception is \<^verbatim>\<open>/v1/tasks/logs\<close>, in which the two fixed
  parts overlap, and which is taken for the task \<^verbatim>\<open>logs\<close>.
\<close>

theorem log_path_roundtrip:
  "taskUIDFromLogPath p = (u, True) \<longleftrightarrow> plain_elem u \<and> (p = ''/v1/tasks/'' @ u @ ''/logs'' \<or> p = ''/v1/tasks/logs'' \<and> u = ''logs'')"
  by (rule taskUID_iff)

lemma parse_bounds:
  "parseNonNegativeInt64 v d = Inr x \<Longrightarrow> 0 \<le> d \<Longrightarrow> 0 \<le> x"
  "parseLogLimit v = Inr x \<Longrightarrow> 1 \<le> x \<and> x \<le> maxLogReadSize"
proof -
  show p: "0 \<le> x" if "parseNonNegativeInt64 v d = Inr x" "0 \<le> d" for v d x
    using that by (auto simp: parseNonNegativeInt64_def split: if_splits option.splits)
  show "1 \<le> x \<and> x \<le> maxLogReadSize" if "parseLogLimit v = Inr x"
    using that p [of v maxLogReadSize] by (force simp: parseLogLimit_def maxLogReadSize_def split: sum.splits if_splits)
qed

lemma serve_cases:
  assumes "ServeHTTP h logs req = LogContent content sz delivered"
  shows "validLogClient req (expectedClientCommonName h) \<and> (\<exists>u offset limit. taskUIDFromLogPath (lr_Path req) = (u, True) \<and>
    parseNonNegativeInt64 (values_Get (lr_Query req) ''offset'') 0 = Inr offset \<and>
    parseLogLimit (values_Get (lr_Query req) ''limit'') = Inr limit \<and>
    (logs u ''task'' offset limit = Inl NotExist \<and> content = [] \<or> logs u ''task'' offset limit = Inr (content, delivered, sz)))"
  using assms unfolding ServeHTTP_def
  by (auto simp: Let_def split: if_splits prod.splits sum.splits fserr.splits)

abbreviation log_path :: "LogOptions \<Rightarrow> string \<Rightarrow> string" where
  "log_path cfg u \<equiv> rooted (clean_elems (splitSlash [] (lg_Dir cfg)) @ [u, ''task.log''])"

lemma oplog_Validate_ok:
  "oplog_Validate cfg = [] \<Longrightarrow> lg_Dir cfg \<noteq> [] \<and> 0 < lg_OplogThreshold cfg \<and> lg_OplogThreshold cfg \<le> 1048576"
  by (auto simp: oplog_Validate_def MaximumThreshold_def split: if_splits)

text \<open>How many bytes a read of a log of the given length may deliver.\<close>

definition read_len :: "LogOptions \<Rightarrow> int \<Rightarrow> int \<Rightarrow> int \<Rightarrow> int" where
  "read_len cfg offset limit logSize =
     (if int64 (logSize - offset) > 0
      then (if int64 (logSize - offset) < (if limit > 0 \<and> limit \<le> lg_OplogThreshold cfg then limit else lg_OplogThreshold cfg)
            then int64 (logSize - offset)
            else (if limit > 0 \<and> limit \<le> lg_OplogThreshold cfg then limit else lg_OplogThreshold cfg))
      else 0)"

lemma read_len_bounds:
  "1 \<le> limit \<Longrightarrow> 0 < lg_OplogThreshold cfg \<Longrightarrow> 0 \<le> read_len cfg offset limit sz \<and> read_len cfg offset limit sz \<le> limit"
  unfolding read_len_def by auto

lemma content_eq:
  assumes "oplog_Validate cfg = []" "plain_elem u" "0 \<le> offset" "1 \<le> limit"
  shows "GetStepLogContent cfg files u ''task'' offset limit =
    (case files (log_path cfg u) of
       None \<Rightarrow> Inl NotExist
     | Some stat \<Rightarrow> (let content = take (nat (read_len cfg offset limit (int (length stat)))) (drop (nat offset) stat)
                      in Inr (content, int (length content), int (length stat))))"
proof -
  have dir: "lg_Dir cfg \<noteq> []" "0 < lg_OplogThreshold cfg" and u: "u \<noteq> []"
    using oplog_Validate_ok [OF assms(1)] assms(2) by (auto simp: plain_elem_def)
  have fn: "filepath_Join [lg_Dir cfg, u, ''task'' @ OperationLogSuffix] = log_path cfg u"
    using filepath_Join_below [OF dir(1) assms(2), of "''task.log''"] by (simp add: OperationLogSuffix_def plain_elem_def)
  show ?thesis
  proof (cases "files (log_path cfg u)")
    case None
    then show ?thesis using u unfolding GetStepLogContent_def fn Let_def None by simp
  next
    case (Some stat)
    let ?r = "read_len cfg offset limit (int (length stat))"
    have "Peek files (log_path cfg u) offset ?r = Inr (take (nat ?r) (drop (nat offset) stat))"
      using Some assms(3) read_len_bounds [OF assms(4) dir(2), of offset "int (length stat)"] by (simp add: Peek_def)
    then show ?thesis using u unfolding GetStepLogContent_def fn Let_def Some read_len_def [symmetric] by simp
  qed
qed

lemma content_Inr:
  assumes "oplog_Validate cfg = []" "plain_elem u" "0 \<le> offset" "1 \<le> limit"
    and "GetStepLogContent cfg files u ''task'' offset limit = Inr (content, delivered, sz)"
  shows "\<exists>stat n. files (log_path cfg u) = Some stat \<and>
    sz = int (length stat) \<and> int n \<le> limit \<and> content = take n (drop (nat offset) stat) \<and> delivered = int (length content)"
proof -
  obtain stat where st: "files (log_path cfg u) = Some stat"
    using assms(5) unfolding content_eq [OF assms(1-4)] by (auto split: option.splits)
  have "int (nat (read_len cfg offset limit (int (length stat)))) \<le> limit"
    using read_len_bounds [OF assms(4), of cfg offset] oplog_Validate_ok [OF assms(1)] by simp
  then show ?thesis using assms(5) st unfolding content_eq [OF assms(1-4)] st option.case Let_def
    by (intro exI [of _ stat] exI [of _ "nat (read_len cfg offset limit (int (length stat)))"]) auto
qed

text \<open>
  C24.  Log access is confined.  Log content is served only to a peer with a verified certificate whose common
  name is the expected one, and it is read from a file that lies below the log directory: the
  directory, the task UID as one element and \<^verbatim>\<open>task.log\<close>.  The offset read from is not negative and
  at most one MiB is delivered.
\<close>

theorem log_access_confined:
  assumes "ServeHTTP h (GetStepLogContent cfg files) req = LogContent content sz delivered" "oplog_Validate cfg = []" "content \<noteq> []"
  shows "\<exists>st u stat offset n. lr_TLS req = Some st \<and> ts_VerifiedChains st \<noteq> 0 \<and> ts_PeerCommonNames st \<noteq> [] \<and>
    hd (ts_PeerCommonNames st) = expectedClientCommonName h \<and> plain_elem u \<and>
    files (rooted (clean_elems (splitSlash [] (lg_Dir cfg)) @ [u, ''task.log''])) = Some stat \<and>
    content = take n (drop offset stat) \<and> length content \<le> 1048576"
proof -
  obtain u offset limit where u: "taskUIDFromLogPath (lr_Path req) = (u, True)"
    and off: "parseNonNegativeInt64 (values_Get (lr_Query req) ''offset'') 0 = Inr offset"
    and lim: "parseLogLimit (values_Get (lr_Query req) ''limit'') = Inr limit"
    and get: "GetStepLogContent cfg files u ''task'' offset limit = Inr (content, delivered, sz)"
    and cl: "validLogClient req (expectedClientCommonName h)"
    using serve_cases [OF assms(1)] assms(3) by blast
  have pu: "plain_elem u" using u taskUID_iff by blast
  have b: "0 \<le> offset" "1 \<le> limit" "limit \<le> 1048576"
    using parse_bounds(1) [OF off] parse_bounds(2) [OF lim] by (simp_all add: maxLogReadSize_def)
  obtain stat n where c: "files (rooted (clean_elems (splitSlash [] (lg_Dir cfg)) @ [u, ''task.log''])) = Some stat"
    "int n \<le> limit" "content = take n (drop (nat offset) stat)"
    using content_Inr [OF assms(2) pu b(1,2) get] by blast
  have "length content \<le> 1048576" using c(2,3) b(3) by auto
  moreover obtain st where "lr_TLS req = Some st" "ts_VerifiedChains st \<noteq> 0" "ts_PeerCommonNames st \<noteq> []"
    "hd (ts_PeerCommonNames st) = expectedClientCommonName h"
    using cl by (auto simp: validLogClient_def split: option.splits)
  ultimately show ?thesis using c pu by blast
qed

definition log_cfg :: LogOptions where
  "log_cfg = \<lparr>lg_Dir = ''/var/log/kc'', lg_OplogThreshold = 4\<rparr>"

definition log_files :: "string \<rightharpoonup> string" where
  "log_files = [''/var/log/kc/t1/task.log'' \<mapsto> ''hello'']"

definition log_get :: "string \<Rightarrow> log_request" where
  "log_get offset = \<lparr>lr_TLS = Some \<lparr>ts_PeerCommonNames = [''system:kc-server''], ts_VerifiedChains = 1\<rparr>,
     lr_Path = ''/v1/tasks/t1/logs'', lr_Query = [(''offset'', offset)]\<rparr>"

theorem log_access_confined_witness:
  "\<exists>u stat. plain_elem u \<and> log_files (rooted (clean_elems (splitSlash [] (lg_Dir log_cfg)) @ [u, ''task.log''])) = Some stat"
proof -
  have run: "ServeHTTP \<lparr>lh_ExpectedClientCommonName = []\<rparr> (GetStepLogContent log_cfg log_files) (log_get ''1'') = LogContent ''ello'' 5 4"
    by code_simp
  have "oplog_Validate log_cfg = []" by code_simp
  from log_access_confined [OF run this] show ?thesis by auto
qed

subsection \<open>Reading a log in chunks\<close>

text \<open>
  A reader of a whole log: it asks for the next chunk at the offset reached so far and stops at the first empty
  chunk.  \<open>fuel\<close> bounds the number of requests.
\<close>

fun read_log :: "nat \<Rightarrow> LogOptions \<Rightarrow> (string \<rightharpoonup> string) \<Rightarrow> string \<Rightarrow> int \<Rightarrow> int \<Rightarrow> string option" where
  "read_log 0 cfg files u limit offset = None"
| "read_log (Suc fuel) cfg files u limit offset =
     (case GetStepLogContent cfg files u ''task'' offset limit of
        Inl err \<Rightarrow> None
      | Inr (content, delivered, sz) \<Rightarrow>
          if delivered = 0 then Some []
          else (case read_log fuel cfg files u limit (offset + delivered) of
                  None \<Rightarrow> None
                | Some rest \<Rightarrow> Some (content @ rest)))"

lemma read_len_progress:
  assumes "oplog_Validate cfg = []" "1 \<le> limit" "0 \<le> offset" "offset < sz" "sz \<le> MaxInt64"
  shows "1 \<le> read_len cfg offset limit sz"
proof -
  have "int64 (sz - offset) = sz - offset" using assms by (intro int64_id) (auto simp: MinInt64_def)
  then show ?thesis using assms oplog_Validate_ok [OF assms(1)] unfolding read_len_def by auto
qed

lemma read_log_drop:
  assumes "oplog_Validate cfg = []" "plain_elem u" "1 \<le> limit"
    and "files (log_path cfg u) = Some stat" "int (length stat) \<le> MaxInt64"
    and "pos \<le> length stat" "length stat - pos < fuel"
  shows "read_log fuel cfg files u limit (int pos) = Some (drop pos stat)"
  using assms(6,7)
proof (induction fuel arbitrary: pos)
  case 0
  then show ?case by simp
next
  case (Suc fuel)
  let ?n = "nat (read_len cfg (int pos) limit (int (length stat)))"
  let ?c = "take ?n (drop pos stat)"
  have get: "GetStepLogContent cfg files u ''task'' (int pos) limit = Inr (?c, int (length ?c), int (length stat))"
    using content_eq [OF assms(1,2) _ assms(3), of "int pos" files] unfolding assms(4) option.case Let_def by simp
  show ?case
  proof (cases "pos = length stat")
    case True
    then show ?thesis using get by simp
  next
    case False
    then have n: "1 \<le> ?n"
      using read_len_progress [OF assms(1,3), of "int pos" "int (length stat)"] assms(5) Suc.prems(1) by simp
    then have c: "0 < length ?c" using False Suc.prems(1) by simp
    have le: "pos + length ?c \<le> length stat" using Suc.prems(1) by simp
    have rest: "read_log fuel cfg files u limit (int (pos + length ?c)) = Some (drop (pos + length ?c) stat)"
      using Suc.IH [OF le] Suc.prems(2) c False Suc.prems(1) by linarith
    have glue: "?c @ drop (pos + length ?c) stat = drop pos stat"
      by (metis append_take_drop_id drop_drop take_drop append_eq_conv_conj add.commute)
    have "read_log (Suc fuel) cfg files u limit (int pos) = Some (?c @ drop (pos + length ?c) stat)"
      using get rest c by (simp del: length_take length_drop take_eq_Nil)
    then show ?thesis using glue by simp
  qed
qed

text \<open>
  Logs are read completely.  A reader that asks for chunk after chunk, each time at the offset reached so
  far, until an empty chunk arrives, ends after at most one request more than the log has bytes, and what it
  has read is the whole log: no byte is lost, repeated or reordered, whatever limit it asks with and whatever
  threshold is configured.
\<close>

theorem log_read_complete:
  assumes "oplog_Validate cfg = []" "plain_elem u" "1 \<le> limit"
    and "files (log_path cfg u) = Some stat" "int (length stat) \<le> MaxInt64"
  shows "read_log (Suc (length stat)) cfg files u limit 0 = Some stat"
  using read_log_drop [where pos = 0 and fuel = "Suc (length stat)" and files = files and stat = stat, OF assms] by simp

theorem log_read_complete_witness:
  "read_log 6 log_cfg log_files ''t1'' 2 0 = Some ''hello''"
proof -
  have "log_files (log_path log_cfg ''t1'') = Some ''hello''" by code_simp
  moreover have "oplog_Validate log_cfg = []" "plain_elem ''t1''" by code_simp+
  ultimately show ?thesis
    using log_read_complete [of log_cfg "''t1''" 2 log_files "''hello''"]
    by (simp add: MaxInt64_def eval_nat_numeral del: read_log.simps)
qed

end
