(* ===== verification/Op_Builder.thy ===== *)
theory Op_Builder
  imports Op_Agent Op_Handler_Props
begin

text \<open>
  From business plans to operations (\<^verbatim>\<open>pkg/operationv2/builder.go\<close>).  The code that plans the work on a
  cluster produces a list of steps for named nodes (\<^verbatim>\<open>corev1.Operation\<close>); the builder turns it into
  the one operation that the engine executes: it resolves nodes to references, encodes each step as
  the payload of the command executor, and hands the response of a step to the next one.  The
  JSON encoding of a payload is an argument (\<open>marshal\<close>).  The error of a node that cannot be read is
  kept with its text.
\<close>

subsection \<open>Plans\<close>

definition LabelOperationAction :: string where "LabelOperationAction = ''kubeclipper.io/operation''"
definition LabelTimeoutSeconds :: string where "LabelTimeoutSeconds = ''kubeclipper.io/timeout''"

record CoreOperation =
  cop_Name :: string
  cop_Labels :: "(string \<times> string) list"
  cop_Steps :: "CoreStep list"

text \<open>Reading a key of a Go map: the zero value if it is absent.\<close>

definition label :: "(string \<times> string) list \<Rightarrow> string \<Rightarrow> string" where
  "label m k = (case map_of m k of None \<Rightarrow> [] | Some v \<Rightarrow> v)"

subsection \<open>Conversion\<close>

definition validateConversionInputs :: "CoreOperation option \<Rightarrow> Cluster option \<Rightarrow> goerr option" where
  "validateConversionInputs plan cluster =
     (case (plan, cluster) of
        (Some p, Some c) \<Rightarrow>
          if cop_Name p = [] \<or> cl_Name c = [] \<or> cl_UID c = []
          then Some (Plain ''operation name and Cluster name/UID are required'') else None
      | _ \<Rightarrow> Some (Plain ''operation name and Cluster name/UID are required''))"

definition operationTimeout :: "CoreOperation \<Rightarrow> goerr + duration" where
  "operationTimeout plan =
     (let raw = label (cop_Labels plan) LabelTimeoutSeconds in
      if raw \<noteq> [] then
        (case ParseInt raw of
           None \<Rightarrow> Inl (Plain (''invalid operation timeout '' @ Quote raw))
         | Some seconds \<Rightarrow>
             if seconds \<le> 0 then Inl (Plain (''invalid operation timeout '' @ Quote raw))
             else Inr (int64 (seconds * Second)))
      else Inr DefaultOperationTimeout)"

definition nodeRefOf :: "Node \<Rightarrow> NodeReference" where
  "nodeRefOf node = \<lparr>nr_Name = nd_Name node, nr_UID = nd_UID node, nr_IP = nd_Ipv4DefaultIP node\<rparr>"

text \<open>The node cache is shared by all steps of a conversion, so it is threaded through the loops.\<close>

fun resolveTargets :: "'w OperatorReader \<Rightarrow> string \<Rightarrow> (string \<rightharpoonup> Node) \<Rightarrow> StepNode list \<Rightarrow>
    ('w, (string \<rightharpoonup> Node) \<times> NodeReference list) io" where
  "resolveTargets nodes stepID cache [] = io_ret (cache, [])"
| "resolveTargets nodes stepID cache (target # rest) =
     io_bind
       (case cache (sn_ID target) of
          Some node \<Rightarrow> io_ret node
        | None \<Rightarrow>
            io_try (io_read (rd_GetNodeEx nodes (sn_ID target) []))
              (\<lambda>err. io_err (Plain (''resolve Node '' @ Quote (sn_ID target) @ '' for step '' @ Quote stepID @ '': '' @ Error_text err)))
              io_ret)
       (\<lambda>node. io_bind (resolveTargets nodes stepID (cache(sn_ID target \<mapsto> node)) rest)
          (\<lambda>(cache', refs). io_ret (cache', nodeRefOf node # refs)))"

definition convertStep :: "(CommandStepPayload \<Rightarrow> goerr + string) \<Rightarrow> 'w OperatorReader \<Rightarrow> (string \<rightharpoonup> Node) \<Rightarrow> CoreStep \<Rightarrow>
    ('w, (string \<rightharpoonup> Node) \<times> OperationStep) io" where
  "convertStep marshal nodes cache st =
     (if cs_ID st = [] then io_err (Plain ''step has no ID'')
      else io_bind (resolveTargets nodes (cs_ID st) cache (cs_Nodes st)) (\<lambda>(cache', targets).
        io_bind (io_of (marshal \<lparr>csp_Step = st\<lparr>cs_Nodes := []\<rparr>, csp_LastTaskReply = [], csp_DryRun = False\<rparr>)) (\<lambda>payload.
          io_ret (cache', \<lparr>step_ID = cs_ID st, step_Targets = targets, step_Executor = CommandStepExecutorName,
            step_Payload = payload, step_Inputs = [], step_RetryLimit = min (cs_RetryTimes st) MaxRetryLimit\<rparr>))))"

definition addPreviousStepInput :: "OperationStep \<Rightarrow> OperationStep list \<Rightarrow> OperationStep" where
  "addPreviousStepInput st steps =
     (if steps = [] \<or> step_Targets (last steps) = [] then st
      else st\<lparr>step_Inputs := [\<lparr>si_Field = ''lastTaskReply'', si_FromStepID = step_ID (last steps),
             si_FromNodeUID = nr_UID (hd (step_Targets (last steps))), si_OutputKey = ''response''\<rparr>]\<rparr>)"

fun convert_loop :: "(CommandStepPayload \<Rightarrow> goerr + string) \<Rightarrow> 'w OperatorReader \<Rightarrow> (string \<rightharpoonup> Node) \<Rightarrow> OperationStep list \<Rightarrow>
    CoreStep list \<Rightarrow> ('w, OperationStep list) io" where
  "convert_loop marshal nodes cache steps [] = io_ret steps"
| "convert_loop marshal nodes cache steps (source # rest) =
     io_bind (convertStep marshal nodes cache source) (\<lambda>(cache', converted).
       convert_loop marshal nodes cache' (steps @ [addPreviousStepInput converted steps]) rest)"

definition convertSteps :: "(CommandStepPayload \<Rightarrow> goerr + string) \<Rightarrow> 'w OperatorReader \<Rightarrow> CoreStep list \<Rightarrow> ('w, OperationStep list) io" where
  "convertSteps marshal nodes source = convert_loop marshal nodes Map.empty [] source"

definition newOperation :: "CoreOperation \<Rightarrow> Cluster \<Rightarrow> duration \<Rightarrow> OperationStep list \<Rightarrow> Operation" where
  "newOperation plan cluster timeout steps =
     \<lparr>op_Type = \<lparr>tm_APIVersion = SchemeGroupVersion, tm_Kind = KindOperation\<rparr>,
      op_Meta = empty_meta\<lparr>m_Name := cop_Name plan, m_Labels := cop_Labels plan\<rparr>,
      op_Spec = \<lparr>os_TargetRef = \<lparr>or_Kind = KindCluster, or_Name = cl_Name cluster, or_UID = cl_UID cluster\<rparr>,
        os_Action = label (cop_Labels plan) LabelOperationAction, os_DesiredState = OperationDesiredStateActive,
        os_RetryGeneration = 0, os_Timeout = timeout, os_Steps = steps\<rparr>,
      op_Status = empty_OperationStatus\<lparr>ost_Phase := OperationPending\<rparr>\<rparr>"

definition FromCoreOperation :: "(CommandStepPayload \<Rightarrow> goerr + string) \<Rightarrow> 'w OperatorReader \<Rightarrow> CoreOperation option \<Rightarrow> Cluster option \<Rightarrow>
    ('w, Operation) io" where
  "FromCoreOperation marshal nodes plan cluster =
     io_bind (io_check (validateConversionInputs plan cluster)) (\<lambda>_.
       case (plan, cluster) of
         (Some p, Some c) \<Rightarrow>
           io_bind (io_of (operationTimeout p)) (\<lambda>timeout.
             io_bind (convertSteps marshal nodes (cop_Steps p)) (\<lambda>steps.
               io_ret (newOperation p c timeout steps)))
       | _ \<Rightarrow> io_err (Panic ''nil pointer dereference''))"

definition CreateFromCore :: "(CommandStepPayload \<Rightarrow> goerr + string) \<Rightarrow> 'w store \<Rightarrow> 'w OperatorReader \<Rightarrow> Cluster option \<Rightarrow>
    CoreOperation option \<Rightarrow> ('w, Operation) io" where
  "CreateFromCore marshal writer nodes cluster plan =
     io_bind (FromCoreOperation marshal nodes plan cluster) (\<lambda>op. CreateOperation writer (Some op))"

subsection \<open>What a conversion yields\<close>

text \<open>A step of the plan and the step made from it, apart from the inputs.\<close>

definition converted :: "(CommandStepPayload \<Rightarrow> goerr + string) \<Rightarrow> 'w OperatorReader \<Rightarrow> 'w \<Rightarrow> CoreStep \<Rightarrow> OperationStep \<Rightarrow> bool" where
  "converted marshal nodes w st os \<longleftrightarrow>
     cs_ID st \<noteq> [] \<and> step_ID os = cs_ID st \<and> step_Executor os = CommandStepExecutorName \<and>
     step_RetryLimit os = min (cs_RetryTimes st) MaxRetryLimit \<and>
     marshal \<lparr>csp_Step = st\<lparr>cs_Nodes := []\<rparr>, csp_LastTaskReply = [], csp_DryRun = False\<rparr> = Inr (step_Payload os) \<and>
     list_all2 (\<lambda>n r. \<exists>node. rd_GetNodeEx nodes (sn_ID n) [] w = Inr node \<and> r = nodeRefOf node) (cs_Nodes st) (step_Targets os)"

definition prev_input :: "OperationStep \<Rightarrow> StepInput" where
  "prev_input p = \<lparr>si_Field = ''lastTaskReply'', si_FromStepID = step_ID p,
     si_FromNodeUID = nr_UID (hd (step_Targets p)), si_OutputKey = ''response''\<rparr>"

text \<open>Each step takes the response of the first target of the step before it, and nothing else.\<close>

definition chained :: "OperationStep list \<Rightarrow> bool" where
  "chained ss \<longleftrightarrow> (\<forall>i < length ss. step_Inputs (ss ! i) =
     (if i = 0 \<or> step_Targets (ss ! (i - 1)) = [] then [] else [prev_input (ss ! (i - 1))]))"

definition cache_ok :: "'w OperatorReader \<Rightarrow> 'w \<Rightarrow> (string \<rightharpoonup> Node) \<Rightarrow> bool" where
  "cache_ok nodes w cache \<longleftrightarrow> (\<forall>k node. cache k = Some node \<longrightarrow> rd_GetNodeEx nodes k [] w = Inr node)"

lemma resolve_Inr:
  assumes "resolveTargets nodes sid cache ns w = (Inr (cache', refs), w')" "cache_ok nodes w cache"
  shows "w' = w \<and> cache_ok nodes w cache' \<and>
    list_all2 (\<lambda>n r. \<exists>node. rd_GetNodeEx nodes (sn_ID n) [] w = Inr node \<and> r = nodeRefOf node) ns refs"
  using assms
proof (induction ns arbitrary: cache cache' refs)
  case (Cons n ns)
  obtain node refs' where node: "rd_GetNodeEx nodes (sn_ID n) [] w = Inr node"
    and rest: "resolveTargets nodes sid (cache(sn_ID n \<mapsto> node)) ns w = (Inr (cache', refs'), w')"
    and refs: "refs = nodeRefOf node # refs'"
    using Cons.prems unfolding cache_ok_def
    by (auto simp: io_bind_Inr io_try_def split: option.splits sum.splits)
  have "cache_ok nodes w (cache(sn_ID n \<mapsto> node))" using Cons.prems(2) node by (auto simp: cache_ok_def)
  from Cons.IH [OF rest this] show ?case using node refs by auto
qed (auto simp: cache_ok_def)

lemma convertStep_Inr:
  assumes "convertStep marshal nodes cache st w = (Inr (cache', os), w')" "cache_ok nodes w cache"
  shows "w' = w \<and> cache_ok nodes w cache' \<and> converted marshal nodes w st os \<and> step_Inputs os = []"
proof -
  obtain targets w1 payload where st: "cs_ID st \<noteq> []"
    and res: "resolveTargets nodes (cs_ID st) cache (cs_Nodes st) w = (Inr (cache', targets), w1)"
    and m: "marshal \<lparr>csp_Step = st\<lparr>cs_Nodes := []\<rparr>, csp_LastTaskReply = [], csp_DryRun = False\<rparr> = Inr payload" "w' = w1"
    and os: "os = \<lparr>step_ID = cs_ID st, step_Targets = targets, step_Executor = CommandStepExecutorName,
            step_Payload = payload, step_Inputs = [], step_RetryLimit = min (cs_RetryTimes st) MaxRetryLimit\<rparr>"
    using assms(1) by (auto simp: convertStep_def io_bind_Inr split: if_splits)
  show ?thesis using resolve_Inr [OF res assms(2)] st m os by (simp add: converted_def)
qed

lemma addPrevious_fields [simp]:
  "step_ID (addPreviousStepInput s ss) = step_ID s" "step_Executor (addPreviousStepInput s ss) = step_Executor s"
  "step_Payload (addPreviousStepInput s ss) = step_Payload s" "step_Targets (addPreviousStepInput s ss) = step_Targets s"
  "step_RetryLimit (addPreviousStepInput s ss) = step_RetryLimit s"
  by (simp_all add: addPreviousStepInput_def)

lemma chained_snoc:
  assumes "chained ss" "step_Inputs s = []"
  shows "chained (ss @ [addPreviousStepInput s ss])"
proof -
  let ?a = "addPreviousStepInput s ss"
  have new: "step_Inputs ?a = (if ss = [] \<or> step_Targets (ss ! (length ss - 1)) = [] then [] else [prev_input (ss ! (length ss - 1))])"
    using assms(2) by (cases "ss = []") (simp_all add: addPreviousStepInput_def prev_input_def last_conv_nth)
  show ?thesis unfolding chained_def
  proof (intro allI impI)
    fix i assume "i < length (ss @ [?a])"
    then consider "i < length ss" | "i = length ss" by force
    then show "step_Inputs ((ss @ [?a]) ! i) = (if i = 0 \<or> step_Targets ((ss @ [?a]) ! (i - 1)) = [] then []
        else [prev_input ((ss @ [?a]) ! (i - 1))])"
    proof cases
      case 1
      then have "i - 1 < length ss" by simp
      with 1 assms(1) show ?thesis unfolding chained_def nth_append by simp
    next
      case 2
      then show ?thesis using new by (cases "ss = []") (simp_all add: nth_append)
    qed
  qed
qed

lemma convert_loop_Inr:
  assumes "convert_loop marshal nodes cache steps src w = (Inr res, w')" "cache_ok nodes w cache" "chained steps"
  shows "w' = w \<and> chained res \<and> (\<exists>ys. res = steps @ ys \<and> list_all2 (converted marshal nodes w) src ys)"
  using assms
proof (induction src arbitrary: cache steps)
  case (Cons s src)
  obtain cache' os w1 where st: "convertStep marshal nodes cache s w = (Inr (cache', os), w1)"
    and rest: "convert_loop marshal nodes cache' (steps @ [addPreviousStepInput os steps]) src w1 = (Inr res, w')"
    using Cons.prems(1) by (auto simp: io_bind_Inr)
  have c: "w1 = w" "cache_ok nodes w cache'" "converted marshal nodes w s os" "step_Inputs os = []"
    using convertStep_Inr [OF st Cons.prems(2)] by auto
  have "converted marshal nodes w s (addPreviousStepInput os steps)" using c(3) by (simp add: converted_def)
  with Cons.IH [OF rest [unfolded c(1)] c(2) chained_snoc [OF Cons.prems(3) c(4)]] show ?case by auto
qed auto

lemma FromCore_Inr:
  assumes "FromCoreOperation marshal nodes (Some plan) (Some cluster) w = (Inr op, w')"
  shows "w' = w \<and> cop_Name plan \<noteq> [] \<and> cl_Name cluster \<noteq> [] \<and> cl_UID cluster \<noteq> [] \<and> (\<exists>timeout steps.
    operationTimeout plan = Inr timeout \<and> op = newOperation plan cluster timeout steps \<and> chained steps \<and>
    list_all2 (converted marshal nodes w) (cop_Steps plan) steps)"
proof -
  obtain timeout steps where v: "validateConversionInputs (Some plan) (Some cluster) = None"
    and t: "operationTimeout plan = Inr timeout"
    and c: "convert_loop marshal nodes Map.empty [] (cop_Steps plan) w = (Inr steps, w')"
    and op: "op = newOperation plan cluster timeout steps"
    using assms by (auto simp: FromCoreOperation_def convertSteps_def io_bind_Inr split: option.splits)
  show ?thesis
    using convert_loop_Inr [OF c] v t op
    by (auto simp: cache_ok_def chained_def validateConversionInputs_def split: if_splits)
qed

lemma kind_not_blank: "\<not> TrimSpace_empty (KindCluster)"
  by code_simp

lemma wf_steps_iff:
  "wf_steps E ss \<longleftrightarrow> (\<forall>i < length ss. wf_step (E \<union> set (map step_ID (take i ss))) (ss ! i))"
proof (induction ss arbitrary: E)
  case (Cons s ss)
  show ?case unfolding wf_steps.simps Cons.IH by (simp add: All_less_Suc2)
qed simp

text \<open>What the admission checks of a step apart from its identifier and inputs.\<close>

definition step_fits :: "OperationStep \<Rightarrow> bool" where
  "step_fits s \<longleftrightarrow> length (step_Payload s) \<le> MaxStepPayloadSize \<and> step_Targets s \<noteq> [] \<and>
     length (step_Targets s) \<le> MaxTargetsPerStep \<and> wf_targets (step_Targets s) \<and> 0 \<le> step_RetryLimit s"

lemma chained_wf_steps:
  assumes "chained ss" "\<forall>s \<in> set ss. step_ID s \<noteq> [] \<and> step_Executor s \<noteq> [] \<and> step_RetryLimit s \<le> MaxRetryLimit"
  shows "wf_steps {} ss \<longleftrightarrow> distinct (map step_ID ss) \<and> (\<forall>s \<in> set ss. step_fits s)"
proof
  assume wf: "wf_steps {} ss"
  have "step_fits s" if "s \<in> set ss" for s
    using wf_steps_mem [OF wf that] by (auto simp: wf_step_def step_fits_def)
  then show "distinct (map step_ID ss) \<and> (\<forall>s \<in> set ss. step_fits s)" using wf_steps_distinct [OF wf] by blast
next
  assume r: "distinct (map step_ID ss) \<and> (\<forall>s \<in> set ss. step_fits s)"
  have "wf_step (set (map step_ID (take i ss))) (ss ! i)" if i: "i < length ss" for i
  proof -
    have mem: "ss ! i \<in> set ss" using i by simp
    have fresh: "step_ID (ss ! i) \<notin> set (map step_ID (take i ss))"
      using r i by (auto simp: in_set_conv_nth distinct_conv_nth)
    have inputs: "wf_input (set (map step_ID (take i ss))) x" if x: "x \<in> set (step_Inputs (ss ! i))" for x
    proof -
      have i0: "i \<noteq> 0" and xeq: "x = prev_input (ss ! (i - 1))"
        using assms(1) i x by (auto simp: chained_def split: if_splits)
      have pm: "ss ! (i - 1) \<in> set ss" using i by (simp add: less_imp_diff_less)
      have "step_ID (ss ! (i - 1)) \<in> set (map step_ID (take i ss))" 
        using i i0 by (auto simp: in_set_conv_nth intro!: image_eqI [of _ step_ID "ss ! (i - 1)"] exI [of _ "i - 1"])
      moreover have "nr_UID (hd (step_Targets (ss ! (i - 1)))) \<noteq> []"
        using r pm by (auto simp: step_fits_def wf_targets_def)
      ultimately show ?thesis using xeq assms(2) pm by (auto simp: wf_input_def prev_input_def)
    qed
    show ?thesis using r assms(2) mem fresh inputs unfolding wf_step_def step_fits_def by blast
  qed
  then show "wf_steps {} ss" unfolding wf_steps_iff by simp
qed

subsection \<open>Properties\<close>

text \<open>
  C25.  Plans are admitted.  The operation that the builder makes of a plan passes the admission of operations exactly
  if the plan names an action, its timeout is in range, it has between 1 and 256 steps with distinct
  identifiers and non-negative retry counts, each step runs on between 1 and 1000 distinct resolved
  nodes and its payload and the whole fit the size limits: the inputs that the builder adds to hand
  a response on, the executor it chooses and the retry limit it cuts are never a reason to refuse.
\<close>

theorem builder_admitted_iff:
  assumes "FromCoreOperation marshal nodes (Some plan) (Some cluster) w = (Inr op, w')"
  shows "ValidateOperation sizeOf (Some op) = [] \<longleftrightarrow>
    \<not> TrimSpace_empty (cl_Name cluster) \<and> label (cop_Labels plan) LabelOperationAction \<noteq> [] \<and>
    MinOperationTimeout \<le> os_Timeout (op_Spec op) \<and> os_Timeout (op_Spec op) \<le> MaxOperationTimeout \<and>
    cop_Steps plan \<noteq> [] \<and> length (cop_Steps plan) \<le> MaxSteps \<and> distinct (map cs_ID (cop_Steps plan)) \<and>
    (\<forall>s \<in> set (op_Steps op). step_fits s) \<and>
    (case sizeOf op of Some n \<Rightarrow> n \<le> MaxOperationSize | None \<Rightarrow> True)"
proof -
  obtain timeout steps where op: "op = newOperation plan cluster timeout steps" and ch: "chained steps"
    and cv: "list_all2 (converted marshal nodes w) (cop_Steps plan) steps"
    and nm: "cop_Name plan \<noteq> []" "cl_UID cluster \<noteq> []"
    using FromCore_Inr [OF assms] by blast
  have ids: "map step_ID steps = map cs_ID (cop_Steps plan)"
    using cv by (induction rule: list_all2_induct) (auto simp: converted_def)
  have "converted marshal nodes w s os \<Longrightarrow> step_ID os \<noteq> [] \<and> step_Executor os \<noteq> [] \<and> step_RetryLimit os \<le> MaxRetryLimit" for s os
    by (simp add: converted_def CommandStepExecutorName_def)
  then have "\<forall>s \<in> set steps. step_ID s \<noteq> [] \<and> step_Executor s \<noteq> [] \<and> step_RetryLimit s \<le> MaxRetryLimit"
    using cv by (metis in_set_conv_nth list_all2_conv_all_nth)
  from chained_wf_steps [OF ch this] have wf: "wf_steps {} steps \<longleftrightarrow>
      distinct (map cs_ID (cop_Steps plan)) \<and> (\<forall>s \<in> set steps. step_fits s)" by (simp add: ids)
  have len: "length steps = length (cop_Steps plan)" using cv by (simp add: list_all2_lengthD)
  then have ne: "steps = [] \<longleftrightarrow> cop_Steps plan = []" by auto
  show ?thesis
    unfolding validate_wf wf_operation_def Let_def op newOperation_def
    using wf len ne nm by (auto simp: empty_meta_def kind_not_blank split: option.splits)
qed

definition plain_marshal :: "CommandStepPayload \<Rightarrow> goerr + string" where
  "plain_marshal p = Inr (''{'' @ cs_ID (csp_Step p) @ ''}'')"

definition one_node :: "unit OperatorReader" where
  "one_node = \<lparr>rd_GetClusterEx = (\<lambda>n _ _. Inl (NotFound ''clusters'' n)),
     rd_GetNodeEx = (\<lambda>n _ _. if n = ''n1'' then Inr \<lparr>nd_Name = ''n1'', nd_UID = ''n1-uid'', nd_Ipv4DefaultIP = ''10.0.0.1'', nd_AgentLogPort = 0\<rparr>
       else Inl (NotFound ''nodes'' n))\<rparr>"

definition plan_step :: "string \<Rightarrow> CoreStep" where
  "plan_step sid = \<lparr>cs_ID = sid, cs_Name = sid, cs_Nodes = [\<lparr>sn_ID = ''n1'', sn_IPv4 = [], sn_NodeIPv4 = [], sn_Hostname = []\<rparr>],
     cs_Action = ActionInstall, cs_Timeout = 0, cs_ErrIgnore = False, cs_Commands = [], cs_BeforeRunCommands = [],
     cs_AfterRunCommands = [], cs_RetryTimes = 9, cs_AutomaticRetry = False\<rparr>"

definition two_step_plan :: CoreOperation where
  "two_step_plan = \<lparr>cop_Name = ''p'', cop_Labels = [(LabelOperationAction, ''CreateCluster''), (LabelTimeoutSeconds, ''600'')],
     cop_Steps = [plan_step ''a'', plan_step ''b'']\<rparr>"

definition plan_cluster :: Cluster where "plan_cluster = \<lparr>cl_Name = ''c'', cl_UID = ''c-uid''\<rparr>"

definition built_step :: "string \<Rightarrow> StepInput list \<Rightarrow> OperationStep" where
  "built_step sid ins = \<lparr>step_ID = sid, step_Targets = [\<lparr>nr_Name = ''n1'', nr_UID = ''n1-uid'', nr_IP = ''10.0.0.1''\<rparr>],
     step_Executor = CommandStepExecutorName, step_Payload = ''{'' @ sid @ ''}'', step_Inputs = ins, step_RetryLimit = 3\<rparr>"

definition built_op :: Operation where
  "built_op = newOperation two_step_plan plan_cluster (600 * Second)
     [built_step ''a'' [], built_step ''b'' [prev_input (built_step ''a'' [])]]"

lemma built_run: "FromCoreOperation plain_marshal one_node (Some two_step_plan) (Some plan_cluster) () = (Inr built_op, ())"
  by code_simp

lemma built_fits: "\<forall>s \<in> set (op_Steps built_op). step_fits s"
  by code_simp

theorem builder_admitted_iff_witness:
  "ValidateOperation (\<lambda>_. None) (Some built_op) = []"
proof -
  have "\<not> TrimSpace_empty (cl_Name plan_cluster)" "label (cop_Labels two_step_plan) LabelOperationAction \<noteq> []"
    "MinOperationTimeout \<le> os_Timeout (op_Spec built_op)" "os_Timeout (op_Spec built_op) \<le> MaxOperationTimeout"
    "cop_Steps two_step_plan \<noteq> []" "length (cop_Steps two_step_plan) \<le> MaxSteps" "distinct (map cs_ID (cop_Steps two_step_plan))"
    by code_simp+
  then show ?thesis using builder_admitted_iff [OF built_run, of "\<lambda>_. None"] built_fits by simp
qed

subsection \<open>Responses reach the next step\<close>

definition from_executor :: "OperationTask \<Rightarrow> bool" where
  "from_executor t \<longleftrightarrow> (\<exists>r response. tst_Result (task_Status t) = Some r \<and> tr_Outputs r = [(''response'', response)])"

lemma command_response:
  "CommandStepExecutor decode co mirror ctx t log v = (Inr r, v') \<Longrightarrow> tst_Result (task_Status t') = Some r \<Longrightarrow> from_executor t'"
  unfolding from_executor_def
  by (auto simp: CommandStepExecutor_def Let_def split: sum.splits prod.splits if_splits)

text \<open>A JSON codec that encodes strings and objects and reads the payloads of a plan back as objects.\<close>

definition codec_ok :: "json_codec \<Rightarrow> OperationStep list \<Rightarrow> bool" where
  "codec_ok J steps \<longleftrightarrow> (\<forall>v. \<exists>e. jc_marshalString J v = Inr e) \<and> (\<forall>m. \<exists>raw. jc_marshalMap J m = Inr raw) \<and>
     (\<forall>s \<in> set steps. step_Payload s \<noteq> [] \<and> (\<exists>p. jc_unmarshalMap J (step_Payload s) = Inr (Some p)))"

lemma distinct_single:
  assumes "distinct xs" "x \<in> set xs" "set xs \<subseteq> {x}"
  shows "xs = [x]"
proof -
  have "set xs = {x}" using assms(2,3) by blast
  then have "length xs = 1" using distinct_card [OF assms(1)] by simp
  then show ?thesis using assms(2) by (cases xs) auto
qed

lemma single_match:
  assumes "distinct tasks" "\<forall>t \<in> set tasks. \<forall>t' \<in> set tasks. task_Phase t = TaskSucceeded \<longrightarrow> task_Phase t' = TaskSucceeded \<longrightarrow>
      task_StepID t = task_StepID t' \<longrightarrow> task_NodeUID t = task_NodeUID t' \<longrightarrow> t = t'"
    and "t \<in> set (inputMatches input tasks)"
  shows "inputMatches input tasks = [t]"
proof -
  have all: "x = t" if "x \<in> set (inputMatches input tasks)" for x
    using that assms(2,3) by (simp add: inputMatches_def)
  have "distinct (inputMatches input tasks)" using assms(1) by (simp add: inputMatches_def)
  then show ?thesis by (rule distinct_single [OF _ assms(3)]) (use all in blast)
qed

lemma materialize_one:
  assumes "codec_ok J steps" "st \<in> set steps" "step_Inputs st = [prev_input p]"
    and "inputMatches (prev_input p) tasks = [t]" "from_executor t"
  shows "\<exists>raw response e payload r. materializePayload J st tasks = Inr raw \<and> tst_Result (task_Status t) = Some r \<and>
    map_of (tr_Outputs r) ''response'' = Some response \<and> jc_marshalString J response = Inr e \<and>
    jc_unmarshalMap J (step_Payload st) = Inr (Some payload) \<and> jc_marshalMap J (AList.update ''lastTaskReply'' e payload) = Inr raw"
proof -
  obtain r response where r: "tst_Result (task_Status t) = Some r" "tr_Outputs r = [(''response'', response)]"
    using assms(5) by (auto simp: from_executor_def)
  obtain e where e: "jc_marshalString J response = Inr e" using assms(1) unfolding codec_ok_def by blast
  obtain payload where p: "jc_unmarshalMap J (step_Payload st) = Inr (Some payload)" "step_Payload st \<noteq> []"
    using assms(1,2) by (auto simp: codec_ok_def)
  obtain raw where raw: "jc_marshalMap J (AList.update ''lastTaskReply'' e payload) = Inr raw" using assms(1) unfolding codec_ok_def by blast
  have pi: "si_Field (prev_input p) = ''lastTaskReply''" "si_OutputKey (prev_input p) = ''response''" by (simp_all add: prev_input_def)
  have "materializePayload J st tasks = Inr raw"
    unfolding materializePayload_def Let_def using assms(3,4) r e p raw pi by simp
  then show ?thesis using r e p raw by auto
qed


definition reply_codec :: json_codec where
  "reply_codec = \<lparr>jc_unmarshalMap = (\<lambda>_. Inr (Some [])), jc_marshalString = Inr,
     jc_marshalMap = (\<lambda>m. Inr (concat (map (\<lambda>(k, v). k @ '':'' @ v) m)))\<rparr>"

definition first_done :: OperationTask where
  "first_done = (sample_task 0 TaskSucceeded)\<lparr>
     task_Spec := (task_Spec (sample_task 0 TaskSucceeded))\<lparr>tsp_OperationRef := \<lparr>or_Kind = KindOperation, or_Name = ''p'', or_UID = []\<rparr>,
       tsp_StepID := ''a'', tsp_NodeRef := \<lparr>nr_Name = ''n1'', nr_UID = ''n1-uid'', nr_IP = ''10.0.0.1''\<rparr>, tsp_RetryGeneration := 0,
       tsp_Executor := CommandStepExecutorName\<rparr>,
     task_Status := empty_OperationTaskStatus\<lparr>tst_Phase := TaskSucceeded,
       tst_Result := Some (noResult\<lparr>tr_Outputs := [(''response'', ''ok'')]\<rparr>)\<rparr>\<rparr>"


subsection \<open>The timeout of a plan\<close>

text \<open>Up to 9223372036 seconds the product is exact; beyond that it wraps, and may even come out as an admissible timeout.\<close>

lemma operationTimeout_exact:
  assumes "operationTimeout plan = Inr t" "label (cop_Labels plan) LabelTimeoutSeconds = raw" "raw \<noteq> []" "ParseInt raw = Some n"
    and "n \<le> 9223372036"
  shows "0 < n \<and> t = n * Second"
proof -
  have n: "0 < n" "t = int64 (n * Second)" using assms by (auto simp: operationTimeout_def Let_def split: if_splits)
  have "int64 (n * Second) = n * Second"
    using n(1) assms(5) by (intro int64_id) (simp_all add: MinInt64_def MaxInt64_def Second_def)
  with n show ?thesis by simp
qed

lemma operationTimeout_wraps:
  "\<exists>t. operationTimeout (two_step_plan\<lparr>cop_Labels := [(LabelTimeoutSeconds, ''18446749474'')]\<rparr>) = Inr t \<and>
     MinOperationTimeout \<le> t \<and> t \<le> MaxOperationTimeout"
proof -
  have "operationTimeout (two_step_plan\<lparr>cop_Labels := [(LabelTimeoutSeconds, ''18446749474'')]\<rparr>) = Inr 5400290448384" by code_simp
  then show ?thesis by (simp add: timeout_consts)
qed

end
