(* ===== verification/Op_Business.thy ===== *)
theory Op_Business
  imports Op_Builder
begin

text \<open>
  The business controller (\<^verbatim>\<open>pkg/controller/operationv2/business.go\<close>): what a finished operation means for the
  cluster it was made for, the phases of a cluster (\<^verbatim>\<open>pkg/clusteroperation/operation.go\<close>), and the
  functions that map events to the operations to reconcile (\<^verbatim>\<open>pkg/controller/operationv2/setup.go\<close>).
  The cluster storage and client-go's \<^verbatim>\<open>RetryOnConflict\<close> are arguments; the locale \<open>cluster_store\<close> states
  what is used of them.
\<close>

subsection \<open>Clusters and actions\<close>

definition OperationCreateCluster :: string where "OperationCreateCluster = ''CreateCluster''"
definition OperationDeleteCluster :: string where "OperationDeleteCluster = ''DeleteCluster''"
definition OperationUpgradeCluster :: string where "OperationUpgradeCluster = ''UpgradeCluster''"
definition OperationAddNodes :: string where "OperationAddNodes = ''AddNodes''"
definition OperationRemoveNodes :: string where "OperationRemoveNodes = ''RemoveNodes''"
definition OperationBackupCluster :: string where "OperationBackupCluster = ''BackupCluster''"
definition OperationDeleteBackup :: string where "OperationDeleteBackup = ''DeleteBackup''"
definition OperationRecoverCluster :: string where "OperationRecoverCluster = ''RecoveryCluster''"
definition OperationInstallComponents :: string where "OperationInstallComponents = ''InstallComponents''"
definition OperationUninstallComponents :: string where "OperationUninstallComponents = ''UninstallComponents''"
definition OperationUpdateCertification :: string where "OperationUpdateCertification = ''UpdateCertifications''"
definition OperationUpdateAPIServerCertification :: string where "OperationUpdateAPIServerCertification = ''UpdateAPIServerCertifications''"
definition OperationSyncKubeConfig :: string where "OperationSyncKubeConfig = ''SyncKubeConfig''"

lemmas action_defs = OperationCreateCluster_def OperationDeleteCluster_def OperationUpgradeCluster_def OperationAddNodes_def
  OperationRemoveNodes_def OperationBackupCluster_def OperationDeleteBackup_def OperationRecoverCluster_def
  OperationInstallComponents_def OperationUninstallComponents_def OperationUpdateCertification_def
  OperationUpdateAPIServerCertification_def OperationSyncKubeConfig_def

definition ClusterInstalling :: string where "ClusterInstalling = ''Installing''"
definition ClusterInstallFailed :: string where "ClusterInstallFailed = ''InstallFailed''"
definition ClusterRunning :: string where "ClusterRunning = ''Running''"
definition ClusterUpdating :: string where "ClusterUpdating = ''Updating''"
definition ClusterUpdateFailed :: string where "ClusterUpdateFailed = ''UpdateFailed''"
definition ClusterUpgrading :: string where "ClusterUpgrading = ''Upgrading''"
definition ClusterUpgradeFailed :: string where "ClusterUpgradeFailed = ''UpgradeFailed''"
definition ClusterBackingUp :: string where "ClusterBackingUp = ''BackingUp''"
definition ClusterRestoring :: string where "ClusterRestoring = ''Restoring''"
definition ClusterRestoreFailed :: string where "ClusterRestoreFailed = ''RestoreFailed''"
definition ClusterTerminating :: string where "ClusterTerminating = ''Terminating''"
definition ClusterTerminateFailed :: string where "ClusterTerminateFailed = ''TerminateFailed''"

lemmas phase_defs = ClusterInstalling_def ClusterInstallFailed_def ClusterRunning_def ClusterUpdating_def ClusterUpdateFailed_def
  ClusterUpgrading_def ClusterUpgradeFailed_def ClusterBackingUp_def ClusterRestoring_def ClusterRestoreFailed_def
  ClusterTerminating_def ClusterTerminateFailed_def

definition LabelUpgradeVersion :: string where "LabelUpgradeVersion = ''kubeclipper.io/upgrade-version''"

text \<open>What the controller reads and writes of a cluster, beyond its name and UID.\<close>

record ClusterObject = Cluster +
  cl_ResourceVersion :: string
  cl_Phase :: string
  cl_KubernetesVersion :: string

definition SupportConcurrent :: "string \<Rightarrow> bool" where
  "SupportConcurrent opType \<longleftrightarrow> opType \<in> {OperationAddNodes, OperationRemoveNodes}"

definition GetClusterPhase :: "string \<Rightarrow> string" where
  "GetClusterPhase opType =
     (if opType = OperationCreateCluster then ClusterInstalling
      else if opType = OperationDeleteCluster then ClusterTerminating
      else if opType = OperationUpgradeCluster then ClusterUpgrading
      else if opType \<in> {OperationBackupCluster, OperationDeleteBackup} then ClusterBackingUp
      else if opType = OperationRecoverCluster then ClusterRestoring
      else ClusterUpdating)"

definition failedClusterPhase :: "string \<Rightarrow> string" where
  "failedClusterPhase action =
     (if action = OperationCreateCluster then ClusterInstallFailed
      else if action = OperationDeleteCluster then ClusterTerminateFailed
      else if action = OperationUpgradeCluster then ClusterUpgradeFailed
      else if action = OperationRecoverCluster then ClusterRestoreFailed
      else if action \<in> {OperationAddNodes, OperationRemoveNodes} then ClusterRunning
      else ClusterUpdateFailed)"

subsection \<open>The reconciler\<close>

record 'w ClusterOperator =
  cop_GetClusterEx :: "string \<Rightarrow> string \<Rightarrow> 'w \<Rightarrow> goerr + ClusterObject"
  cop_UpdateCluster :: "ClusterObject \<Rightarrow> ('w, ClusterObject) io"
  cop_DeleteCluster :: "string \<Rightarrow> ('w, unit) io"

record 'w BusinessReconciler =
  br_Operations :: "string \<Rightarrow> 'w \<Rightarrow> goerr + Operation"
  br_Clusters :: "'w ClusterOperator"

definition settled :: "Operation \<Rightarrow> string \<Rightarrow> ClusterObject \<Rightarrow> bool" where
  "settled op desired clusterObject \<longleftrightarrow> cl_Phase clusterObject = desired \<and>
     (os_Action (op_Spec op) \<noteq> OperationUpgradeCluster \<or> op_Phase op \<noteq> OperationSucceeded)"

definition withOutcome :: "Operation \<Rightarrow> string \<Rightarrow> ClusterObject \<Rightarrow> ClusterObject" where
  "withOutcome op desired clusterObject =
     (let c = clusterObject\<lparr>cl_Phase := desired\<rparr> in
      if os_Action (op_Spec op) = OperationUpgradeCluster \<and> op_Phase op = OperationSucceeded
      then c\<lparr>cl_KubernetesVersion := label (m_Labels (op_Meta op)) LabelUpgradeVersion\<rparr> else c)"

definition updateAttempt :: "'w ClusterOperator \<Rightarrow> Operation \<Rightarrow> string \<Rightarrow> ('w, unit) io" where
  "updateAttempt clusters op desired =
     io_bind (io_read (cop_GetClusterEx clusters (or_Name (os_TargetRef (op_Spec op))) [])) (\<lambda>clusterObject.
       if cl_UID clusterObject \<noteq> or_UID (os_TargetRef (op_Spec op))
       then io_err (Plain (''operation '' @ Quote (op_Name op) @ '' target Cluster UID changed''))
       else if settled op desired clusterObject then io_ret ()
       else io_bind (cop_UpdateCluster clusters (withOutcome op desired clusterObject)) (\<lambda>_. io_ret ()))"

definition updateCluster :: "(('w, unit) io \<Rightarrow> ('w, unit) io) \<Rightarrow> 'w ClusterOperator \<Rightarrow> Operation \<Rightarrow> string \<Rightarrow> ('w, unit) io" where
  "updateCluster RetryOnConflict clusters op desired = RetryOnConflict (updateAttempt clusters op desired)"

definition desiredPhase :: "Operation \<Rightarrow> string" where
  "desiredPhase op = (if op_Phase op = OperationSucceeded then ClusterRunning else failedClusterPhase (os_Action (op_Spec op)))"

definition business_Reconcile :: "(('w, unit) io \<Rightarrow> ('w, unit) io) \<Rightarrow> 'w BusinessReconciler \<Rightarrow> string \<Rightarrow> ('w, unit) io" where
  "business_Reconcile RetryOnConflict r name =
     io_try (io_read (br_Operations r name))
       (\<lambda>err. if IsNotFound err then io_ret () else io_err err)
       (\<lambda>op.
          if \<not> OperationPhase_IsTerminal (op_Phase op) then io_ret ()
          else io_try (io_read (cop_GetClusterEx (br_Clusters r) (or_Name (os_TargetRef (op_Spec op))) []))
            (\<lambda>err. if IsNotFound err then io_ret () else io_err err)
            (\<lambda>clusterObject.
               if cl_UID clusterObject \<noteq> or_UID (os_TargetRef (op_Spec op))
               then io_err (Plain (''operation '' @ Quote (op_Name op) @ '' target Cluster UID changed''))
               else if os_Action (op_Spec op) = OperationDeleteCluster \<and> op_Phase op = OperationSucceeded
               then cop_DeleteCluster (br_Clusters r) (cl_Name clusterObject)
               else if os_Action (op_Spec op) = OperationSyncKubeConfig then io_ret ()
               else if settled op (desiredPhase op) clusterObject then io_ret ()
               else updateCluster RetryOnConflict (br_Clusters r) op (desiredPhase op)))"

subsection \<open>Which operations an event concerns\<close>

text \<open>
  The index of the informer cache is an argument: the objects of the cache whose target has the given UID, or
  an error.  An operation without target UID is not indexed.
\<close>

definition mapTargetOperations :: "(string \<Rightarrow> goerr + Operation list) \<Rightarrow> Operation \<Rightarrow> string list" where
  "mapTargetOperations ByIndex op =
     (case ByIndex (or_UID (os_TargetRef (op_Spec op))) of
        Inl err \<Rightarrow> [op_Name op]
      | Inr matched \<Rightarrow> op_Name op # map (\<lambda>c. op_Name c) (filter (\<lambda>c. op_Name c \<noteq> op_Name op) matched))"

definition targetUIDIndex :: "Operation \<Rightarrow> string list" where
  "targetUIDIndex op = (if or_UID (os_TargetRef (op_Spec op)) = [] then [] else [or_UID (os_TargetRef (op_Spec op))])"

definition mapTaskOperation :: "OperationTask \<Rightarrow> string list" where
  "mapTaskOperation task =
     (if or_Name (tsp_OperationRef (task_Spec task)) = [] then [] else [or_Name (tsp_OperationRef (task_Spec task))])"

subsection \<open>The interfaces it relies on\<close>

text \<open>Repeated attempts: another one is made only after a conflict, and the last one counts.\<close>

inductive attempts :: "('w, 'a) io \<Rightarrow> 'w \<Rightarrow> goerr + 'a \<Rightarrow> 'w \<Rightarrow> bool" for f where
  once: "f w = (r, w') \<Longrightarrow> attempts f w r w'"
| again: "f w = (Inl e, w1) \<Longrightarrow> IsConflict e \<Longrightarrow> attempts f w1 r w' \<Longrightarrow> attempts f w r w'"

text \<open>
  The storage of clusters: a read returns the stored object under its name; an update replaces an object only
  under its current resource version and keeps name and UID; a failed update changes nothing; a
  deletion removes the object or leaves everything as it is.
\<close>

locale cluster_store =
  fixes clusters :: "'w ClusterOperator"
    and RetryOnConflict :: "('w, unit) io \<Rightarrow> ('w, unit) io"
    and view :: "'w \<Rightarrow> (string \<rightharpoonup> ClusterObject)"
  assumes get_ok: "cop_GetClusterEx clusters n [] w = Inr c \<Longrightarrow> view w n = Some c \<and> cl_Name c = n"
    and update_ok: "cop_UpdateCluster clusters c w = (Inr c', w') \<Longrightarrow>
      \<exists>old rv. view w (cl_Name c) = Some old \<and> cl_UID old = cl_UID c \<and> cl_ResourceVersion old = cl_ResourceVersion c \<and>
        view w' = (view w)(cl_Name c \<mapsto> c\<lparr>cl_ResourceVersion := rv\<rparr>)"
    and update_err: "cop_UpdateCluster clusters c w = (Inl e, w') \<Longrightarrow> view w' = view w"
    and delete_any: "cop_DeleteCluster clusters n w = (d, w') \<Longrightarrow> view w' = view w \<or> view w' = (view w)(n := None)"
    and retry_attempts: "RetryOnConflict f w = (d, w') \<Longrightarrow> attempts f w d w'"
begin

lemma withOutcome_keeps [simp]:
  "cl_Name (withOutcome op d c) = cl_Name c" "cl_UID (withOutcome op d c) = cl_UID c" "cl_Phase (withOutcome op d c) = d"
  "cl_ResourceVersion (withOutcome op d c) = cl_ResourceVersion c"
  by (simp_all add: withOutcome_def Let_def)

lemma attempt_effect:
  assumes "updateAttempt clusters op d w = (r, w')"
  defines "n \<equiv> or_Name (os_TargetRef (op_Spec op))"
  shows "view w' = view w \<and> (\<forall>x. r = Inr x \<longrightarrow> (\<exists>c. view w n = Some c \<and> cl_Phase c = d)) \<or>
    r = Inr () \<and> (\<exists>c rv. view w n = Some c \<and> cl_UID c = or_UID (os_TargetRef (op_Spec op)) \<and>
      view w' = (view w)(n \<mapsto> (withOutcome op d c)\<lparr>cl_ResourceVersion := rv\<rparr>))"
proof (cases "cop_GetClusterEx clusters n [] w")
  case (Inl e)
  then show ?thesis using assms(1) unfolding n_def by (auto simp: updateAttempt_def io_bind_def)
next
  case (Inr c)
  note g = get_ok [OF Inr]
  note body = assms(1) [unfolded updateAttempt_def io_bind_def io_read_eq, folded n_def, unfolded Inr, simplified]
  show ?thesis
  proof (cases "cl_UID c \<noteq> or_UID (os_TargetRef (op_Spec op)) \<or> settled op d c")
    case True
    then show ?thesis using body g by (auto simp: settled_def split: if_splits)
  next
    case False
    show ?thesis
    proof (cases "cop_UpdateCluster clusters (withOutcome op d c) w")
      case (Pair x w1)
      show ?thesis
      proof (cases x)
        case (Inl e)
        then show ?thesis using body False Pair update_err [of "withOutcome op d c" w e w1] by auto
      next
        case (Inr c')
        then show ?thesis using body False Pair update_ok [of "withOutcome op d c" w c' w1] g by auto
      qed
    qed
  qed
qed

lemma attempts_effect:
  assumes "attempts (updateAttempt clusters op d) w r w'"
  defines "n \<equiv> or_Name (os_TargetRef (op_Spec op))"
  shows "view w' = view w \<and> (\<forall>x. r = Inr x \<longrightarrow> (\<exists>c. view w n = Some c \<and> cl_Phase c = d)) \<or>
    r = Inr () \<and> (\<exists>c rv. view w n = Some c \<and> cl_UID c = or_UID (os_TargetRef (op_Spec op)) \<and>
      view w' = (view w)(n \<mapsto> (withOutcome op d c)\<lparr>cl_ResourceVersion := rv\<rparr>))"
  using assms(1)
proof (induction rule: attempts.induct)
  case (once w r w')
  then show ?case unfolding n_def by (rule attempt_effect)
next
  case (again w e w1 r w')
  have "view w1 = view w" using attempt_effect [OF again.hyps(1)] by auto
  with again.IH show ?case by simp
qed

lemma reconcile_effect:
  assumes "business_Reconcile RetryOnConflict r name w = (res, w')" "br_Clusters r = clusters"
  shows "view w' = view w \<or> (\<exists>op c. br_Operations r name w = Inr op \<and> OperationPhase_IsTerminal (op_Phase op) \<and>
    view w (or_Name (os_TargetRef (op_Spec op))) = Some c \<and> cl_UID c = or_UID (os_TargetRef (op_Spec op)) \<and>
    (if os_Action (op_Spec op) = OperationDeleteCluster \<and> op_Phase op = OperationSucceeded
     then view w' = (view w)(or_Name (os_TargetRef (op_Spec op)) := None)
     else os_Action (op_Spec op) \<noteq> OperationSyncKubeConfig \<and> (\<exists>rv. view w' =
       (view w)(or_Name (os_TargetRef (op_Spec op)) \<mapsto> (withOutcome op (desiredPhase op) c)\<lparr>cl_ResourceVersion := rv\<rparr>))))"
proof (cases "br_Operations r name w")
  case (Inl e)
  then show ?thesis using assms(1) by (auto simp: business_Reconcile_def io_try_def split: if_splits)
next
  case (Inr op)
  let ?n = "or_Name (os_TargetRef (op_Spec op))"
  note b1 = assms(1) [unfolded business_Reconcile_def io_try_def io_read_eq Inr prod.case sum.case assms(2)]
  show ?thesis
  proof (cases "cop_GetClusterEx clusters ?n [] w")
    case (Inl e)
    then show ?thesis using b1 by (auto split: if_splits)
  next
    case G: (Inr c)
    have g: "view w ?n = Some c" "cl_Name c = ?n" using get_ok [OF G] by auto
    have "w' = w \<or> OperationPhase_IsTerminal (op_Phase op) \<and> cl_UID c = or_UID (os_TargetRef (op_Spec op)) \<and>
      (if os_Action (op_Spec op) = OperationDeleteCluster \<and> op_Phase op = OperationSucceeded
       then cop_DeleteCluster clusters ?n w = (res, w')
       else os_Action (op_Spec op) \<noteq> OperationSyncKubeConfig \<and> updateCluster RetryOnConflict clusters op (desiredPhase op) w = (res, w'))"
      using b1 G g(2) by (auto split: if_splits)
    then show ?thesis
      using Inr g delete_any [of ?n w res w'] attempts_effect [of op "desiredPhase op" w res w'] retry_attempts [of _ w res w']
      unfolding updateCluster_def by (auto split: if_splits)
  qed
qed

lemma reconcile_settles:
  assumes "business_Reconcile RetryOnConflict r name w = (Inr (), w')" "br_Clusters r = clusters"
    and "br_Operations r name w = Inr op" "OperationPhase_IsTerminal (op_Phase op)"
    and "cop_GetClusterEx clusters (or_Name (os_TargetRef (op_Spec op))) [] w = Inr c" "cl_UID c = or_UID (os_TargetRef (op_Spec op))"
    and "os_Action (op_Spec op) \<noteq> OperationSyncKubeConfig"
    and "os_Action (op_Spec op) \<noteq> OperationDeleteCluster \<or> op_Phase op \<noteq> OperationSucceeded"
  shows "\<exists>c'. view w' (or_Name (os_TargetRef (op_Spec op))) = Some c' \<and> cl_Phase c' = desiredPhase op"
proof (cases "settled op (desiredPhase op) c")
  case True
  then have "w' = w" using assms by (auto simp: business_Reconcile_def io_try_def)
  then show ?thesis using True get_ok [OF assms(5)] by (auto simp: settled_def)
next
  case False
  then have "updateCluster RetryOnConflict clusters op (desiredPhase op) w = (Inr (), w')"
    using assms by (auto simp: business_Reconcile_def io_try_def)
  from attempts_effect [OF retry_attempts [OF this [unfolded updateCluster_def]]] show ?thesis by auto
qed

end

subsection \<open>Instances\<close>

text \<open>Clusters in memory, with a counter for resource versions, and a bounded number of attempts.\<close>

record cluster_mem =
  cm_items :: "(string \<times> ClusterObject) list"
  cm_rev :: nat

definition mem_update_cluster :: "ClusterObject \<Rightarrow> (cluster_mem, ClusterObject) io" where
  "mem_update_cluster c w =
     (case map_of (cm_items w) (cl_Name c) of
        None \<Rightarrow> (Inl (NotFound ''clusters'' (cl_Name c)), w)
      | Some old \<Rightarrow>
          if cl_ResourceVersion old \<noteq> cl_ResourceVersion c \<or> cl_UID old \<noteq> cl_UID c
          then (Inl (Conflict ''clusters'' (cl_Name c) ''the object has been modified''), w)
          else (let c' = c\<lparr>cl_ResourceVersion := show_nat (cm_rev w)\<rparr>
                in (Inr c', \<lparr>cm_items = AList.update (cl_Name c) c' (cm_items w), cm_rev = Suc (cm_rev w)\<rparr>)))"

definition mem_clusters :: "cluster_mem ClusterOperator" where
  "mem_clusters = \<lparr>cop_GetClusterEx = (\<lambda>n rv w. case map_of (cm_items w) n of
       None \<Rightarrow> Inl (NotFound ''clusters'' n)
     | Some c \<Rightarrow> if cl_Name c = n then Inr c else Inl (InternalErr ''corrupt key'')),
     cop_UpdateCluster = mem_update_cluster,
     cop_DeleteCluster = (\<lambda>n w. (Inr (), w\<lparr>cm_items := AList.delete n (cm_items w)\<rparr>))\<rparr>"

fun retry_upto :: "nat \<Rightarrow> ('w, 'a) io \<Rightarrow> ('w, 'a) io" where
  "retry_upto 0 f = f"
| "retry_upto (Suc n) f = (\<lambda>w. case f w of (Inl e, w1) \<Rightarrow> if IsConflict e then retry_upto n f w1 else (Inl e, w1) | (Inr x, w1) \<Rightarrow> (Inr x, w1))"

lemma retry_upto_attempts: "retry_upto n f w = (r, w') \<Longrightarrow> attempts f w r w'"
  by (induction n arbitrary: w)
    (auto split: prod.splits sum.splits if_splits intro: attempts.intros)

interpretation mem_cs: cluster_store mem_clusters "retry_upto 3" "\<lambda>w. map_of (cm_items w)"
proof
  fix n c w assume "cop_GetClusterEx mem_clusters n [] w = Inr c"
  then show "map_of (cm_items w) n = Some c \<and> cl_Name c = n"
    by (auto simp: mem_clusters_def split: option.splits if_splits)
next
  fix c w c' w' assume "cop_UpdateCluster mem_clusters c w = (Inr c', w')"
  then show "\<exists>old rv. map_of (cm_items w) (cl_Name c) = Some old \<and> cl_UID old = cl_UID c \<and>
      cl_ResourceVersion old = cl_ResourceVersion c \<and>
      map_of (cm_items w') = (map_of (cm_items w))(cl_Name c \<mapsto> c\<lparr>cl_ResourceVersion := rv\<rparr>)"
    by (auto simp: mem_clusters_def mem_update_cluster_def Let_def update_conv' split: option.splits if_splits)
next
  fix c w e w' assume "cop_UpdateCluster mem_clusters c w = (Inl e, w')"
  then show "map_of (cm_items w') = map_of (cm_items w)"
    by (auto simp: mem_clusters_def mem_update_cluster_def Let_def split: option.splits if_splits)
next
  fix n w d w' assume "cop_DeleteCluster mem_clusters n w = (d, w')"
  then show "map_of (cm_items w') = map_of (cm_items w) \<or> map_of (cm_items w') = (map_of (cm_items w))(n := None)"
    by (auto simp: mem_clusters_def delete_conv')
qed (rule retry_upto_attempts)

subsection \<open>Properties\<close>

text \<open>
  Outcomes of operations.  Reconciling an operation changes at most the cluster it targets, and that only if the
  operation is terminal and the stored cluster has the UID the operation names: the cluster is
  removed exactly for a Succeeded deletion; otherwise it gets the phase that the outcome of the
  action demands (and, after a Succeeded upgrade, the new version), with nothing else of it changed.
\<close>

theorem business_effect:
  assumes "cluster_store (br_Clusters r) RetryOnConflict view" "business_Reconcile RetryOnConflict r name w = (res, w')"
  shows "view w' = view w \<or> (\<exists>op c. br_Operations r name w = Inr op \<and> OperationPhase_IsTerminal (op_Phase op) \<and>
    view w (or_Name (os_TargetRef (op_Spec op))) = Some c \<and> cl_UID c = or_UID (os_TargetRef (op_Spec op)) \<and>
    (if os_Action (op_Spec op) = OperationDeleteCluster \<and> op_Phase op = OperationSucceeded
     then view w' = (view w)(or_Name (os_TargetRef (op_Spec op)) := None)
     else os_Action (op_Spec op) \<noteq> OperationSyncKubeConfig \<and> (\<exists>rv. view w' =
       (view w)(or_Name (os_TargetRef (op_Spec op)) \<mapsto> (withOutcome op (desiredPhase op) c)\<lparr>cl_ResourceVersion := rv\<rparr>))))"
  by (rule cluster_store.reconcile_effect [OF assms(1,2) refl])

definition biz_op :: "string \<Rightarrow> string \<Rightarrow> Operation" where
  "biz_op action ph = built_op\<lparr>op_Spec := (op_Spec built_op)\<lparr>os_Action := action\<rparr>, op_Status := (op_Status built_op)\<lparr>ost_Phase := ph\<rparr>\<rparr>"

definition biz_reconciler :: "string \<Rightarrow> string \<Rightarrow> cluster_mem BusinessReconciler" where
  "biz_reconciler action ph = \<lparr>br_Operations = (\<lambda>n w. Inr (biz_op action ph)), br_Clusters = mem_clusters\<rparr>"

definition biz_world :: "string \<Rightarrow> cluster_mem" where
  "biz_world ph = \<lparr>cm_items = [(''c'', \<lparr>cl_Name = ''c'', cl_UID = ''c-uid'', cl_ResourceVersion = ''1'', cl_Phase = ph, cl_KubernetesVersion = ''v1.27.4''\<rparr>)],
     cm_rev = 7\<rparr>"

theorem business_effect_witness:
  "\<exists>c. map_of (cm_items (biz_world ClusterInstalling)) ''c'' = Some c \<and> cl_UID c = ''c-uid'' \<and> (\<exists>rv.
     map_of (cm_items (snd (business_Reconcile (retry_upto 3) (biz_reconciler OperationCreateCluster OperationFailed) ''p'' (biz_world ClusterInstalling)))) =
     (map_of (cm_items (biz_world ClusterInstalling)))(''c'' \<mapsto>
        (withOutcome (biz_op OperationCreateCluster OperationFailed) ClusterInstallFailed c)\<lparr>cl_ResourceVersion := rv\<rparr>))"
proof -
  let ?r = "biz_reconciler OperationCreateCluster OperationFailed" and ?w = "biz_world ClusterInstalling"
  have store: "cluster_store (br_Clusters ?r) (retry_upto 3) (\<lambda>w. map_of (cm_items w))"
    using mem_cs.cluster_store_axioms by (simp add: biz_reconciler_def)
  have op: "br_Operations ?r ''p'' ?w = Inr (biz_op OperationCreateCluster OperationFailed)" by (simp add: biz_reconciler_def)
  have f: "os_Action (op_Spec (biz_op OperationCreateCluster OperationFailed)) = OperationCreateCluster"
    "op_Phase (biz_op OperationCreateCluster OperationFailed) = OperationFailed"
    "os_TargetRef (op_Spec (biz_op OperationCreateCluster OperationFailed)) = \<lparr>or_Kind = KindCluster, or_Name = ''c'', or_UID = ''c-uid''\<rparr>"
    by (simp_all add: biz_op_def built_op_def newOperation_def plan_cluster_def)
  have changed: "map_option cl_Phase (map_of (cm_items (snd (business_Reconcile (retry_upto 3) ?r ''p'' ?w))) ''c'') \<noteq>
      map_option cl_Phase (map_of (cm_items ?w) ''c'')" by code_simp
  have d: "desiredPhase (biz_op OperationCreateCluster OperationFailed) = ClusterInstallFailed" by code_simp
  have nd: "\<not> (OperationCreateCluster = OperationDeleteCluster)" by (simp add: action_defs)
  from business_effect [OF store prod.collapse [symmetric], of "''p''" ?w] changed op f d nd show ?thesis by auto
qed





end
