(* ===== verification/Rbac.thy ===== *)
theory Rbac
  imports Op_Handler_Props
begin

text \<open>
  Authorization by roles (\<^verbatim>\<open>pkg/authorization/rbac\<close>).  The role bindings and roles are what the IAM operator
  answers; the evaluation of a Rego policy is an argument, since the policy engine is not part of
  the repository.
\<close>

subsection \<open>Rules\<close>

record PolicyRule =
  pr_Verbs :: "string list"
  pr_APIGroups :: "string list"
  pr_Resources :: "string list"
  pr_ResourceNames :: "string list"
  pr_NonResourceURLs :: "string list"

record Attributes =
  at_User :: UserInfo
  at_ResourceRequest :: bool
  at_Verb :: string
  at_APIGroup :: string
  at_Resource :: string
  at_Subresource :: string
  at_Name :: string
  at_Path :: string

definition VerbMatches :: "PolicyRule \<Rightarrow> string \<Rightarrow> bool" where
  "VerbMatches rule requestedVerb = list_ex (\<lambda>ruleVerb. ruleVerb = ''*'' \<or> ruleVerb = requestedVerb) (pr_Verbs rule)"

definition APIGroupMatches :: "PolicyRule \<Rightarrow> string \<Rightarrow> bool" where
  "APIGroupMatches rule requestedGroup = list_ex (\<lambda>ruleGroup. ruleGroup = ''*'' \<or> ruleGroup = requestedGroup) (pr_APIGroups rule)"

definition ResourceMatches :: "PolicyRule \<Rightarrow> string \<Rightarrow> string \<Rightarrow> bool" where
  "ResourceMatches rule combinedRequestedResource requestedSubresource = list_ex (\<lambda>ruleResource.
     ruleResource = ''*'' \<or> ruleResource = combinedRequestedResource \<or>
     requestedSubresource \<noteq> [] \<and> length ruleResource = length requestedSubresource + 2 \<and>
       prefix ''*/'' ruleResource \<and> suffix requestedSubresource ruleResource) (pr_Resources rule)"

definition ResourceNameMatches :: "PolicyRule \<Rightarrow> string \<Rightarrow> bool" where
  "ResourceNameMatches rule requestedName \<longleftrightarrow>
     pr_ResourceNames rule = [] \<or> list_ex (\<lambda>ruleName. ruleName = requestedName) (pr_ResourceNames rule)"

definition NonResourceURLMatches :: "PolicyRule \<Rightarrow> string \<Rightarrow> bool" where
  "NonResourceURLMatches rule requestedURL = list_ex (\<lambda>ruleURL.
     ruleURL = ''*'' \<or> ruleURL = requestedURL \<or>
     suffix ''*'' ruleURL \<and> prefix (TrimRight ruleURL (CHR ''*'')) requestedURL) (pr_NonResourceURLs rule)"

definition ruleAllows :: "Attributes \<Rightarrow> PolicyRule \<Rightarrow> bool" where
  "ruleAllows a rule =
     (if at_ResourceRequest a then
        (let combinedResource = (if at_Subresource a \<noteq> [] then at_Resource a @ ''/'' @ at_Subresource a else at_Resource a) in
         VerbMatches rule (at_Verb a) \<and> APIGroupMatches rule (at_APIGroup a) \<and>
         ResourceMatches rule combinedResource (at_Subresource a) \<and> ResourceNameMatches rule (at_Name a))
      else VerbMatches rule (at_Verb a) \<and> NonResourceURLMatches rule (at_Path a))"

subsection \<open>Bindings\<close>

record Subject =
  sj_Kind :: string
  sj_Name :: string
  sj_Namespace :: string

record RoleRef =
  rr_Kind :: string
  rr_Name :: string

record GlobalRoleBinding =
  rb_Name :: string
  rb_Subjects :: "Subject list"
  rb_RoleRef :: RoleRef

record GlobalRole =
  gr_Annotations :: "(string \<times> string) list"
  gr_Rules :: "PolicyRule list"

definition UserKind :: string where "UserKind = ''User''"
definition GroupKind :: string where "GroupKind = ''Group''"
definition ServiceAccountKind :: string where "ServiceAccountKind = ''ServiceAccount''"
definition ResourceKindGlobalRole :: string where "ResourceKindGlobalRole = ''GlobalRole''"
definition RegoOverrideAnnotation :: string where "RegoOverrideAnnotation = ''kubeclipper.io/rego-override''"

definition appliesToUser :: "UserInfo \<Rightarrow> Subject \<Rightarrow> bool" where
  "appliesToUser user subject =
     (if sj_Kind subject = UserKind then u_Name user = sj_Name subject
      else if sj_Kind subject = GroupKind then hasGroup user (sj_Name subject)
      else False)"

fun applies_from :: "nat \<Rightarrow> UserInfo \<Rightarrow> Subject list \<Rightarrow> nat \<times> bool" where
  "applies_from i user [] = (0, False)"
| "applies_from i user (s # ss) = (if appliesToUser user s then (i, True) else applies_from (Suc i) user ss)"

definition appliesTo :: "UserInfo \<Rightarrow> Subject list \<Rightarrow> nat \<times> bool" where
  "appliesTo user bindingSubjects = applies_from 0 user bindingSubjects"

definition describeSubject :: "Subject \<Rightarrow> string \<Rightarrow> string" where
  "describeSubject s bindingNamespace =
     (if sj_Kind s = ServiceAccountKind then
        (if sj_Namespace s \<noteq> [] then sj_Kind s @ '' '' @ Quote (sj_Name s @ ''/'' @ sj_Namespace s)
         else sj_Kind s @ '' '' @ Quote (sj_Name s @ ''/'' @ bindingNamespace))
      else sj_Kind s @ '' '' @ Quote (sj_Name s))"

definition describer_String :: "GlobalRoleBinding \<Rightarrow> Subject \<Rightarrow> string" where
  "describer_String binding subject =
     ''GlobalRoleBinding '' @ Quote (rb_Name binding) @ '' of '' @ rr_Kind (rb_RoleRef binding) @ '' '' @
     Quote (rr_Name (rb_RoleRef binding)) @ '' to '' @ describeSubject subject []"

subsection \<open>The authorizer\<close>

text \<open>The IAM operator as the authorizer uses it: the bindings and the roles it reads.\<close>

record iam_reader =
  iam_ListRoleBindings :: "goerr + GlobalRoleBinding list"
  iam_GetRoleEx :: "string \<Rightarrow> goerr + GlobalRole"

definition getRoleReferenceRules :: "iam_reader \<Rightarrow> RoleRef \<Rightarrow> goerr + string \<times> PolicyRule list" where
  "getRoleReferenceRules am roleRef =
     (if rr_Kind roleRef = ResourceKindGlobalRole then
        (case iam_GetRoleEx am (rr_Name roleRef) of
           Inl err \<Rightarrow> if IsNotFound err then Inr ([], []) else Inl err
         | Inr globalRole \<Rightarrow> Inr (values_Get (gr_Annotations globalRole) RegoOverrideAnnotation, gr_Rules globalRole))
      else Inl (Plain (''unsupported role reference kind: '' @ Quote (rr_Kind roleRef))))"

record authorizingVisitor =
  av_allowed :: bool
  av_reason :: string
  av_errors :: "goerr list"

definition visit :: "(Attributes \<Rightarrow> string \<Rightarrow> bool) \<Rightarrow> Attributes \<Rightarrow> authorizingVisitor \<Rightarrow> string \<Rightarrow> string \<Rightarrow> PolicyRule option \<Rightarrow>
    goerr option \<Rightarrow> bool \<times> authorizingVisitor" where
  "visit regoPolicyAllows a v source regoPolicy rule err =
     (if regoPolicy \<noteq> [] \<and> regoPolicyAllows a regoPolicy
      then (False, v\<lparr>av_allowed := True, av_reason := ''RBAC: allowed by '' @ source\<rparr>)
      else case rule of
        Some r \<Rightarrow> if ruleAllows a r then (False, v\<lparr>av_allowed := True, av_reason := ''RBAC: allowed by '' @ source\<rparr>)
                  else (True, case err of None \<Rightarrow> v | Some e \<Rightarrow> v\<lparr>av_errors := av_errors v @ [e]\<rparr>)
      | None \<Rightarrow> (True, case err of None \<Rightarrow> v | Some e \<Rightarrow> v\<lparr>av_errors := av_errors v @ [e]\<rparr>))"

fun visit_rules :: "(Attributes \<Rightarrow> string \<Rightarrow> bool) \<Rightarrow> Attributes \<Rightarrow> string \<Rightarrow> PolicyRule list \<Rightarrow> authorizingVisitor \<Rightarrow>
    bool \<times> authorizingVisitor" where
  "visit_rules rego a source [] v = (True, v)"
| "visit_rules rego a source (r # rs) v =
     (case visit rego a v source [] (Some r) None of
        (False, v') \<Rightarrow> (False, v')
      | (True, v') \<Rightarrow> visit_rules rego a source rs v')"

fun visit_bindings :: "(Attributes \<Rightarrow> string \<Rightarrow> bool) \<Rightarrow> iam_reader \<Rightarrow> Attributes \<Rightarrow> GlobalRoleBinding list \<Rightarrow> authorizingVisitor \<Rightarrow>
    authorizingVisitor" where
  "visit_bindings rego am a [] v = v"
| "visit_bindings rego am a (b # bs) v =
     (let (subjectIndex, applies) = appliesTo (at_User a) (rb_Subjects b) in
      if \<not> applies then visit_bindings rego am a bs v
      else case getRoleReferenceRules am (rb_RoleRef b) of
             Inl err \<Rightarrow> visit_bindings rego am a bs (snd (visit rego a v [] [] None (Some err)))
           | Inr (regoPolicy, rules) \<Rightarrow>
               (let source = describer_String b (rb_Subjects b ! subjectIndex) in
                case visit rego a v source regoPolicy None None of
                  (False, v') \<Rightarrow> v'
                | (True, v') \<Rightarrow>
                    (case visit_rules rego a source rules v' of
                       (False, v'') \<Rightarrow> v''
                     | (True, v'') \<Rightarrow> visit_bindings rego am a bs v'')))"

definition visitRulesFor :: "(Attributes \<Rightarrow> string \<Rightarrow> bool) \<Rightarrow> iam_reader \<Rightarrow> Attributes \<Rightarrow> authorizingVisitor \<Rightarrow> authorizingVisitor" where
  "visitRulesFor rego am a v =
     (case iam_ListRoleBindings am of
        Inl err \<Rightarrow> snd (visit rego a v [] [] None (Some err))
      | Inr bindings \<Rightarrow> visit_bindings rego am a bindings v)"

datatype Decision = DecisionDeny | DecisionAllow | DecisionNoOpinion

text \<open>\<^verbatim>\<open>NewAggregate\<close> prints the texts of the errors; only whether there are any matters here.\<close>

definition Authorize :: "(Attributes \<Rightarrow> string \<Rightarrow> bool) \<Rightarrow> (goerr list \<Rightarrow> string) \<Rightarrow> iam_reader \<Rightarrow> Attributes \<Rightarrow> Decision \<times> string" where
  "Authorize rego aggregate am a =
     (let v = visitRulesFor rego am a \<lparr>av_allowed = False, av_reason = [], av_errors = []\<rparr> in
      if av_allowed v then (DecisionAllow, av_reason v)
      else (DecisionNoOpinion, if av_errors v \<noteq> [] then ''RBAC: '' @ aggregate (av_errors v) else []))"

subsection \<open>What is allowed\<close>

text \<open>A binding grants a request: it names the user or a group of the user, and its role's policy or a rule of it allows.\<close>

definition grants :: "(Attributes \<Rightarrow> string \<Rightarrow> bool) \<Rightarrow> iam_reader \<Rightarrow> Attributes \<Rightarrow> GlobalRoleBinding \<Rightarrow> bool" where
  "grants rego am a b \<longleftrightarrow> (\<exists>s \<in> set (rb_Subjects b). appliesToUser (at_User a) s) \<and>
     rr_Kind (rb_RoleRef b) = ResourceKindGlobalRole \<and>
     (\<exists>role. iam_GetRoleEx am (rr_Name (rb_RoleRef b)) = Inr role \<and>
        (let policy = values_Get (gr_Annotations role) RegoOverrideAnnotation in policy \<noteq> [] \<and> rego a policy \<or>
         (\<exists>rule \<in> set (gr_Rules role). ruleAllows a rule)))"

lemma applies_from_iff: "snd (applies_from i user ss) \<longleftrightarrow> (\<exists>s \<in> set ss. appliesToUser user s)"
  by (induction ss arbitrary: i) auto

lemma visit_cases:
  "visit rego a v source policy rule err =
     (if policy \<noteq> [] \<and> rego a policy \<or> (\<exists>r. rule = Some r \<and> ruleAllows a r)
      then (False, v\<lparr>av_allowed := True, av_reason := ''RBAC: allowed by '' @ source\<rparr>)
      else (True, case err of None \<Rightarrow> v | Some e \<Rightarrow> v\<lparr>av_errors := av_errors v @ [e]\<rparr>))"
  by (cases rule) (auto simp: visit_def)

lemma visit_rules_iff:
  "visit_rules rego a source rs v =
     (if \<exists>r \<in> set rs. ruleAllows a r then (False, v\<lparr>av_allowed := True, av_reason := ''RBAC: allowed by '' @ source\<rparr>) else (True, v))"
  by (induction rs arbitrary: v) (auto simp: visit_cases)

lemma visit_bindings_iff:
  "\<not> av_allowed v \<Longrightarrow> av_allowed (visit_bindings rego am a bs v) \<longleftrightarrow> (\<exists>b \<in> set bs. grants rego am a b)"
proof (induction bs arbitrary: v)
  case (Cons b bs)
  let ?ap = "appliesTo (at_User a) (rb_Subjects b)"
  have ap: "snd ?ap \<longleftrightarrow> (\<exists>s \<in> set (rb_Subjects b). appliesToUser (at_User a) s)"
    by (simp add: appliesTo_def applies_from_iff)
  have none: "av_allowed (snd (visit rego a v [] [] None (Some e))) = False" for e
    using Cons.prems by (simp add: visit_cases)
  show ?case
  proof (cases "snd ?ap")
    case False
    then have "\<not> grants rego am a b" using ap by (simp add: grants_def)
    then show ?thesis using False Cons by (simp add: case_prod_beta)
  next
    case True
    show ?thesis
    proof (cases "getRoleReferenceRules am (rb_RoleRef b)")
      case (Inl e)
      then have "\<not> grants rego am a b"
        by (auto simp: grants_def getRoleReferenceRules_def split: if_splits sum.splits)
      then show ?thesis using Inl True Cons.IH none by (simp add: case_prod_beta)
    next
      case (Inr pr)
      obtain policy rules where pr: "pr = (policy, rules)" by (cases pr)
      have g: "grants rego am a b \<longleftrightarrow> policy \<noteq> [] \<and> rego a policy \<or> (\<exists>r \<in> set rules. ruleAllows a r)"
        using Inr pr True ap by (auto simp: grants_def getRoleReferenceRules_def Let_def split: if_splits sum.splits)
      show ?thesis using Inr pr True Cons g by (auto simp: case_prod_beta visit_cases visit_rules_iff Let_def)
    qed
  qed
qed simp

text \<open>
  Authorization.  A request is allowed exactly if some role binding names the user or one of the user's
  groups, refers to an existing global role, and the role's policy or one of its rules allows the
  request; in every other case, in particular if the bindings or a role cannot be read, there is no
  opinion, and a binding that cannot be resolved never hides one that grants.
\<close>

theorem authorize_iff:
  "fst (Authorize rego aggregate am a) =
     (if \<exists>bindings b. iam_ListRoleBindings am = Inr bindings \<and> b \<in> set bindings \<and> grants rego am a b
      then DecisionAllow else DecisionNoOpinion)"
proof (cases "iam_ListRoleBindings am")
  case (Inl e)
  then show ?thesis by (simp add: Authorize_def visitRulesFor_def visit_cases Let_def)
next
  case (Inr bs)
  have "av_allowed (visit_bindings rego am a bs \<lparr>av_allowed = False, av_reason = [], av_errors = []\<rparr>) \<longleftrightarrow> (\<exists>b \<in> set bs. grants rego am a b)"
    by (rule visit_bindings_iff) simp
  with Inr show ?thesis by (auto simp: Authorize_def visitRulesFor_def Let_def)
qed

lemma suffix_split: "suffix s p \<Longrightarrow> length p = length s + n \<Longrightarrow> p = take n p @ s"
  by (auto simp: suffix_def)

lemma wildcard_subresource:
  "length p = length s + 2 \<and> prefix ''*/'' p \<and> suffix s p \<longleftrightarrow> p = ''*/'' @ s"
proof
  assume l: "length p = length s + 2 \<and> prefix ''*/'' p \<and> suffix s p"
  then have "p = take 2 p @ s" using suffix_split by blast
  moreover have "take 2 p = ''*/''" using l by (auto simp: prefix_def)
  ultimately show "p = ''*/'' @ s" by metis
qed (auto simp: suffix_def)

lemma TrimRight_split: "\<exists>k. s = TrimRight s c @ replicate k c"
proof -
  have "rev s = takeWhile (\<lambda>x. x = c) (rev s) @ dropWhile (\<lambda>x. x = c) (rev s)" by simp
  then have "s = rev (dropWhile (\<lambda>x. x = c) (rev s)) @ rev (takeWhile (\<lambda>x. x = c) (rev s))" by (metis rev_append rev_rev_ident)
  moreover have "takeWhile (\<lambda>x. x = c) (rev s) = replicate (length (takeWhile (\<lambda>x. x = c) (rev s))) c"
    by (induction "rev s" rule: rev_induct) (metis (full_types) replicate_length_same set_takeWhileD)+
  ultimately show ?thesis unfolding TrimRight_def by (metis rev_replicate)
qed

lemma dropWhile_replicate: "dropWhile (\<lambda>x. x = c) (replicate k c @ xs) = dropWhile (\<lambda>x. x = c) xs"
  by (induction k) auto

lemma wildcard_url:
  "suffix ''*'' p \<and> prefix (TrimRight p (CHR ''*'')) url \<longleftrightarrow> (\<exists>base k. 0 < k \<and> p = base @ replicate k (CHR ''*'') \<and> prefix base url)"
proof
  assume l: "suffix ''*'' p \<and> prefix (TrimRight p (CHR ''*'')) url"
  obtain k where k: "p = TrimRight p (CHR ''*'') @ replicate k (CHR ''*'')" using TrimRight_split by blast
  have "k \<noteq> 0"
  proof
    assume "k = 0"
    then have "TrimRight p (CHR ''*'') = p" using k by simp
    moreover obtain z where z: "p = z @ ''*''" using l by (auto simp: suffix_def)
    have "length (TrimRight p (CHR ''*'')) \<le> length z"
      using length_dropWhile_le [of "\<lambda>x. x = CHR ''*''" "rev z"] unfolding TrimRight_def z by simp
    ultimately show False using z by simp
  qed
  with k l show "\<exists>base k. 0 < k \<and> p = base @ replicate k (CHR ''*'') \<and> prefix base url" by blast
next
  assume "\<exists>base k. 0 < k \<and> p = base @ replicate k (CHR ''*'') \<and> prefix base url"
  then obtain base k where b: "0 < k" "p = base @ replicate k (CHR ''*'')" "prefix base url" by blast
  have "p = (base @ replicate (k - 1) (CHR ''*'')) @ ''*''"
    using b(1,2) by (cases k) (simp_all add: replicate_append_same)
  then have "suffix ''*'' p" by (simp only: suffix_def) blast
  moreover have "TrimRight p (CHR ''*'') = TrimRight base (CHR ''*'')"
    using b(2) by (simp add: TrimRight_def dropWhile_replicate)
  moreover have "prefix (TrimRight base (CHR ''*'')) base" using TrimRight_split [of base "CHR ''*''"] by (metis prefixI)
  ultimately show "suffix ''*'' p \<and> prefix (TrimRight p (CHR ''*'')) url" using b(3) by (metis prefix_order.trans)
qed

text \<open>
  Rules.  A rule allows a resource request exactly if its verbs and groups contain the requested ones or
  the wildcard, one of its resources is the wildcard, the requested resource (with its subresource),
  or \<^verbatim>\<open>*/\<close> followed by the requested subresource, and it names no object or the requested one; it
  allows another request exactly if the verb matches and one of its URLs is the wildcard, the path,
  or a prefix of the path followed by stars.
\<close>

theorem rule_allows_iff:
  "ruleAllows a rule \<longleftrightarrow> (''*'' \<in> set (pr_Verbs rule) \<or> at_Verb a \<in> set (pr_Verbs rule)) \<and>
    (if at_ResourceRequest a then
       (''*'' \<in> set (pr_APIGroups rule) \<or> at_APIGroup a \<in> set (pr_APIGroups rule)) \<and>
       (''*'' \<in> set (pr_Resources rule) \<or>
        (if at_Subresource a = [] then at_Resource a \<in> set (pr_Resources rule)
         else at_Resource a @ ''/'' @ at_Subresource a \<in> set (pr_Resources rule) \<or> ''*/'' @ at_Subresource a \<in> set (pr_Resources rule))) \<and>
       (pr_ResourceNames rule = [] \<or> at_Name a \<in> set (pr_ResourceNames rule))
     else ''*'' \<in> set (pr_NonResourceURLs rule) \<or> at_Path a \<in> set (pr_NonResourceURLs rule) \<or>
       (\<exists>base k. 0 < k \<and> base @ replicate k (CHR ''*'') \<in> set (pr_NonResourceURLs rule) \<and> prefix base (at_Path a)))"
proof -
  have url: "NonResourceURLMatches rule p \<longleftrightarrow> ''*'' \<in> set (pr_NonResourceURLs rule) \<or> p \<in> set (pr_NonResourceURLs rule) \<or>
     (\<exists>base k. 0 < k \<and> base @ replicate k (CHR ''*'') \<in> set (pr_NonResourceURLs rule) \<and> prefix base p)" for p
    unfolding NonResourceURLMatches_def list_ex_iff wildcard_url by blast
  have res: "ResourceMatches rule c sub \<longleftrightarrow> ''*'' \<in> set (pr_Resources rule) \<or> c \<in> set (pr_Resources rule) \<or>
     sub \<noteq> [] \<and> ''*/'' @ sub \<in> set (pr_Resources rule)" for c sub
    unfolding ResourceMatches_def list_ex_iff wildcard_subresource by blast
  show ?thesis
    unfolding ruleAllows_def Let_def res url VerbMatches_def APIGroupMatches_def ResourceNameMatches_def list_ex_iff by auto
qed

end
