(* ===== verification/Query_Page.thy ===== *)
theory Query_Page
  imports Op_Handler_Props
begin

text \<open>
  List queries of the API (\<^verbatim>\<open>pkg/query/query.go\<close>) and the generic paged lists (\<^verbatim>\<open>pkg/models/models.go\<close>).  A request
  is the list of its query parameters.  Go's \<^verbatim>\<open>int\<close> has 64 bits here.  A slice expression with bounds
  out of range panics.
\<close>

subsection \<open>Queries\<close>

definition PagingParam :: string where "PagingParam = ''paging''"
definition ParameterLabelSelector :: string where "ParameterLabelSelector = ''labelSelector''"
definition ParameterFieldSelector :: string where "ParameterFieldSelector = ''fieldSelector''"
definition ParameterContinue :: string where "ParameterContinue = ''continue''"
definition ParameterLimit :: string where "ParameterLimit = ''limit''"
definition ParameterWatch :: string where "ParameterWatch = ''watch''"
definition ParameterAllowWatchBookMark :: string where "ParameterAllowWatchBookMark = ''allowWatchBookmarks''"
definition ParameterResourceVersion :: string where "ParameterResourceVersion = ''resourceVersion''"
definition ParameterResourceVersionMatch :: string where "ParameterResourceVersionMatch = ''resourceVersionMatch''"
definition ParameterTimeoutSeconds :: string where "ParameterTimeoutSeconds = ''timeoutSeconds''"
definition ParamReverse :: string where "ParamReverse = ''reverse''"
definition ParameterFuzzySearch :: string where "ParameterFuzzySearch = ''fuzzy''"
definition DefaultLimit :: int where "DefaultLimit = 10"
definition DefaultPage :: int where "DefaultPage = 1"

record Pagination =
  pg_Limit :: int
  pg_Offset :: int

definition newPagination :: "int \<Rightarrow> int \<Rightarrow> Pagination" where
  "newPagination limit offset = \<lparr>pg_Limit = limit, pg_Offset = offset\<rparr>"

definition NoPagination :: Pagination where "NoPagination = newPagination (- 1) 0"

definition GetValidPagination :: "Pagination \<Rightarrow> int \<Rightarrow> int \<times> int" where
  "GetValidPagination p totalCount =
     (if pg_Limit p = pg_Limit NoPagination then (0, totalCount)
      else if pg_Limit p < 0 \<or> pg_Offset p < 0 \<or> pg_Offset p > totalCount then (0, 0)
      else let startIndex = pg_Offset p; endIndex = int64 (startIndex + pg_Limit p)
           in (startIndex, if endIndex > totalCount then totalCount else endIndex))"

record Query =
  q_Pagination :: "Pagination option"
  q_TimeoutSeconds :: "int option"
  q_ResourceVersion :: string
  q_Watch :: bool
  q_LabelSelector :: string
  q_FieldSelector :: string
  q_Continue :: string
  q_Limit :: int
  q_Reverse :: bool
  q_OrderBy :: string
  q_DryRun :: string
  q_AllowWatchBookmarks :: bool
  q_ResourceVersionMatch :: string
  q_FuzzySearch :: "(string \<rightharpoonup> string) option"

definition query_New :: Query where
  "query_New = \<lparr>q_Pagination = Some NoPagination, q_TimeoutSeconds = None, q_ResourceVersion = [], q_Watch = False,
     q_LabelSelector = [], q_FieldSelector = [], q_Continue = [], q_Limit = 0, q_Reverse = False, q_OrderBy = [], q_DryRun = [],
     q_AllowWatchBookmarks = False, q_ResourceVersionMatch = [], q_FuzzySearch = None\<rparr>"

subsection \<open>Selectors\<close>

definition HasLabelSelector :: "Query \<Rightarrow> string \<Rightarrow> bool" where
  "HasLabelSelector q selector = list_ex (\<lambda>v. v = selector) (splitOn (CHR '','') [] (q_LabelSelector q))"

fun add_selectors :: "string list \<Rightarrow> Query \<Rightarrow> Query" where
  "add_selectors [] q = q"
| "add_selectors (s # ss) q =
     add_selectors ss (if HasLabelSelector q s then q else q\<lparr>q_LabelSelector := q_LabelSelector q @ '','' @ s\<rparr>)"

definition AddLabelSelector :: "Query \<Rightarrow> string list \<Rightarrow> Query" where
  "AddLabelSelector q selectors =
     (if q_LabelSelector q = [] then q\<lparr>q_LabelSelector := Join selectors '',''\<rparr> else add_selectors selectors q)"

text \<open>A selector that cannot be parsed selects everything; the parsers of Kubernetes are arguments.\<close>

definition GetLabelSelector :: "(string \<Rightarrow> goerr + 's) \<Rightarrow> 's \<Rightarrow> Query \<Rightarrow> 's" where
  "GetLabelSelector parse everything q = (case parse (q_LabelSelector q) of Inl _ \<Rightarrow> everything | Inr s \<Rightarrow> s)"

definition GetFieldSelector :: "(string \<Rightarrow> goerr + 's) \<Rightarrow> 's \<Rightarrow> Query \<Rightarrow> 's" where
  "GetFieldSelector parse everything q = (case parse (q_FieldSelector q) of Inl _ \<Rightarrow> everything | Inr s \<Rightarrow> s)"

subsection \<open>Parsing a request\<close>

definition AtoiOrDefault :: "string \<Rightarrow> int \<Rightarrow> int" where
  "AtoiOrDefault str defVal = (case ParseInt str of Some result \<Rightarrow> result | None \<Rightarrow> defVal)"

definition GetBoolValueWithDefault :: "(string \<times> string) list \<Rightarrow> string \<Rightarrow> bool \<Rightarrow> bool" where
  "GetBoolValueWithDefault req name dv = (case ParseBool (values_Get req name) of Some v \<Rightarrow> v | None \<Rightarrow> dv)"

definition getBoolWithDefault :: "string \<Rightarrow> bool \<Rightarrow> bool" where
  "getBoolWithDefault val dv = (if val = [] then dv else case ParseBool val of Some v \<Rightarrow> v | None \<Rightarrow> dv)"

definition GetInt64ValueWithDefault :: "(string \<times> string) list \<Rightarrow> string \<Rightarrow> int \<Rightarrow> int" where
  "GetInt64ValueWithDefault req name dv = (case ParseInt (values_Get req name) of Some v \<Rightarrow> v | None \<Rightarrow> dv)"

definition GetIntValueWithDefault :: "(string \<times> string) list \<Rightarrow> string \<Rightarrow> int \<Rightarrow> int" where
  "GetIntValueWithDefault req name dv = (case ParseInt (values_Get req name) of Some v \<Rightarrow> v | None \<Rightarrow> dv)"

definition GetStringValueWithDefault :: "(string \<times> string) list \<Rightarrow> string \<Rightarrow> string \<Rightarrow> string" where
  "GetStringValueWithDefault req name dv = (let v = values_Get req name in if v = [] then dv else v)"

definition NewFromRawQuery :: "(string \<times> string) list \<Rightarrow> Query" where
  "NewFromRawQuery rawQuery =
     (if rawQuery = [] then query_New
      else query_New\<lparr>q_FieldSelector := values_Get rawQuery ParameterFieldSelector,
             q_LabelSelector := values_Get rawQuery ParameterLabelSelector,
             q_Watch := getBoolWithDefault (values_Get rawQuery ParameterWatch) False\<rparr>)"

text \<open>The groups of the expression \<^verbatim>\<open>^limit=(-?\d+),page=(\d+)$\<close>.\<close>

definition pagingGroups :: "string \<Rightarrow> (string \<times> string) option" where
  "pagingGroups s =
     (if \<not> prefix ''limit='' s then None
      else let r = drop 6 s;
               sign = (if prefix ''-'' r then ''-'' else []);
               r1 = drop (length sign) r;
               d1 = takeWhile is_digit r1;
               r2 = dropWhile is_digit r1;
               d2 = drop 6 r2
           in if d1 \<noteq> [] \<and> prefix '',page='' r2 \<and> d2 \<noteq> [] \<and> list_all is_digit d2 then Some (sign @ d1, d2) else None)"

definition ParsePaging :: "(string \<times> string) list \<Rightarrow> int \<times> int" where
  "ParsePaging req =
     (let paging = values_Get req PagingParam;
          (limit, page) =
            (if paging \<noteq> [] then
               (case pagingGroups paging of
                  Some (g1, g2) \<Rightarrow> (AtoiOrDefault g1 DefaultLimit, AtoiOrDefault g2 DefaultPage)
                | None \<Rightarrow> (10, DefaultPage))
             else (AtoiOrDefault (values_Get req ''limit'') DefaultLimit, AtoiOrDefault (values_Get req ''page'') DefaultPage))
      in (limit, int64 (int64 (page - 1) * limit)))"

text \<open>\<^verbatim>\<open>parseFuzzy\<close> cuts the conditions at the commas and each of them at its first tilde; a later one overrides.\<close>

definition fuzzyPair :: "string \<Rightarrow> (string \<times> string) option" where
  "fuzzyPair key = (if CHR ''~'' \<in> set key then Some (takeWhile (\<lambda>c. c \<noteq> CHR ''~'') key, tl (dropWhile (\<lambda>c. c \<noteq> CHR ''~'') key)) else None)"

function fuzzy_loop :: "string \<Rightarrow> (string \<rightharpoonup> string) \<Rightarrow> (string \<rightharpoonup> string)" where
  "fuzzy_loop conditionsStr fuzzy =
     (if conditionsStr = [] then fuzzy
      else (let key = takeWhile (\<lambda>c. c \<noteq> CHR '','') conditionsStr;
                rest = tl (dropWhile (\<lambda>c. c \<noteq> CHR '','') conditionsStr)
            in fuzzy_loop rest (case fuzzyPair key of None \<Rightarrow> fuzzy | Some (k, v) \<Rightarrow> fuzzy(k \<mapsto> v))))"
  by pat_completeness auto

termination fuzzy_loop
proof (relation "measure (\<lambda>(s, _). length s)")
  show "wf (measure (\<lambda>(s :: string, _ :: string \<rightharpoonup> string). length s))" by simp
next
  fix s :: string and fuzzy :: "string \<rightharpoonup> string" and key rest
  assume "s \<noteq> []" "rest = tl (dropWhile (\<lambda>c. c \<noteq> CHR '','') s)"
  then show "((rest, case fuzzyPair key of None \<Rightarrow> fuzzy | Some (k, v) \<Rightarrow> fuzzy(k \<mapsto> v)), s, fuzzy) \<in> measure (\<lambda>(s, _). length s)"
    using length_dropWhile_le [of "\<lambda>c. c \<noteq> CHR '',''" s] by (cases s) auto
qed

declare fuzzy_loop.simps [simp del]

definition parseFuzzy :: "string \<Rightarrow> (string \<rightharpoonup> string) option" where
  "parseFuzzy conditionsStr = (if conditionsStr = [] then None else Some (fuzzy_loop conditionsStr Map.empty))"

definition ParseQueryParameter :: "(string \<times> string) list \<Rightarrow> Query" where
  "ParseQueryParameter req =
     (let (limit, offset) = ParsePaging req;
          watch = GetBoolValueWithDefault req ParameterWatch False;
          ts = values_Get req ParameterTimeoutSeconds
      in query_New\<lparr>q_Pagination := Some (newPagination limit offset),
           q_LabelSelector := values_Get req ParameterLabelSelector, q_FieldSelector := values_Get req ParameterFieldSelector,
           q_Watch := watch, q_ResourceVersion := values_Get req ParameterResourceVersion,
           q_Reverse := GetBoolValueWithDefault req ParamReverse False,
           q_AllowWatchBookmarks := (if watch then GetBoolValueWithDefault req ParameterAllowWatchBookMark False else False),
           q_Limit := GetInt64ValueWithDefault req ParameterLimit 0, q_Continue := values_Get req ParameterContinue,
           q_ResourceVersionMatch := values_Get req ParameterResourceVersionMatch,
           q_TimeoutSeconds := (if ts \<noteq> [] then ParseInt ts else None),
           q_FuzzySearch := parseFuzzy (values_Get req ParameterFuzzySearch)\<rparr>)"

subsection \<open>Paged lists\<close>

definition DefaultCompareFunc :: "('o \<Rightarrow> ObjectMeta) \<Rightarrow> 'o \<Rightarrow> 'o \<Rightarrow> string \<Rightarrow> bool" where
  "DefaultCompareFunc meta left right orderBy =
     (if m_CreationTimestamp (meta left) = m_CreationTimestamp (meta right) then m_Name (meta right) < m_Name (meta left)
      else m_CreationTimestamp (meta right) < m_CreationTimestamp (meta left))"

definition slice :: "'o list \<Rightarrow> int \<Rightarrow> int \<Rightarrow> goerr + 'o list" where
  "slice xs lo hi =
     (if 0 \<le> lo \<and> lo \<le> hi \<and> hi \<le> int (length xs) then Inr (take (nat (hi - lo)) (drop (nat lo) xs))
      else Inl (Panic ''slice bounds out of range''))"

record 'i PageableResponse =
  pr_Items :: "'i list"
  pr_TotalCount :: nat

definition DefaultList :: "('o \<Rightarrow> 'o \<Rightarrow> string \<Rightarrow> bool) \<Rightarrow> ('o \<Rightarrow> 'i) \<Rightarrow> ('l \<Rightarrow> Query \<Rightarrow> 'o list) \<Rightarrow> 'l \<Rightarrow> Query \<Rightarrow>
    goerr + 'i PageableResponse" where
  "DefaultList compareFunc mutatingFunc litToSlice object q =
     (let objs = litToSlice object q;
          sorted_objs = go_sort (\<lambda>x y. if q_Reverse q then \<not> compareFunc x y (q_OrderBy q) else compareFunc x y (q_OrderBy q)) objs
      in case q_Pagination q of
           None \<Rightarrow> Inl (Panic ''nil pointer dereference'')
         | Some p \<Rightarrow>
             (case GetValidPagination p (int (length objs)) of
                (start, stop) \<Rightarrow>
                  (case slice sorted_objs start stop of
                     Inl err \<Rightarrow> Inl err
                   | Inr items \<Rightarrow> Inr \<lparr>pr_Items = map mutatingFunc items, pr_TotalCount = length objs\<rparr>)))"

definition ListExV2 :: "(Query \<Rightarrow> goerr + 'l) \<Rightarrow> ('o \<Rightarrow> 'o \<Rightarrow> string \<Rightarrow> bool) \<Rightarrow> ('o \<Rightarrow> 'i) \<Rightarrow> ('l \<Rightarrow> Query \<Rightarrow> 'o list) \<Rightarrow> Query \<Rightarrow>
    goerr + 'i PageableResponse" where
  "ListExV2 list compareFunc mutatingFunc litToSlice q =
     (case list q of
        Inl err \<Rightarrow> Inl err
      | Inr object \<Rightarrow> DefaultList compareFunc mutatingFunc litToSlice object q)"

definition DefaultListMerge :: "('o \<Rightarrow> 'o \<Rightarrow> string \<Rightarrow> bool) \<Rightarrow> ('o \<Rightarrow> 'i) \<Rightarrow> ('l \<Rightarrow> Query \<Rightarrow> 'o list) \<Rightarrow> 'l list \<Rightarrow>
    goerr + 'i PageableResponse" where
  "DefaultListMerge compareFunc mutatingFunc litToSlice objects =
     DefaultList compareFunc mutatingFunc (\<lambda>ls q. concat (map (\<lambda>l. litToSlice l q) ls)) objects query_New"

subsection \<open>Pages\<close>

lemma GetValidPagination_bounds:
  assumes "GetValidPagination p n = (lo, hi)" "0 \<le> n" "n \<le> MaxInt64" "pg_Limit p \<le> MaxInt64 - pg_Offset p"
  shows "0 \<le> lo \<and> lo \<le> hi \<and> hi \<le> n"
proof -
  have "int64 (pg_Offset p + pg_Limit p) = pg_Offset p + pg_Limit p" if "0 \<le> pg_Limit p" "0 \<le> pg_Offset p"
    using that assms(4) by (intro int64_id) (auto simp: MinInt64_def)
  then show ?thesis using assms(1,2)
    by (cases "pg_Limit p < 0"; cases "pg_Offset p < 0") (auto simp: GetValidPagination_def Let_def NoPagination_def newPagination_def split: if_splits)
qed

lemma GetValidPagination_page:
  assumes "0 \<le> off" "0 < l" "off + l \<le> MaxInt64" "0 \<le> n"
  shows "GetValidPagination (newPagination l off) n = (if off \<le> n then (off, min n (off + l)) else (0, 0))"
proof -
  have "int64 (off + l) = off + l" using assms(1-3) int64_id [of "off + l"] unfolding MinInt64_def by linarith
  then show ?thesis using assms
    by (auto simp: GetValidPagination_def Let_def NoPagination_def newPagination_def)
qed

lemma slice_page:
  assumes "0 < l"
  shows "(case (if int k * int l \<le> int (length xs) then (int k * int l, min (int (length xs)) (int k * int l + int l)) else (0, 0)) of
     (lo, hi) \<Rightarrow> slice xs lo hi) = Inr (take l (drop (k * l) xs))"
proof (cases "k * l \<le> length xs")
  case True
  then have t: "int k * int l \<le> int (length xs)" by (metis of_nat_le_iff of_nat_mult)
  have n: "nat (int k * int l) = k * l" by (simp add: nat_mult_distrib)
  have m: "nat (min (int (length xs)) (int k * int l + int l) - int k * int l) = min (length xs - k * l) l"
    using True by (simp add: min_def n nat_diff_distrib' of_nat_mult [symmetric] del: of_nat_mult) linarith
  have "take (min (length xs - k * l) l) (drop (k * l) xs) = take l (drop (k * l) xs)" by (simp add: min_def)
  then show ?thesis using t assms by (simp add: slice_def n m)
next
  case False
  then have "\<not> int k * int l \<le> int (length xs)" by (metis of_nat_le_iff of_nat_mult)
  then show ?thesis using False by (simp add: slice_def)
qed

lemma concat_pages: "concat (map (\<lambda>k. take l (drop (k * l) xs)) [0..<n]) = take (n * l) xs"
proof (induction n)
  case (Suc n)
  have "take (Suc n * l) xs = take (n * l) xs @ take l (drop (n * l) xs)" using take_add [of "n * l" l xs] by (simp add: add.commute)
  with Suc show ?case by simp
qed simp

lemma ParseInt_show_int:
  assumes "MinInt64 \<le> i" "i \<le> MaxInt64"
  shows "ParseInt (show_int i) = Some i"
proof (cases "i < 0")
  case True
  then have "nat (- i) < 18446744073709551616" "nat (- i) \<le> 9223372036854775808" using assms by (auto simp: MinInt64_def)
  then show ?thesis using True by (simp add: ParseInt_def show_int_def ParseUint_show_nat)
next
  case False
  obtain c r where cr: "show_nat (nat i) = c # r" using show_nat_digits [of "nat i"] by (cases "show_nat (nat i)") auto
  then have "is_digit c" using show_nat_digits [of "nat i"] by simp
  then have "c \<noteq> CHR ''-''" "c \<noteq> CHR ''+''" by (auto simp: is_digit_def)
  moreover have "ParseUint (c # r) = Some (nat i)" using False assms cr ParseUint_show_nat [of "nat i"] by (simp add: MaxInt64_def)
  moreover have "\<not> 9223372036854775808 \<le> nat i" using False assms(2) by (simp add: MaxInt64_def)
  ultimately show ?thesis using False by (simp add: ParseInt_def show_int_def cr)
qed

text \<open>The request for page \<open>Suc k\<close> with \<open>l\<close> items per page.\<close>

definition page_request :: "nat \<Rightarrow> nat \<Rightarrow> (string \<times> string) list" where
  "page_request l k = [(''limit'', show_int (int l)), (''page'', show_int (int (Suc k)))]"

lemma ParsePaging_page:
  assumes "int k * int l \<le> MaxInt64" "int l \<le> MaxInt64" "int (Suc k) \<le> MaxInt64"
  shows "ParsePaging (page_request l k) = (int l, int k * int l)"
proof -
  have "int64 (int k) = int k" using assms by (intro int64_id) (auto simp: MinInt64_def)
  moreover have "int64 (int k * int l) = int k * int l"
    using assms by (intro int64_id) (auto simp: MinInt64_def intro: order.trans [of _ 0])
  moreover have "ParseInt (show_int (int l)) = Some (int l)" "ParseInt (show_int (int (Suc k))) = Some (int (Suc k))"
    using assms by (intro ParseInt_show_int; simp add: MinInt64_def)+
  ultimately show ?thesis
    by (simp add: ParsePaging_def page_request_def values_Get_def PagingParam_def AtoiOrDefault_def Let_def)
qed

lemma compare_linear:
  assumes "inj_on (\<lambda>x. m_Name (meta x)) A"
  shows "strict_linear_on A (\<lambda>x y. DefaultCompareFunc meta x y ob)"
  using assms unfolding strict_linear_on_def DefaultCompareFunc_def inj_on_def
  by (auto split: if_splits) (metis not_less_iff_gr_or_eq)+

text \<open>
  Pages of a list.  Requesting the pages of a list one after the other, with any page size, until they cover the
  list gives all selected objects exactly once, the newest first and by name among objects of the
  same second, and every page tells the total number.
\<close>

theorem pages_complete:
  assumes "0 < l" "length objs \<le> n * l" "int n * int l \<le> MaxInt64" "inj_on (\<lambda>x. m_Name (meta x)) (set objs)" "distinct objs"
    and "\<And>k. k < n \<Longrightarrow> litToSlice object (ParseQueryParameter (page_request l k)) = objs"
  shows "\<exists>chunks sorted_objs.
    map (\<lambda>k. DefaultList (DefaultCompareFunc meta) mutate litToSlice object (ParseQueryParameter (page_request l k))) [0..<n] =
      map (\<lambda>c. Inr \<lparr>pr_Items = map mutate c, pr_TotalCount = length objs\<rparr>) chunks \<and>
    concat chunks = sorted_objs \<and> mset sorted_objs = mset objs \<and>
    sorted_wrt (\<lambda>x y. DefaultCompareFunc meta x y []) sorted_objs"
proof -
  let ?s = "go_sort (\<lambda>x y. DefaultCompareFunc meta x y []) objs"
  let ?c = "map (\<lambda>k. take l (drop (k * l) ?s)) [0..<n]"
  have page: "DefaultList (DefaultCompareFunc meta) mutate litToSlice object (ParseQueryParameter (page_request l k)) =
      Inr \<lparr>pr_Items = map mutate (take l (drop (k * l) ?s)), pr_TotalCount = length objs\<rparr>" if k: "k < n" for k
  proof -
    have "int (Suc k) * int l \<le> int n * int l" using k by (intro mult_right_mono) auto
    then have kl: "int k * int l + int l \<le> MaxInt64" using assms(3) by (simp add: algebra_simps)
    have "int (Suc k) \<le> int (Suc k) * int l" using assms(1) by (simp del: of_nat_Suc)
    then have ks: "int (Suc k) \<le> MaxInt64" using kl by (simp add: algebra_simps)
    have "0 \<le> int k * int l" by simp
    then have pg: "ParsePaging (page_request l k) = (int l, int k * int l)" using kl ks by (intro ParsePaging_page) linarith+
    have rev: "GetBoolValueWithDefault (page_request l k) ParamReverse False = False"
      by (simp add: GetBoolValueWithDefault_def page_request_def values_Get_def ParamReverse_def ParseBool_def)
    have q: "q_Pagination (ParseQueryParameter (page_request l k)) = Some (newPagination (int l) (int k * int l))"
      "q_Reverse (ParseQueryParameter (page_request l k)) = False" "q_OrderBy (ParseQueryParameter (page_request l k)) = []"
      by (simp_all add: ParseQueryParameter_def pg rev Let_def query_New_def)
    let ?v = "GetValidPagination (newPagination (int l) (int k * int l)) (int (length objs))"
    have "?v = (if int k * int l \<le> int (length ?s) then (int k * int l, min (int (length ?s)) (int k * int l + int l)) else (0, 0))"
      using GetValidPagination_page [of "int k * int l" "int l" "int (length objs)"] kl assms(1) by simp
    then have "slice ?s (fst ?v) (snd ?v) = Inr (take l (drop (k * l) ?s))"
      using slice_page [OF assms(1), where k = k and xs = ?s] by (simp only: case_prod_beta)
    then show ?thesis unfolding DefaultList_def Let_def assms(6) [OF k] q option.case case_prod_beta by simp
  qed
  have all: "map (\<lambda>k. DefaultList (DefaultCompareFunc meta) mutate litToSlice object (ParseQueryParameter (page_request l k))) [0..<n] =
      map (\<lambda>c. Inr \<lparr>pr_Items = map mutate c, pr_TotalCount = length objs\<rparr>) ?c"
    unfolding map_map o_def by (rule map_cong [OF refl]) (use page in simp)
  have "concat ?c = ?s" using assms(2) by (simp add: concat_pages)
  moreover have "sorted_wrt (\<lambda>x y. DefaultCompareFunc meta x y []) ?s"
    by (rule sorted_go_sort_strict [OF compare_linear [OF assms(4)] assms(5)])
  ultimately show ?thesis using all mset_go_sort by blast
qed

text \<open>The product of page and limit wraps; it can come out as a small offset, and then the end of the page is negative.\<close>

lemma paging_overflow_panics:
  "DefaultList (\<lambda>x y _. x < y) id (\<lambda>xs _. xs) [1, 2, 3, 4 :: nat]
     (ParseQueryParameter [(''limit'', ''9223372036854775807''), (''page'', ''9223372036854775806'')]) =
   Inl (Panic ''slice bounds out of range'')"
  by code_simp

definition two_metas :: "ObjectMeta list" where
  "two_metas = [sample_meta ''a'' ''1'' ''1'', sample_meta ''b'' ''2'' ''2'']"

theorem pages_complete_witness:
  "\<exists>chunks. map (\<lambda>k. DefaultList (DefaultCompareFunc id) m_Name (\<lambda>xs _. xs) two_metas (ParseQueryParameter (page_request 1 k))) [0..<2] =
     map (\<lambda>c. Inr \<lparr>pr_Items = map m_Name c, pr_TotalCount = length two_metas\<rparr>) chunks \<and> mset (concat chunks) = mset two_metas"
proof -
  have o: "inj_on (\<lambda>x. m_Name (id x)) (set two_metas)" "distinct two_metas" "length two_metas \<le> 2 * 1"
    by (auto simp: two_metas_def sample_meta_def empty_meta_def)
  have n: "int 2 * int 1 \<le> MaxInt64" by (simp add: MaxInt64_def)
  show ?thesis
    using pages_complete [where litToSlice = "\<lambda>xs _. xs" and object = two_metas and mutate = m_Name, OF zero_less_one o(3) n o(1,2) refl]
    by metis
qed

lemma append_selector:
  "CHR '','' \<notin> set s \<Longrightarrow> HasLabelSelector (q\<lparr>q_LabelSelector := q_LabelSelector q @ '','' @ s\<rparr>) x \<longleftrightarrow> HasLabelSelector q x \<or> x = s"
  by (auto simp: HasLabelSelector_def list_ex_iff splitOn_append splitOn_no)

lemma add_selectors_iff:
  assumes "\<forall>s \<in> set ss. CHR '','' \<notin> set s"
  shows "HasLabelSelector (add_selectors ss q) x \<longleftrightarrow> HasLabelSelector q x \<or> x \<in> set ss"
  using assms
proof (induction ss arbitrary: q)
  case (Cons s ss)
  then show ?case using append_selector [of s q x] by auto
qed simp

text \<open>
  Selectors accumulate.  After label requirements without commas have been added to a query, its requirements are
  exactly those it had before and the added ones: none is lost, none is invented, and a query without
  selector gets just the added ones.
\<close>

theorem selectors_accumulate:
  assumes "\<forall>s \<in> set ss. CHR '','' \<notin> set s" "ss \<noteq> []"
  shows "HasLabelSelector (AddLabelSelector q ss) x \<longleftrightarrow> q_LabelSelector q \<noteq> [] \<and> HasLabelSelector q x \<or> x \<in> set ss"
proof (cases "q_LabelSelector q = []")
  case True
  then show ?thesis using splitOn_Join [OF assms] by (auto simp: AddLabelSelector_def HasLabelSelector_def list_ex_iff)
next
  case False
  then show ?thesis using add_selectors_iff [OF assms(1)] by (simp add: AddLabelSelector_def)
qed

theorem selectors_accumulate_witness:
  "HasLabelSelector (AddLabelSelector (query_New\<lparr>q_LabelSelector := ''a=1,b''\<rparr>) [''b'', ''c!=2'']) ''c!=2''"
  using selectors_accumulate [of "[''b'', ''c!=2'']"] by simp

end
