(* ===== verification/Node_Monitor.thy ===== *)
theory Node_Monitor
  imports Op_Handler_Props
begin

text \<open>
  The health of nodes (\<^verbatim>\<open>pkg/controller/node_status.go\<close>) and their roles (\<^verbatim>\<open>pkg/controller/nodecontroller\<close>).  The monitor
  keeps, per node, what it last saw and when; a node of which neither the status nor the lease has
  been renewed for the grace period gets the condition \<^verbatim>\<open>Ready = Unknown\<close>.  Of a node the model has
  what these controllers read and write.  The clock is a function of the number of the reading, in
  the order of the calls.
\<close>

subsection \<open>Data\<close>

definition NodeReady :: string where "NodeReady = ''Ready''"
definition ConditionUnknown :: string where "ConditionUnknown = ''Unknown''"
definition nodeStartupGracePeriod :: duration where "nodeStartupGracePeriod = 1 * Minute"
definition nodeMonitorGracePeriod :: duration where "nodeMonitorGracePeriod = 4 * Minute"

record NodeCondition =
  nc_Type :: string
  nc_Status :: string
  nc_LastHeartbeatTime :: gotime
  nc_LastTransitionTime :: gotime
  nc_Reason :: string
  nc_Message :: string

record MonNode =
  mn_Name :: string
  mn_CreationTimestamp :: gotime
  mn_Conditions :: "NodeCondition list"
  mn_Labels :: "(string \<times> string) list"

record Lease =
  le_RenewTime :: "gotime option"

record nodeHealthData =
  nh_probeTimestamp :: gotime
  nh_readyTransitionTimestamp :: gotime
  nh_status :: "NodeCondition list"
  nh_lease :: "Lease option"

type_synonym nodeHealthMap = "string \<rightharpoonup> nodeHealthData"

definition GetNodeCondition :: "NodeCondition list \<Rightarrow> string \<Rightarrow> NodeCondition option" where
  "GetNodeCondition conditions conditionType = find (\<lambda>c. nc_Type c = conditionType) conditions"

text \<open>The assignments through the pointer that \<^verbatim>\<open>GetNodeCondition\<close> returns change the first condition of the type.\<close>

fun set_condition :: "(NodeCondition \<Rightarrow> NodeCondition) \<Rightarrow> string \<Rightarrow> NodeCondition list \<Rightarrow> NodeCondition list" where
  "set_condition f ty [] = []"
| "set_condition f ty (c # cs) = (if nc_Type c = ty then f c # cs else c # set_condition f ty cs)"

definition time_before :: "gotime option \<Rightarrow> gotime option \<Rightarrow> bool" where
  "time_before t u = (case (t, u) of (Some x, Some y) \<Rightarrow> x < y | _ \<Rightarrow> False)"

subsection \<open>The monitor\<close>

text \<open>
  The first part of \<^verbatim>\<open>tryUpdateNodeHealth\<close>: what is remembered of the node, given what was saved.  The flag tells whether
  the remembered status is the status of the node object itself, so that later changes of the object
  show in it.
\<close>

definition freshHealth :: "(nat \<Rightarrow> gotime) \<Rightarrow> MonNode \<Rightarrow> nodeHealthData" where
  "freshHealth now node = \<lparr>nh_probeTimestamp = now 0, nh_readyTransitionTimestamp = now 1, nh_status = mn_Conditions node, nh_lease = None\<rparr>"

definition observe :: "(nat \<Rightarrow> gotime) \<Rightarrow> MonNode \<Rightarrow> nodeHealthData option \<Rightarrow> nodeHealthData \<times> bool" where
  "observe now node saved =
     (case GetNodeCondition (mn_Conditions node) NodeReady of
        None \<Rightarrow>
          (case saved of
             Some h \<Rightarrow> (h\<lparr>nh_status := mn_Conditions node\<rparr>, True)
           | None \<Rightarrow> (\<lparr>nh_probeTimestamp = mn_CreationTimestamp node, nh_readyTransitionTimestamp = mn_CreationTimestamp node,
               nh_status = mn_Conditions node, nh_lease = None\<rparr>, True))
      | Some current \<Rightarrow>
          (case saved of
             None \<Rightarrow> (freshHealth now node, True)
           | Some h \<Rightarrow>
               (case GetNodeCondition (nh_status h) NodeReady of
                  None \<Rightarrow> (freshHealth now node, True)
                | Some savedCondition \<Rightarrow>
                    if nc_LastHeartbeatTime savedCondition \<noteq> nc_LastHeartbeatTime current
                    then (\<lparr>nh_probeTimestamp = now 1,
                           nh_readyTransitionTimestamp =
                             (if nc_LastTransitionTime savedCondition \<noteq> nc_LastTransitionTime current then now 0
                              else nh_readyTransitionTimestamp h),
                           nh_status = mn_Conditions node, nh_lease = None\<rparr>, True)
                    else (h, False))))"

definition observedReady :: "MonNode \<Rightarrow> NodeCondition" where
  "observedReady node =
     (case GetNodeCondition (mn_Conditions node) NodeReady of
        None \<Rightarrow> \<lparr>nc_Type = NodeReady, nc_Status = ConditionUnknown, nc_LastHeartbeatTime = mn_CreationTimestamp node,
                 nc_LastTransitionTime = mn_CreationTimestamp node, nc_Reason = [], nc_Message = []\<rparr>
      | Some c \<Rightarrow> c)"

definition gracePeriodOf :: "MonNode \<Rightarrow> duration" where
  "gracePeriodOf node =
     (case GetNodeCondition (mn_Conditions node) NodeReady of None \<Rightarrow> nodeStartupGracePeriod | Some _ \<Rightarrow> nodeMonitorGracePeriod)"

definition renewed :: "nodeHealthData option \<Rightarrow> Lease option \<Rightarrow> bool" where
  "renewed saved observedLease =
     (case observedLease of
        None \<Rightarrow> False
      | Some l \<Rightarrow>
          (case (case saved of None \<Rightarrow> None | Some h \<Rightarrow> nh_lease h) of
             None \<Rightarrow> True
           | Some s \<Rightarrow> time_before (le_RenewTime s) (le_RenewTime l)))"

definition markUnknown :: "gotime \<Rightarrow> MonNode \<Rightarrow> MonNode" where
  "markUnknown nowTimestamp node =
     (case GetNodeCondition (mn_Conditions node) NodeReady of
        None \<Rightarrow> node\<lparr>mn_Conditions := mn_Conditions node @ [\<lparr>nc_Type = NodeReady, nc_Status = ConditionUnknown,
                  nc_LastHeartbeatTime = mn_CreationTimestamp node, nc_LastTransitionTime = nowTimestamp,
                  nc_Reason = ''NodeStatusNeverUpdated'', nc_Message = ''KcAgent never posted node status.''\<rparr>]\<rparr>
      | Some c \<Rightarrow>
          if nc_Status c \<noteq> ConditionUnknown
          then node\<lparr>mn_Conditions := set_condition (\<lambda>x. x\<lparr>nc_Status := ConditionUnknown, nc_Reason := ''NodeStatusUnknown'',
                 nc_Message := ''KcAgent stopped posting node status.'', nc_LastTransitionTime := nowTimestamp\<rparr>) NodeReady (mn_Conditions node)\<rparr>
          else node)"

definition tryUpdateNodeHealth :: "(MonNode \<Rightarrow> ('w, MonNode) io) \<Rightarrow> (nat \<Rightarrow> gotime) \<Rightarrow> Lease option \<Rightarrow> MonNode \<Rightarrow> nodeHealthMap \<Rightarrow> 'w \<Rightarrow>
    (goerr option \<times> nodeHealthMap) \<times> 'w" where
  "tryUpdateNodeHealth UpdateNode now observedLease node healths w =
     (let saved = healths (mn_Name node);
          (h0, alias) = observe now node saved;
          h1 = (if renewed saved observedLease then h0\<lparr>nh_lease := observedLease, nh_probeTimestamp := now 3\<rparr> else h0)
      in if now 4 > nh_probeTimestamp h1 + gracePeriodOf node
         then (let node' = markUnknown (now 5) node;
                   h2 = (if alias then h1\<lparr>nh_status := mn_Conditions node'\<rparr> else h1)
               in if GetNodeCondition (mn_Conditions node') NodeReady \<noteq> Some (observedReady node)
                  then (case UpdateNode node' w of
                          (Inl err, w') \<Rightarrow> ((Some err, healths(mn_Name node \<mapsto> h2)), w')
                        | (Inr _, w') \<Rightarrow>
                            ((None, healths(mn_Name node \<mapsto> \<lparr>nh_probeTimestamp = nh_probeTimestamp h2,
                               nh_readyTransitionTimestamp = now 6, nh_status = mn_Conditions node', nh_lease = observedLease\<rparr>)), w'))
                  else ((None, healths(mn_Name node \<mapsto> h2)), w))
         else ((None, healths(mn_Name node \<mapsto> h1)), w))"

text \<open>
  One pass over all nodes.  \<^verbatim>\<open>PollImmediate\<close> ends at the first error its condition returns, so every node is tried once; the
  error is logged and the pass goes on.
\<close>

fun mon :: "(MonNode \<Rightarrow> ('w, MonNode) io) \<Rightarrow> (string \<Rightarrow> nat \<Rightarrow> gotime) \<Rightarrow> (string \<Rightarrow> Lease option) \<Rightarrow> MonNode list \<Rightarrow> nodeHealthMap \<Rightarrow> 'w \<Rightarrow>
    nodeHealthMap \<times> 'w" where
  "mon UpdateNode clock leases [] healths w = (healths, w)"
| "mon UpdateNode clock leases (node # nodes) healths w =
     (let ((err, healths'), w') = tryUpdateNodeHealth UpdateNode (clock (mn_Name node)) (leases (mn_Name node)) node healths w
      in mon UpdateNode clock leases nodes healths' w')"

subsection \<open>Roles\<close>

definition LabelClusterName :: string where "LabelClusterName = ''kubeclipper.io/cluster''"
definition LabelNodeRole :: string where "LabelNodeRole = ''kubeclipper.io/nodeRole''"
definition NodeRoleMaster :: string where "NodeRoleMaster = ''master''"
definition NodeRoleWorker :: string where "NodeRoleWorker = ''worker''"

text \<open>The members of a cluster, as the identifiers of its masters and workers.\<close>

record ClusterMembers =
  cm_Masters :: "string list"
  cm_Workers :: "string list"

definition clearClusterOwnership :: "(MonNode \<Rightarrow> ('w, MonNode) io) \<Rightarrow> MonNode \<Rightarrow> ('w, unit) io" where
  "clearClusterOwnership UpdateNode node =
     io_bind (UpdateNode (node\<lparr>mn_Labels := AList.delete LabelNodeRole (AList.delete LabelClusterName (mn_Labels node))\<rparr>)) (\<lambda>_. io_ret ())"

definition updateNodeRoleIfNotEqual :: "(MonNode \<Rightarrow> ('w, MonNode) io) \<Rightarrow> ClusterMembers \<Rightarrow> MonNode \<Rightarrow> string \<Rightarrow> ('w, unit) io" where
  "updateNodeRoleIfNotEqual UpdateNode clu node nodeRole =
     (if nodeRole \<noteq> NodeRoleMaster \<and> nodeRole \<noteq> NodeRoleWorker then io_err (Plain ''unsupported '')
      else let nodes = (if nodeRole = NodeRoleMaster then cm_Masters clu else cm_Workers clu) in
        if mn_Name node \<in> set nodes \<and> values_Get (mn_Labels node) LabelNodeRole \<noteq> nodeRole
        then io_bind (UpdateNode (node\<lparr>mn_Labels := AList.update LabelNodeRole nodeRole (mn_Labels node)\<rparr>)) (\<lambda>_. io_ret ())
        else io_ret ())"

definition syncNodeRole :: "(MonNode \<Rightarrow> ('w, MonNode) io) \<Rightarrow> (string \<Rightarrow> goerr + ClusterMembers) \<Rightarrow> MonNode \<Rightarrow> ('w, unit) io" where
  "syncNodeRole UpdateNode clusters node =
     (case map_of (mn_Labels node) LabelClusterName of
        None \<Rightarrow> io_ret ()
      | Some cluName \<Rightarrow>
          (case clusters cluName of
             Inl err \<Rightarrow> if IsNotFound err then clearClusterOwnership UpdateNode node else io_err err
           | Inr clu \<Rightarrow>
               if mn_Name node \<in> set (cm_Masters clu) then updateNodeRoleIfNotEqual UpdateNode clu node NodeRoleMaster
               else if mn_Name node \<in> set (cm_Workers clu) then updateNodeRoleIfNotEqual UpdateNode clu node NodeRoleWorker
               else clearClusterOwnership UpdateNode node))"

definition node_Reconcile :: "(MonNode \<Rightarrow> ('w, MonNode) io) \<Rightarrow> (string \<Rightarrow> goerr + ClusterMembers) \<Rightarrow> (string \<Rightarrow> goerr + MonNode \<times> bool) \<Rightarrow>
    string \<Rightarrow> ('w, unit) io" where
  "node_Reconcile UpdateNode clusters nodes name =
     (case nodes name of
        Inl err \<Rightarrow> if IsNotFound err then io_ret () else io_err err
      | Inr (node, deleting) \<Rightarrow> if deleting then io_ret () else syncNodeRole UpdateNode clusters node)"

subsection \<open>News of a node keeps it alive\<close>

lemmas grace_defs = nodeStartupGracePeriod_def nodeMonitorGracePeriod_def duration_consts

definition heartbeat :: "NodeCondition list \<Rightarrow> gotime option" where
  "heartbeat cs = map_option nc_LastHeartbeatTime (GetNodeCondition cs NodeReady)"

text \<open>News: the lease was renewed, or the node posted a status with a heartbeat not seen before.\<close>

definition news :: "MonNode \<Rightarrow> nodeHealthData option \<Rightarrow> Lease option \<Rightarrow> bool" where
  "news node saved observedLease \<longleftrightarrow> renewed saved observedLease \<or>
     heartbeat (mn_Conditions node) \<noteq> None \<and> (case saved of None \<Rightarrow> True | Some h \<Rightarrow> heartbeat (nh_status h) \<noteq> heartbeat (mn_Conditions node))"

lemma observe_new:
  assumes "heartbeat (mn_Conditions node) \<noteq> None"
    and "case saved of None \<Rightarrow> True | Some h \<Rightarrow> heartbeat (nh_status h) \<noteq> heartbeat (mn_Conditions node)"
  shows "nh_probeTimestamp (fst (observe now node saved)) \<in> {now 0, now 1}"
  using assms by (auto simp: observe_def heartbeat_def freshHealth_def split: option.splits)

lemma observe_old:
  assumes "heartbeat (mn_Conditions node) = Some t" "heartbeat (nh_status h) = Some t"
  shows "observe now node (Some h) = (h, False)"
  using assms by (auto simp: observe_def heartbeat_def split: option.splits)

lemma try_quiet:
  assumes "now 4 \<le> nh_probeTimestamp (if renewed (healths (mn_Name node)) l
      then fst (observe now node (healths (mn_Name node)))\<lparr>nh_lease := l, nh_probeTimestamp := now 3\<rparr>
      else fst (observe now node (healths (mn_Name node)))) + gracePeriodOf node"
  shows "tryUpdateNodeHealth UpdateNode now l node healths w =
    ((None, healths(mn_Name node \<mapsto> (if renewed (healths (mn_Name node)) l
      then fst (observe now node (healths (mn_Name node)))\<lparr>nh_lease := l, nh_probeTimestamp := now 3\<rparr>
      else fst (observe now node (healths (mn_Name node)))))), w)"
  using assms unfolding tryUpdateNodeHealth_def Let_def by (simp add: case_prod_beta not_less)


subsection \<open>A silent node is found\<close>

text \<open>Passes of the monitor, at the given clocks, in which the node and its lease look the same.\<close>

fun passes :: "(MonNode \<Rightarrow> ('w, MonNode) io) \<Rightarrow> Lease option \<Rightarrow> MonNode \<Rightarrow> (nat \<Rightarrow> gotime) list \<Rightarrow> nodeHealthMap \<Rightarrow> 'w \<Rightarrow> nodeHealthMap \<times> 'w" where
  "passes UpdateNode l node [] healths w = (healths, w)"
| "passes UpdateNode l node (now # clocks) healths w =
     (let ((err, healths'), w') = tryUpdateNodeHealth UpdateNode now l node healths w in passes UpdateNode l node clocks healths' w')"

lemma get_set_condition:
  "GetNodeCondition cs ty = Some c \<Longrightarrow> nc_Type (f c) = ty \<Longrightarrow> GetNodeCondition (set_condition f ty cs) ty = Some (f c)"
  unfolding GetNodeCondition_def by (induction cs) (auto split: if_splits)

lemma find_snoc: "find P xs = None \<Longrightarrow> find P (xs @ [x]) = (if P x then Some x else None)"
  by (induction xs) (auto split: if_splits)

lemma markUnknown_ready:
  "\<exists>c. GetNodeCondition (mn_Conditions (markUnknown t node)) NodeReady = Some c \<and> nc_Status c = ConditionUnknown"
proof (cases "GetNodeCondition (mn_Conditions node) NodeReady")
  case None
  then show ?thesis by (auto simp: markUnknown_def GetNodeCondition_def find_snoc)
next
  case (Some c)
  then have "nc_Type c = NodeReady" by (auto simp: GetNodeCondition_def find_Some_iff)
  with Some show ?thesis by (auto simp: markUnknown_def get_set_condition)
qed

lemma silent_pass:
  assumes "healths (mn_Name node) = Some h" "heartbeat (mn_Conditions node) = Some t" "heartbeat (nh_status h) = Some t"
    and "\<not> renewed (Some h) l"
  shows "now 4 \<le> nh_probeTimestamp h + nodeMonitorGracePeriod \<Longrightarrow> tryUpdateNodeHealth UpdateNode now l node healths w = ((None, healths), w)"
    and "nh_probeTimestamp h + nodeMonitorGracePeriod < now 4 \<Longrightarrow> nc_Status (observedReady node) \<noteq> ConditionUnknown \<Longrightarrow>
      snd (tryUpdateNodeHealth UpdateNode now l node healths w) = snd (UpdateNode (markUnknown (now 5) node) w)"
proof -
  have g: "gracePeriodOf node = nodeMonitorGracePeriod" using assms(2) by (auto simp: gracePeriodOf_def heartbeat_def split: option.splits)
  have o: "observe now node (Some h) = (h, False)" for now using observe_old [OF assms(2,3)] .
  show "tryUpdateNodeHealth UpdateNode now l node healths w = ((None, healths), w)" if "now 4 \<le> nh_probeTimestamp h + nodeMonitorGracePeriod"
    using that assms(1,4) g o unfolding tryUpdateNodeHealth_def Let_def by (simp add: fun_upd_idem)
  show "snd (tryUpdateNodeHealth UpdateNode now l node healths w) = snd (UpdateNode (markUnknown (now 5) node) w)"
    if "nh_probeTimestamp h + nodeMonitorGracePeriod < now 4" "nc_Status (observedReady node) \<noteq> ConditionUnknown"
  proof -
    have "GetNodeCondition (mn_Conditions (markUnknown (now 5) node)) NodeReady \<noteq> Some (observedReady node)"
      using markUnknown_ready [of "now 5" node] that(2) by auto
    then show ?thesis using that(1) assms(1,4) g o unfolding tryUpdateNodeHealth_def Let_def
      by (simp split: prod.split sum.split)
  qed
qed

text \<open>
  C34.  Silent nodes are found.  Once the monitor has recorded a status and neither a new heartbeat nor a renewed lease
  follows, passes within four minutes of the recorded probe leave everything as it is, and the first
  pass after that writes the node with its Ready condition Unknown, unless it was Unknown already.
\<close>

theorem silent_node_found:
  assumes "healths (mn_Name node) = Some h" "heartbeat (mn_Conditions node) = Some t" "heartbeat (nh_status h) = Some t"
    and "\<not> renewed (Some h) l" "nc_Status (observedReady node) \<noteq> ConditionUnknown"
    and "\<forall>now \<in> set clocks. now 4 \<le> nh_probeTimestamp h + nodeMonitorGracePeriod"
    and "nh_probeTimestamp h + nodeMonitorGracePeriod < late 4"
  shows "passes UpdateNode l node clocks healths w = (healths, w) \<and>
    snd (passes UpdateNode l node (clocks @ [late]) healths w) = snd (UpdateNode (markUnknown (late 5) node) w) \<and>
    (\<exists>c. GetNodeCondition (mn_Conditions (markUnknown (late 5) node)) NodeReady = Some c \<and> nc_Status c = ConditionUnknown)"
proof -
  note step = silent_pass [where healths = healths, OF assms(1-4)]
  have "passes UpdateNode l node clocks healths w = (healths, w) \<and>
      passes UpdateNode l node (clocks @ [late]) healths w = passes UpdateNode l node [late] healths w"
    using assms(6) by (induction clocks) (auto simp: step(1))
  moreover have "snd (passes UpdateNode l node [late] healths w) = snd (UpdateNode (markUnknown (late 5) node) w)"
    using step(2) [where now = late, OF assms(7,5)] by (simp add: case_prod_beta)
  ultimately show ?thesis using markUnknown_ready by simp
qed

subsection \<open>Examples\<close>

definition mon_node :: MonNode where
  "mon_node = \<lparr>mn_Name = ''n1'', mn_CreationTimestamp = 0,
     mn_Conditions = [\<lparr>nc_Type = ''Ready'', nc_Status = ''True'', nc_LastHeartbeatTime = 5, nc_LastTransitionTime = 5, nc_Reason = [], nc_Message = []\<rparr>],
     mn_Labels = [(LabelClusterName, ''c'')]\<rparr>"

definition mon_health :: nodeHealthData where
  "mon_health = \<lparr>nh_probeTimestamp = 10, nh_readyTransitionTimestamp = 10, nh_status = mn_Conditions mon_node, nh_lease = Some \<lparr>le_RenewTime = Some 9\<rparr>\<rparr>"

definition mon_store :: "MonNode \<Rightarrow> (MonNode list, MonNode) io" where
  "mon_store n w = (Inr n, n # w)"


theorem silent_node_found_witness:
  "snd (passes mon_store (Some \<lparr>le_RenewTime = Some 9\<rparr>) mon_node [\<lambda>_. 3 * Minute, \<lambda>_. 5 * Minute] [''n1'' \<mapsto> mon_health] []) =
     [markUnknown (5 * Minute) mon_node]"
proof -
  let ?m = "[''n1'' \<mapsto> mon_health]"
  have a: "?m (mn_Name mon_node) = Some mon_health" "heartbeat (mn_Conditions mon_node) = Some 5" "heartbeat (nh_status mon_health) = Some 5"
    "\<not> renewed (Some mon_health) (Some \<lparr>le_RenewTime = Some 9\<rparr>)" "nc_Status (observedReady mon_node) \<noteq> ConditionUnknown"
    by (simp_all add: mon_node_def mon_health_def heartbeat_def GetNodeCondition_def NodeReady_def renewed_def time_before_def
        observedReady_def ConditionUnknown_def)
  have b: "\<forall>now \<in> set [\<lambda>_ :: nat. 3 * Minute]. now 4 \<le> nh_probeTimestamp mon_health + nodeMonitorGracePeriod"
    "nh_probeTimestamp mon_health + nodeMonitorGracePeriod < 5 * Minute" by (simp_all add: mon_health_def grace_defs)
  show ?thesis
    using silent_node_found [where healths = ?m and late = "\<lambda>_. 5 * Minute" and UpdateNode = mon_store and w = "[]", OF a b] by (simp add: mon_store_def)
qed

subsection \<open>Roles follow membership\<close>

definition role_of :: "ClusterMembers \<Rightarrow> string \<Rightarrow> string option" where
  "role_of clu n = (if n \<in> set (cm_Masters clu) then Some NodeRoleMaster else if n \<in> set (cm_Workers clu) then Some NodeRoleWorker else None)"

text \<open>
  Roles follow membership.  Reconciling a node that names a cluster writes the node at most once, and what it
  writes or finds agrees with the cluster: a member carries the label of its role and keeps its
  cluster, and a node whose cluster is gone or does not list it loses both labels; every other label
  is kept.
\<close>

theorem node_role_synced:
  assumes "nodes name = Inr (node, False)" "map_of (mn_Labels node) LabelClusterName = Some c"
    and "clusters c = Inr clu \<or> clusters c = Inl (NotFound r x)"
  shows "\<exists>node'. node' = node\<lparr>mn_Labels := mn_Labels node'\<rparr> \<and>
    (\<forall>w. node_Reconcile UpdateNode clusters nodes name w =
       (if node' = node then (Inr (), w) else io_bind (UpdateNode node') (\<lambda>_. io_ret ()) w)) \<and>
    (\<forall>k. k \<noteq> LabelClusterName \<longrightarrow> k \<noteq> LabelNodeRole \<longrightarrow> map_of (mn_Labels node') k = map_of (mn_Labels node) k) \<and>
    (case (case clusters c of Inr clu' \<Rightarrow> role_of clu' (mn_Name node) | Inl _ \<Rightarrow> None) of
       Some role \<Rightarrow> map_of (mn_Labels node') LabelNodeRole = Some role \<and> map_of (mn_Labels node') LabelClusterName = Some c
     | None \<Rightarrow> map_of (mn_Labels node') LabelNodeRole = None \<and> map_of (mn_Labels node') LabelClusterName = None)"
proof -
  have labels_ne: "LabelClusterName \<noteq> LabelNodeRole" by (simp add: LabelClusterName_def LabelNodeRole_def)
  let ?r = "case clusters c of Inr clu' \<Rightarrow> role_of clu' (mn_Name node) | Inl _ \<Rightarrow> None"
  show ?thesis
  proof (cases ?r)
    case None
    let ?n = "node\<lparr>mn_Labels := AList.delete LabelNodeRole (AList.delete LabelClusterName (mn_Labels node))\<rparr>"
    have "map_of (mn_Labels ?n) LabelClusterName = None" using labels_ne by (simp add: delete_conv')
    then have "mn_Labels ?n \<noteq> mn_Labels node" using assms(2) by auto
    then have ne: "?n \<noteq> node" by (metis (no_types))
    have rec: "node_Reconcile UpdateNode clusters nodes name w = io_bind (UpdateNode ?n) (\<lambda>_. io_ret ()) w" for w
      using None assms by (auto simp: node_Reconcile_def syncNodeRole_def clearClusterOwnership_def role_of_def split: sum.splits if_splits)
    show ?thesis using None ne rec labels_ne by (intro exI [of _ ?n]) (simp add: delete_conv')
  next
    case (Some role)
    let ?n = "if values_Get (mn_Labels node) LabelNodeRole \<noteq> role
      then node\<lparr>mn_Labels := AList.update LabelNodeRole role (mn_Labels node)\<rparr> else node"
    have role: "role \<noteq> []" using Some
      by (auto simp: role_of_def NodeRoleMaster_def NodeRoleWorker_def split: sum.splits if_splits)
    have ne: "?n = node \<longleftrightarrow> values_Get (mn_Labels node) LabelNodeRole = role"
    proof -
      have "node\<lparr>mn_Labels := AList.update LabelNodeRole role (mn_Labels node)\<rparr> \<noteq> node" if "values_Get (mn_Labels node) LabelNodeRole \<noteq> role"
      proof
        assume "node\<lparr>mn_Labels := AList.update LabelNodeRole role (mn_Labels node)\<rparr> = node"
        then have "AList.update LabelNodeRole role (mn_Labels node) = mn_Labels node" 
          by (metis MonNode.select_convs(4) MonNode.surjective MonNode.update_convs(4))
        then have "map_of (mn_Labels node) LabelNodeRole = Some role" by (metis fun_upd_same update_conv')
        then show False using that by (simp add: values_Get_def)
      qed
      then show ?thesis by auto
    qed
    have rec: "node_Reconcile UpdateNode clusters nodes name w =
        (if ?n = node then (Inr (), w) else io_bind (UpdateNode ?n) (\<lambda>_. io_ret ()) w)" for w
      unfolding ne using Some assms
      by (auto simp: node_Reconcile_def syncNodeRole_def updateNodeRoleIfNotEqual_def Let_def role_of_def NodeRoleMaster_def NodeRoleWorker_def
          split: sum.splits if_splits)
    have lab: "map_of (mn_Labels ?n) LabelNodeRole = Some role" "map_of (mn_Labels ?n) LabelClusterName = Some c"
      using role labels_ne assms(2) by (auto simp: update_conv' values_Get_def split: option.splits)
    have oth: "k \<noteq> LabelNodeRole \<Longrightarrow> map_of (mn_Labels ?n) k = map_of (mn_Labels node) k" for k by (simp add: update_conv')
    have self: "?n = node\<lparr>mn_Labels := mn_Labels ?n\<rparr>" by simp
    show ?thesis using Some rec lab oth self by (intro exI [of _ ?n]) (simp only: option.case, blast)
  qed
qed

definition mon_members :: ClusterMembers where
  "mon_members = \<lparr>cm_Masters = [''n1''], cm_Workers = []\<rparr>"

theorem node_role_synced_witness:
  "\<exists>node'. node_Reconcile mon_store (\<lambda>_. Inr mon_members) (\<lambda>_. Inr (mon_node, False)) ''n1'' [] =
     (if node' = mon_node then (Inr (), []) else io_bind (mon_store node') (\<lambda>_. io_ret ()) []) \<and>
   map_of (mn_Labels node') LabelNodeRole = Some NodeRoleMaster \<and> map_of (mn_Labels node') LabelClusterName = Some ''c''"
proof -
  have a: "map_of (mn_Labels mon_node) LabelClusterName = Some ''c''" by (simp add: mon_node_def)
  have r: "role_of mon_members (mn_Name mon_node) = Some NodeRoleMaster" by (simp add: role_of_def mon_members_def mon_node_def)
  from node_role_synced [where nodes = "\<lambda>_. Inr (mon_node, False)" and clusters = "\<lambda>_. Inr mon_members" and clu = mon_members
      and UpdateNode = mon_store and name = "''n1''", OF refl a]
  show ?thesis by (auto simp: r)
qed

end
