(* ===== verification/Auth.thy ===== *)
theory Auth
  imports Op_Handler_Props
begin

text \<open>
  Authentication (\<^verbatim>\<open>pkg/authentication\<close>): passwords, tokens with their cache, and the request authenticators for client
  certificates, bearer and query tokens, internal tokens, excluded paths and anonymous requests.  An
  authenticator answers with an error, with no opinion (\<open>Inr None\<close>) or with a user.  What is not part of the
  repository is an argument: the signing and checking of JSON web tokens, the verification of
  certificate chains, password hashes, the parser of mail addresses and the IAM storage.
\<close>

subsection \<open>Requests\<close>

text \<open>\<^verbatim>\<open>strings.TrimSpace\<close> on bytes: white space of one, two or three bytes goes at both ends.\<close>

definition space_prefix :: "nat list \<Rightarrow> nat" where
  "space_prefix s =
     (case s of
        a # r \<Rightarrow>
          if a \<in> set space_codes1 then 1
          else (case r of
                  b # r' \<Rightarrow>
                    if (a, b) \<in> set space_codes2 then 2
                    else (case r' of c # _ \<Rightarrow> if (a, b, c) \<in> set space_codes3 then 3 else 0 | [] \<Rightarrow> 0)
                | [] \<Rightarrow> 0)
      | [] \<Rightarrow> 0)"

definition space_suffix :: "nat list \<Rightarrow> nat" where
  "space_suffix s =
     (case s of
        c # r \<Rightarrow>
          if c \<in> set space_codes1 then 1
          else (case r of
                  b # r' \<Rightarrow>
                    if (b, c) \<in> set space_codes2 then 2
                    else (case r' of a # _ \<Rightarrow> if (a, b, c) \<in> set space_codes3 then 3 else 0 | [] \<Rightarrow> 0)
                | [] \<Rightarrow> 0)
      | [] \<Rightarrow> 0)"

function strip :: "(nat list \<Rightarrow> nat) \<Rightarrow> string \<Rightarrow> string" where
  "strip f s = (let n = f (map of_char s) in if n = 0 \<or> s = [] then s else strip f (drop n s))"
  by pat_completeness auto

termination strip by (relation "measure (\<lambda>(f, s). length s)") auto

declare strip.simps [simp del]

definition TrimSpace :: "string \<Rightarrow> string" where
  "TrimSpace s = rev (strip space_suffix (rev (strip space_prefix s)))"

record certificate =
  ce_CommonName :: string
  ce_Organization :: "string list"
  ce_SerialNumber :: int

record http_request =
  hr_Header :: "(string \<times> string) list"
  hr_Query :: "(string \<times> string) list"
  hr_Path :: string
  hr_PeerCertificates :: "certificate list option"

type_synonym auth_result = "goerr + UserInfo option"

definition Anonymous :: string where "Anonymous = ''system:anonymous''"
definition AllUnauthenticated :: string where "AllUnauthenticated = ''system:unauthenticated''"
definition AllAuthenticated :: string where "AllAuthenticated = ''system:authenticated''"

definition anonymousUser :: UserInfo where
  "anonymousUser = \<lparr>u_Name = Anonymous, u_Groups = [AllUnauthenticated]\<rparr>"

subsection \<open>Request authenticators\<close>

definition token_result :: "string \<Rightarrow> auth_result \<Rightarrow> auth_result" where
  "token_result message r = (case r of Inr None \<Rightarrow> Inl (Plain message) | _ \<Rightarrow> r)"

definition bearer_AuthenticateRequest :: "(string \<Rightarrow> auth_result) \<Rightarrow> http_request \<Rightarrow> auth_result" where
  "bearer_AuthenticateRequest AuthenticateToken req =
     (let auth = TrimSpace (values_Get (hr_Header req) ''Authorization'');
          parts = splitOn (CHR '' '') [] auth
      in if auth = [] then Inr None
         else if length parts < 2 \<or> ToLower (hd parts) \<noteq> ''bearer'' then Inr None
         else let token = parts ! 1 in
           if token = [] then Inr None else token_result ''invalid bearer token'' (AuthenticateToken token))"

definition ws_AuthenticateRequest :: "(string \<Rightarrow> auth_result) \<Rightarrow> http_request \<Rightarrow> auth_result" where
  "ws_AuthenticateRequest AuthenticateToken req =
     (let token = values_Get (hr_Query req) ''token'' in
      if token = [] then Inr None else token_result ''invalid bearer token'' (AuthenticateToken token))"

definition anonymous_AuthenticateRequest :: "http_request \<Rightarrow> auth_result" where
  "anonymous_AuthenticateRequest req =
     (if TrimSpace (values_Get (hr_Header req) ''Authorization'') = [] \<and> values_Get (hr_Query req) ''token'' = []
      then Inr (Some anonymousUser) else Inr None)"

definition KcUserHeader :: string where "KcUserHeader = ''Kc-User''"
definition KcTokenHeader :: string where "KcTokenHeader = ''Kc-Token''"

definition internal_AuthenticateRequest :: "string \<Rightarrow> string \<Rightarrow> http_request \<Rightarrow> auth_result" where
  "internal_AuthenticateRequest wantUser wantToken req =
     (let username = TrimSpace (values_Get (hr_Header req) KcUserHeader);
          token = TrimSpace (values_Get (hr_Header req) KcTokenHeader)
      in if username = [] \<or> token = [] then Inr None
         else if username = wantUser \<and> token = wantToken
         then Inr (Some \<lparr>u_Name = wantUser, u_Groups = [AllAuthenticated]\<rparr>)
         else Inl (Plain ''invalid internal token''))"

record pathAuthenticator =
  pa_excludePaths :: "string list"
  pa_prefixes :: "string list"

fun path_loop :: "string list \<Rightarrow> pathAuthenticator \<Rightarrow> goerr + pathAuthenticator" where
  "path_loop [] acc = Inr acc"
| "path_loop (p0 # ps) acc =
     (let p = TrimPrefix p0 ''/'' in
      if p = [] then path_loop ps (acc\<lparr>pa_excludePaths := pa_excludePaths acc @ [p]\<rparr>)
      else if CHR ''*'' \<in> set (butlast p) then Inl (Plain (''only trailing * allowed in '' @ Quote p))
      else if suffix ''*'' p then path_loop ps (acc\<lparr>pa_prefixes := pa_prefixes acc @ [butlast p]\<rparr>)
      else path_loop ps (acc\<lparr>pa_excludePaths := pa_excludePaths acc @ [p]\<rparr>))"

definition path_NewAuthenticator :: "string list \<Rightarrow> goerr + pathAuthenticator" where
  "path_NewAuthenticator excludePaths = path_loop excludePaths \<lparr>pa_excludePaths = [], pa_prefixes = []\<rparr>"

definition path_AuthenticateRequest :: "pathAuthenticator \<Rightarrow> http_request \<Rightarrow> auth_result" where
  "path_AuthenticateRequest a req =
     (let pth = TrimPrefix (hr_Path req) ''/'' in
      if pth \<in> set (pa_excludePaths a) \<or> list_ex (\<lambda>p. prefix p pth) (pa_prefixes a) then Inr (Some anonymousUser) else Inr None)"

subsection \<open>Client certificates\<close>

record VerifyOptions =
  vo_Roots :: "certificate list"
  vo_Intermediates :: "certificate list option"

definition CommonNameUserConversion :: "certificate list \<Rightarrow> auth_result" where
  "CommonNameUserConversion chain =
     (if chain = [] then Inl (Panic ''index out of range'')
      else if ce_CommonName (hd chain) = [] then Inr None
      else Inr (Some \<lparr>u_Name = ce_CommonName (hd chain), u_Groups = ce_Organization (hd chain)\<rparr>))"

definition withIntermediates :: "VerifyOptions \<Rightarrow> certificate list \<Rightarrow> VerifyOptions" where
  "withIntermediates opts peers =
     (if vo_Intermediates opts = None \<and> length peers > 1 then opts\<lparr>vo_Intermediates := Some (tl peers)\<rparr> else opts)"

fun first_user :: "(certificate list \<Rightarrow> auth_result) \<Rightarrow> certificate list list \<Rightarrow> goerr list \<Rightarrow> goerr list + UserInfo" where
  "first_user conv [] errs = Inl errs"
| "first_user conv (chain # cs) errs =
     (case conv chain of
        Inl err \<Rightarrow> first_user conv cs (errs @ [err])
      | Inr None \<Rightarrow> first_user conv cs errs
      | Inr (Some user) \<Rightarrow> Inr user)"

definition x509_AuthenticateRequest :: "(certificate \<Rightarrow> VerifyOptions \<Rightarrow> string + certificate list list) \<Rightarrow> (certificate \<Rightarrow> string) \<Rightarrow>
    (goerr list \<Rightarrow> goerr) \<Rightarrow> VerifyOptions option \<Rightarrow> (certificate list \<Rightarrow> auth_result) \<Rightarrow> http_request \<Rightarrow> auth_result" where
  "x509_AuthenticateRequest Verify certificateIdentifier aggregate verifyOptions conv req =
     (case hr_PeerCertificates req of
        None \<Rightarrow> Inr None
      | Some [] \<Rightarrow> Inr None
      | Some (leaf # rest) \<Rightarrow>
          (case verifyOptions of
             None \<Rightarrow> Inr None
           | Some opts \<Rightarrow>
               (case Verify leaf (withIntermediates opts (leaf # rest)) of
                  Inl err \<Rightarrow> Inl (Plain (''verifying certificate '' @ certificateIdentifier leaf @ '' failed: '' @ err))
                | Inr cs \<Rightarrow>
                    (case first_user conv cs [] of
                       Inr user \<Rightarrow> Inr (Some user)
                     | Inl [] \<Rightarrow> Inr None
                     | Inl errs \<Rightarrow> Inl (aggregate errs)))))"

definition verifySubject :: "string list \<Rightarrow> certificate \<Rightarrow> goerr option" where
  "verifySubject allowedCommonNames subject =
     (if allowedCommonNames = [] \<or> list_ex (\<lambda>n. n = ce_CommonName subject) allowedCommonNames then None
      else Some (Plain (''x509: subject with cn='' @ ce_CommonName subject @ '' is not in the allowed list'')))"

definition verifier_AuthenticateRequest :: "(certificate \<Rightarrow> VerifyOptions \<Rightarrow> string + certificate list list) \<Rightarrow> VerifyOptions option \<Rightarrow>
    string list \<Rightarrow> (http_request \<Rightarrow> auth_result) \<Rightarrow> http_request \<Rightarrow> auth_result" where
  "verifier_AuthenticateRequest Verify verifyOptions allowedCommonNames auth req =
     (case hr_PeerCertificates req of
        None \<Rightarrow> Inr None
      | Some [] \<Rightarrow> Inr None
      | Some (leaf # rest) \<Rightarrow>
          (case verifyOptions of
             None \<Rightarrow> Inr None
           | Some opts \<Rightarrow>
               (case Verify leaf (withIntermediates opts (leaf # rest)) of
                  Inl err \<Rightarrow> Inl (Plain err)
                | Inr _ \<Rightarrow> (case verifySubject allowedCommonNames leaf of Some err \<Rightarrow> Inl err | None \<Rightarrow> auth req))))"

subsection \<open>Passwords\<close>

record User =
  us_Name :: string
  us_EncryptedPassword :: string
  us_State :: "string option"
  us_Groups :: "string list"
  us_Phone :: string
  us_Email :: string

definition UserActive :: string where "UserActive = ''Active''"

record PasswordInfo =
  pi_Name :: string
  pi_Extra :: "(string \<times> string list) list"

record iam_users =
  iu_GetUserEx :: "string \<Rightarrow> goerr + User"
  iu_ListByEmail :: "string \<Rightarrow> goerr + User list"

definition findUser :: "(string \<Rightarrow> bool) \<Rightarrow> iam_users \<Rightarrow> string \<Rightarrow> goerr + User" where
  "findUser isMailAddress am username =
     (if \<not> isMailAddress username then iu_GetUserEx am username
      else case iu_ListByEmail am username of
             Inl err \<Rightarrow> Inl err
           | Inr items \<Rightarrow> if length items \<noteq> 1 then Inl (NotFound ''user'' username) else Inr (items ! 0))"

definition Authenticate :: "(string \<Rightarrow> bool) \<Rightarrow> (string \<Rightarrow> string \<Rightarrow> bool) \<Rightarrow> iam_users \<Rightarrow> string \<Rightarrow> string \<Rightarrow> goerr + PasswordInfo" where
  "Authenticate isMailAddress ComparePassword am username password =
     (if username = [] \<or> password = [] then Inl (Plain ''user or password not valid'')
      else (let found = findUser isMailAddress am username in
        case found of
          Inl err \<Rightarrow> if \<not> IsNotFound err then Inl err else Inl (Plain ''user not exist'')
        | Inr user \<Rightarrow>
            if us_State user = None \<or> us_State user \<noteq> Some UserActive then Inl (Plain ''account is not active'')
            else if us_EncryptedPassword user \<noteq> [] then
              (if \<not> ComparePassword password (us_EncryptedPassword user) then Inl (Plain ''incorrect password'')
               else Inr \<lparr>pi_Name = us_Name user, pi_Extra = [(''phone'', [us_Phone user]), (''email'', [us_Email user])]\<rparr>)
            else Inl (Plain ''user not exist'')))"

subsection \<open>Tokens\<close>

definition AccessToken :: string where "AccessToken = ''access_token''"
definition RefreshToken :: string where "RefreshToken = ''refresh_token''"
definition StaticToken :: string where "StaticToken = ''static_token''"

record Token =
  tk_Username :: string
  tk_TokenType :: string
  tk_Token :: string
  tk_TTL :: int

record oauth_token =
  ot_AccessToken :: string
  ot_TokenType :: string
  ot_RefreshToken :: string
  ot_ExpiresIn :: int
  ot_RefreshExpiresIn :: int

text \<open>The issuer of signed tokens and the stored tokens; \<open>tc_List user token\<close> are the stored ones of the user with that text.\<close>

record issuer =
  is_IssueTo :: "UserInfo \<Rightarrow> string \<Rightarrow> duration \<Rightarrow> goerr + string"
  is_Verify :: "string \<Rightarrow> goerr + UserInfo \<times> string"

record 'w token_cache =
  tca_Create :: "Token \<Rightarrow> ('w, Token) io"
  tca_DeleteOf :: "string \<Rightarrow> ('w, unit) io"
  tca_List :: "string \<Rightarrow> string \<Rightarrow> 'w \<Rightarrow> goerr + Token list"

record 'w tokenOperator =
  to_issuer :: issuer
  to_cache :: "'w token_cache"
  to_AccessTokenMaxAge :: duration
  to_AccessTokenInactivityTimeout :: duration
  to_MultipleLogin :: bool

definition cacheToken :: "'w tokenOperator \<Rightarrow> (duration \<Rightarrow> int) \<Rightarrow> string \<Rightarrow> string \<Rightarrow> string \<Rightarrow> duration \<Rightarrow> ('w, unit) io" where
  "cacheToken t Seconds username token tokenType d =
     io_bind (tca_Create (to_cache t) \<lparr>tk_Username = username, tk_TokenType = tokenType, tk_Token = token, tk_TTL = Seconds d\<rparr>) (\<lambda>_. io_ret ())"

definition RevokeAllUserTokens :: "'w tokenOperator \<Rightarrow> string \<Rightarrow> ('w, unit) io" where
  "RevokeAllUserTokens t username = tca_DeleteOf (to_cache t) username"

definition IssueTo :: "'w tokenOperator \<Rightarrow> (duration \<Rightarrow> int) \<Rightarrow> UserInfo \<Rightarrow> ('w, oauth_token) io" where
  "IssueTo t Seconds user =
     (let accessTokenExpiresIn = to_AccessTokenMaxAge t;
          refreshTokenExpiresIn = int64 (accessTokenExpiresIn + to_AccessTokenInactivityTimeout t)
      in io_bind (io_of (is_IssueTo (to_issuer t) user AccessToken accessTokenExpiresIn)) (\<lambda>accessToken.
         io_bind (io_of (is_IssueTo (to_issuer t) user RefreshToken refreshTokenExpiresIn)) (\<lambda>refreshToken.
         io_bind (if \<not> to_MultipleLogin t then RevokeAllUserTokens t (u_Name user) else io_ret ()) (\<lambda>_.
         io_bind (if accessTokenExpiresIn > 0
                  then io_bind (cacheToken t Seconds (u_Name user) accessToken AccessToken accessTokenExpiresIn)
                         (\<lambda>_. cacheToken t Seconds (u_Name user) refreshToken RefreshToken refreshTokenExpiresIn)
                  else io_ret ()) (\<lambda>_.
           io_ret \<lparr>ot_AccessToken = accessToken, ot_TokenType = ''Bearer'', ot_RefreshToken = refreshToken,
             ot_ExpiresIn = Seconds accessTokenExpiresIn, ot_RefreshExpiresIn = Seconds refreshTokenExpiresIn\<rparr>)))))"

definition tokenCacheValidate :: "'w tokenOperator \<Rightarrow> string \<Rightarrow> string \<Rightarrow> ('w, unit) io" where
  "tokenCacheValidate t username tokenStr =
     io_bind (io_read (tca_List (to_cache t) username tokenStr)) (\<lambda>tokens.
       if tokens \<noteq> [] then io_ret () else io_err (Plain ''token invalid in cache''))"

definition token_Verify :: "'w tokenOperator \<Rightarrow> string \<Rightarrow> ('w, UserInfo) io" where
  "token_Verify t tokenStr =
     io_bind (io_of (is_Verify (to_issuer t) tokenStr)) (\<lambda>(authenticated, tokenType).
       if to_AccessTokenMaxAge t = 0 \<or> tokenType = StaticToken then io_ret authenticated
       else io_bind (tokenCacheValidate t (u_Name authenticated) tokenStr) (\<lambda>_. io_ret authenticated))"

definition AuthenticateToken :: "'w tokenOperator \<Rightarrow> (string \<Rightarrow> 'w \<Rightarrow> goerr + User) \<Rightarrow> string \<Rightarrow> ('w, UserInfo option) io" where
  "AuthenticateToken t GetUserEx token =
     io_bind (token_Verify t token) (\<lambda>providedUser.
       io_bind (io_read (GetUserEx (u_Name providedUser))) (\<lambda>dbUser.
         io_ret (Some \<lparr>u_Name = us_Name dbUser, u_Groups = us_Groups dbUser @ [AllAuthenticated]\<rparr>)))"

subsection \<open>The chain of authenticators\<close>

text \<open>
  The order in which \<^verbatim>\<open>pkg/server/server.go\<close> composes them.  The union itself is a library function; what is used of it
  is that it authenticates a request only as one of its members does (\<open>union_sound\<close>).
\<close>

definition union_sound :: "((http_request \<Rightarrow> auth_result) list \<Rightarrow> http_request \<Rightarrow> auth_result) \<Rightarrow> bool" where
  "union_sound un \<longleftrightarrow> (\<forall>auths req u. un auths req = Inr (Some u) \<longrightarrow> (\<exists>a \<in> set auths. a req = Inr (Some u)))"

definition serverAuthenticators :: "pathAuthenticator \<Rightarrow> string \<Rightarrow> string \<Rightarrow> (http_request \<Rightarrow> auth_result) \<Rightarrow> (string \<Rightarrow> auth_result) \<Rightarrow>
    (http_request \<Rightarrow> auth_result) list" where
  "serverAuthenticators paths internalUser internalToken x509auth tokenAuthn =
     [path_AuthenticateRequest paths, internal_AuthenticateRequest internalUser internalToken, x509auth,
      anonymous_AuthenticateRequest, bearer_AuthenticateRequest tokenAuthn, ws_AuthenticateRequest tokenAuthn]"

subsection \<open>Who is an agent\<close>

lemma first_user_Inr:
  "first_user conv cs errs = Inr u \<Longrightarrow> \<exists>chain \<in> set cs. conv chain = Inr (Some u)"
  by (induction cs arbitrary: errs) (auto split: sum.splits option.splits)

lemma x509_user:
  assumes "x509_AuthenticateRequest Verify ident aggregate opts CommonNameUserConversion req = Inr (Some u)"
    and "\<forall>c vo cs. Verify c vo = Inr cs \<longrightarrow> (\<forall>chain \<in> set cs. chain \<noteq> [] \<and> hd chain = c)"
  shows "\<exists>leaf rest vo cs. hr_PeerCertificates req = Some (leaf # rest) \<and> opts = Some vo \<and>
    Verify leaf (withIntermediates vo (leaf # rest)) = Inr cs \<and> u = \<lparr>u_Name = ce_CommonName leaf, u_Groups = ce_Organization leaf\<rparr>"
proof -
  obtain leaf rest o1 cs where r: "hr_PeerCertificates req = Some (leaf # rest)" "opts = Some o1"
    and v: "Verify leaf (withIntermediates o1 (leaf # rest)) = Inr cs" and f: "first_user CommonNameUserConversion cs [] = Inr u"
    using assms(1) unfolding x509_AuthenticateRequest_def by (auto split: option.splits list.splits sum.splits)
  obtain chain where c: "chain \<in> set cs" "CommonNameUserConversion chain = Inr (Some u)" using first_user_Inr [OF f] by blast
  have "chain \<noteq> [] \<and> hd chain = leaf" using assms(2) v c(1) by blast
  with c(2) have "u = \<lparr>u_Name = ce_CommonName leaf, u_Groups = ce_Organization leaf\<rparr>"
    by (auto simp: CommonNameUserConversion_def split: if_splits)
  with r v show ?thesis by blast
qed

lemma agent_user:
  assumes "agentIDFromRequest r = (agent, True)" "rq_User r = Some u"
  shows "u_Name u = agentUsernamePrefix @ agent \<and> agent \<noteq> [] \<and> agentGroup \<in> set (u_Groups u)"
  using assms by (auto simp: agentIDFromRequest_def Let_def hasGroup_def TrimPrefix_def prefix_def split: if_splits)

lemma group_facts: "agentGroup \<noteq> AllUnauthenticated" "agentGroup \<noteq> AllAuthenticated"
  by (simp_all add: agentGroup_def AllUnauthenticated_def AllAuthenticated_def)

lemma token_result_user: "token_result m r = Inr (Some u) \<longleftrightarrow> r = Inr (Some u)"
  by (auto simp: token_result_def split: sum.splits option.splits)

lemma bearer_user:
  "bearer_AuthenticateRequest tokenAuthn req = Inr (Some u) \<Longrightarrow> \<exists>token. token \<noteq> [] \<and> tokenAuthn token = Inr (Some u)"
  by (auto simp: bearer_AuthenticateRequest_def Let_def token_result_user split: if_splits)

lemma ws_user:
  "ws_AuthenticateRequest tokenAuthn req = Inr (Some u) \<Longrightarrow> \<exists>token. token \<noteq> [] \<and> tokenAuthn token = Inr (Some u)"
  by (auto simp: ws_AuthenticateRequest_def Let_def token_result_user split: if_splits)


fun first_of :: "(http_request \<Rightarrow> auth_result) list \<Rightarrow> http_request \<Rightarrow> auth_result" where
  "first_of [] req = Inr None"
| "first_of (a # as) req = (case a req of Inr (Some u) \<Rightarrow> Inr (Some u) | _ \<Rightarrow> first_of as req)"

lemma first_of_sound: "union_sound first_of"
proof -
  have "first_of auths req = Inr (Some u) \<Longrightarrow> \<exists>a \<in> set auths. a req = Inr (Some u)" for auths req u
    by (induction auths) (auto split: sum.splits option.splits)
  then show ?thesis unfolding union_sound_def by blast
qed

definition agent_cert :: certificate where
  "agent_cert = \<lparr>ce_CommonName = ''system:kc-agent:n1'', ce_Organization = [''system:kc-agents''], ce_SerialNumber = 1\<rparr>"


subsection \<open>One login at a time\<close>

text \<open>The stored tokens: creating adds one, revoking removes those of a user, listing selects by user and text.\<close>

locale token_store =
  fixes cache :: "'w token_cache" and view :: "'w \<Rightarrow> Token list"
  assumes create_ok: "tca_Create cache tok w = (Inr x, w') \<Longrightarrow> view w' = view w @ [tok]"
    and delete_ok: "tca_DeleteOf cache u w = (Inr (), w') \<Longrightarrow> view w' = filter (\<lambda>t. tk_Username t \<noteq> u) (view w)"
    and list_ok: "tca_List cache u s w = Inr ts \<Longrightarrow> ts = filter (\<lambda>t. tk_Username t = u \<and> tk_Token t = s) (view w)"
begin

lemma issued_view:
  assumes "IssueTo t Seconds user w = (Inr tok, w')" "to_cache t = cache" "\<not> to_MultipleLogin t" "0 < to_AccessTokenMaxAge t"
  shows "\<exists>a r. view w' = filter (\<lambda>x. tk_Username x \<noteq> u_Name user) (view w) @ [a, r] \<and>
    tk_Token a = ot_AccessToken tok \<and> tk_Token r = ot_RefreshToken tok"
proof -
  obtain w1 w2 a r xa xr where rev: "tca_DeleteOf cache (u_Name user) w = (Inr (), w1)"
    and ca: "tca_Create cache a w1 = (Inr xa, w2)" and cr: "tca_Create cache r w2 = (Inr xr, w')"
    and tk: "tk_Token a = ot_AccessToken tok" "tk_Token r = ot_RefreshToken tok"
    using assms unfolding IssueTo_def Let_def
    by (fastforce simp: io_bind_Inr RevokeAllUserTokens_def cacheToken_def)
  have "view w' = filter (\<lambda>x. tk_Username x \<noteq> u_Name user) (view w) @ [a, r]"
    using delete_ok [OF rev] create_ok [OF ca] create_ok [OF cr] by simp
  with tk show ?thesis by blast
qed

lemma verify_cached:
  assumes "token_Verify t s w = (Inr u, w')" "to_cache t = cache" "to_AccessTokenMaxAge t \<noteq> 0"
    and "is_Verify (to_issuer t) s = Inr (u, ty)" "ty \<noteq> StaticToken"
  shows "\<exists>x \<in> set (view w). tk_Username x = u_Name u \<and> tk_Token x = s"
proof -
  obtain ts where ts: "tca_List cache (u_Name u) s w = Inr ts" "ts \<noteq> []"
    using assms unfolding token_Verify_def tokenCacheValidate_def
    by (auto simp: io_bind_Inr split: if_splits)
  then show ?thesis using list_ok [OF ts(1)] by (auto simp: filter_empty_conv)
qed

end


definition list_cache :: "Token list token_cache" where
  "list_cache = \<lparr>tca_Create = (\<lambda>tok w. (Inr tok, w @ [tok])), tca_DeleteOf = (\<lambda>u w. (Inr (), filter (\<lambda>t. tk_Username t \<noteq> u) w)),
     tca_List = (\<lambda>u s w. Inr (filter (\<lambda>t. tk_Username t = u \<and> tk_Token t = s) w))\<rparr>"

interpretation list_tokens: token_store list_cache "\<lambda>w. w"
  by unfold_locales (auto simp: list_cache_def)

definition plain_issuer :: issuer where
  "plain_issuer = \<lparr>is_IssueTo = (\<lambda>u ty d. Inr (u_Name u @ ''/'' @ ty)),
     is_Verify = (\<lambda>s. Inr (\<lparr>u_Name = takeWhile (\<lambda>c. c \<noteq> CHR ''/'') s, u_Groups = []\<rparr>, tl (dropWhile (\<lambda>c. c \<noteq> CHR ''/'') s)))\<rparr>"

definition plain_tokens :: "Token list tokenOperator" where
  "plain_tokens = \<lparr>to_issuer = plain_issuer, to_cache = list_cache, to_AccessTokenMaxAge = Hour,
     to_AccessTokenInactivityTimeout = Hour, to_MultipleLogin = False\<rparr>"

definition alice :: UserInfo where "alice = \<lparr>u_Name = ''alice'', u_Groups = []\<rparr>"


text \<open>The type of a token is not compared with its use: a refresh token authenticates requests, too.\<close>

lemma refresh_token_authenticates:
  "fst (AuthenticateToken plain_tokens (\<lambda>n _. Inr \<lparr>us_Name = n, us_EncryptedPassword = [], us_State = None, us_Groups = [], us_Phone = [], us_Email = []\<rparr>)
     ''alice/refresh_token'' (snd (IssueTo plain_tokens (\<lambda>d. d div Second) alice []))) =
   Inr (Some \<lparr>u_Name = ''alice'', u_Groups = [AllAuthenticated]\<rparr>)"
  by code_simp

subsection \<open>Passwords\<close>

text \<open>
  Passwords.  A password login succeeds exactly if name and password are not empty, the name (or, if it is a mail
  address, the single user with that address) is a stored active user with a password, and the
  password matches; the login then carries the stored name.
\<close>

theorem password_login_iff:
  "Authenticate isMail compare am username password = Inr pi \<longleftrightarrow>
     username \<noteq> [] \<and> password \<noteq> [] \<and> (\<exists>user. (if isMail username then iu_ListByEmail am username = Inr [user] else iu_GetUserEx am username = Inr user) \<and>
       us_State user = Some UserActive \<and> us_EncryptedPassword user \<noteq> [] \<and> compare password (us_EncryptedPassword user) \<and>
       pi = \<lparr>pi_Name = us_Name user, pi_Extra = [(''phone'', [us_Phone user]), (''email'', [us_Email user])]\<rparr>)"
  by (auto simp: Authenticate_def findUser_def Let_def length_Suc_conv One_nat_def split: sum.splits if_splits)

end
