(* ===== verification/Backups.thy ===== *)
theory Backups
  imports Op_Business Node_Monitor
begin

text \<open>
  Backups of clusters: the controller that follows the operation of a backup
  (\<^verbatim>\<open>pkg/controller/backupcontroller\<close>) and the one that makes backups on a schedule and removes old
  ones (\<^verbatim>\<open>pkg/controller/cronbackupcontroller\<close>), with the steps both hand to the operation builder
  (\<^verbatim>\<open>ActBackup\<close> in \<^verbatim>\<open>pkg/scheme/core/v1/k8s/cluster.go\<close>).  Reads of listers are functions of the world; both
  controllers also write through the pointers the listers return, which no later read of the same
  call observes, so that what a lister returns in the next call is left open.
\<close>

subsection \<open>Data\<close>

definition LabelTopologyRegion :: string where "LabelTopologyRegion = ''topology.kubeclipper.io/region''"
definition LabelBackupName :: string where "LabelBackupName = ''kubeclipper.io/backup''"
definition LabelOperationName :: string where "LabelOperationName = ''kubeclipper.io/operation-name''"
definition LabelBackupPoint :: string where "LabelBackupPoint = ''kubeclipper.io/backupPoint''"
definition LabelCronBackupDisable :: string where "LabelCronBackupDisable = ''kubeclipper.io/cronBackupDisable''"

definition ClusterBackupCreating :: string where "ClusterBackupCreating = ''creating''"
definition ClusterBackupAvailable :: string where "ClusterBackupAvailable = ''available''"
definition ClusterBackupError :: string where "ClusterBackupError = ''error''"
definition ClusterBackupRestoring :: string where "ClusterBackupRestoring = ''restoring''"

lemmas backup_status_defs = ClusterBackupCreating_def ClusterBackupAvailable_def ClusterBackupError_def ClusterBackupRestoring_def

definition DefaultBackupTimeoutSec :: int where "DefaultBackupTimeoutSec = 1200"

record OwnerReference =
  ow_APIVersion :: string
  ow_Kind :: string
  ow_Name :: string
  ow_UID :: string
  ow_Controller :: "bool option"

record BackupStatus =
  bs_KubernetesVersion :: string
  bs_FileName :: string
  bs_BackupFileSize :: int
  bs_BackupFileMD5 :: string
  bs_ClusterBackupStatus :: string

record Backup =
  bu_Name :: string
  bu_CreationTimestamp :: gotime
  bu_Labels :: "(string \<times> string) list"
  bu_OwnerReferences :: "OwnerReference list"
  bu_Status :: BackupStatus
  bu_ClusterNodes :: "(string \<times> string) list"
  bu_PreferredNode :: string
  bu_BackupPointName :: string

abbreviation bu_State :: "Backup \<Rightarrow> string" where "bu_State b \<equiv> bs_ClusterBackupStatus (bu_Status b)"

definition set_state :: "string \<Rightarrow> Backup \<Rightarrow> Backup" where
  "set_state s b = b\<lparr>bu_Status := (bu_Status b)\<lparr>bs_ClusterBackupStatus := s\<rparr>\<rparr>"

record CheckFile =
  cf_BackupFileSize :: int
  cf_BackupFileMD5 :: string

subsection \<open>Following the operation of a backup\<close>

record 'w BackupReconciler =
  br_ClusterLister :: "string \<Rightarrow> 'w \<Rightarrow> goerr + ClusterObject"
  br_BackupLister :: "string \<Rightarrow> 'w \<Rightarrow> goerr + Backup"
  br_OperationLister :: "string \<Rightarrow> 'w \<Rightarrow> goerr + Operation"
  br_OperationStore :: "'w store"
  br_UpdateBackup :: "Backup \<Rightarrow> ('w, Backup) io"
  br_DeleteBackup :: "string \<Rightarrow> ('w, unit) io"

text \<open>
  \<open>unmarshal\<close> is the decoding of a response into the one variable that all responses share: it may
  leave fields of earlier responses in place, and its flag tells whether it succeeded.
\<close>

fun readCheckFile :: "(string \<Rightarrow> CheckFile \<Rightarrow> CheckFile \<times> bool) \<Rightarrow> OperationTask list \<Rightarrow> CheckFile \<Rightarrow> CheckFile" where
  "readCheckFile unmarshal [] cf = cf"
| "readCheckFile unmarshal (t # ts) cf =
     (case tst_Result (task_Status t) of
        None \<Rightarrow> readCheckFile unmarshal ts cf
      | Some result \<Rightarrow>
          (let response = label (tr_Outputs result) ''response'' in
           if response = [] then readCheckFile unmarshal ts cf
           else let (cf', ok) = unmarshal response cf in
             if ok \<and> cf_BackupFileMD5 cf' \<noteq> [] then cf' else readCheckFile unmarshal ts cf'))"

definition logged_update :: "'w BackupReconciler \<Rightarrow> Backup \<Rightarrow> ('w, unit) io" where
  "logged_update r b = io_try (br_UpdateBackup r b) (\<lambda>_. io_ret ()) (\<lambda>_. io_ret ())"

definition markCreating :: "'w BackupReconciler \<Rightarrow> Operation \<Rightarrow> Backup \<Rightarrow> ('w, Backup) io" where
  "markCreating r oper b =
     (if op_Phase oper = OperationRunning \<and> os_Action (op_Spec oper) = OperationBackupCluster
      then io_bind (logged_update r (set_state ClusterBackupCreating b)) (\<lambda>_. io_ret (set_state ClusterBackupCreating b))
      else io_ret b)"

definition markRestoring :: "'w BackupReconciler \<Rightarrow> Operation \<Rightarrow> Backup \<Rightarrow> ('w, Backup) io" where
  "markRestoring r oper b =
     (if op_Phase oper = OperationRunning \<and> os_Action (op_Spec oper) = OperationRecoverCluster
      then io_bind (logged_update r (set_state ClusterBackupRestoring b)) (\<lambda>_. io_ret (set_state ClusterBackupRestoring b))
      else io_ret b)"

definition emptyCheckFile :: CheckFile where "emptyCheckFile = \<lparr>cf_BackupFileSize = 0, cf_BackupFileMD5 = []\<rparr>"

definition withFile :: "CheckFile \<Rightarrow> Backup \<Rightarrow> Backup" where
  "withFile cf b = b\<lparr>bu_Status := (bu_Status b)\<lparr>bs_BackupFileSize := cf_BackupFileSize cf, bs_BackupFileMD5 := cf_BackupFileMD5 cf,
     bs_ClusterBackupStatus := ClusterBackupAvailable\<rparr>\<rparr>"

definition markCreated :: "apimachinery \<Rightarrow> (string \<Rightarrow> CheckFile \<Rightarrow> CheckFile \<times> bool) \<Rightarrow> 'w BackupReconciler \<Rightarrow> Operation \<Rightarrow> Backup \<Rightarrow>
    ('w, Backup) io" where
  "markCreated am unmarshal r oper b =
     (if bu_State b = ClusterBackupCreating \<and> op_Phase oper = OperationSucceeded \<and> os_Action (op_Spec oper) = OperationBackupCluster
      then io_bind (ListTasksByOperationUID am (br_OperationStore r) (op_UID oper) []) (\<lambda>tasks.
        let cf = readCheckFile unmarshal (ol_Items tasks) emptyCheckFile in
        if cf_BackupFileSize cf \<noteq> 0 \<and> cf_BackupFileMD5 cf \<noteq> []
        then io_bind (logged_update r (withFile cf b)) (\<lambda>_. io_ret (withFile cf b))
        else io_err (Plain (''backup file size is '' @ show_int (cf_BackupFileSize cf) @ '', and backup md5 is '' @ cf_BackupFileMD5 cf)))
      else io_ret b)"

definition markRestored :: "'w BackupReconciler \<Rightarrow> Operation \<Rightarrow> Backup \<Rightarrow> ('w, Backup) io" where
  "markRestored r oper b =
     (if bu_State b = ClusterBackupRestoring \<and> op_Phase oper = OperationSucceeded \<and> os_Action (op_Spec oper) = OperationRecoverCluster
      then io_bind (logged_update r (set_state ClusterBackupAvailable b)) (\<lambda>_. io_ret (set_state ClusterBackupAvailable b))
      else io_ret b)"

definition markFailed :: "'w BackupReconciler \<Rightarrow> ClusterObject \<Rightarrow> Operation \<Rightarrow> Backup \<Rightarrow> ('w, unit) io" where
  "markFailed r c oper b =
     (if OperationPhase_IsTerminal (op_Phase oper) \<and> op_Phase oper \<noteq> OperationSucceeded
      then logged_update r (set_state (if cl_Phase c = ClusterRestoreFailed then ClusterBackupAvailable else ClusterBackupError) b)
      else io_ret ())"

definition updateBackupStatus :: "apimachinery \<Rightarrow> (string \<Rightarrow> CheckFile \<Rightarrow> CheckFile \<times> bool) \<Rightarrow> 'w BackupReconciler \<Rightarrow> Backup \<Rightarrow>
    ('w, unit) io" where
  "updateBackupStatus am unmarshal r b = (\<lambda>w.
     let cluster = br_ClusterLister r (label (bu_Labels b) LabelClusterName) w;
         operation = br_OperationLister r (label (bu_Labels b) LabelOperationName) w
     in case cluster of
          Inl cErr \<Rightarrow>
            if \<not> IsNotFound cErr then (Inl cErr, w)
            else (case operation of
                    Inl oErr \<Rightarrow> if \<not> IsNotFound oErr then (Inl oErr, w) else br_DeleteBackup r (bu_Name b) w
                  | Inr _ \<Rightarrow> br_DeleteBackup r (bu_Name b) w)
        | Inr c \<Rightarrow>
            (case operation of
               Inl oErr \<Rightarrow>
                 if \<not> IsNotFound oErr then (Inl oErr, w)
                 else io_bind (br_UpdateBackup r (set_state ClusterBackupError b)) (\<lambda>_. io_ret ()) w
             | Inr oper \<Rightarrow>
                 io_bind (markCreating r oper b) (\<lambda>b.
                 io_bind (markRestoring r oper b) (\<lambda>b.
                 io_bind (markCreated am unmarshal r oper b) (\<lambda>b.
                 io_bind (markRestored r oper b) (\<lambda>b.
                   markFailed r c oper b)))) w))"

definition backup_Reconcile :: "apimachinery \<Rightarrow> (string \<Rightarrow> CheckFile \<Rightarrow> CheckFile \<times> bool) \<Rightarrow> 'w BackupReconciler \<Rightarrow> string \<Rightarrow> ('w, unit) io" where
  "backup_Reconcile am unmarshal r name =
     io_try (io_read (br_BackupLister r name)) (\<lambda>err. if IsNotFound err then io_ret () else io_err err)
       (updateBackupStatus am unmarshal r)"

text \<open>The index by operation name, and the backups that an event on an operation concerns.\<close>

definition operationNameIndex :: "Backup \<Rightarrow> string list" where
  "operationNameIndex b = (if label (bu_Labels b) LabelOperationName = [] then [] else [label (bu_Labels b) LabelOperationName])"

definition mapObjectsForOperation :: "(string \<Rightarrow> goerr + Backup list) \<Rightarrow> string \<Rightarrow> string list" where
  "mapObjectsForOperation ByIndex name = (case ByIndex name of Inl _ \<Rightarrow> [] | Inr matched \<Rightarrow> map bu_Name matched)"

subsection \<open>What the controller does to a backup\<close>

lemma logged_update_eq: "logged_update r b w = (Inr (), snd (br_UpdateBackup r b w))"
  by (auto simp: logged_update_def io_try_def split: prod.split sum.split)

lemma listTasks_keeps: "ListTasksByOperationUID am s uid rv w = (res, w') \<Longrightarrow> w' = w"
  by (auto simp: ListTasksByOperationUID_def io_bind_def split: sum.splits)

lemma set_state_simps [simp]: "bu_State (set_state s b) = s" "bu_Name (set_state s b) = bu_Name b"
  by (simp_all add: set_state_def)

lemma phases_apart:
  "OperationRunning \<noteq> OperationSucceeded" "\<not> OperationPhase_IsTerminal OperationRunning"
  "OperationBackupCluster \<noteq> OperationRecoverCluster"
  by (simp_all add: op_phase_defs OperationPhase_IsTerminal_def action_defs)

text \<open>A response that some task reported, decoded over whatever was decoded before it.\<close>

definition reported :: "(string \<Rightarrow> CheckFile \<Rightarrow> CheckFile \<times> bool) \<Rightarrow> OperationTask list \<Rightarrow> CheckFile \<Rightarrow> bool" where
  "reported unmarshal ts cf \<longleftrightarrow> (\<exists>t \<in> set ts. \<exists>result cf0. tst_Result (task_Status t) = Some result \<and>
     label (tr_Outputs result) ''response'' \<noteq> [] \<and> fst (unmarshal (label (tr_Outputs result) ''response'') cf0) = cf)"

lemma readCheckFile_reported: "readCheckFile unmarshal ts cf = cf \<or> reported unmarshal ts (readCheckFile unmarshal ts cf)"
proof (induction ts arbitrary: cf)
  case (Cons t ts)
  show ?case
  proof (cases "tst_Result (task_Status t)")
    case None
    then show ?thesis using Cons.IH [of cf] by (auto simp: reported_def)
  next
    case (Some result)
    let ?resp = "label (tr_Outputs result) ''response''"
    obtain cf' ok where u: "unmarshal ?resp cf = (cf', ok)" by fastforce
    have here: "reported unmarshal (t # ts) cf'" if "?resp \<noteq> []"
      using Some u that unfolding reported_def by (intro bexI [of _ t] exI [of _ result] exI [of _ cf]) simp_all
    have up: "reported unmarshal ts x \<Longrightarrow> reported unmarshal (t # ts) x" for x by (auto simp: reported_def)
    show ?thesis
    proof (cases "?resp = []")
      case True
      then show ?thesis using Some Cons.IH [of cf] up by auto
    next
      case False
      then show ?thesis using Some u here Cons.IH [of cf'] up by (cases "ok \<and> cf_BackupFileMD5 cf' \<noteq> []") auto
    qed
  qed
qed simp

definition justified :: "apimachinery \<Rightarrow> (string \<Rightarrow> CheckFile \<Rightarrow> CheckFile \<times> bool) \<Rightarrow> 'w BackupReconciler \<Rightarrow> 'w \<Rightarrow> ClusterObject \<Rightarrow>
    Operation \<Rightarrow> Backup \<Rightarrow> Backup \<Rightarrow> bool" where
  "justified am unmarshal r w c oper b b' \<longleftrightarrow>
     (if op_Phase oper = OperationRunning
      then b' = set_state ClusterBackupCreating b \<and> os_Action (op_Spec oper) = OperationBackupCluster \<or>
           b' = set_state ClusterBackupRestoring b \<and> os_Action (op_Spec oper) = OperationRecoverCluster
      else if op_Phase oper = OperationSucceeded
      then b' = set_state ClusterBackupAvailable b \<and> bu_State b = ClusterBackupRestoring \<and> os_Action (op_Spec oper) = OperationRecoverCluster \<or>
           bu_State b = ClusterBackupCreating \<and> os_Action (op_Spec oper) = OperationBackupCluster \<and>
           (\<exists>tasks cf. ListTasksByOperationUID am (br_OperationStore r) (op_UID oper) [] w = (Inr tasks, w) \<and> reported unmarshal (ol_Items tasks) cf \<and>
              cf_BackupFileSize cf \<noteq> 0 \<and> cf_BackupFileMD5 cf \<noteq> [] \<and> b' = withFile cf b)
      else OperationPhase_IsTerminal (op_Phase oper) \<and>
           b' = set_state (if cl_Phase c = ClusterRestoreFailed then ClusterBackupAvailable else ClusterBackupError) b)"

text \<open>One run with the cluster and the operation at hand: at most one write, and a justified one.\<close>

lemma chain_effect:
  assumes "io_bind (markCreating r oper b) (\<lambda>b. io_bind (markRestoring r oper b) (\<lambda>b. io_bind (markCreated am unmarshal r oper b) (\<lambda>b.
      io_bind (markRestored r oper b) (\<lambda>b. markFailed r c oper b)))) w = (res, w')"
  shows "w' = w \<or> (\<exists>b'. w' = snd (br_UpdateBackup r b' w) \<and> justified am unmarshal r w c oper b b')"
proof -
  note defs = markCreating_def markRestoring_def markRestored_def markFailed_def io_bind_def logged_update_eq justified_def
  note apart = phases_apart phases_apart(1,3) [symmetric]
  consider (run) "op_Phase oper = OperationRunning" | (made) "op_Phase oper = OperationSucceeded" "bu_State b = ClusterBackupCreating"
      "os_Action (op_Spec oper) = OperationBackupCluster"
    | (other) "op_Phase oper = OperationSucceeded" "\<not> (bu_State b = ClusterBackupCreating \<and> os_Action (op_Spec oper) = OperationBackupCluster)"
    | (fail) "op_Phase oper \<noteq> OperationRunning" "op_Phase oper \<noteq> OperationSucceeded" by blast
  then show ?thesis
  proof cases
    case run
    then show ?thesis using assms apart by (auto simp: defs markCreated_def split: if_splits)
  next
    case made
    obtain tr w1 where l: "ListTasksByOperationUID am (br_OperationStore r) (op_UID oper) [] w = (tr, w1)" by fastforce
    have w1: "w1 = w" using l by (rule listTasks_keeps)
    show ?thesis
    proof (cases tr)
      case (Inl e)
      then show ?thesis using made assms apart l w1 by (simp add: defs markCreated_def)
    next
      case (Inr tasks)
      let ?cf = "readCheckFile unmarshal (ol_Items tasks) emptyCheckFile"
      show ?thesis
      proof (cases "cf_BackupFileSize ?cf \<noteq> 0 \<and> cf_BackupFileMD5 ?cf \<noteq> []")
        case True
        then have "?cf \<noteq> emptyCheckFile" by (auto simp: emptyCheckFile_def)
        then have "reported unmarshal (ol_Items tasks) ?cf" using readCheckFile_reported [of unmarshal "ol_Items tasks" emptyCheckFile] by blast
        moreover have "w' = snd (br_UpdateBackup r (withFile ?cf b) w)"
          using True made assms apart l w1 Inr
          by (auto simp: markCreating_def markRestoring_def markRestored_def markFailed_def markCreated_def io_bind_def logged_update_eq Let_def)
        ultimately show ?thesis using True made l w1 Inr apart unfolding justified_def by auto
      next
        case False
        then have "w' = w" using made assms apart l w1 Inr
          by (auto simp: markCreating_def markRestoring_def markCreated_def io_bind_def Let_def)
        then show ?thesis by simp
      qed
    qed
  next
    case other
    then show ?thesis using assms apart by (auto simp: defs markCreated_def split: if_splits)
  next
    case fail
    then show ?thesis using assms by (auto simp: defs markCreated_def split: if_splits)
  qed
qed

text \<open>
  C39.  Backups follow their operation.  A reconciliation of a backup writes at most once.  It deletes the
  backup only if its cluster is gone; it marks it failed if the operation is gone; and otherwise it
  writes only what the phase of the operation justifies: Creating or Restoring while the matching
  operation runs, Available after a Succeeded backup operation only with a file size and a checksum
  that a task of that operation reported, Available again after a Succeeded restoration, and Error after
  a failure unless the cluster is left in the phase RestoreFailed.  Apart from the
  status nothing of the backup changes.
\<close>

theorem backup_follows_operation:
  assumes "backup_Reconcile am unmarshal r name w = (res, w')"
  shows "w' = w \<or> (\<exists>b. br_BackupLister r name w = Inr b \<and>
    (case br_ClusterLister r (label (bu_Labels b) LabelClusterName) w of
       Inl e \<Rightarrow> IsNotFound e \<and> w' = snd (br_DeleteBackup r (bu_Name b) w)
     | Inr c \<Rightarrow> (\<exists>b'. w' = snd (br_UpdateBackup r b' w) \<and>
         (case br_OperationLister r (label (bu_Labels b) LabelOperationName) w of
            Inl e \<Rightarrow> IsNotFound e \<and> b' = set_state ClusterBackupError b
          | Inr oper \<Rightarrow> justified am unmarshal r w c oper b b'))))"
proof (cases "br_BackupLister r name w")
  case (Inl e)
  then show ?thesis using assms by (simp add: backup_Reconcile_def io_try_def split: if_splits)
next
  case (Inr b)
  then have run: "updateBackupStatus am unmarshal r b w = (res, w')" using assms by (simp add: backup_Reconcile_def io_try_def)
  show ?thesis
  proof (cases "br_ClusterLister r (label (bu_Labels b) LabelClusterName) w")
    case c: (Inl e)
    then show ?thesis using run Inr by (auto simp: updateBackupStatus_def Let_def split: if_splits sum.splits)
  next
    case c: (Inr c)
    show ?thesis
    proof (cases "br_OperationLister r (label (bu_Labels b) LabelOperationName) w")
      case (Inl e)
      then show ?thesis using run Inr c
        by (auto simp: updateBackupStatus_def Let_def io_bind_def split: if_splits sum.splits prod.splits intro!: exI [of _ "set_state ClusterBackupError b"])
    next
      case o: (Inr oper)
      from run c o have "w' = w \<or> (\<exists>b'. w' = snd (br_UpdateBackup r b' w) \<and> justified am unmarshal r w c oper b b')"
        by (intro chain_effect) (simp add: updateBackupStatus_def)
      then show ?thesis using Inr c o by auto
    qed
  qed
qed

text \<open>
  The last branch looks only at the phase of the cluster: a backup whose own creation failed is
  offered as available while the cluster is in the phase RestoreFailed after some other restoration.
\<close>

lemma failed_backup_offered:
  assumes "br_BackupLister r name w = Inr b" "br_ClusterLister r (label (bu_Labels b) LabelClusterName) w = Inr c"
    and "br_OperationLister r (label (bu_Labels b) LabelOperationName) w = Inr oper"
    and "op_Phase oper = OperationFailed" "os_Action (op_Spec oper) = OperationBackupCluster" "cl_Phase c = ClusterRestoreFailed"
  shows "backup_Reconcile am unmarshal r name w = (Inr (), snd (br_UpdateBackup r (set_state ClusterBackupAvailable b) w))"
  using assms by (simp add: backup_Reconcile_def io_try_def updateBackupStatus_def markCreating_def markRestoring_def markCreated_def
      markRestored_def markFailed_def logged_update_eq io_bind_def op_phase_defs OperationPhase_IsTerminal_def)

definition sample_backup :: Backup where
  "sample_backup = \<lparr>bu_Name = ''b'', bu_CreationTimestamp = 0, bu_Labels = [(LabelClusterName, ''c''), (LabelOperationName, ''op'')],
     bu_OwnerReferences = [], bu_Status = \<lparr>bs_KubernetesVersion = ''v1.27.4'', bs_FileName = ''b'', bs_BackupFileSize = 0, bs_BackupFileMD5 = [],
       bs_ClusterBackupStatus = ClusterBackupCreating\<rparr>, bu_ClusterNodes = [], bu_PreferredNode = ''n'', bu_BackupPointName = ''p''\<rparr>"

text \<open>A world for the example: the stored backups beside the storage of the engine; the operation of the backup failed.\<close>

definition beside :: "('a, 'w) StandardStorage \<Rightarrow> ('a, 'x \<times> 'w) StandardStorage" where
  "beside st = \<lparr>st_Get = (\<lambda>n rv w. st_Get st n rv (snd w)), st_List = (\<lambda>i w. st_List st i (snd w)),
     st_Create = (\<lambda>x w. map_prod id (Pair (fst w)) (st_Create st x (snd w))),
     st_Update = (\<lambda>n x w. map_prod id (Pair (fst w)) (st_Update st n x (snd w))),
     st_Delete = (\<lambda>n u w. map_prod id (Pair (fst w)) (st_Delete st n u (snd w)))\<rparr>"

definition beside_store :: "'w store \<Rightarrow> ('x \<times> 'w) store" where
  "beside_store s = \<lparr>s_operations = beside (s_operations s), s_tasks = beside (s_tasks s), s_locks = beside (s_locks s),
     s_operationsStrong = beside (s_operationsStrong s), s_tasksStrong = beside (s_tasksStrong s), s_locksStrong = beside (s_locksStrong s),
     s_now = (\<lambda>w. map_prod id (Pair (fst w)) (s_now s (snd w)))\<rparr>"

definition sample_backup_reconciler :: "(Backup list \<times> mem) BackupReconciler" where
  "sample_backup_reconciler = \<lparr>br_ClusterLister = (\<lambda>n w. Inr \<lparr>cl_Name = ''c'', cl_UID = ''c-uid'', cl_ResourceVersion = ''1'', cl_Phase = ClusterBackingUp,
       cl_KubernetesVersion = ''v1.27.4''\<rparr>),
     br_BackupLister = (\<lambda>n w. case find (\<lambda>b. bu_Name b = n) (fst w) of None \<Rightarrow> Inl (NotFound ''backup'' n) | Some b \<Rightarrow> Inr b),
     br_OperationLister = (\<lambda>n w. Inr (biz_op OperationBackupCluster OperationFailed)),
     br_OperationStore = beside_store memStore,
     br_UpdateBackup = (\<lambda>b w. (Inr b, (map (\<lambda>x. if bu_Name x = bu_Name b then b else x) (fst w), snd w))),
     br_DeleteBackup = (\<lambda>n w. (Inr (), (filter (\<lambda>x. bu_Name x \<noteq> n) (fst w), snd w)))\<rparr>"

theorem backup_follows_operation_witness:
  "\<exists>b'. fst (snd (backup_Reconcile memAm (\<lambda>s cf. (cf, False)) sample_backup_reconciler ''b'' ([sample_backup], mem0))) = [b'] \<and>
     b' = set_state ClusterBackupError sample_backup"
proof -
  let ?run = "backup_Reconcile memAm (\<lambda>s cf. (cf, False)) sample_backup_reconciler ''b'' ([sample_backup], mem0)"
  have ph: "op_Phase (biz_op OperationBackupCluster OperationFailed) = OperationFailed" "OperationFailed \<noteq> OperationRunning"
    "OperationFailed \<noteq> OperationSucceeded" "ClusterBackingUp \<noteq> ClusterRestoreFailed"
    by (simp_all add: biz_op_def op_phase_defs phase_defs)
  have changed: "map bu_State (fst (snd ?run)) \<noteq> [ClusterBackupCreating]" by code_simp
  obtain b' where "snd ?run = snd (br_UpdateBackup sample_backup_reconciler b' ([sample_backup], mem0))" "b' = set_state ClusterBackupError sample_backup"
    using backup_follows_operation [OF prod.collapse [symmetric], of memAm "\<lambda>s cf. (cf, False)" sample_backup_reconciler "''b''" "([sample_backup], mem0)"] changed ph
    by (auto simp: sample_backup_reconciler_def sample_backup_def justified_def)
  then show ?thesis by (simp add: sample_backup_reconciler_def sample_backup_def)
qed

end
