(* ===== verification/Cluster_Nodes.thy ===== *)
theory Cluster_Nodes
  imports Node_Monitor
begin

text \<open>
  The worker lists of clusters (\<^verbatim>\<open>pkg/scheme/core/v1/cluster_types.go\<close>) and how a request to add or remove
  nodes changes them (\<^verbatim>\<open>PatchNodes.MakeCompare\<close> in \<^verbatim>\<open>pkg/clusteroperation/node.go\<close>).  Nodes are compared by their
  identifier only; what else an entry holds (taints, container runtime) is carried in the extension
  of the record.
\<close>

subsection \<open>Lists of nodes\<close>

record WorkerNode =
  wn_ID :: string
  wn_Labels :: "(string \<times> string) list"

definition GetNodeIDs :: "'a WorkerNode_scheme list \<Rightarrow> string list" where
  "GetNodeIDs l = map wn_ID l"

definition Intersect :: "'a WorkerNode_scheme list \<Rightarrow> 'a WorkerNode_scheme list \<Rightarrow> 'a WorkerNode_scheme list" where
  "Intersect l nodes = filter (\<lambda>n. wn_ID n \<in> set (map wn_ID l)) nodes"

definition Complement :: "'a WorkerNode_scheme list \<Rightarrow> 'a WorkerNode_scheme list \<Rightarrow> 'a WorkerNode_scheme list" where
  "Complement l nodes = filter (\<lambda>n. wn_ID n \<notin> set (map wn_ID nodes)) l"

definition GetAllNodes :: "'a WorkerNode_scheme list \<Rightarrow> 'a WorkerNode_scheme list \<Rightarrow> string set" where
  "GetAllNodes masters workers = set (GetNodeIDs masters) \<union> set (GetNodeIDs workers)"

subsection \<open>Requests to add or remove nodes\<close>

definition NodesOperationAdd :: string where "NodesOperationAdd = ''add''"
definition NodesOperationRemove :: string where "NodesOperationRemove = ''remove''"

record 'a PatchNodes =
  pn_Operation :: string
  pn_Nodes :: "'a WorkerNode_scheme list"
  pn_Role :: string

definition ErrInvalidNodesOperation :: goerr where "ErrInvalidNodesOperation = Plain ''invalid nodes patch operation''"
definition ErrInvalidNodesRole :: goerr where "ErrInvalidNodesRole = Plain ''invalid node role''"

text \<open>The request and the workers of the cluster are both changed.\<close>

definition makeMasterCompare :: "'a PatchNodes \<Rightarrow> 'a WorkerNode_scheme list \<Rightarrow> goerr + 'a PatchNodes \<times> 'a WorkerNode_scheme list" where
  "makeMasterCompare p workers = Inl ErrInvalidNodesRole"

definition makeWorkerCompare :: "'a PatchNodes \<Rightarrow> 'a WorkerNode_scheme list \<Rightarrow> goerr + 'a PatchNodes \<times> 'a WorkerNode_scheme list" where
  "makeWorkerCompare p workers =
     (if pn_Operation p = NodesOperationAdd
      then (let p' = p\<lparr>pn_Nodes := Complement (pn_Nodes p) workers\<rparr> in Inr (p', workers @ pn_Nodes p'))
      else if pn_Operation p = NodesOperationRemove
      then (let p' = p\<lparr>pn_Nodes := Intersect workers (pn_Nodes p)\<rparr> in Inr (p', Complement workers (pn_Nodes p')))
      else Inl ErrInvalidNodesOperation)"

definition MakeCompare :: "'a PatchNodes \<Rightarrow> 'a WorkerNode_scheme list \<Rightarrow> goerr + 'a PatchNodes \<times> 'a WorkerNode_scheme list" where
  "MakeCompare p workers =
     (if pn_Role p = NodeRoleMaster then makeMasterCompare p workers
      else if pn_Role p = NodeRoleWorker then makeWorkerCompare p workers
      else Inl ErrInvalidNodesRole)"

lemmas compare_defs = MakeCompare_def makeWorkerCompare_def makeMasterCompare_def Complement_def Intersect_def Let_def
  NodesOperationAdd_def NodesOperationRemove_def NodeRoleMaster_def NodeRoleWorker_def

subsection \<open>The workers after a request\<close>

lemma added_nodes:
  "Intersect (ws @ Complement xs ws) (Complement xs ws) = Complement xs ws"
  "Complement (ws @ Complement xs ws) (Complement xs ws) = ws"
proof -
  let ?new = "Complement xs ws"
  show "Intersect (ws @ ?new) ?new = ?new" unfolding Intersect_def by (rule filter_True) simp
  have new: "wn_ID n \<notin> wn_ID ` set ws" if "n \<in> set ?new" for n using that by (simp add: Complement_def)
  have "filter (\<lambda>n. wn_ID n \<notin> set (map wn_ID ?new)) ws = ws" by (rule filter_True) (use new in \<open>fastforce simp: image_iff\<close>)
  moreover have "filter (\<lambda>n. wn_ID n \<notin> set (map wn_ID ?new)) ?new = []" by (rule filter_False) simp
  ultimately show "Complement (ws @ ?new) ?new = ws" unfolding Complement_def [of "ws @ ?new"] filter_append by simp
qed

text \<open>
  Membership after a request.  A request to add or remove workers that is accepted leaves in the
  request exactly the entries that are to be worked on, in their order: the ones that were no workers (add) or
  were workers (remove).  The cluster keeps all its other entries unchanged and in their order, and its
  members are afterwards the old ones with the requested ones added or removed; every other request is
  refused and changes nothing.
\<close>

theorem workers_after_request:
  "MakeCompare p workers = Inr (p', workers') \<longleftrightarrow>
     pn_Role p = NodeRoleWorker \<and> pn_Operation p \<in> {NodesOperationAdd, NodesOperationRemove} \<and>
     p' = p\<lparr>pn_Nodes := filter (\<lambda>n. (wn_ID n \<in> wn_ID ` set workers) = (pn_Operation p = NodesOperationRemove)) (pn_Nodes p)\<rparr> \<and>
     (if pn_Operation p = NodesOperationAdd
      then workers' = workers @ pn_Nodes p' \<and> wn_ID ` set workers' = wn_ID ` set workers \<union> wn_ID ` set (pn_Nodes p)
      else workers' = filter (\<lambda>n. wn_ID n \<notin> wn_ID ` set (pn_Nodes p)) workers \<and>
        wn_ID ` set workers' = wn_ID ` set workers - wn_ID ` set (pn_Nodes p))"
proof -
  have i: "wn_ID ` {x \<in> set (pn_Nodes p). wn_ID x \<in> wn_ID ` set workers} = wn_ID ` set (pn_Nodes p) \<inter> wn_ID ` set workers" by auto
  have r: "filter (\<lambda>n. wn_ID n \<notin> wn_ID ` {x \<in> set (pn_Nodes p). wn_ID x \<in> wn_ID ` set workers}) workers =
      filter (\<lambda>n. wn_ID n \<notin> wn_ID ` set (pn_Nodes p)) workers" unfolding i by (rule filter_cong) auto
  have m: "wn_ID ` (set workers \<union> {x \<in> set (pn_Nodes p). wn_ID x \<notin> wn_ID ` set workers}) =
      wn_ID ` set workers \<union> wn_ID ` set (pn_Nodes p)" by blast
  have d: "wn_ID ` {x \<in> set workers. wn_ID x \<notin> wn_ID ` set (pn_Nodes p)} = wn_ID ` set workers - wn_ID ` set (pn_Nodes p)" by (auto simp: image_iff)
  consider (add) "pn_Role p = NodeRoleWorker" "pn_Operation p = NodesOperationAdd"
    | (remove) "pn_Role p = NodeRoleWorker" "pn_Operation p = NodesOperationRemove"
    | (other) "\<not> (pn_Role p = NodeRoleWorker \<and> pn_Operation p \<in> {NodesOperationAdd, NodesOperationRemove})" by blast
  then show ?thesis
  proof cases
    case add
    then have "MakeCompare p workers = Inr (p\<lparr>pn_Nodes := filter (\<lambda>n. wn_ID n \<notin> wn_ID ` set workers) (pn_Nodes p)\<rparr>,
        workers @ filter (\<lambda>n. wn_ID n \<notin> wn_ID ` set workers) (pn_Nodes p))" by (simp add: compare_defs)
    moreover have "NodesOperationAdd \<noteq> NodesOperationRemove" by (simp add: compare_defs)
    ultimately show ?thesis using add m by auto
  next
    case remove
    then have "MakeCompare p workers = Inr (p\<lparr>pn_Nodes := filter (\<lambda>n. wn_ID n \<in> wn_ID ` set workers) (pn_Nodes p)\<rparr>,
        filter (\<lambda>n. wn_ID n \<notin> wn_ID ` set (pn_Nodes p)) workers)" by (simp add: compare_defs r)
    moreover have "NodesOperationRemove \<noteq> NodesOperationAdd" by (simp add: compare_defs)
    ultimately show ?thesis using remove d by auto
  next
    case other
    then have "\<exists>e. MakeCompare p workers = Inl e" by (simp add: MakeCompare_def makeMasterCompare_def makeWorkerCompare_def)
    with other show ?thesis by auto
  qed
qed

text \<open>
  Removing what was added.  If a request adds nodes, the request with the nodes it was reduced to
  and the operation remove takes exactly those out again and gives back the original list of workers.
\<close>

theorem add_remove_roundtrip:
  assumes "MakeCompare p workers = Inr (p', workers')" "pn_Operation p = NodesOperationAdd"
  shows "MakeCompare (p'\<lparr>pn_Operation := NodesOperationRemove\<rparr>) workers' = Inr (p'\<lparr>pn_Operation := NodesOperationRemove\<rparr>, workers)"
proof -
  let ?new = "Complement (pn_Nodes p) workers"
  have p': "pn_Role p = NodeRoleWorker" "p' = p\<lparr>pn_Nodes := ?new\<rparr>" "workers' = workers @ ?new" "NodesOperationRemove \<noteq> NodesOperationAdd"
    "NodeRoleWorker \<noteq> NodeRoleMaster"
    using assms by (auto simp: compare_defs split: if_splits)
  have "p\<lparr>pn_Operation := x, pn_Nodes := y\<rparr> = p\<lparr>pn_Nodes := y, pn_Operation := x\<rparr>" for x y by simp
  then show ?thesis using p' by (simp add: MakeCompare_def makeWorkerCompare_def Let_def added_nodes)
qed

definition sample_patch :: "unit PatchNodes" where
  "sample_patch = \<lparr>pn_Operation = NodesOperationAdd, pn_Nodes = [\<lparr>wn_ID = ''a'', wn_Labels = []\<rparr>, \<lparr>wn_ID = ''b'', wn_Labels = []\<rparr>], pn_Role = NodeRoleWorker\<rparr>"

theorem add_remove_roundtrip_witness:
  "MakeCompare (sample_patch\<lparr>pn_Nodes := [\<lparr>wn_ID = ''b'', wn_Labels = []\<rparr>], pn_Operation := NodesOperationRemove\<rparr>)
     [\<lparr>wn_ID = ''a'', wn_Labels = []\<rparr>, \<lparr>wn_ID = ''b'', wn_Labels = []\<rparr>] =
   Inr (sample_patch\<lparr>pn_Nodes := [\<lparr>wn_ID = ''b'', wn_Labels = []\<rparr>], pn_Operation := NodesOperationRemove\<rparr>, [\<lparr>wn_ID = ''a'', wn_Labels = []\<rparr>])"
proof -
  have "MakeCompare sample_patch [\<lparr>wn_ID = ''a'', wn_Labels = []\<rparr>] =
      Inr (sample_patch\<lparr>pn_Nodes := [\<lparr>wn_ID = ''b'', wn_Labels = []\<rparr>]\<rparr>, [\<lparr>wn_ID = ''a'', wn_Labels = []\<rparr>, \<lparr>wn_ID = ''b'', wn_Labels = []\<rparr>])"
    by (simp add: compare_defs sample_patch_def)
  from add_remove_roundtrip [OF this] show ?thesis by (simp add: sample_patch_def)
qed

end
