(* ===== verification/Cron_Backup.thy ===== *)
theory Cron_Backup
  imports Backups Cluster_Nodes
begin

text \<open>
  Scheduled backups (\<^verbatim>\<open>pkg/controller/cronbackupcontroller\<close>): when a backup is due the controller hands an operation to
  the engine, records the backup and the next time, and removes the oldest backups beyond the number to keep.
  Arguments of the model, gathered in the reconciler record, are the storages, the clocks, the random
  names, the reachability of nodes and the order in which answers arrive, the order of a sorted slice
  among equal creation times, the cron parser and the lookup of the controlling owner.
\<close>

subsection \<open>Data\<close>

record BackupCluster = ClusterObject +
  bc_Labels :: "(string \<times> string) list"
  bc_Masters :: "WorkerNode list"

record S3Config =
  s3_Bucket :: string
  s3_Endpoint :: string
  s3_AccessKeyID :: string
  s3_AccessKeySecret :: string

record BackupPoint =
  bp_StorageType :: string
  bp_FsConfig :: "string option"
  bp_S3Config :: "S3Config option"

record ActBackup =
  ab_StoreType :: string
  ab_BackupFileName :: string
  ab_BackupPointRootDir :: string
  ab_AccessKeyID :: string
  ab_AccessKeySecret :: string
  ab_Bucket :: string
  ab_Endpoint :: string

record BackupNode =
  bn_Name :: string
  bn_Ipv4DefaultIP :: string
  bn_NodeIpv4DefaultIP :: string
  bn_Hostname :: string
  bn_Labels :: "(string \<times> string) list"

record CompNode =
  co_ID :: string
  co_IPv4 :: string
  co_NodeIPv4 :: string
  co_Region :: string
  co_Hostname :: string
  co_Role :: string
  co_Disable :: bool

record CronBackup =
  cb_Name :: string
  cb_UID :: string
  cb_Labels :: "(string \<times> string) list"
  cb_ClusterName :: string
  cb_Schedule :: string
  cb_MaxBackupNum :: int
  cb_RunAt :: "gotime option"
  cb_NextScheduleTime :: "gotime option"
  cb_LastScheduleTime :: "gotime option"
  cb_LastSuccessfulTime :: "gotime option"

definition FSStorage :: string where "FSStorage = ''fs''"
definition S3Storage :: string where "S3Storage = ''s3''"

record 'w CronBackupReconciler =
  cr_GetCronBackup :: "string \<Rightarrow> 'w \<Rightarrow> goerr + CronBackup"
  cr_UpdateCronBackup :: "CronBackup \<Rightarrow> ('w, CronBackup) io"
  cr_GetCluster :: "string \<Rightarrow> 'w \<Rightarrow> goerr + BackupCluster"
  cr_UpdateCluster :: "BackupCluster \<Rightarrow> ('w, BackupCluster) io"
  cr_GetBackup :: "string \<Rightarrow> 'w \<Rightarrow> goerr + Backup"
  cr_ListBackups :: "'w \<Rightarrow> goerr + Backup list"
  cr_CreateBackup :: "Backup \<Rightarrow> ('w, Backup) io"
  cr_DeleteBackup :: "string \<Rightarrow> ('w, unit) io"
  cr_GetBackupPoint :: "string \<Rightarrow> 'w \<Rightarrow> goerr + BackupPoint"
  cr_GetNode :: "string \<Rightarrow> 'w \<Rightarrow> goerr + BackupNode"
  cr_ListNodes :: "string \<Rightarrow> string \<Rightarrow> 'w \<Rightarrow> goerr + BackupNode list"
  cr_OperationStore :: "'w store"
  cr_NodeReader :: "'w OperatorReader"
  cr_Now :: "nat \<Rightarrow> 'w \<Rightarrow> gotime"
  cr_timeNow :: "'w \<Rightarrow> gotime"
  cr_Date :: "gotime \<Rightarrow> int \<times> int \<times> int"
  cr_cron :: "string \<Rightarrow> (gotime \<Rightarrow> gotime) option"
  cr_rand :: "'w \<Rightarrow> string"
  cr_uuid :: "nat \<Rightarrow> 'w \<Rightarrow> string"
  cr_reachable :: "nat \<Rightarrow> string \<Rightarrow> 'w \<Rightarrow> bool"
  cr_arrival :: "nat \<Rightarrow> CompNode list \<Rightarrow> 'w \<Rightarrow> CompNode list"
  cr_marshalStep :: "CommandStepPayload \<Rightarrow> goerr + string"
  cr_marshalAct :: "ActBackup \<Rightarrow> goerr + string"
  cr_GetControllerOf :: "Backup \<Rightarrow> OwnerReference option"
  cr_sortByCreation :: "Backup list \<Rightarrow> Backup list"

subsection \<open>The steps of a backup\<close>

definition ReachableNodes :: "'w CronBackupReconciler \<Rightarrow> nat \<Rightarrow> CompNode list \<Rightarrow> 'w \<Rightarrow> CompNode list" where
  "ReachableNodes r k l w = cr_arrival r k (filter (\<lambda>no. cr_reachable r k (co_IPv4 no @ '':'' @ show_int 6443) w) l) w"

definition AvailableKubeMasters :: "'w CronBackupReconciler \<Rightarrow> nat \<Rightarrow> CompNode list \<Rightarrow> ('w, CompNode list) io" where
  "AvailableKubeMasters r k l = (\<lambda>w.
     let masters = ReachableNodes r k l w in
     if masters = [] then (Inl (Plain ''no master node available: all master nodes 6443 port unreachable''), w) else (Inr masters, w))"

definition UnwrapNodeList :: "CompNode list \<Rightarrow> StepNode list" where
  "UnwrapNodeList nl = map (\<lambda>v. \<lparr>sn_ID = co_ID v, sn_IPv4 = co_IPv4 v, sn_NodeIPv4 = co_NodeIPv4 v, sn_Hostname = co_Hostname v\<rparr>) nl"

definition backupStep :: "string \<Rightarrow> string \<Rightarrow> duration \<Rightarrow> StepNode list \<Rightarrow> string \<Rightarrow> string \<Rightarrow> CoreStep" where
  "backupStep ident name timeout nodes action rBytes =
     \<lparr>cs_ID = ident, cs_Name = name, cs_Nodes = nodes, cs_Action = action, cs_Timeout = timeout, cs_ErrIgnore = False,
      cs_Commands = [\<lparr>cmd_Type = CommandCustom, cmd_ShellCommand = [], cmd_Identity = ''actBackup/v1/step'', cmd_CustomCommand = rBytes,
        cmd_Template = None\<rparr>],
      cs_BeforeRunCommands = [], cs_AfterRunCommands = [], cs_RetryTimes = 0, cs_AutomaticRetry = False\<rparr>"

definition makeInstallSteps :: "'w CronBackupReconciler \<Rightarrow> ActBackup \<Rightarrow> CompNode list \<Rightarrow> ('w, CoreStep list) io" where
  "makeInstallSteps r stepper masters =
     io_bind (io_of (cr_marshalAct r stepper)) (\<lambda>rBytes.
     io_bind (AvailableKubeMasters r 0 masters) (\<lambda>avaMasters. \<lambda>w.
       (Inr [backupStep (cr_uuid r 1 w) ''createBackup'' (5 * Minute) (UnwrapNodeList (take 1 avaMasters)) ActionInstall rBytes], w)))"

definition makeUninstallSteps :: "'w CronBackupReconciler \<Rightarrow> ActBackup \<Rightarrow> CompNode list \<Rightarrow> ('w, CoreStep list) io" where
  "makeUninstallSteps r stepper masters =
     io_bind (io_of (cr_marshalAct r stepper)) (\<lambda>rBytes.
     io_bind (AvailableKubeMasters r 1 masters) (\<lambda>avaMasters. \<lambda>w.
       (Inr [backupStep (cr_uuid r 2 w) ''deleteBackup'' (2 * Minute) (UnwrapNodeList (take 1 avaMasters)) ActionUninstall rBytes], w)))"

text \<open>The install and the uninstall steps of a fresh stepper.\<close>

definition InitSteps :: "'w CronBackupReconciler \<Rightarrow> ActBackup option \<Rightarrow> CompNode list \<Rightarrow> ('w, CoreStep list \<times> CoreStep list) io" where
  "InitSteps r stepper masters =
     (if masters = [] then io_err (Plain ''init step error, create/delete backup cluster contains at least one master node'')
      else case stepper of
        None \<Rightarrow> io_err (Panic ''nil pointer dereference'')
      | Some s \<Rightarrow>
          io_bind (makeInstallSteps r s masters) (\<lambda>install.
          io_bind (makeUninstallSteps r s masters) (\<lambda>uninstall. io_ret (install, uninstall))))"

definition actBackupOf :: "BackupPoint \<Rightarrow> Backup \<Rightarrow> goerr + ActBackup option" where
  "actBackupOf bp backup =
     (if bp_StorageType bp = S3Storage
      then (case bp_S3Config bp of
              None \<Rightarrow> Inl (Panic ''nil pointer dereference'')
            | Some s3 \<Rightarrow> Inr (Some \<lparr>ab_StoreType = bp_StorageType bp, ab_BackupFileName = bs_FileName (bu_Status backup), ab_BackupPointRootDir = [],
                ab_AccessKeyID = s3_AccessKeyID s3, ab_AccessKeySecret = s3_AccessKeySecret s3, ab_Bucket = s3_Bucket s3, ab_Endpoint = s3_Endpoint s3\<rparr>))
      else if bp_StorageType bp = FSStorage
      then (case bp_FsConfig bp of
              None \<Rightarrow> Inl (Panic ''nil pointer dereference'')
            | Some dir \<Rightarrow> Inr (Some \<lparr>ab_StoreType = bp_StorageType bp, ab_BackupFileName = bs_FileName (bu_Status backup), ab_BackupPointRootDir = dir,
                ab_AccessKeyID = [], ab_AccessKeySecret = [], ab_Bucket = [], ab_Endpoint = []\<rparr>))
      else Inr None)"

subsection \<open>Making a backup\<close>

definition compNodeOf :: "BackupNode \<Rightarrow> CompNode" where
  "compNodeOf no = \<lparr>co_ID = bn_Name no, co_IPv4 = bn_Ipv4DefaultIP no, co_NodeIPv4 = bn_NodeIpv4DefaultIP no,
     co_Region = label (bn_Labels no) LabelTopologyRegion, co_Hostname = bn_Hostname no, co_Role = label (bn_Labels no) LabelNodeRole, co_Disable = False\<rparr>"

definition bareNode :: "string \<Rightarrow> CompNode" where
  "bareNode ident = \<lparr>co_ID = ident, co_IPv4 = [], co_NodeIPv4 = [], co_Region = [], co_Hostname = [], co_Role = [], co_Disable = False\<rparr>"

definition ownerRefs :: "CronBackup \<Rightarrow> OwnerReference list" where
  "ownerRefs cronBackup = [\<lparr>ow_APIVersion = ''core.kubeclipper.io/v1'', ow_Kind = ''CronBackup'', ow_Name = cb_Name cronBackup,
     ow_UID = cb_UID cronBackup, ow_Controller = Some True\<rparr>]"

definition backupPlan :: "string \<Rightarrow> string \<Rightarrow> BackupCluster \<Rightarrow> string \<Rightarrow> CoreStep list \<Rightarrow> CoreOperation" where
  "backupPlan name action c backupName steps =
     \<lparr>cop_Name = name,
      cop_Labels = [(LabelOperationAction, action), (LabelTimeoutSeconds, show_int DefaultBackupTimeoutSec), (LabelClusterName, cl_Name c),
        (LabelBackupName, backupName), (LabelTopologyRegion, label (wn_Labels (hd (bc_Masters c))) LabelTopologyRegion)],
      cop_Steps = steps\<rparr>"

definition clusterNodesOf :: "BackupNode list \<Rightarrow> (string \<times> string) list" where
  "clusterNodesOf nodes = fold (\<lambda>node m. AList.update (bn_Ipv4DefaultIP node) (bn_Hostname node) m) nodes []"

definition newBackup :: "CronBackup \<Rightarrow> BackupCluster \<Rightarrow> string \<Rightarrow> string \<Rightarrow> BackupNode list \<Rightarrow> Backup" where
  "newBackup cronBackup c name opName nodes =
     \<lparr>bu_Name = name, bu_CreationTimestamp = 0,
      bu_Labels = [(LabelClusterName, cl_Name c), (LabelOperationName, opName), (LabelTimeoutSeconds, show_int DefaultBackupTimeoutSec)],
      bu_OwnerReferences = ownerRefs cronBackup,
      bu_Status = \<lparr>bs_KubernetesVersion = cl_KubernetesVersion c, bs_FileName = name, bs_BackupFileSize = 0, bs_BackupFileMD5 = [], bs_ClusterBackupStatus = []\<rparr>,
      bu_ClusterNodes = clusterNodesOf nodes, bu_PreferredNode = wn_ID (hd (bc_Masters c)), bu_BackupPointName = label (bc_Labels c) LabelBackupPoint\<rparr>"

text \<open>The last part of \<^verbatim>\<open>createBackup\<close>: the cluster is read again, and then the operation, the backup and the phase are written.\<close>

definition deliverBackup :: "'w CronBackupReconciler \<Rightarrow> CronBackup \<Rightarrow> BackupCluster \<Rightarrow> CoreOperation \<Rightarrow> Backup \<Rightarrow> ('w, unit) io" where
  "deliverBackup r cronBackup c plan backup =
     io_bind (io_read (cr_GetCluster r (cb_ClusterName cronBackup))) (\<lambda>nc.
       if cl_Phase nc \<noteq> ClusterRunning then io_ret ()
       else
         io_bind (CreateFromCore (cr_marshalStep r) (cr_OperationStore r) (cr_NodeReader r) (Some (Cluster.truncate c)) (Some plan)) (\<lambda>_.
         io_bind (cr_CreateBackup r backup) (\<lambda>_.
         io_bind (cr_UpdateCluster r (c\<lparr>cl_Phase := ClusterBackingUp\<rparr>)) (\<lambda>_. io_ret ()))))"

definition prepareBackup :: "'w CronBackupReconciler \<Rightarrow> CronBackup \<Rightarrow> BackupCluster \<Rightarrow> BackupPoint \<Rightarrow> string \<Rightarrow> ('w, unit) io" where
  "prepareBackup r cronBackup c bp name = (\<lambda>w.
     case bc_Masters c of
       [] \<Rightarrow> (Inl (Panic ''index out of range''), w)
     | m0 # _ \<Rightarrow>
         if Intersect (bc_Masters c) [\<lparr>wn_ID = wn_ID m0, wn_Labels = []\<rparr>] = []
         then (Inl (Plain (''the node '' @ wn_ID m0 @ '' not a master node'')), w)
         else
           io_bind (io_read (cr_ListNodes r LabelClusterName (cl_Name c))) (\<lambda>nodeList.
           io_bind (if wn_ID m0 \<noteq> [] then io_bind (io_read (cr_GetNode r (wn_ID m0))) (\<lambda>_. io_ret ()) else io_ret ()) (\<lambda>_.
             let opName = cr_uuid r 0 w; backup = newBackup cronBackup c name opName nodeList in
           io_bind (io_of (actBackupOf bp backup)) (\<lambda>actBackup.
           io_bind (InitSteps r actBackup (map compNodeOf nodeList @ [bareNode (wn_ID m0)])) (\<lambda>(install, uninstall).
             deliverBackup r cronBackup c (backupPlan opName OperationBackupCluster c name install) backup)))) w)"

definition createBackup :: "'w CronBackupReconciler \<Rightarrow> CronBackup \<Rightarrow> ('w, unit) io" where
  "createBackup r cronBackup = (\<lambda>w.
     io_bind (io_read (cr_GetCluster r (cb_ClusterName cronBackup))) (\<lambda>c.
       if cl_Phase c \<noteq> ClusterRunning then io_ret ()
       else
         let name = cl_Name c @ ''-'' @ cb_Name cronBackup @ ''-'' @ cr_rand r w in
         io_try (io_read (cr_GetBackup r name))
           (\<lambda>err.
              if \<not> IsNotFound err then io_err err
              else if label (bc_Labels c) LabelBackupPoint = [] then io_err (Plain ''no backup point specified'')
              else io_bind (io_read (cr_GetBackupPoint r (label (bc_Labels c) LabelBackupPoint)))
                     (\<lambda>bp. prepareBackup r cronBackup c bp name))
           (\<lambda>b. io_err (Plain (''backup '' @ name @ '' already exists'')))) w)"

subsection \<open>Removing a backup\<close>

definition deleteBackup :: "'w CronBackupReconciler \<Rightarrow> string \<Rightarrow> Backup \<Rightarrow> ('w, unit) io" where
  "deleteBackup r clusterName backup = (\<lambda>w.
     io_bind (io_read (cr_GetCluster r clusterName)) (\<lambda>c.
     io_bind (io_read (cr_GetBackupPoint r (label (bc_Labels c) LabelBackupPoint))) (\<lambda>bp.
     io_bind (io_read (cr_GetBackup r (bu_Name backup))) (\<lambda>b.
     io_bind (if bu_PreferredNode backup \<noteq> [] then io_bind (io_read (cr_GetNode r (bu_PreferredNode backup))) (\<lambda>_. io_ret ()) else io_ret ()) (\<lambda>_.
       if bc_Masters c = [] then io_err (Panic ''index out of range'')
       else if bu_State b \<in> {ClusterBackupRestoring, ClusterBackupCreating}
       then io_err (Plain (''backup is '' @ bu_State b @ '' now, can't delete''))
       else
         io_bind (io_of (actBackupOf bp backup)) (\<lambda>actBackup.
         io_bind (InitSteps r actBackup [bareNode (bu_PreferredNode backup)]) (\<lambda>(install, uninstall).
         io_bind (CreateFromCore (cr_marshalStep r) (cr_OperationStore r) (cr_NodeReader r) (Some (Cluster.truncate c))
            (Some (backupPlan (cr_uuid r 0 w) OperationDeleteBackup c (bu_Name b) uninstall))) (\<lambda>_. io_ret ()))))))) w)"

definition GetParentUIDFromBackup :: "(Backup \<Rightarrow> OwnerReference option) \<Rightarrow> Backup \<Rightarrow> string option" where
  "GetParentUIDFromBackup GetControllerOf b =
     (case GetControllerOf b of
        None \<Rightarrow> None
      | Some controllerRef \<Rightarrow> if ow_Kind controllerRef \<noteq> ''CronBackup'' then None else Some (ow_UID controllerRef))"

definition GroupBackupsByParent :: "(Backup \<Rightarrow> OwnerReference option) \<Rightarrow> Backup list \<Rightarrow> string \<Rightarrow> Backup list" where
  "GroupBackupsByParent GetControllerOf bs = fold (\<lambda>backup groups.
     case GetParentUIDFromBackup GetControllerOf backup of
       None \<Rightarrow> groups
     | Some parentUID \<Rightarrow> groups(parentUID := groups parentUID @ [backup])) bs (\<lambda>_. [])"

fun remove_loop :: "'w CronBackupReconciler \<Rightarrow> Backup list \<Rightarrow> ('w, unit) io" where
  "remove_loop r [] = io_ret ()"
| "remove_loop r (b # bs) =
     (if bu_State b \<noteq> ClusterBackupAvailable then remove_loop r bs
      else io_bind (cr_DeleteBackup r (bu_Name b)) (\<lambda>_.
           io_bind (deleteBackup r (label (bu_Labels b) LabelClusterName) b) (\<lambda>_. remove_loop r bs)))"

definition keepMax :: "'w CronBackupReconciler \<Rightarrow> CronBackup \<Rightarrow> ('w, unit) io" where
  "keepMax r cronBackup =
     io_bind (io_read (cr_ListBackups r)) (\<lambda>backupList.
       let own = GroupBackupsByParent (cr_GetControllerOf r) backupList (cb_UID cronBackup) in
       if int (length own) > cb_MaxBackupNum cronBackup
       then (let sorted_own = cr_sortByCreation r own; sub = int64 (int (length own) - cb_MaxBackupNum cronBackup) in
             io_bind (remove_loop r (take (nat sub) sorted_own)) (\<lambda>_.
               if int (length sorted_own) < sub then io_err (Panic ''index out of range'') else io_ret ()))
       else io_ret ())"

subsection \<open>Schedules\<close>

text \<open>Civil dates as the standard library normalises them: a month or day out of range moves into the months around it.\<close>

definition leap :: "int \<Rightarrow> bool" where
  "leap y \<longleftrightarrow> 4 dvd y \<and> (\<not> 100 dvd y \<or> 400 dvd y)"

definition month_days :: "int \<Rightarrow> int \<Rightarrow> int" where
  "month_days y m = (if m = 2 then if leap y then 29 else 28 else if m \<in> {4, 6, 9, 11} then 30 else 31)"

lemma month_days_pos: "0 < month_days y m" "28 \<le> month_days y m" by (simp_all add: month_days_def)

definition norm_month :: "int \<Rightarrow> int \<Rightarrow> int \<times> int" where
  "norm_month y m = (y + (m - 1) div 12, (m - 1) mod 12 + 1)"

function days_back :: "int \<times> int \<Rightarrow> int \<Rightarrow> int \<times> int \<times> int" where
  "days_back (y, m) d =
     (if 1 \<le> d then (y, m, d) else let (y', m') = norm_month y (m - 1) in days_back (y', m') (d + month_days y' m'))"
  by pat_completeness auto
termination
proof (relation "measure (\<lambda>(_, d). nat (1 - d))")
  fix y m d :: int and x y' m'
  assume "\<not> 1 \<le> d" "x = norm_month y (m - 1)" "(y', m') = x"
  then show "((((y', m'), d + month_days y' m')), ((y, m), d)) \<in> measure (\<lambda>(_, d). nat (1 - d))"
    using month_days_pos(1) [of y' m'] by simp
qed simp

function days_on :: "int \<times> int \<Rightarrow> int \<Rightarrow> int \<times> int \<times> int" where
  "days_on (y, m) d =
     (if d \<le> month_days y m then (y, m, d) else let (y', m') = norm_month y (m + 1) in days_on (y', m') (d - month_days y m))"
  by pat_completeness auto
termination
proof (relation "measure (\<lambda>(_, d). nat d)")
  fix y m d :: int and x y' m'
  assume "\<not> d \<le> month_days y m" "x = norm_month y (m + 1)" "(y', m') = x"
  then show "((((y', m'), d - month_days y m)), ((y, m), d)) \<in> measure (\<lambda>(_, d). nat d)"
    using month_days_pos(1) [of y m] by simp
qed simp

declare days_back.simps [simp del] days_on.simps [simp del]

definition AddDate :: "int \<times> int \<times> int \<Rightarrow> int \<Rightarrow> int \<Rightarrow> int \<Rightarrow> int \<times> int \<times> int" where
  "AddDate = (\<lambda>(y, m, d) years months days.
     if d + days < 1 then days_back (norm_month (y + years) (m + months)) (d + days)
     else days_on (norm_month (y + years) (m + months)) (d + days))"

fun replaceFirst :: "char \<Rightarrow> string \<Rightarrow> string \<Rightarrow> string" where
  "replaceFirst c new [] = []"
| "replaceFirst c new (x # xs) = (if x = c then new @ xs else x # replaceFirst c new xs)"

definition ParseSchedule :: "(gotime \<Rightarrow> int \<times> int \<times> int) \<Rightarrow> string \<Rightarrow> gotime \<Rightarrow> goerr + string" where
  "ParseSchedule Date schedule now =
     (let arr = splitOn CHR '' '' [] schedule in
      if length arr \<le> 2 then Inl (Panic ''index out of range'')
      else if arr ! 2 = ''L'' then
        (let first = AddDate (Date now) 0 0 (- snd (snd (Date now)) + 1);
             next = AddDate first 0 1 (-1)
         in Inr (replaceFirst CHR ''L'' (show_int (snd (snd next))) schedule))
      else Inr schedule)"

text \<open>The next time of a schedule; the error of the parser is ignored and its nil result dereferenced.\<close>

definition nextRun :: "'w CronBackupReconciler \<Rightarrow> CronBackup \<Rightarrow> gotime \<Rightarrow> gotime \<Rightarrow> goerr + gotime" where
  "nextRun r cronBackup now from =
     (case ParseSchedule (cr_Date r) (cb_Schedule cronBackup) now of
        Inl e \<Rightarrow> Inl e
      | Inr schedule \<Rightarrow> (case cr_cron r schedule of None \<Rightarrow> Inl (Panic ''nil pointer dereference'') | Some Next \<Rightarrow> Inr (Next from)))"

subsection \<open>The reconciler\<close>

text \<open>The result is the time after which the object is handled again; zero means not by itself.\<close>

definition runOnce :: "'w CronBackupReconciler \<Rightarrow> CronBackup \<Rightarrow> gotime \<Rightarrow> gotime \<Rightarrow> ('w, duration) io" where
  "runOnce r cronBackup runAt now =
     (if runAt < now then
        io_bind (createBackup r cronBackup) (\<lambda>_.
          io_try (cr_UpdateCronBackup r (cronBackup\<lparr>cb_LastScheduleTime := cb_NextScheduleTime cronBackup,
              cb_LastSuccessfulTime := cb_NextScheduleTime cronBackup\<rparr>)) (\<lambda>_. io_ret 0) (\<lambda>_. io_ret 0))
      else io_ret (time_Sub runAt now))"

definition runScheduled :: "'w CronBackupReconciler \<Rightarrow> CronBackup \<Rightarrow> gotime \<Rightarrow> gotime \<Rightarrow> ('w, duration) io" where
  "runScheduled r cronBackup nextTime now =
     (if nextTime < now then
        io_try (createBackup r cronBackup)
          (\<lambda>err. case err of
             Panic m \<Rightarrow> io_err err
           | _ \<Rightarrow> io_bind (cr_UpdateCronBackup r (cronBackup\<lparr>cb_LastScheduleTime := Some now\<rparr>)) (\<lambda>_. io_ret 0))
          (\<lambda>_. \<lambda>w.
             case nextRun r cronBackup (cr_Now r 1 w) now of
               Inl e \<Rightarrow> (Inl e, w)
             | Inr nextRunAt \<Rightarrow>
                 (let cronBackup = cronBackup\<lparr>cb_LastScheduleTime := Some now, cb_LastSuccessfulTime := Some now, cb_NextScheduleTime := Some nextRunAt\<rparr> in
                  io_bind (io_try (cr_UpdateCronBackup r cronBackup) (\<lambda>_. io_ret ()) (\<lambda>_. io_ret ())) (\<lambda>_.
                  io_bind (keepMax r cronBackup) (\<lambda>_. io_ret (time_Sub nextRunAt now))) w))
      else io_ret (time_Sub nextTime now))"

definition firstSchedule :: "'w CronBackupReconciler \<Rightarrow> CronBackup \<Rightarrow> ('w, duration) io" where
  "firstSchedule r cronBackup = (\<lambda>w.
     case nextRun r cronBackup (cr_Now r 1 w) (cr_timeNow r w) of
       Inl e \<Rightarrow> (Inl e, w)
     | Inr nextRunAt \<Rightarrow> io_bind (cr_UpdateCronBackup r (cronBackup\<lparr>cb_NextScheduleTime := Some nextRunAt\<rparr>)) (\<lambda>_. io_ret 0) w)"

definition cronScheduled :: "'w CronBackupReconciler \<Rightarrow> CronBackup \<Rightarrow> gotime \<Rightarrow> ('w, duration) io" where
  "cronScheduled r cronBackup now =
     (if cb_Schedule cronBackup = [] then io_ret 0
      else case cb_NextScheduleTime cronBackup of
             None \<Rightarrow> firstSchedule r cronBackup
           | Some nextTime \<Rightarrow> runScheduled r cronBackup nextTime now)"

definition cron_due :: "'w CronBackupReconciler \<Rightarrow> CronBackup \<Rightarrow> ('w, duration) io" where
  "cron_due r cronBackup = (\<lambda>w.
     if map_of (cb_Labels cronBackup) LabelCronBackupDisable \<noteq> None then (Inr 0, w)
     else
       let now = cr_Now r 0 w in
       (case cb_RunAt cronBackup of
          None \<Rightarrow> cronScheduled r cronBackup now w
        | Some runAt \<Rightarrow>
            if cb_NextScheduleTime cronBackup = None
            then io_bind (cr_UpdateCronBackup r (cronBackup\<lparr>cb_NextScheduleTime := Some runAt\<rparr>)) (\<lambda>_. io_ret 0) w
            else if cb_LastSuccessfulTime cronBackup = None then runOnce r cronBackup runAt now w
            else cronScheduled r cronBackup now w))"

definition cron_Reconcile :: "'w CronBackupReconciler \<Rightarrow> string \<Rightarrow> ('w, duration) io" where
  "cron_Reconcile r name =
     io_try (io_read (cr_GetCronBackup r name)) (\<lambda>err. if IsNotFound err then io_ret 0 else io_err err)
       (\<lambda>cronBackup. \<lambda>w.
          case cr_GetCluster r (cb_ClusterName cronBackup) w of
            Inl cErr \<Rightarrow> if \<not> IsNotFound cErr then (Inl cErr, w) else cron_due r cronBackup w
          | Inr _ \<Rightarrow> cron_due r cronBackup w)"

end
