(* ===== verification/Registries.thy ===== *)
theory Registries
  imports Auth
begin

text \<open>
  Image registries of a cluster (\<^verbatim>\<open>pkg/component/utils/utils.go\<close>, and the list functions of
  \<^verbatim>\<open>pkg/controller/clustercontroller/controller.go\<close>): the registry resources that a cluster names are read, normalised
  and brought into one list ordered by host.  Credentials are held by a pointer, and one of the
  comparisons looks at the pointer only, so a pointer is an address together with what it points to.
  The lower-casing of letters beyond ASCII follows the Unicode tables and is an argument.
\<close>

subsection \<open>Data\<close>

record RegistryAuth =
  ra_Username :: string
  ra_Password :: string

record RegistrySpec =
  rs_Scheme :: string
  rs_Host :: string
  rs_SkipVerify :: bool
  rs_CA :: string
  rs_RegistryAuth :: "(nat \<times> RegistryAuth) option"

definition empty_RegistrySpec :: RegistrySpec where
  "empty_RegistrySpec = \<lparr>rs_Scheme = [], rs_Host = [], rs_SkipVerify = False, rs_CA = [], rs_RegistryAuth = None\<rparr>"

definition DefaultImageRegistry :: string where "DefaultImageRegistry = ''registry.k8s.io''"

text \<open>\<^verbatim>\<open>reflect.DeepEqual\<close> follows the pointer; \<^verbatim>\<open>==\<close> on the struct compares the addresses.\<close>

definition spec_contents :: "RegistrySpec \<Rightarrow> string \<times> string \<times> bool \<times> string \<times> RegistryAuth option" where
  "spec_contents r = (rs_Scheme r, rs_Host r, rs_SkipVerify r, rs_CA r, map_option snd (rs_RegistryAuth r))"

definition DeepEqual :: "RegistrySpec \<Rightarrow> RegistrySpec \<Rightarrow> bool" where
  "DeepEqual a b \<longleftrightarrow> spec_contents a = spec_contents b"

definition struct_eq :: "RegistrySpec \<Rightarrow> RegistrySpec \<Rightarrow> bool" where
  "struct_eq a b \<longleftrightarrow> rs_Scheme a = rs_Scheme b \<and> rs_Host a = rs_Host b \<and> rs_SkipVerify a = rs_SkipVerify b \<and> rs_CA a = rs_CA b \<and>
     map_option fst (rs_RegistryAuth a) = map_option fst (rs_RegistryAuth b)"

subsection \<open>Normal form\<close>

definition str_contains :: "string \<Rightarrow> string \<Rightarrow> bool" where
  "str_contains s sub \<longleftrightarrow> list_ex (prefix sub) (suffixes s)"

definition normalizeRegistrySpec :: "(string \<Rightarrow> string) \<Rightarrow> RegistrySpec \<Rightarrow> goerr + RegistrySpec" where
  "normalizeRegistrySpec lower item =
     (let scheme = lower (TrimSpace (rs_Scheme item));
          host = TrimSuffix (TrimSpace (rs_Host item)) ''/'';
          item = item\<lparr>rs_Scheme := (if scheme = [] then ''https'' else scheme), rs_Host := host\<rparr>
      in if host = [] then Inl (Plain ''registry host must not be empty'')
         else if str_contains host ''://'' \<or> str_contains host ''/''
         then Inl (Plain (''registry host '' @ Quote host @ '' must not include a scheme or path''))
         else Inr item)"

definition ResolveImageRegistry :: "(string \<Rightarrow> string) \<Rightarrow> (string \<Rightarrow> goerr + RegistrySpec) \<Rightarrow> string \<Rightarrow> goerr + RegistrySpec" where
  "ResolveImageRegistry lower GetRegistry name =
     (let name = TrimSpace name in
      if name = [] then Inr (empty_RegistrySpec\<lparr>rs_Scheme := ''https'', rs_Host := DefaultImageRegistry\<rparr>)
      else case GetRegistry name of
             Inl err \<Rightarrow> Inl (Plain (''get image registry '' @ name @ '': '' @ Error_text err))
           | Inr registry \<Rightarrow>
               (case normalizeRegistrySpec lower registry of
                  Inl err \<Rightarrow> Inl (Plain (''image registry '' @ name @ '': '' @ Error_text err))
                | Inr spec \<Rightarrow> Inr spec))"

definition ResolveImageRegistryForMode :: "(string \<Rightarrow> string) \<Rightarrow> (string \<Rightarrow> goerr + RegistrySpec) \<Rightarrow> bool \<Rightarrow> string \<Rightarrow> goerr + RegistrySpec" where
  "ResolveImageRegistryForMode lower GetRegistry offline name =
     (if TrimSpace name = [] then Inr empty_RegistrySpec else ResolveImageRegistry lower GetRegistry name)"

subsection \<open>The registries of a cluster\<close>

fun explicit_loop :: "(string \<Rightarrow> string) \<Rightarrow> (string \<Rightarrow> goerr + RegistrySpec) \<Rightarrow> (string \<times> RegistrySpec) list \<Rightarrow> string option list \<Rightarrow>
    goerr + (string \<times> RegistrySpec) list" where
  "explicit_loop lower GetRegistry explicitHosts [] = Inr explicitHosts"
| "explicit_loop lower GetRegistry explicitHosts (ref # refs) =
     (case ref of
        None \<Rightarrow> Inl (Plain ''container runtime registryRef must not be empty'')
      | Some name \<Rightarrow>
          if TrimSpace name = [] then Inl (Plain ''container runtime registryRef must not be empty'')
          else case GetRegistry name of
            Inl err \<Rightarrow> Inl (Plain (''get cri registry '' @ name @ '': '' @ Error_text err))
          | Inr registry \<Rightarrow>
              (case normalizeRegistrySpec lower registry of
                 Inl err \<Rightarrow> Inl (Plain (''cri registry '' @ name @ '': '' @ Error_text err))
               | Inr spec \<Rightarrow>
                   (case map_of explicitHosts (rs_Host spec) of
                      Some existing \<Rightarrow>
                        if \<not> DeepEqual existing spec
                        then Inl (Plain (''cri registry '' @ name @ '': registry host '' @ rs_Host spec @ '' has conflicting configuration''))
                        else explicit_loop lower GetRegistry explicitHosts refs
                    | None \<Rightarrow> explicit_loop lower GetRegistry (explicitHosts @ [(rs_Host spec, spec)]) refs)))"

definition replaceRegistryByHost :: "RegistrySpec list \<Rightarrow> RegistrySpec \<Rightarrow> RegistrySpec list" where
  "replaceRegistryByHost registries item = filter (\<lambda>r. rs_Host r \<noteq> rs_Host item) registries @ [item]"

text \<open>The result is the host of the image registry, which the cluster records, and the list.\<close>

definition GetClusterCRIRegistriesForMode :: "(string \<Rightarrow> string) \<Rightarrow> (string \<Rightarrow> goerr + RegistrySpec) \<Rightarrow> bool \<Rightarrow> string \<Rightarrow> string option list \<Rightarrow>
    goerr + string \<times> RegistrySpec list" where
  "GetClusterCRIRegistriesForMode lower GetRegistry offline imageRegistryName refs =
     (case ResolveImageRegistryForMode lower GetRegistry offline imageRegistryName of
        Inl err \<Rightarrow> Inl err
      | Inr imageRegistry \<Rightarrow>
          (case explicit_loop lower GetRegistry [] refs of
             Inl err \<Rightarrow> Inl err
           | Inr explicitHosts \<Rightarrow>
               (let registries = (if rs_Host imageRegistry \<noteq> [] then [imageRegistry] else []);
                    order = go_sort (<) (map fst explicitHosts);
                    registries = foldl (\<lambda>rs host. replaceRegistryByHost rs (the (map_of explicitHosts host))) registries order
                in Inr (rs_Host imageRegistry, go_sort (\<lambda>a b. rs_Host a < rs_Host b) registries))))"

subsection \<open>Lists of registries\<close>

definition registriesEqual :: "RegistrySpec list \<Rightarrow> RegistrySpec list \<Rightarrow> bool" where
  "registriesEqual a b \<longleftrightarrow> length a = length b \<and> list_all2 struct_eq a b"

definition registry_key :: "RegistrySpec \<Rightarrow> string" where "registry_key r = rs_Scheme r @ rs_Host r"

text \<open>\<^verbatim>\<open>sort.Find\<close>: the smallest index at which the comparison is not positive, and whether it is zero there.\<close>

definition find_registry :: "RegistrySpec list \<Rightarrow> string \<Rightarrow> nat \<times> bool" where
  "find_registry s key =
     (let i = Search (length s) (\<lambda>i. \<not> registry_key (s ! i) < key) in (i, i < length s \<and> registry_key (s ! i) = key))"

fun appendUniqueRegistry :: "RegistrySpec list \<Rightarrow> RegistrySpec list \<Rightarrow> RegistrySpec list" where
  "appendUniqueRegistry s [] = s"
| "appendUniqueRegistry s (r # items) =
     (let (idx, ok) = find_registry s (registry_key r) in
      if ok then appendUniqueRegistry s items
      else if idx = length s then appendUniqueRegistry (s @ [r]) items
      else appendUniqueRegistry ((take (idx + 1) s @ drop idx s)[idx := r]) items)"

subsection \<open>What the list is\<close>

lemma foldl_replace:
  assumes "distinct hs" "\<And>h. h \<in> set hs \<Longrightarrow> rs_Host (f h) = h"
  shows "foldl (\<lambda>rs h. replaceRegistryByHost rs (f h)) rs hs = filter (\<lambda>r. rs_Host r \<notin> set hs) rs @ map f hs"
  using assms
proof (induction hs arbitrary: rs)
  case (Cons h hs)
  have "filter (\<lambda>r. rs_Host r \<notin> set hs) [f h] = [f h]" using Cons.prems by simp
  moreover have "filter (\<lambda>r. rs_Host r \<notin> set hs) (filter (\<lambda>r. rs_Host r \<noteq> h) rs) = filter (\<lambda>r. rs_Host r \<notin> set (h # hs)) rs"
    by (simp add: conj_commute)
  ultimately show ?case using Cons by (simp add: replaceRegistryByHost_def del: filter.simps)
qed simp

text \<open>A reference names a registry resource whose normal form is \<open>s\<close>.\<close>

definition named_spec :: "(string \<Rightarrow> string) \<Rightarrow> (string \<Rightarrow> goerr + RegistrySpec) \<Rightarrow> string option \<Rightarrow> RegistrySpec \<Rightarrow> bool" where
  "named_spec lower get ref s \<longleftrightarrow> (\<exists>name reg. ref = Some name \<and> TrimSpace name \<noteq> [] \<and> get name = Inr reg \<and> normalizeRegistrySpec lower reg = Inr s)"

lemma explicit_loop_step:
  "explicit_loop lower get acc (ref # refs) = Inr hosts \<longleftrightarrow> (\<exists>s. named_spec lower get ref s \<and>
     (case map_of acc (rs_Host s) of
        None \<Rightarrow> explicit_loop lower get (acc @ [(rs_Host s, s)]) refs = Inr hosts
      | Some e \<Rightarrow> DeepEqual e s \<and> explicit_loop lower get acc refs = Inr hosts))"
proof (cases "\<exists>s. named_spec lower get ref s")
  case True
  then obtain name reg s where r: "ref = Some name" "TrimSpace name \<noteq> []" "get name = Inr reg" "normalizeRegistrySpec lower reg = Inr s"
    by (auto simp: named_spec_def)
  then have "named_spec lower get ref s' \<longleftrightarrow> s' = s" for s' by (auto simp: named_spec_def)
  then show ?thesis using r by (auto split: option.split)
next
  case False
  then show ?thesis by (auto simp: named_spec_def split: option.splits sum.splits if_splits)
qed

lemma explicit_loop_Inr:
  assumes "explicit_loop lower get acc refs = Inr hosts" "distinct (map fst acc)" "\<forall>(h, s) \<in> set acc. rs_Host s = h"
  shows "distinct (map fst hosts)" "\<forall>(h, s) \<in> set hosts. rs_Host s = h" "map_of acc \<subseteq>\<^sub>m map_of hosts"
    "\<forall>(h, s) \<in> set hosts. (h, s) \<in> set acc \<or> (\<exists>ref \<in> set refs. named_spec lower get ref s)"
    "\<forall>ref \<in> set refs. \<exists>s s'. named_spec lower get ref s \<and> map_of hosts (rs_Host s) = Some s' \<and> DeepEqual s' s"
proof -
  let ?ok = "\<lambda>acc refs. distinct (map fst hosts) \<and> (\<forall>(h, s) \<in> set hosts. rs_Host s = h) \<and> map_of acc \<subseteq>\<^sub>m map_of hosts \<and>
    (\<forall>(h, s) \<in> set hosts. (h, s) \<in> set acc \<or> (\<exists>ref \<in> set refs. named_spec lower get ref s)) \<and>
    (\<forall>ref \<in> set refs. \<exists>s s'. named_spec lower get ref s \<and> map_of hosts (rs_Host s) = Some s' \<and> DeepEqual s' s)"
  have "?ok acc refs" using assms
  proof (induction refs arbitrary: acc)
    case (Cons ref refs)
    obtain s where s: "named_spec lower get ref s" and c: "case map_of acc (rs_Host s) of
        None \<Rightarrow> explicit_loop lower get (acc @ [(rs_Host s, s)]) refs = Inr hosts
      | Some e \<Rightarrow> DeepEqual e s \<and> explicit_loop lower get acc refs = Inr hosts" using Cons.prems(1) unfolding explicit_loop_step by blast
    show ?case
    proof (cases "map_of acc (rs_Host s)")
      case None
      let ?acc = "acc @ [(rs_Host s, s)]"
      have inv: "distinct (map fst ?acc)" "\<forall>(h, s) \<in> set ?acc. rs_Host s = h"
        using Cons.prems(2,3) None by (auto simp: map_of_eq_None_iff)
      have ih: "?ok ?acc refs" by (rule Cons.IH [OF _ inv]) (use c None in simp)
      have le: "map_of acc \<subseteq>\<^sub>m map_of ?acc" using None unfolding map_of_append by (auto simp: map_le_def)
      have new: "map_of ?acc (rs_Host s) = Some s" using None by (simp add: map_of_append map_add_def)
      have here: "map_of hosts (rs_Host s) = Some s" using new ih [THEN conjunct2, THEN conjunct2, THEN conjunct1] by (metis domI map_le_def)
      have "DeepEqual s s" by (simp add: DeepEqual_def)
      then have "\<exists>s s'. named_spec lower get ref s \<and> map_of hosts (rs_Host s) = Some s' \<and> DeepEqual s' s" using s here by blast
      moreover have "map_of acc \<subseteq>\<^sub>m map_of hosts" using map_le_trans [OF le ih [THEN conjunct2, THEN conjunct2, THEN conjunct1]] .
      moreover have "\<forall>(h, s) \<in> set hosts. (h, s) \<in> set acc \<or> (\<exists>ref \<in> set (ref # refs). named_spec lower get ref s)" using ih s by auto
      ultimately show ?thesis using ih unfolding list.set by (intro conjI) blast+
    next
      case (Some e)
      then have eq: "DeepEqual e s" and run: "explicit_loop lower get acc refs = Inr hosts" using c by auto
      have ih: "?ok acc refs" by (rule Cons.IH [OF run Cons.prems(2,3)])
      have "map_of hosts (rs_Host s) = Some e" using Some ih [THEN conjunct2, THEN conjunct2, THEN conjunct1] by (metis domI map_le_def)
      with ih s eq show ?thesis by auto
    qed
  qed auto
  then show "distinct (map fst hosts)" "\<forall>(h, s) \<in> set hosts. rs_Host s = h" "map_of acc \<subseteq>\<^sub>m map_of hosts"
    "\<forall>(h, s) \<in> set hosts. (h, s) \<in> set acc \<or> (\<exists>ref \<in> set refs. named_spec lower get ref s)"
    "\<forall>ref \<in> set refs. \<exists>s s'. named_spec lower get ref s \<and> map_of hosts (rs_Host s) = Some s' \<and> DeepEqual s' s" by blast+
qed

lemma host_order_linear: "distinct (map rs_Host rs) \<Longrightarrow> strict_linear_on (set rs) (\<lambda>a b. rs_Host a < rs_Host b)"
  by (auto simp: strict_linear_on_def distinct_map inj_on_def) (meson linorder_neqE)

text \<open>
  Registries of a cluster.  If the registries are resolved, the list is strictly ordered by host.  Every reference
  of the cluster names a registry whose normal form is in the list, up to the identity of the
  credentials; everything in the list is the normal form of a referenced registry, or it is the
  image registry of the cluster and no reference has its host.
\<close>

theorem cri_registries_canonical:
  assumes "GetClusterCRIRegistriesForMode lower get offline imageName refs = Inr (host, rs)"
  shows "sorted_wrt (\<lambda>a b. rs_Host a < rs_Host b) rs \<and>
    (\<forall>ref \<in> set refs. \<exists>s. named_spec lower get ref s \<and> (\<exists>r \<in> set rs. DeepEqual r s)) \<and>
    (\<forall>r \<in> set rs. (\<exists>ref \<in> set refs. named_spec lower get ref r) \<or>
       ResolveImageRegistryForMode lower get offline imageName = Inr r \<and> rs_Host r = host \<and> host \<noteq> [] \<and>
       (\<forall>ref \<in> set refs. \<forall>s. named_spec lower get ref s \<longrightarrow> rs_Host s \<noteq> host))"
proof -
  obtain img hosts where img: "ResolveImageRegistryForMode lower get offline imageName = Inr img" "host = rs_Host img"
    and ex: "explicit_loop lower get [] refs = Inr hosts"
    using assms by (auto simp: GetClusterCRIRegistriesForMode_def Let_def split: sum.splits)
  have E: "distinct (map fst hosts)" "\<forall>(h, s) \<in> set hosts. rs_Host s = h"
    "\<forall>(h, s) \<in> set hosts. \<exists>ref \<in> set refs. named_spec lower get ref s"
    "\<forall>ref \<in> set refs. \<exists>s s'. named_spec lower get ref s \<and> map_of hosts (rs_Host s) = Some s' \<and> DeepEqual s' s"
    using explicit_loop_Inr [OF ex] by auto
  let ?hs = "go_sort (<) (map fst hosts)" and ?f = "\<lambda>h. the (map_of hosts h)"
  let ?base = "if rs_Host img \<noteq> [] then [img] else []"
  let ?all = "filter (\<lambda>r. rs_Host r \<notin> set ?hs) ?base @ map ?f ?hs"
  have d: "distinct ?hs" using E(1) by (simp add: distinct_go_sort)
  have there: "map_of hosts h = Some (?f h) \<and> rs_Host (?f h) = h \<and> (h, ?f h) \<in> set hosts" if "h \<in> set ?hs" for h
  proof -
    obtain s where s: "(h, s) \<in> set hosts" using \<open>h \<in> set ?hs\<close> by auto
    then have "map_of hosts h = Some s" using E(1) by simp
    then show ?thesis using s E(2) by auto
  qed
  have "rs = go_sort (\<lambda>a b. rs_Host a < rs_Host b) (foldl (\<lambda>rs h. replaceRegistryByHost rs (?f h)) ?base ?hs)"
    using assms img ex by (simp add: GetClusterCRIRegistriesForMode_def Let_def)
  moreover have "foldl (\<lambda>rs h. replaceRegistryByHost rs (?f h)) ?base ?hs = ?all" by (rule foldl_replace [OF d]) (use there in blast)
  ultimately have rs: "rs = go_sort (\<lambda>a b. rs_Host a < rs_Host b) ?all" by simp
  have m: "map rs_Host (map ?f ?hs) = ?hs" unfolding map_map by (rule map_idI) (use there in simp)
  have dist: "distinct (map rs_Host ?all)" unfolding map_append m using d by auto
  have "sorted_wrt (\<lambda>a b. rs_Host a < rs_Host b) rs"
    unfolding rs by (rule sorted_go_sort_strict [OF host_order_linear [OF dist] dist [THEN distinct_map [THEN iffD1, THEN conjunct1]]])
  moreover have "\<exists>s. named_spec lower get ref s \<and> (\<exists>r \<in> set rs. DeepEqual r s)" if "ref \<in> set refs" for ref
  proof -
    obtain s s' where s: "named_spec lower get ref s" "map_of hosts (rs_Host s) = Some s'" "DeepEqual s' s" using E(4) \<open>ref \<in> set refs\<close> by blast
    then have "rs_Host s \<in> set ?hs" by (force dest: map_of_SomeD)
    then have "s' \<in> set rs" using s(2) unfolding rs by force
    then show ?thesis using s by blast
  qed
  moreover have "(\<exists>ref \<in> set refs. named_spec lower get ref r) \<or> ResolveImageRegistryForMode lower get offline imageName = Inr r \<and> rs_Host r = host \<and>
      host \<noteq> [] \<and> (\<forall>ref \<in> set refs. \<forall>s. named_spec lower get ref s \<longrightarrow> rs_Host s \<noteq> host)" if "r \<in> set rs" for r
  proof (cases "r \<in> ?f ` set ?hs")
    case True
    then obtain h where "h \<in> set ?hs" "r = ?f h" by blast
    then have "(h, r) \<in> set hosts" using there by blast
    then show ?thesis using E(3) by blast
  next
    case False
    then have r: "r = img" "rs_Host img \<noteq> []" "rs_Host img \<notin> set ?hs" using that unfolding rs by (auto split: if_splits)
    have "rs_Host s \<noteq> host" if "ref \<in> set refs" "named_spec lower get ref s" for ref s
    proof -
      obtain t t' where t: "named_spec lower get ref t" "map_of hosts (rs_Host t) = Some t'" using E(4) \<open>ref \<in> set refs\<close> by blast
      then have "s = t" using that(2) by (auto simp: named_spec_def)
      then show ?thesis using t(2) r(3) img(2) by (force dest: map_of_SomeD)
    qed
    then show ?thesis using r img by auto
  qed
  ultimately show ?thesis by blast
qed

subsection \<open>Inserting into an ordered list\<close>

definition insert_registry :: "RegistrySpec list \<Rightarrow> RegistrySpec \<Rightarrow> RegistrySpec list" where
  "insert_registry s r = (if registry_key r \<in> registry_key ` set s then s
     else filter (\<lambda>x. registry_key x < registry_key r) s @ r # filter (\<lambda>x. registry_key r < registry_key x) s)"

abbreviation keys_ordered :: "RegistrySpec list \<Rightarrow> bool" where
  "keys_ordered \<equiv> sorted_wrt (\<lambda>a b. registry_key a < registry_key b)"

lemma keys_mono: "keys_ordered s \<Longrightarrow> i \<le> j \<Longrightarrow> j < length s \<Longrightarrow> registry_key (s ! i) \<le> registry_key (s ! j)"
  by (cases "i = j") (simp_all add: sorted_wrt_iff_nth_less less_imp_le)

lemma search_key:
  assumes "keys_ordered s" "i = Search (length s) (\<lambda>i. \<not> registry_key (s ! i) < key)"
  shows "i \<le> length s" "take i s = filter (\<lambda>x. registry_key x < key) s" "drop i s = filter (\<lambda>x. \<not> registry_key x < key) s"
proof -
  have mono: "\<forall>k l. k \<le> l \<and> l < length s \<and> \<not> registry_key (s ! k) < key \<longrightarrow> \<not> registry_key (s ! l) < key"
  proof (intro allI impI)
    fix k l assume kl: "k \<le> l \<and> l < length s \<and> \<not> registry_key (s ! k) < key"
    have "registry_key (s ! k) \<le> registry_key (s ! l)"
      using assms(1) kl by (simp add: keys_mono)
    then show "\<not> registry_key (s ! l) < key" using kl by (meson not_less order.trans)
  qed
  note S = Search_correct [OF mono, folded assms(2)]
  show "i \<le> length s" by (rule S(1))
  have lo: "registry_key x < key" if "x \<in> set (take i s)" for x
    using that S(1,2) by (auto simp: in_set_conv_nth)
  have hi: "\<not> registry_key x < key" if "x \<in> set (drop i s)" for x
    using that S(1,3) by (auto simp: in_set_conv_nth)
  have "filter (\<lambda>x. registry_key x < key) (take i s @ drop i s) = take i s"
    unfolding filter_append using lo hi by (simp add: filter_id_conv filter_empty_conv)
  then show "take i s = filter (\<lambda>x. registry_key x < key) s" by simp
  have "filter (\<lambda>x. \<not> registry_key x < key) (take i s @ drop i s) = drop i s"
    unfolding filter_append using lo hi by (simp add: filter_id_conv filter_empty_conv)
  then show "drop i s = filter (\<lambda>x. \<not> registry_key x < key) s" by simp
qed

lemma found_key:
  assumes "keys_ordered s" "find_registry s key = (i, ok)"
  shows "ok \<longleftrightarrow> key \<in> registry_key ` set s"
proof -
  have i: "i = Search (length s) (\<lambda>i. \<not> registry_key (s ! i) < key)" and ok: "ok \<longleftrightarrow> i < length s \<and> registry_key (s ! i) = key"
    using assms(2) by (auto simp: find_registry_def Let_def)
  note F = search_key [OF assms(1) i]
  show ?thesis
  proof
    assume "key \<in> registry_key ` set s"
    then obtain x where x: "x \<in> set s" "registry_key x = key" by auto
    then have "x \<in> set (drop i s)" unfolding F(3) by simp
    then obtain j where j: "i \<le> j" "j < length s" "s ! j = x" by (auto simp: in_set_conv_nth) (metis le_add1 less_diff_conv add.commute)
    have "\<not> registry_key (s ! i) < key"
    proof -
      have "s ! i \<in> set (drop i s)" using j by (metis Cons_nth_drop_Suc le_less_trans list.set_intros(1))
      then show ?thesis unfolding F(3) by simp
    qed
    moreover have "registry_key (s ! i) \<le> key"
      using keys_mono [OF assms(1) j(1,2)] j(3) x(2) by simp
    ultimately show ok using ok j by auto
  qed (use ok in auto)
qed

lemma insert_at: "i \<le> length s \<Longrightarrow> i \<noteq> length s \<Longrightarrow> (take (i + 1) s @ drop i s)[i := r] = take i s @ r # drop i s"
  by (auto simp: list_update_append take_Suc_conv_app_nth)

lemma append_step:
  assumes "keys_ordered s"
  shows "appendUniqueRegistry s (r # items) = appendUniqueRegistry (insert_registry s r) items"
proof -
  obtain i ok where f: "find_registry s (registry_key r) = (i, ok)" by fastforce
  have i: "i = Search (length s) (\<lambda>i. \<not> registry_key (s ! i) < registry_key r)" using f by (auto simp: find_registry_def Let_def)
  note F = search_key [OF assms i] and ok = found_key [OF assms f]
  show ?thesis
  proof (cases ok)
    case True
    then show ?thesis using f ok by (simp add: insert_registry_def)
  next
    case False
    have "filter (\<lambda>x. \<not> registry_key x < registry_key r) s = filter (\<lambda>x. registry_key r < registry_key x) s"
      using False ok by (intro filter_cong) (auto simp: image_iff not_less order.order_iff_strict)
    then have new: "insert_registry s r = take i s @ r # drop i s" using False ok F(2,3) by (simp add: insert_registry_def)
    show ?thesis
    proof (cases "i = length s")
      case True
      then show ?thesis using False f new by simp
    next
      case neq: False
      have "(take (i + 1) s @ drop i s)[i := r] = take i s @ r # drop i s" using F(1) neq by (rule insert_at)
      then show ?thesis using False f new neq by (simp del: take_Suc)
    qed
  qed
qed

lemma insert_registry_ordered: "keys_ordered s \<Longrightarrow> keys_ordered (insert_registry s r)"
  by (auto simp: insert_registry_def sorted_wrt_append sorted_wrt_filter intro: less_trans)

lemma insert_registry_keys: "registry_key ` set (insert_registry s r) = insert (registry_key r) (registry_key ` set s)"
  by (auto simp: insert_registry_def image_iff)

text \<open>
  The insertion by binary search is the insertion of the specification, and the list stays strictly ordered by scheme and host;
  of several items with a key the first is kept.
\<close>

theorem append_unique_registries:
  assumes "keys_ordered s"
  shows "appendUniqueRegistry s items = foldl insert_registry s items \<and> keys_ordered (appendUniqueRegistry s items) \<and>
    registry_key ` set (appendUniqueRegistry s items) = registry_key ` set (s @ items)"
  using assms
proof (induction items arbitrary: s)
  case (Cons r items)
  have "keys_ordered (insert_registry s r)" using Cons.prems by (rule insert_registry_ordered)
  from Cons.IH [OF this] show ?case unfolding append_step [OF Cons.prems] by (auto simp: insert_registry_keys image_Un)
qed auto

text \<open>
  Comparing by \<^verbatim>\<open>==\<close> looks at the address of the credentials: lists with equal contents differ as soon as one
  entry has credentials at another address, as it is with every list read anew.
\<close>

lemma registriesEqual_addresses:
  assumes "spec_contents a = spec_contents b" "rs_RegistryAuth a = Some (p, auth)" "rs_RegistryAuth b = Some (q, auth)" "p \<noteq> q"
  shows "list_all2 DeepEqual [a] [b] \<and> \<not> registriesEqual [a] [b]"
  using assms by (simp add: DeepEqual_def registriesEqual_def struct_eq_def)

lemma registriesEqual_no_credentials:
  assumes "\<forall>r \<in> set rs. rs_RegistryAuth r = None"
  shows "registriesEqual rs rs' \<longleftrightarrow> list_all2 DeepEqual rs rs'"
proof -
  have "struct_eq a b \<longleftrightarrow> DeepEqual a b" if "a \<in> set rs" for a b
    using assms that by (auto simp: struct_eq_def DeepEqual_def spec_contents_def)
  then have "list_all2 struct_eq rs rs' \<longleftrightarrow> list_all2 DeepEqual rs rs'" by (auto cong: list.rel_cong intro: list.rel_mono_strong)
  then show ?thesis by (auto simp: registriesEqual_def dest: list_all2_lengthD)
qed

text \<open>Three references, two of them to the same host, with an image registry that is listed first.\<close>

definition sample_registry :: "string \<Rightarrow> goerr + RegistrySpec" where
  "sample_registry name =
     (if name = ''a'' then Inr (empty_RegistrySpec\<lparr>rs_Host := '' r.io/ '', rs_RegistryAuth := Some (1, \<lparr>ra_Username = ''u'', ra_Password = ''p''\<rparr>)\<rparr>)
      else if name = ''b'' then Inr (empty_RegistrySpec\<lparr>rs_Scheme := ''https'', rs_Host := ''r.io'', rs_RegistryAuth := Some (2, \<lparr>ra_Username = ''u'', ra_Password = ''p''\<rparr>)\<rparr>)
      else if name = ''c'' then Inr (empty_RegistrySpec\<lparr>rs_Scheme := ''http'', rs_Host := ''a.io''\<rparr>)
      else Inl (Plain ''not found''))"

definition sample_specs :: "RegistrySpec list" where
  "sample_specs = [empty_RegistrySpec\<lparr>rs_Scheme := ''http'', rs_Host := ''a.io''\<rparr>,
     empty_RegistrySpec\<lparr>rs_Scheme := ''https'', rs_Host := ''r.io'', rs_RegistryAuth := Some (1, \<lparr>ra_Username = ''u'', ra_Password = ''p''\<rparr>)\<rparr>]"

lemma sample_cri_registries:
  "GetClusterCRIRegistriesForMode (\<lambda>s. s) sample_registry False ''c'' [Some ''a'', Some ''b''] = Inr (''a.io'', sample_specs)"
  by code_simp

theorem cri_registries_canonical_witness:
  "sorted_wrt (\<lambda>a b. rs_Host a < rs_Host b) sample_specs \<and> (\<exists>s. named_spec (\<lambda>s. s) sample_registry (Some ''b'') s \<and> (\<exists>r \<in> set sample_specs. DeepEqual r s))"
  using cri_registries_canonical [OF sample_cri_registries] by simp

end
