(* ===== verification/Cluster_Plan.thy ===== *)
theory Cluster_Plan
  imports Cron_Backup Registries
begin

text \<open>
  Plans for clusters (\<^verbatim>\<open>pkg/clusteroperation\<close>, the metadata of \<^verbatim>\<open>pkg/component/ctx.go\<close>): what a pending operation of a
  cluster becomes before the operation builder takes it.  The rendering of the single steps
  (container runtime, packages, joining and draining of nodes) and the decoding of the request are
  arguments, gathered in the record \<open>step_builders\<close>; a builder may read the world (it dials masters and draws
  identifiers) and writes nothing.  A nil dereference is the error \<^const>\<open>Panic\<close>.
\<close>

subsection \<open>Data\<close>

definition AnnotationOffline :: string where "AnnotationOffline = ''kubeclipper.io/offline''"
definition LabelClusterProviderType :: string where "LabelClusterProviderType = ''kubeclipper.io/clusterProviderType''"
definition LabelOperationSponsor :: string where "LabelOperationSponsor = ''kubeclipper.io/operation-sponsor''"
definition LabelNodeDisable :: string where "LabelNodeDisable = ''kubeclipper.io/nodeDisable''"
definition ProviderKubeadm :: string where "ProviderKubeadm = ''kubeadm''"
definition CRIDocker :: string where "CRIDocker = ''docker''"
definition CRIContainerd :: string where "CRIContainerd = ''containerd''"

record ControlPlaneHealth =
  cph_ID :: string
  cph_Hostname :: string
  cph_Address :: string
  cph_Status :: string

record Addon =
  ad_Name :: string
  ad_Version :: string
  ad_Config :: string

record PendingOperation =
  po_OperationID :: string
  po_OperationType :: string
  po_OperationSponsor :: string
  po_Timeout :: string
  po_ClusterResourceVersion :: string
  po_ExtraData :: string

record CtrlCluster = ClusterObject +
  kc_Namespace :: string
  kc_Labels :: "(string \<times> string) list"
  kc_Annotations :: "(string \<times> string) list"
  kc_Deleting :: bool
  kc_Finalizers :: "string list"
  kc_Masters :: "WorkerNode list"
  kc_Workers :: "WorkerNode list"
  kc_ImageRegistry :: string
  kc_ResolvedImageRegistry :: string
  kc_RegistryRefs :: "string option list"
  kc_CRIType :: string
  kc_KubeletRootDir :: string
  kc_CNIType :: string
  kc_CNINamespace :: string
  kc_Addons :: "Addon list"
  kc_KubeConfig :: string
  kc_Registries :: "RegistrySpec list"
  kc_ControlPlaneHealth :: "ControlPlaneHealth list"
  kc_PendingOperations :: "PendingOperation list"

record ExtraMetadata =
  em_Masters :: "CompNode list"
  em_Workers :: "CompNode list"
  em_ClusterStatus :: string
  em_Offline :: bool
  em_ImageRegistry :: string
  em_CRI :: string
  em_ClusterName :: string
  em_KubeVersion :: string
  em_OperationID :: string
  em_OperationType :: string
  em_KubeletDataDir :: string
  em_ControlPlaneStatus :: "ControlPlaneHealth list"
  em_Addons :: "Addon list"
  em_CNI :: string
  em_CNINamespace :: string
  em_OnlyInstallKubernetesComp :: bool

definition Offline :: "CtrlCluster \<Rightarrow> bool" where
  "Offline c \<longleftrightarrow> map_of (kc_Annotations c) AnnotationOffline \<noteq> None"

text \<open>Maps filled in a loop keep the last entry of an identifier, the search for a host name finds the first.\<close>

definition GetWorkerNodeIP :: "ExtraMetadata \<Rightarrow> string \<Rightarrow> string" where
  "GetWorkerNodeIP e = label (rev (map (\<lambda>n. (co_ID n, co_IPv4 n)) (em_Workers e)))"

definition GetWorkerNodeClusterIP :: "ExtraMetadata \<Rightarrow> string \<Rightarrow> string" where
  "GetWorkerNodeClusterIP e = label (rev (map (\<lambda>n. (co_ID n, co_NodeIPv4 n)) (em_Workers e)))"

definition GetWorkerHostname :: "ExtraMetadata \<Rightarrow> string \<Rightarrow> string" where
  "GetWorkerHostname e i = (case find (\<lambda>n. co_ID n = i) (em_Workers e) of None \<Rightarrow> [] | Some n \<Rightarrow> co_Hostname n)"

subsection \<open>Registries of a cluster object\<close>

text \<open>The host of the image registry is recorded in the cluster as soon as it is resolved, also if a later reference fails.\<close>

definition recordImageRegistry :: "(string \<Rightarrow> string) \<Rightarrow> (string \<Rightarrow> goerr + RegistrySpec) \<Rightarrow> CtrlCluster \<Rightarrow> CtrlCluster" where
  "recordImageRegistry lower get c =
     (case ResolveImageRegistryForMode lower get (Offline c) (kc_ImageRegistry c) of
        Inl _ \<Rightarrow> c
      | Inr s \<Rightarrow> c\<lparr>kc_ResolvedImageRegistry := rs_Host s\<rparr>)"

definition GetClusterCRIRegistries :: "(string \<Rightarrow> string) \<Rightarrow> (string \<Rightarrow> goerr + RegistrySpec) \<Rightarrow> CtrlCluster \<Rightarrow>
    CtrlCluster \<times> (goerr + RegistrySpec list)" where
  "GetClusterCRIRegistries lower get c =
     (recordImageRegistry lower get c,
      case GetClusterCRIRegistriesForMode lower get (Offline c) (kc_ImageRegistry c) (kc_RegistryRefs c) of
        Inl err \<Rightarrow> Inl err
      | Inr (host, registries) \<Rightarrow> Inr registries)"

subsection \<open>Steps for the nodes of a request\<close>

record PatchRequest = "unit PatchNodes" +
  pn_ConvertNodes :: "CompNode list"

record 'w step_builders =
  sb_unmarshalPatch :: "string \<Rightarrow> goerr + PatchRequest"
  sb_docker :: "ExtraMetadata \<Rightarrow> CtrlCluster \<Rightarrow> StepNode list \<Rightarrow> string \<Rightarrow> 'w \<Rightarrow> goerr + CoreStep list"
  sb_containerd :: "ExtraMetadata \<Rightarrow> CtrlCluster \<Rightarrow> StepNode list \<Rightarrow> RegistrySpec list \<Rightarrow> string \<Rightarrow> 'w \<Rightarrow> goerr + CoreStep list"
  sb_extInstall :: "CtrlCluster \<Rightarrow> StepNode list \<Rightarrow> 'w \<Rightarrow> goerr + CoreStep list"
  sb_extUninstall :: "CtrlCluster \<Rightarrow> StepNode list \<Rightarrow> 'w \<Rightarrow> goerr + CoreStep list"
  sb_packInstall :: "CtrlCluster \<Rightarrow> StepNode list \<Rightarrow> 'w \<Rightarrow> goerr + CoreStep list"
  sb_packUninstall :: "CtrlCluster \<Rightarrow> StepNode list \<Rightarrow> 'w \<Rightarrow> goerr + CoreStep list"
  sb_nodeInstall :: "ExtraMetadata \<Rightarrow> CtrlCluster \<Rightarrow> string \<Rightarrow> StepNode list \<Rightarrow> 'w \<Rightarrow> goerr + CoreStep list"
  sb_nodeUninstall :: "ExtraMetadata \<Rightarrow> CtrlCluster \<Rightarrow> string \<Rightarrow> StepNode list \<Rightarrow> 'w \<Rightarrow> goerr + CoreStep list"

definition GetCriStep :: "(string \<Rightarrow> string) \<Rightarrow> 'w step_builders \<Rightarrow> (string \<Rightarrow> 'w \<Rightarrow> goerr + RegistrySpec) \<Rightarrow> ExtraMetadata \<Rightarrow> CtrlCluster \<Rightarrow>
    string \<Rightarrow> StepNode list \<Rightarrow> ('w, CtrlCluster \<times> CoreStep list) io" where
  "GetCriStep lower sb get extra c action nodes = (\<lambda>w.
     if kc_CRIType c = CRIDocker
     then io_bind (io_read (sb_docker sb extra c nodes action)) (\<lambda>steps. io_ret (c, steps)) w
     else if kc_CRIType c = CRIContainerd
     then (let (c, res) = GetClusterCRIRegistries lower (\<lambda>n. get n w) c in
           io_bind (io_of res) (\<lambda>registries.
           io_bind (io_read (sb_containerd sb extra c nodes registries action)) (\<lambda>steps. io_ret (c, steps))) w)
     else (Inl (Plain (kc_CRIType c @ '' type CRI is not supported'')), w))"

definition getPackageSteps :: "'w step_builders \<Rightarrow> CtrlCluster \<Rightarrow> string \<Rightarrow> StepNode list \<Rightarrow> ('w, CoreStep list) io" where
  "getPackageSteps sb c action nodes =
     (if action = ActionInstall then io_read (sb_packInstall sb c nodes)
      else if action = ActionUninstall then io_read (sb_packUninstall sb c nodes)
      else io_err (Plain (''packageSteps does not support action: '' @ action)))"

definition ErrZeroNode :: goerr where "ErrZeroNode = Plain ''zero node''"

definition stepNodesOf :: "PatchRequest \<Rightarrow> ExtraMetadata \<Rightarrow> StepNode list" where
  "stepNodesOf p extra = map (\<lambda>nodeID. \<lparr>sn_ID = nodeID, sn_IPv4 = GetWorkerNodeIP extra nodeID, sn_NodeIPv4 = GetWorkerNodeClusterIP extra nodeID,
     sn_Hostname = GetWorkerHostname extra nodeID\<rparr>) (GetNodeIDs (pn_Nodes p))"

definition addSteps :: "(string \<Rightarrow> string) \<Rightarrow> 'w step_builders \<Rightarrow> (string \<Rightarrow> 'w \<Rightarrow> goerr + RegistrySpec) \<Rightarrow> PatchRequest \<Rightarrow> ExtraMetadata \<Rightarrow>
    CtrlCluster \<Rightarrow> StepNode list \<Rightarrow> ('w, CoreStep list) io" where
  "addSteps lower sb get p extra c nodes =
     io_bind (GetCriStep lower sb get extra c ActionInstall nodes) (\<lambda>(c, cri).
     io_bind (io_read (sb_extInstall sb c nodes)) (\<lambda>ext.
     io_bind (getPackageSteps sb c ActionInstall nodes) (\<lambda>pack.
     io_bind (io_read (sb_nodeInstall sb extra c (pn_Role p) nodes)) (\<lambda>join.
       io_ret (cri @ ext @ pack @ join)))))"

definition removeSteps :: "(string \<Rightarrow> string) \<Rightarrow> 'w step_builders \<Rightarrow> (string \<Rightarrow> 'w \<Rightarrow> goerr + RegistrySpec) \<Rightarrow> PatchRequest \<Rightarrow> ExtraMetadata \<Rightarrow>
    CtrlCluster \<Rightarrow> StepNode list \<Rightarrow> ('w, CoreStep list) io" where
  "removeSteps lower sb get p extra c nodes =
     io_bind (io_read (sb_nodeUninstall sb extra c (pn_Role p) nodes)) (\<lambda>drain.
     io_bind (getPackageSteps sb c ActionUninstall nodes) (\<lambda>pack.
     io_bind (io_read (sb_extUninstall sb c nodes)) (\<lambda>ext.
     io_bind (GetCriStep lower sb get extra c ActionUninstall nodes) (\<lambda>(c, cri).
       io_ret (drain @ pack @ ext @ cri)))))"

definition makeWorkerOperation :: "(string \<Rightarrow> string) \<Rightarrow> 'w step_builders \<Rightarrow> (string \<Rightarrow> 'w \<Rightarrow> goerr + RegistrySpec) \<Rightarrow> PatchRequest \<Rightarrow>
    ExtraMetadata \<Rightarrow> CtrlCluster \<Rightarrow> ('w, CoreOperation) io" where
  "makeWorkerOperation lower sb get p extra c =
     (if pn_Nodes p = [] then io_err ErrZeroNode
      else let nodes = stepNodesOf p extra;
               op = (\<lambda>action steps. \<lparr>cop_Name = em_OperationID extra,
                 cop_Labels = [(LabelClusterName, cl_Name c), (LabelOperationAction, action)], cop_Steps = steps\<rparr>)
        in if pn_Operation p = NodesOperationAdd
           then io_bind (addSteps lower sb get p extra c nodes) (\<lambda>steps. io_ret (op OperationAddNodes steps))
           else if pn_Operation p = NodesOperationRemove
           then io_bind (removeSteps lower sb get p extra c nodes) (\<lambda>steps. io_ret (op OperationRemoveNodes steps))
           else io_err ErrInvalidNodesOperation)"

definition doMakeOperation :: "(string \<Rightarrow> string) \<Rightarrow> 'w step_builders \<Rightarrow> (string \<Rightarrow> 'w \<Rightarrow> goerr + RegistrySpec) \<Rightarrow> PatchRequest \<Rightarrow>
    ExtraMetadata \<Rightarrow> CtrlCluster \<Rightarrow> ('w, CoreOperation) io" where
  "doMakeOperation lower sb get p extra c =
     (if pn_Role p = NodeRoleMaster then io_err ErrInvalidNodesRole
      else if pn_Role p = NodeRoleWorker then makeWorkerOperation lower sb get p extra c
      else io_err ErrInvalidNodesRole)"

definition MakeOperation :: "(string \<Rightarrow> string) \<Rightarrow> 'w step_builders \<Rightarrow> (string \<Rightarrow> 'w \<Rightarrow> goerr + RegistrySpec) \<Rightarrow> PatchRequest \<Rightarrow>
    ExtraMetadata \<Rightarrow> CtrlCluster \<Rightarrow> ('w, CoreOperation) io" where
  "MakeOperation lower sb get p extra c =
     (case map_of (kc_Labels c) LabelClusterProviderType of
        Some pType \<Rightarrow>
          if pType = ProviderKubeadm then doMakeOperation lower sb get p extra c else io_err (Plain ''invalid provider type'')
      | None \<Rightarrow> doMakeOperation lower sb get p extra c)"

subsection \<open>From a pending operation to a plan\<close>

definition NodeOperation_Builder :: "(string \<Rightarrow> string) \<Rightarrow> 'w step_builders \<Rightarrow> (string \<Rightarrow> 'w \<Rightarrow> goerr + RegistrySpec) \<Rightarrow> CtrlCluster \<Rightarrow>
    PendingOperation \<Rightarrow> ExtraMetadata \<Rightarrow> ('w, CoreOperation) io" where
  "NodeOperation_Builder lower sb get c pending extra =
     io_bind (io_of (sb_unmarshalPatch sb (po_ExtraData pending))) (\<lambda>pn.
       let extra = (if pn_Role pn = NodeRoleWorker then extra\<lparr>em_Workers := em_Workers extra @ pn_ConvertNodes pn\<rparr> else extra) in
       io_bind (MakeOperation lower sb get pn extra c) (\<lambda>op.
         io_ret (op\<lparr>cop_Labels := AList.update LabelOperationSponsor (po_OperationSponsor pending)
           (AList.update LabelTimeoutSeconds (po_Timeout pending) (cop_Labels op))\<rparr>)))"

text \<open>Of the supported types only the first two have a builder; for the others the interface value is nil when it is called.\<close>

definition BuildOperationAdapter :: "(string \<Rightarrow> string) \<Rightarrow> 'w step_builders \<Rightarrow> (string \<Rightarrow> 'w \<Rightarrow> goerr + RegistrySpec) \<Rightarrow> CtrlCluster \<Rightarrow>
    PendingOperation \<Rightarrow> ExtraMetadata \<Rightarrow> ('w, CoreOperation) io" where
  "BuildOperationAdapter lower sb get c pending extra =
     (if po_OperationType pending \<in> {OperationAddNodes, OperationRemoveNodes} then NodeOperation_Builder lower sb get c pending extra
      else if po_OperationType pending \<in> {OperationInstallComponents, OperationUninstallComponents, OperationCreateCluster, OperationDeleteCluster,
        OperationUpgradeCluster, OperationBackupCluster, OperationDeleteBackup, OperationRecoverCluster, OperationUpdateCertification,
        OperationUpdateAPIServerCertification}
      then io_err (Panic ''nil pointer dereference'')
      else io_err (Plain (''unsupported '' @ po_OperationType pending @ '' operation type'')))"

end
