(* ===== verification/Cluster_Ctrl.thy ===== *)
theory Cluster_Ctrl
  imports Cluster_Plan
begin

text \<open>
  The cluster controller (\<^verbatim>\<open>pkg/controller/clustercontroller\<close>): finalizers and the release of nodes, the registries of
  running clusters, the client of a cluster, and its pending operations.  Listers return pointers into a
  cache and the controller assigns through them; these assignments are the functions \<open>kr_PutCluster\<close> and \<open>kr_PutNode\<close> of
  the reconciler record, and a flag tells whether the cluster at hand is the cached one.  The storages,
  the client-go calls, SHA-256, JSON and the rendering of steps are arguments.  The removal of a client set,
  which the code starts as a goroutine, is run in place.
\<close>

subsection \<open>Data\<close>

definition ClusterFinalizer :: string where "ClusterFinalizer = ''finalizer.cluster.kubeclipper.io''"
definition LabelClusterProviderName :: string where "LabelClusterProviderName = ''kubeclipper.io/clusterProviderName''"
definition AnnotationMetadataFloatIP :: string where "AnnotationMetadataFloatIP = ''metadata.kubeclipper.io/floatIP''"
definition ClusterAccessStepID :: string where "ClusterAccessStepID = ''capture-cluster-access''"
definition kubeConfigSyncOperationTimeoutSecs :: string where "kubeConfigSyncOperationTimeoutSecs = ''120''"

text \<open>A nil label map can be read but not assigned to.\<close>

record CtrlNode =
  kn_Name :: string
  kn_Deleting :: bool
  kn_Labels :: "(string \<times> string) list option"
  kn_Annotations :: "(string \<times> string) list"
  kn_Ipv4DefaultIP :: string
  kn_NodeIpv4DefaultIP :: string
  kn_Hostname :: string

definition node_label :: "CtrlNode \<Rightarrow> string \<Rightarrow> string option" where
  "node_label n k = (case kn_Labels n of None \<Rightarrow> None | Some m \<Rightarrow> map_of m k)"

definition node_value :: "CtrlNode \<Rightarrow> string \<Rightarrow> string" where
  "node_value n k = (case node_label n k of None \<Rightarrow> [] | Some v \<Rightarrow> v)"

datatype pods_answer = PodsListed | Unauthorized | PodsError goerr

record 'w ClusterReconciler =
  kr_GetCluster :: "string \<Rightarrow> 'w \<Rightarrow> goerr + CtrlCluster"
  kr_ListClusters :: "'w \<Rightarrow> goerr + CtrlCluster list"
  kr_PutCluster :: "CtrlCluster \<Rightarrow> 'w \<Rightarrow> 'w"
  kr_UpdateCluster :: "CtrlCluster \<Rightarrow> ('w, CtrlCluster) io"
  kr_GetClusterEx :: "string \<Rightarrow> string \<Rightarrow> 'w \<Rightarrow> goerr + CtrlCluster"
  kr_GetRegistry :: "string \<Rightarrow> 'w \<Rightarrow> goerr + RegistrySpec"
  kr_GetNode :: "string \<Rightarrow> 'w \<Rightarrow> goerr + CtrlNode"
  kr_ListNodes :: "string \<Rightarrow> string \<Rightarrow> 'w \<Rightarrow> goerr + CtrlNode list"
  kr_PutNode :: "CtrlNode \<Rightarrow> 'w \<Rightarrow> 'w"
  kr_UpdateNode :: "CtrlNode \<Rightarrow> ('w, CtrlNode) io"
  kr_GetNodeEx :: "string \<Rightarrow> string \<Rightarrow> 'w \<Rightarrow> goerr + CtrlNode"
  kr_NodeReader :: "'w OperatorReader"
  kr_OperationStore :: "'w store option"
  kr_DeleteCronBackups :: "string \<Rightarrow> ('w, unit) io"
  kr_GetCloudProvider :: "string \<Rightarrow> 'w \<Rightarrow> goerr + string"
  kr_providerKubeConfig :: "string \<Rightarrow> string \<Rightarrow> 'w \<Rightarrow> goerr + string"
  kr_GetClientSet :: "string \<Rightarrow> 'w \<Rightarrow> bool"
  kr_AddClientSet :: "string \<Rightarrow> string \<Rightarrow> 'w \<Rightarrow> 'w"
  kr_RemoveClientSet :: "string \<Rightarrow> 'w \<Rightarrow> 'w"
  kr_newClient :: "string \<Rightarrow> goerr option"
  kr_listPods :: "string \<Rightarrow> 'w \<Rightarrow> pods_answer"
  kr_NewRequirement :: "string \<Rightarrow> string \<Rightarrow> goerr option"
  kr_uuid :: "'w \<Rightarrow> string"
  kr_sha256 :: "string \<Rightarrow> string"
  kr_lower :: "string \<Rightarrow> string"
  kr_am :: apimachinery
  kr_marshalStep :: "CommandStepPayload \<Rightarrow> goerr + string"
  kr_dockerConfigure :: "RegistrySpec list \<Rightarrow> goerr + string"
  kr_containerdConfigure :: "ExtraMetadata \<Rightarrow> CtrlCluster \<Rightarrow> StepNode list \<Rightarrow> RegistrySpec list \<Rightarrow> goerr + string"
  kr_builders :: "'w step_builders"

definition io_modify :: "('w \<Rightarrow> 'w) \<Rightarrow> ('w, unit) io" where "io_modify f = (\<lambda>w. (Inr (), f w))"

text \<open>Assignment through the cluster pointer: seen by later reads of the cache if the pointer is the cache's own.\<close>

definition put_cluster :: "'w ClusterReconciler \<Rightarrow> bool \<Rightarrow> CtrlCluster \<Rightarrow> ('w, unit) io" where
  "put_cluster r shared c = io_modify (if shared then kr_PutCluster r c else (\<lambda>w. w))"

definition with_store :: "'w ClusterReconciler \<Rightarrow> ('w store \<Rightarrow> ('w, 'a) io) \<Rightarrow> ('w, 'a) io" where
  "with_store r f = (case kr_OperationStore r of None \<Rightarrow> io_err (Panic ''nil pointer dereference'') | Some s \<Rightarrow> f s)"

definition wrapped :: "string \<Rightarrow> ('w, 'a) io \<Rightarrow> ('w, 'a) io" where
  "wrapped prefix_text m = io_try m (\<lambda>e. case e of Panic _ \<Rightarrow> io_err e | _ \<Rightarrow> io_err (Plain (prefix_text @ Error_text e))) io_ret"

subsection \<open>Events\<close>

definition findObjectsForCluster :: "'w ClusterReconciler \<Rightarrow> CtrlNode \<Rightarrow> 'w \<Rightarrow> string list" where
  "findObjectsForCluster r objNode w =
     (if kn_Deleting objNode then []
      else case kr_GetNode r (kn_Name objNode) w of
        Inl _ \<Rightarrow> []
      | Inr node \<Rightarrow>
          if label (kn_Annotations node) AnnotationMetadataFloatIP \<noteq> [] \<and> node_value node LabelNodeRole = NodeRoleMaster
          then [node_value node LabelClusterName] else [])"

definition findRegistryCluster :: "'w ClusterReconciler \<Rightarrow> string \<Rightarrow> 'w \<Rightarrow> (string \<times> string) list" where
  "findRegistryCluster r registryName w =
     (case kr_ListClusters r w of
        Inl _ \<Rightarrow> []
      | Inr clusters \<Rightarrow> map (\<lambda>c. (kc_Namespace c, cl_Name c)) (filter (\<lambda>c. Some registryName \<in> set (kc_RegistryRefs c)) clusters))"

definition findOperationCluster :: "Operation \<Rightarrow> string list" where
  "findOperationCluster op =
     (let target = os_TargetRef (op_Spec op) in if or_Kind target \<noteq> ''Cluster'' \<or> or_Name target = [] then [] else [or_Name target])"

subsection \<open>Nodes of a cluster\<close>

definition updateNodeRoleLabel :: "'w ClusterReconciler \<Rightarrow> string \<Rightarrow> string \<Rightarrow> string \<Rightarrow> bool \<Rightarrow> ('w, unit) io" where
  "updateNodeRoleLabel r clusterName nodeName role del =
     io_bind (io_read (kr_GetNode r nodeName)) (\<lambda>node.
       let commit = (\<lambda>labels. let node = node\<lparr>kn_Labels := Some labels\<rparr> in
             io_bind (io_modify (kr_PutNode r node)) (\<lambda>_. io_bind (kr_UpdateNode r node) (\<lambda>_. io_ret ())))
       in if del
          then (if node_label node LabelNodeRole = None then io_ret ()
                else if node_label node LabelClusterName \<noteq> Some clusterName then io_ret ()
                else commit (AList.delete LabelClusterName (AList.delete LabelNodeRole (the (kn_Labels node)))))
          else (if node_label node LabelNodeRole \<noteq> None then io_ret ()
                else case kn_Labels node of
                  None \<Rightarrow> io_err (Panic ''assignment to entry in nil map'')
                | Some labels \<Rightarrow> commit (AList.update LabelClusterName clusterName (AList.update LabelNodeRole role labels))))"

definition updateClusterNode :: "'w ClusterReconciler \<Rightarrow> CtrlCluster \<Rightarrow> bool \<Rightarrow> ('w, unit) io" where
  "updateClusterNode r c del =
     (let update = (\<lambda>role item. io_try (updateNodeRoleLabel r (cl_Name c) (wn_ID item) role del)
            (\<lambda>err. if IsNotFound err then io_ret () else io_err err) io_ret)
      in io_bind (io_forM (kc_Workers c) (update NodeRoleWorker)) (\<lambda>_. io_forM (kc_Masters c) (update NodeRoleMaster)))"

subsection \<open>Deletion\<close>

definition finalizeCluster :: "'w ClusterReconciler \<Rightarrow> CtrlCluster \<Rightarrow> ('w, unit) io" where
  "finalizeCluster r clu =
     (case kr_OperationStore r of
        None \<Rightarrow> io_err (Plain ''operation store is required to finalize cluster deletion'')
      | Some s \<Rightarrow>
          io_bind (wrapped ''cleanup cluster operation history: '' (CleanupByTargetUID (kr_am r) s (cl_UID clu))) (\<lambda>_.
          io_bind (wrapped ''update cluster node: '' (updateClusterNode r clu True)) (\<lambda>_.
          io_bind (wrapped ''delete cronBackup: '' (kr_DeleteCronBackups r (''spec.clusterName='' @ cl_Name clu))) (\<lambda>_.
            let clu = clu\<lparr>kc_Finalizers := sort (remdups (removeAll ClusterFinalizer (kc_Finalizers clu)))\<rparr> in
            io_bind (put_cluster r True clu) (\<lambda>_.
            io_bind (kr_UpdateCluster r clu) (\<lambda>_. io_ret ()))))))"

subsection \<open>The client of a cluster\<close>

definition hex_bytes :: "string \<Rightarrow> string" where
  "hex_bytes s = concat (map (\<lambda>c. [hex_digit (of_char c div 16), hex_digit (of_char c mod 16)]) s)"

definition kubeConfigSyncOperationName :: "'w ClusterReconciler \<Rightarrow> string \<Rightarrow> string \<Rightarrow> string" where
  "kubeConfigSyncOperationName r clusterUID kubeconfig =
     (if kubeconfig = [] then ''sync-kubeconfig-'' @ clusterUID
      else ''sync-kubeconfig-'' @ clusterUID @ ''-'' @ hex_bytes (take 6 (kr_sha256 r kubeconfig)))"

definition kubeConfigCredentialValid :: "'w ClusterReconciler \<Rightarrow> string \<Rightarrow> 'w \<Rightarrow> goerr + bool" where
  "kubeConfigCredentialValid r kubeconfig w =
     (case kr_newClient r kubeconfig of
        Some _ \<Rightarrow> Inr False
      | None \<Rightarrow>
          (case kr_listPods r kubeconfig w of
             PodsListed \<Rightarrow> Inr True
           | Unauthorized \<Rightarrow> Inr False
           | PodsError err \<Rightarrow> Inl (Plain (''check stored kubeconfig: '' @ Error_text err))))"

definition ClusterAccessStep :: "StepNode list \<Rightarrow> CoreStep" where
  "ClusterAccessStep nodes =
     \<lparr>cs_ID = ClusterAccessStepID, cs_Name = ClusterAccessStepID, cs_Nodes = nodes, cs_Action = ActionInstall, cs_Timeout = 30 * Second,
      cs_ErrIgnore = False,
      cs_Commands = [\<lparr>cmd_Type = CommandCustom, cmd_ShellCommand = [], cmd_Identity = ''clusterAccess/v1/step'', cmd_CustomCommand = ''{}'',
        cmd_Template = None\<rparr>],
      cs_BeforeRunCommands = [], cs_AfterRunCommands = [], cs_RetryTimes = 1, cs_AutomaticRetry = False\<rparr>"

definition createKubeConfigSyncOperation :: "'w ClusterReconciler \<Rightarrow> CtrlCluster \<Rightarrow> string \<Rightarrow> ('w, unit) io" where
  "createKubeConfigSyncOperation r c name =
     (case kc_Masters c of
        [] \<Rightarrow> io_err (Panic ''index out of range'')
      | master # _ \<Rightarrow>
          with_store r (\<lambda>s.
            io_try (CreateFromCore (kr_marshalStep r) s (kr_NodeReader r) (Some (Cluster.truncate c))
                (Some \<lparr>cop_Name = name,
                  cop_Labels = [(LabelClusterName, cl_Name c), (LabelOperationAction, OperationSyncKubeConfig),
                    (LabelTimeoutSeconds, kubeConfigSyncOperationTimeoutSecs)],
                  cop_Steps = [ClusterAccessStep [\<lparr>sn_ID = wn_ID master, sn_IPv4 = [], sn_NodeIPv4 = [], sn_Hostname = []\<rparr>]]\<rparr>))
              (\<lambda>err. if IsAlreadyExists err then io_ret () else io_err err) (\<lambda>_. io_ret ())))"

fun kubeConfigTokenFromTasks :: "OperationTask list \<Rightarrow> goerr + string" where
  "kubeConfigTokenFromTasks [] = Inl (Plain ''kubeconfig sync operation completed without a service account token'')"
| "kubeConfigTokenFromTasks (task # tasks) =
     (if tsp_StepID (task_Spec task) \<noteq> ClusterAccessStepID \<or> task_Phase task \<noteq> TaskSucceeded \<or> tst_Result (task_Status task) = None
      then kubeConfigTokenFromTasks tasks
      else let token = TrimSpace (label (tr_Outputs (the (tst_Result (task_Status task)))) ''response'') in
        if token \<noteq> [] then Inr token else kubeConfigTokenFromTasks tasks)"

definition renderKubeConfig :: "string \<Rightarrow> string \<Rightarrow> string \<Rightarrow> string \<Rightarrow> string" where
  "renderKubeConfig clusterName address user token =
     concat (map (\<lambda>line. CHR 0x0A # line)
       [''apiVersion: v1'', ''clusters:'', ''- cluster:'', ''    insecure-skip-tls-verify: true'', ''    server: '' @ address,
        ''  name: '' @ clusterName, ''contexts:'', ''- context:'', ''    cluster: '' @ clusterName, ''    user: '' @ user,
        ''  name: '' @ user @ ''-'' @ clusterName, ''current-context: '' @ user @ ''-'' @ clusterName, ''kind: Config'', ''preferences: {}'',
        ''users:'', ''- name: '' @ user, ''  user:'', ''    token: '' @ token])"

definition apiServerOf :: "CtrlNode \<Rightarrow> string" where
  "apiServerOf node =
     (let floatIP = label (kn_Annotations node) AnnotationMetadataFloatIP in
      if floatIP \<noteq> [] then floatIP @ '':6443'' else kn_NodeIpv4DefaultIP node @ '':6443'')"

definition syncedKubeConfig :: "'w ClusterReconciler \<Rightarrow> CtrlCluster \<Rightarrow> string \<Rightarrow> ('w, string) io" where
  "syncedKubeConfig r c apiServer =
     (let operationName = kubeConfigSyncOperationName r (cl_UID c) (kc_KubeConfig c) in
      with_store r (\<lambda>s.
        io_try (GetOperation s operationName [])
          (\<lambda>err. if IsNotFound err then io_bind (createKubeConfigSyncOperation r c operationName) (\<lambda>_. io_ret [])
                  else io_err (Plain (''get kubeconfig sync operation: '' @ Error_text err)))
          (\<lambda>op. if op_Phase op \<noteq> OperationSucceeded
                 then io_err (Plain (''kubeconfig sync operation '' @ Quote operationName @ '' finished with phase '' @ Quote (op_Phase op)))
                 else io_bind (wrapped ''list kubeconfig sync tasks: '' (ListTasksByOperationUID (kr_am r) s (op_UID op) [])) (\<lambda>tasks.
                      io_bind (io_of (kubeConfigTokenFromTasks (ol_Items tasks))) (\<lambda>token.
                        io_ret (renderKubeConfig (cl_Name c) (''https://'' @ apiServer) ''kc-server'' token))))))"

definition getKubeConfig :: "'w ClusterReconciler \<Rightarrow> CtrlCluster \<Rightarrow> ('w, string) io" where
  "getKubeConfig r c =
     (case kc_Masters c of
        [] \<Rightarrow> io_err (Plain (''cluster '' @ Quote (cl_Name c) @ '' has no master node''))
      | master # _ \<Rightarrow>
          io_bind (io_read (kr_GetNode r (wn_ID master))) (\<lambda>node. \<lambda>w.
            let apiServer = apiServerOf node in
            if kr_GetClientSet r (cl_Name c) w \<and> str_contains (kc_KubeConfig c) apiServer then (Inr [], w)
            else if kc_KubeConfig c \<noteq> []
            then (case kubeConfigCredentialValid r (kc_KubeConfig c) w of
                    Inl err \<Rightarrow> (Inl err, w)
                  | Inr True \<Rightarrow> (Inr (kc_KubeConfig c), w)
                  | Inr False \<Rightarrow> syncedKubeConfig r c apiServer w)
            else syncedKubeConfig r c apiServer w))"

definition getKubeconfigFromProvider :: "'w ClusterReconciler \<Rightarrow> CtrlCluster \<Rightarrow> ('w, string) io" where
  "getKubeconfigFromProvider r c = (\<lambda>w.
     if kr_GetClientSet r (cl_Name c) w then (Inr [], w)
     else io_bind (io_read (kr_GetCloudProvider r (label (kc_Labels c) LabelClusterProviderName))) (\<lambda>provider.
            io_read (kr_providerKubeConfig r provider (cl_Name c))) w)"

definition syncClusterClient :: "'w ClusterReconciler \<Rightarrow> bool \<Rightarrow> CtrlCluster \<Rightarrow> ('w, CtrlCluster) io" where
  "syncClusterClient r shared c =
     (if cl_Phase c \<in> {ClusterInstalling, ClusterInstallFailed} then io_ret c
      else io_bind
        (case map_of (kc_Labels c) LabelClusterProviderName of
           Some provider \<Rightarrow> if provider \<noteq> ProviderKubeadm then getKubeconfigFromProvider r c else getKubeConfig r c
         | None \<Rightarrow> getKubeConfig r c)
        (\<lambda>kubeconfig.
          if kubeconfig = [] then io_ret c
          else let c = c\<lparr>kc_KubeConfig := kubeconfig\<rparr> in
            io_bind (put_cluster r shared c) (\<lambda>_.
            io_bind (kr_UpdateCluster r c) (\<lambda>_.
            io_bind (io_check (kr_newClient r kubeconfig)) (\<lambda>_.
            io_bind (io_modify (kr_AddClientSet r (cl_Name c) kubeconfig)) (\<lambda>_. io_ret c))))))"

subsection \<open>The registries of a running cluster\<close>

definition NewMetadata :: "CtrlCluster \<Rightarrow> ExtraMetadata" where
  "NewMetadata c =
     \<lparr>em_Masters = [], em_Workers = [], em_ClusterStatus = cl_Phase c, em_Offline = Offline c,
      em_ImageRegistry = (if kc_ResolvedImageRegistry c = [] then kc_ImageRegistry c else kc_ResolvedImageRegistry c),
      em_CRI = kc_CRIType c, em_ClusterName = cl_Name c, em_KubeVersion = cl_KubernetesVersion c, em_OperationID = [], em_OperationType = [],
      em_KubeletDataDir = kc_KubeletRootDir c, em_ControlPlaneStatus = kc_ControlPlaneHealth c, em_Addons = [], em_CNI = kc_CNIType c,
      em_CNINamespace = kc_CNINamespace c, em_OnlyInstallKubernetesComp = False\<rparr>"

definition BuildStepNode :: "CtrlNode list \<Rightarrow> StepNode list" where
  "BuildStepNode nodes = map (\<lambda>n. \<lparr>sn_ID = kn_Name n, sn_IPv4 = kn_Ipv4DefaultIP n, sn_NodeIPv4 = kn_NodeIpv4DefaultIP n,
     sn_Hostname = kn_Hostname n\<rparr>) nodes"

definition registryStep :: "StepNode list \<Rightarrow> string \<Rightarrow> string \<Rightarrow> CoreStep" where
  "registryStep nodes ident stepData =
     \<lparr>cs_ID = [], cs_Name = ''update-cri-registry-config'', cs_Nodes = nodes, cs_Action = ActionInstall, cs_Timeout = 30 * Second,
      cs_ErrIgnore = False,
      cs_Commands = [\<lparr>cmd_Type = CommandCustom, cmd_ShellCommand = [], cmd_Identity = ident, cmd_CustomCommand = stepData, cmd_Template = None\<rparr>],
      cs_BeforeRunCommands = [], cs_AfterRunCommands = [], cs_RetryTimes = 0, cs_AutomaticRetry = False\<rparr>"

definition criRegistryUpdateStep :: "'w ClusterReconciler \<Rightarrow> CtrlCluster \<Rightarrow> RegistrySpec list \<Rightarrow> CtrlNode list \<Rightarrow> goerr + CoreStep" where
  "criRegistryUpdateStep r c registries nodes =
     (let allNodes = BuildStepNode nodes in
      if kc_CRIType c = CRIDocker
      then (case kr_dockerConfigure r registries of
              Inl err \<Rightarrow> Inl err | Inr stepData \<Rightarrow> Inr (registryStep allNodes ''docker/v1/registryConfigure'' stepData))
      else if kc_CRIType c = CRIContainerd
      then (case kr_containerdConfigure r (NewMetadata c) c allNodes registries of
              Inl err \<Rightarrow> Inl err | Inr stepData \<Rightarrow> Inr (registryStep allNodes ''containerd/v1/registryConfigure'' stepData))
      else Inl (Plain (''unknown CRI type:'' @ kc_CRIType c)))"

definition store_cluster :: "'w ClusterReconciler \<Rightarrow> bool \<Rightarrow> CtrlCluster \<Rightarrow> ('w, CtrlCluster) io" where
  "store_cluster r shared c =
     io_bind (wrapped ''update cluster:'' (kr_UpdateCluster r c)) (\<lambda>newSpec.
     io_bind (put_cluster r shared newSpec) (\<lambda>_. io_ret newSpec))"

definition deliverRegistries :: "'w ClusterReconciler \<Rightarrow> CtrlCluster \<Rightarrow> RegistrySpec list \<Rightarrow> ('w, Operation) io" where
  "deliverRegistries r c registries =
     io_bind (wrapped ''new cluster node selector requirement:'' (io_check (kr_NewRequirement r LabelClusterName (cl_Name c)))) (\<lambda>_.
     io_try (io_read (kr_ListNodes r LabelClusterName (cl_Name c))) (\<lambda>_. io_err (Plain ''list'')) (\<lambda>nodes.
     io_bind (wrapped ''criRegistryUpdateOperation:'' (io_of (criRegistryUpdateStep r c registries nodes))) (\<lambda>step. \<lambda>w.
       wrapped ''create CRI registry Operation:''
         (with_store r (\<lambda>s. CreateFromCore (kr_marshalStep r) s (kr_NodeReader r) (Some (Cluster.truncate c))
            (Some \<lparr>cop_Name = kr_uuid r w, cop_Labels = [(LabelClusterName, cl_Name c), (LabelOperationAction, OperationInstallComponents)],
              cop_Steps = [step]\<rparr>))) w)))"

definition updateCRIRegistries :: "'w ClusterReconciler \<Rightarrow> bool \<Rightarrow> CtrlCluster \<Rightarrow> ('w, CtrlCluster) io" where
  "updateCRIRegistries r shared c = (\<lambda>w.
     let (c, res) = GetClusterCRIRegistries (kr_lower r) (\<lambda>n. kr_GetRegistry r n w) c in
     io_bind (put_cluster r shared c) (\<lambda>_.
     io_bind (io_of res) (\<lambda>registries.
       if cl_Phase c = ClusterInstalling
       then (if registriesEqual (kc_Registries c) registries then io_ret c else store_cluster r shared c)
       else if cl_Phase c \<noteq> ClusterRunning then io_ret c
       else if registriesEqual (kc_Registries c) registries then io_ret c
       else let c = c\<lparr>kc_Registries := registries\<rparr> in
         io_bind (put_cluster r shared c) (\<lambda>_.
         io_bind (deliverRegistries r c registries) (\<lambda>_. store_cluster r shared c)))) w)"

subsection \<open>Pending operations\<close>

fun convertNodes :: "'w ClusterReconciler \<Rightarrow> WorkerNode list \<Rightarrow> ('w, CompNode list) io" where
  "convertNodes r [] = io_ret []"
| "convertNodes r (node # nodes) =
     io_bind (io_read (kr_GetNodeEx r (wn_ID node) ''0'')) (\<lambda>n.
     io_bind (convertNodes r nodes) (\<lambda>rest.
       io_ret (\<lparr>co_ID = kn_Name n, co_IPv4 = kn_Ipv4DefaultIP n, co_NodeIPv4 = kn_NodeIpv4DefaultIP n,
         co_Region = node_value n LabelTopologyRegion, co_Hostname = kn_Hostname n, co_Role = node_value n LabelNodeRole,
         co_Disable = (node_label n LabelNodeDisable \<noteq> None)\<rparr> # rest)))"

text \<open>The metadata of a cluster; the cluster records the resolved registry.\<close>

definition assembleClusterExtraMetadata :: "'w ClusterReconciler \<Rightarrow> CtrlCluster \<Rightarrow> ('w, CtrlCluster \<times> ExtraMetadata) io" where
  "assembleClusterExtraMetadata r c = (\<lambda>w.
     io_bind (io_of (ResolveImageRegistryForMode (kr_lower r) (\<lambda>n. kr_GetRegistry r n w) (Offline c) (kc_ImageRegistry c))) (\<lambda>registry.
     let c = c\<lparr>kc_ResolvedImageRegistry := rs_Host registry\<rparr> in
     io_bind (convertNodes r (kc_Masters c)) (\<lambda>masters.
     io_bind (convertNodes r (kc_Workers c)) (\<lambda>workers.
       io_ret (c, \<lparr>em_Masters = masters, em_Workers = workers, em_ClusterStatus = cl_Phase c, em_Offline = Offline c,
         em_ImageRegistry = kc_ResolvedImageRegistry c, em_CRI = kc_CRIType c, em_ClusterName = cl_Name c, em_KubeVersion = cl_KubernetesVersion c,
         em_OperationID = [], em_OperationType = [], em_KubeletDataDir = kc_KubeletRootDir c, em_ControlPlaneStatus = kc_ControlPlaneHealth c,
         em_Addons = kc_Addons c, em_CNI = kc_CNIType c, em_CNINamespace = kc_CNINamespace c, em_OnlyInstallKubernetesComp = False\<rparr>)))) w)"

definition createPending :: "'w ClusterReconciler \<Rightarrow> 'w store \<Rightarrow> string \<Rightarrow> PendingOperation \<Rightarrow> ('w, Operation) io" where
  "createPending r s name pending =
     io_bind (io_read (kr_GetClusterEx r name (po_ClusterResourceVersion pending))) (\<lambda>clu.
     io_bind (assembleClusterExtraMetadata r clu) (\<lambda>(clu, extraMeta).
     io_bind (BuildOperationAdapter (kr_lower r) (kr_builders r) (kr_GetRegistry r) clu pending
         (extraMeta\<lparr>em_OperationID := po_OperationID pending\<rparr>)) (\<lambda>plan.
       CreateFromCore (kr_marshalStep r) s (kr_NodeReader r) (Some (Cluster.truncate clu)) (Some plan))))"

definition is_panic :: "goerr \<Rightarrow> bool" where "is_panic e = (case e of Panic _ \<Rightarrow> True | _ \<Rightarrow> False)"

text \<open>The loop; its value is the flag \<open>clean\<close>.  Errors are logged, a panic ends the call.\<close>

fun pending_loop :: "'w ClusterReconciler \<Rightarrow> 'w store \<Rightarrow> string \<Rightarrow> bool \<Rightarrow> PendingOperation list \<Rightarrow> ('w, bool) io" where
  "pending_loop r s name clean [] = io_ret clean"
| "pending_loop r s name clean (pending # rest) =
     io_try (GetOperation s (po_OperationID pending) [])
       (\<lambda>err. if \<not> IsNotFound err then pending_loop r s name False rest
               else io_try (createPending r s name pending)
                 (\<lambda>e. if is_panic e then io_err e else pending_loop r s name False rest)
                 (\<lambda>_. pending_loop r s name False rest))
       (\<lambda>op. pending_loop r s name (clean \<and> op_Phase op \<noteq> OperationPending \<and> op_Phase op \<noteq> OperationRunning) rest)"

definition processPendingOperations :: "'w ClusterReconciler \<Rightarrow> bool \<Rightarrow> CtrlCluster \<Rightarrow> ('w, unit) io" where
  "processPendingOperations r shared c =
     (if kc_PendingOperations c = [] then io_ret ()
      else with_store r (\<lambda>s.
        io_bind (pending_loop r s (cl_Name c) True (kc_PendingOperations c)) (\<lambda>clean.
          if clean
          then let c = c\<lparr>kc_PendingOperations := []\<rparr> in
            io_bind (put_cluster r shared c) (\<lambda>_. io_bind (kr_UpdateCluster r c) (\<lambda>_. io_ret ()))
          else io_ret ())))"

subsection \<open>The controller\<close>

definition addFinalizer :: "'w ClusterReconciler \<Rightarrow> CtrlCluster \<Rightarrow> ('w, bool \<times> CtrlCluster) io" where
  "addFinalizer r clu =
     (if ClusterFinalizer \<in> set (kc_Finalizers clu) then io_ret (True, clu)
      else let clu = clu\<lparr>kc_Finalizers := kc_Finalizers clu @ [ClusterFinalizer]\<rparr> in
        io_bind (put_cluster r True clu) (\<lambda>_. io_bind (kr_UpdateCluster r clu) (\<lambda>new. io_ret (False, new))))"

text \<open>Errors of the last three parts are logged and end the call without an error, so that it is not repeated.\<close>

definition logged :: "goerr \<Rightarrow> ('w, unit) io" where
  "logged e = (if is_panic e then io_err e else io_ret ())"

definition deleteCluster :: "'w ClusterReconciler \<Rightarrow> CtrlCluster \<Rightarrow> ('w, unit) io" where
  "deleteCluster r clu =
     io_bind (io_modify (kr_RemoveClientSet r (cl_Name clu))) (\<lambda>_.
       if ClusterFinalizer \<in> set (kc_Finalizers clu) then finalizeCluster r clu else io_ret ())"

definition maintainCluster :: "'w ClusterReconciler \<Rightarrow> bool \<Rightarrow> CtrlCluster \<Rightarrow> ('w, unit) io" where
  "maintainCluster r shared clu =
     io_bind (updateClusterNode r clu False) (\<lambda>_.
     io_try (updateCRIRegistries r shared clu) logged (\<lambda>clu.
     io_try (syncClusterClient r shared clu) logged (\<lambda>clu.
     io_try (processPendingOperations r shared clu) logged io_ret)))"

definition cluster_Reconcile :: "'w ClusterReconciler \<Rightarrow> string \<Rightarrow> ('w, unit) io" where
  "cluster_Reconcile r name =
     io_try (io_read (kr_GetCluster r name)) (\<lambda>err. if IsNotFound err then io_ret () else io_err err) (\<lambda>clu.
       if kc_Deleting clu then deleteCluster r clu
       else io_bind (addFinalizer r clu) (\<lambda>(shared, clu). maintainCluster r shared clu))"

subsection \<open>Assignments and wrapped errors\<close>

lemma io_modify_eq [simp]: "io_modify f w = (Inr (), f w)"
  by (simp add: io_modify_def)

lemma put_cluster_eq [simp]: "put_cluster r shared c w = (Inr (), if shared then kr_PutCluster r c w else w)"
  by (simp add: put_cluster_def)

lemma wrapped_Inr: "wrapped p m w = (Inr x, w') \<longleftrightarrow> m w = (Inr x, w')"
  by (auto simp: wrapped_def io_try_def split: prod.split sum.split goerr.split)

lemma wrapped_world: "snd (wrapped p m w) = snd (m w)"
  by (auto simp: wrapped_def io_try_def split: prod.split sum.split goerr.split)

lemma wrapped_keeps: "io_keeps R m \<Longrightarrow> io_keeps R (wrapped p m)"
  unfolding io_keeps_def by (metis wrapped_world snd_conv surj_pair)

end
