(* ===== verification/Op_Purge.thy ===== *)
theory Op_Purge
  imports Op_Handler_Props
begin

text \<open>
  The purge of the history of a target (\<^verbatim>\<open>CleanupByTargetUID\<close> of \<^verbatim>\<open>pkg/models/operationv2/store.go\<close>): all operations of the target, their
  tasks and the stale locks are deleted, but only if everything has ended.  The definitions are those of
  the store; here are the lemmas on its loops and the theorem on the whole.
\<close>

subsection \<open>Deleting one object, and many\<close>

context quiet_storage begin

lemma deleteObject_effect:
  assumes "deleteObject S n w = (r, w')"
  shows "case r of Inr _ \<Rightarrow> fst (view w') = (fst (view w))(n := None) | Inl _ \<Rightarrow> fst (view w') = fst (view w)"
proof -
  obtain d w1 where d: "st_Delete S n None w = (d, w1)" by fastforce
  show ?thesis
  proof (cases d)
    case (Inl e)
    then show ?thesis using assms d delete_effect [OF d]
      by (cases "IsNotFound e") (auto simp: deleteObject_def io_try_def intro!: ext)
  next
    case (Inr x)
    then show ?thesis using assms d delete_effect [OF d] by (auto simp: deleteObject_def io_try_def)
  qed
qed

lemma delete_frame:
  assumes "writes_keep S v" "io_forM xs (\<lambda>x. deleteObject S (f x)) w = (r, w')"
  shows "v w' = v w"
proof -
  have R: "preorder_rel (\<lambda>w w'. v w' = v w)" by (auto simp: preorder_rel_def)
  have "io_keeps (\<lambda>w w'. v w' = v w) (st_Delete S n None)" for n using writes_keepD(3) [OF assms(1)] by (simp add: io_keeps_def)
  then have "io_keeps (\<lambda>w w'. v w' = v w) (io_forM xs (\<lambda>x. deleteObject S (f x)))"
    unfolding deleteObject_def by (intro io_keeps_forM [OF R] io_keeps_try [OF R]) (auto simp: io_keeps_pure [OF R] simp del: io_ret_eq io_err_eq)
  then show ?thesis using assms(2) by (rule io_keepsD)
qed

lemma delete_all:
  assumes "io_forM xs (\<lambda>x. deleteObject S (f x)) w = (r, w')"
  shows "\<exists>N. fst (view w') = fst (view w) |` (- N) \<and> N \<subseteq> f ` set xs \<and> (r = Inr () \<longrightarrow> N = f ` set xs)"
  using assms
proof (induction xs arbitrary: w)
  case (Cons x xs)
  obtain r1 w1 where one: "deleteObject S (f x) w = (r1, w1)" by fastforce
  show ?case
  proof (cases r1)
    case (Inl e)
    then have "r = Inl e" "w' = w1" using Cons.prems one by (auto simp: io_bind_def)
    then show ?thesis using deleteObject_effect [OF one] Inl by (intro exI [of _ "{}"]) simp
  next
    case (Inr u)
    then have rest: "io_forM xs (\<lambda>x. deleteObject S (f x)) w1 = (r, w')" using Cons.prems one by (simp add: io_bind_def)
    obtain N where N: "fst (view w') = fst (view w1) |` (- N)" "N \<subseteq> f ` set xs" "r = Inr () \<longrightarrow> N = f ` set xs"
      using Cons.IH [OF rest] by (elim exE conjE) (rule that)
    have "fst (view w1) = fst (view w) |` (- {f x})"
      using deleteObject_effect [OF one] Inr by (simp add: restrict_complement_singleton_eq)
    then have "fst (view w') = fst (view w) |` (- {f x} \<inter> - N)" using N(1) by simp
    moreover have "- {f x} \<inter> - N = - insert (f x) N" by auto
    ultimately have "fst (view w') = fst (view w) |` (- insert (f x) N)" by simp
    then show ?thesis using N(2,3) by (intro exI [of _ "insert (f x) N"]) auto
  qed
qed (auto intro!: exI [of _ "{}"])

end

subsection \<open>The loops of the purge\<close>

definition targets :: "string \<Rightarrow> Operation \<Rightarrow> bool" where
  "targets u op \<longleftrightarrow> or_UID (os_TargetRef (op_Spec op)) = u"

definition ended :: "task_map \<Rightarrow> Operation \<Rightarrow> bool" where
  "ended T op \<longleftrightarrow> OperationPhase_IsTerminal (op_Phase op) \<and>
     (\<forall>t \<in> ran T. task_OpUID t = op_UID op \<longrightarrow> TaskPhase_IsTerminal (task_Phase t))"

lemma ran_restrict: "ran (m |` A) = {x. \<exists>n \<in> A. m n = Some x}"
  by (auto simp: ran_def restrict_map_def split: if_splits)

lemma keyed_mem: "keyed_by nm m \<Longrightarrow> x \<in> ran m \<Longrightarrow> m (nm x) = Some x"
  by (auto simp: keyed_by_def ran_def)

lemma forM_reads:
  assumes "\<And>x. x \<in> set xs \<Longrightarrow> \<exists>y. f x w = (y, w) \<and> (\<forall>u. y = Inr u \<longrightarrow> P x)"
  shows "\<exists>y. io_forM xs f w = (y, w) \<and> (\<forall>u. y = Inr u \<longrightarrow> (\<forall>x \<in> set xs. P x))"
  using assms
proof (induction xs)
  case (Cons x xs)
  obtain y where y: "f x w = (y, w)" "\<forall>u. y = Inr u \<longrightarrow> P x" using Cons.prems [of x] by auto
  obtain z where z: "io_forM xs f w = (z, w)" "\<forall>u. z = Inr u \<longrightarrow> (\<forall>x \<in> set xs. P x)" using Cons.IH Cons.prems by force
  show ?case using y z by (cases y) (auto simp: io_bind_def)
qed simp

lemma forM_filter:
  fixes f :: "'a \<Rightarrow> ('w, unit) io"
  shows "io_forM xs (\<lambda>x. if P x then f x else io_ret ()) = io_forM (filter P xs) f"
proof (induction xs)
  case (Cons x xs)
  have "io_bind (io_ret ()) g = g ()" for g :: "unit \<Rightarrow> ('w, unit) io" by (simp add: io_bind_def)
  then show ?case using Cons by simp
qed simp

context quiet_store begin

lemma get_op_strong: "getOperationStrong s n w = (r, w') \<Longrightarrow> w' = w \<and> (\<forall>op. r = Inr op \<longrightarrow> fst (vo w) n = Some op)"
  using rest_storage.get_found [OF opsStrong] by (auto simp: getOperationStrong_def)

lemma get_task_strong: "getTaskStrong s n w = (r, w') \<Longrightarrow> w' = w \<and> (\<forall>t. r = Inr t \<longrightarrow> fst (vt w) n = Some t)"
  using rest_storage.get_found [OF tasksStrong] by (auto simp: getTaskStrong_def)

lemma verify_task:
  assumes "keyed_by (\<lambda>t. task_Name t) (fst (vt w))" "t \<in> ran (fst (vt w))"
  shows "\<exists>y. io_bind (getTaskStrong s (task_Name t)) (\<lambda>task.
      if \<not> TaskPhase_IsTerminal (task_Phase task) then io_err (Plain (''task '' @ task_Name task @ '' is not terminal'')) else io_ret ()) w = (y, w) \<and>
    (\<forall>u. y = Inr u \<longrightarrow> TaskPhase_IsTerminal (task_Phase t))"
proof -
  obtain x w1 where g: "getTaskStrong s (task_Name t) w = (x, w1)" by fastforce
  have m: "fst (vt w) (task_Name t) = Some t" by (rule keyed_mem [OF assms])
  show ?thesis using get_task_strong [OF g] g m by (cases x) (auto simp: io_bind_def)
qed

lemma verify_operation:
  assumes "keyed_by (\<lambda>op. op_Name op) (fst (vo w))" "keyed_by (\<lambda>t. task_Name t) (fst (vt w))" "o1 \<in> ran (fst (vo w))"
  shows "\<exists>y. io_bind (getOperationStrong s (op_Name o1)) (\<lambda>op.
       if \<not> OperationPhase_IsTerminal (op_Phase op)
       then io_err (Plain (''operation '' @ op_Name op @ '' is not terminal''))
       else io_bind (ListTasksByOperationUID am s (op_UID op) []) (\<lambda>tasks.
         io_forM (ol_Items tasks) (\<lambda>t1.
           io_bind (getTaskStrong s (task_Name t1)) (\<lambda>task.
             if \<not> TaskPhase_IsTerminal (task_Phase task)
             then io_err (Plain (''task '' @ task_Name task @ '' is not terminal''))
             else io_ret ())))) w = (y, w) \<and> (\<forall>u. y = Inr u \<longrightarrow> ended (fst (vt w)) o1)"
proof -
  obtain x w1 where g: "getOperationStrong s (op_Name o1) w = (x, w1)" by fastforce
  have m: "fst (vo w) (op_Name o1) = Some o1" by (rule keyed_mem [OF assms(1,3)])
  show ?thesis
  proof (cases x)
    case (Inl e)
    then show ?thesis using g get_op_strong [OF g] by (auto simp: io_bind_def)
  next
    case (Inr op)
    then have op: "op = o1" "w1 = w" using get_op_strong [OF g] m by auto
    obtain l w2 where l: "ListTasksByOperationUID am s (op_UID o1) [] w = (l, w2)" by fastforce
    show ?thesis
    proof (cases l)
      case tasks: (Inr ts)
      let ?f = "\<lambda>t1. io_bind (getTaskStrong s (task_Name t1)) (\<lambda>task.
             if \<not> TaskPhase_IsTerminal (task_Phase task)
             then io_err (Plain (''task '' @ task_Name task @ '' is not terminal'')) else io_ret ())"
      have set: "set (ol_Items ts) = {t \<in> ran (fst (vt w)). task_OpUID t = op_UID o1}" and w2: "w2 = w" using list_tasks [OF l] tasks by auto
      obtain y where y: "io_forM (ol_Items ts) ?f w = (y, w)" "\<forall>u. y = Inr u \<longrightarrow> (\<forall>t \<in> set (ol_Items ts). TaskPhase_IsTerminal (task_Phase t))"
        using forM_reads [of "ol_Items ts" ?f w "\<lambda>t. TaskPhase_IsTerminal (task_Phase t)"] verify_task [OF assms(2)] set by blast
      show ?thesis using g Inr op l tasks y w2 set by (auto simp: io_bind_def ended_def)
    next
      case (Inl e)
      then show ?thesis using g Inr op l list_tasks [OF l] by (auto simp: io_bind_def)
    qed
  qed
qed

lemma verify_history:
  assumes "keyed_by (\<lambda>op. op_Name op) (fst (vo w))" "keyed_by (\<lambda>t. task_Name t) (fst (vt w))" "set os \<subseteq> ran (fst (vo w))"
    and "verifyTerminalHistory am s os w = (r, w')"
  shows "w' = w \<and> (\<forall>u. r = Inr u \<longrightarrow> (\<forall>op \<in> set os. ended (fst (vt w)) op))"
proof -
  have "\<exists>y. verifyTerminalHistory am s os w = (y, w) \<and> (\<forall>u. y = Inr u \<longrightarrow> (\<forall>op \<in> set os. ended (fst (vt w)) op))"
    unfolding verifyTerminalHistory_def by (rule forM_reads) (use verify_operation [OF assms(1,2)] assms(3) in blast)
  then show ?thesis using assms(4) by auto
qed

text \<open>What a purge of some operations has removed: some of them if it fails, all of them and all their tasks if it succeeds.\<close>

definition purged :: "Operation list \<Rightarrow> 'w \<Rightarrow> 'w \<Rightarrow> bool \<Rightarrow> bool" where
  "purged os w w' full \<longleftrightarrow> fst (vl w') = fst (vl w) \<and>
     (\<exists>N. fst (vo w') = fst (vo w) |` (- N) \<and> N \<subseteq> op_Name ` set os \<and> (full \<longrightarrow> N = op_Name ` set os)) \<and>
     (\<exists>M. fst (vt w') = fst (vt w) |` (- M) \<and> M \<subseteq> {n. \<exists>t. fst (vt w) n = Some t \<and> task_OpUID t \<in> op_UID ` set os} \<and>
        (full \<longrightarrow> M = {n. \<exists>t. fst (vt w) n = Some t \<and> task_OpUID t \<in> op_UID ` set os}))"

lemma purgedI:
  assumes "fst (vl w') = fst (vl w)" "fst (vo w') = fst (vo w) |` (- N)" "N \<subseteq> op_Name ` set os" "full \<longrightarrow> N = op_Name ` set os"
    and "fst (vt w') = fst (vt w) |` (- M)" "M \<subseteq> {n. \<exists>t. fst (vt w) n = Some t \<and> task_OpUID t \<in> op_UID ` set os}"
      "full \<longrightarrow> M = {n. \<exists>t. fst (vt w) n = Some t \<and> task_OpUID t \<in> op_UID ` set os}"
  shows "purged os w w' full"
  unfolding purged_def by (intro conjI exI) (fact assms)+

lemma purgedE:
  assumes "purged os w w' full"
  obtains N M where "fst (vl w') = fst (vl w)" "fst (vo w') = fst (vo w) |` (- N)" "N \<subseteq> op_Name ` set os" "full \<longrightarrow> N = op_Name ` set os"
    "fst (vt w') = fst (vt w) |` (- M)" "M \<subseteq> {n. \<exists>t. fst (vt w) n = Some t \<and> task_OpUID t \<in> op_UID ` set os}"
      "full \<longrightarrow> M = {n. \<exists>t. fst (vt w) n = Some t \<and> task_OpUID t \<in> op_UID ` set os}"
  using assms unfolding purged_def by (elim conjE exE) (rule that)

lemma purge_operation:
  assumes "keyed_by (\<lambda>t. task_Name t) (fst (vt w))"
    and "io_bind (ListTasksByOperationUID am s (op_UID op) []) (\<lambda>tasks.
      io_bind (io_forM (ol_Items tasks) (\<lambda>t. deleteObject (s_tasks s) (task_Name t))) (\<lambda>_.
        deleteObject (s_operations s) (op_Name op))) w = (r, w')"
  shows "purged [op] w w' (r = Inr ())"
proof -
  let ?M = "{n. \<exists>t. fst (vt w) n = Some t \<and> task_OpUID t = op_UID op}"
  obtain l w1 where l: "ListTasksByOperationUID am s (op_UID op) [] w = (l, w1)" by fastforce
  show ?thesis
  proof (cases l)
    case (Inl e)
    then have "r = Inl e" "w' = w" using assms(2) l list_tasks [OF l] by (auto simp: io_bind_def)
    then show ?thesis by (auto simp: purged_def intro!: exI [of _ "{}"])
  next
    case (Inr ts)
    have w1: "w1 = w" and set: "set (ol_Items ts) = {t \<in> ran (fst (vt w)). task_OpUID t = op_UID op}" using list_tasks [OF l] Inr by auto
    have names: "task_Name ` set (ol_Items ts) = ?M" unfolding set using assms(1) by (force simp: keyed_by_def ran_def)
    obtain x w2 where x: "io_forM (ol_Items ts) (\<lambda>t. deleteObject (s_tasks s) (task_Name t)) w = (x, w2)" by fastforce
    obtain M where M: "fst (vt w2) = fst (vt w) |` (- M)" "M \<subseteq> ?M" "x = Inr () \<longrightarrow> M = ?M"
      using quiet_storage.delete_all [OF tasks x] unfolding names by (elim exE conjE) (rule that)
    have keep: "vo w2 = vo w" "vl w2 = vl w"
      using quiet_storage.delete_frame [OF tasks frame_t(1) x] quiet_storage.delete_frame [OF tasks frame_t(2) x] .
    show ?thesis
    proof (cases x)
      case xe: (Inl e)
      then have "r = Inl e" "w' = w2" using assms(2) l Inr w1 x by (auto simp: io_bind_def)
      then show ?thesis unfolding purged_def using M keep xe by (intro conjI exI [of _ "{}"] exI [of _ M]) auto
    next
      case ok: (Inr u)
      then have d: "deleteObject (s_operations s) (op_Name op) w2 = (r, w')" using assms(2) l Inr w1 x by (auto simp: io_bind_def)
      then have d1: "io_forM [op] (\<lambda>op. deleteObject (s_operations s) (op_Name op)) w2 = (r, w')" by (cases r) (auto simp: io_bind_def)
      obtain N where N: "fst (vo w') = fst (vo w2) |` (- N)" "N \<subseteq> op_Name ` set [op]" "r = Inr () \<longrightarrow> N = op_Name ` set [op]"
        using quiet_storage.delete_all [OF ops d1] by (elim exE conjE) (rule that)
      have k: "vt w' = vt w2" "vl w' = vl w2"
        using quiet_storage.delete_frame [OF ops frame_o(1) d1] quiet_storage.delete_frame [OF ops frame_o(2) d1] .
      have v: "fst (vo w') = fst (vo w) |` (- N)" "fst (vt w') = fst (vt w) |` (- M)" "fst (vl w') = fst (vl w)"
        using k keep M(1) N(1) by simp_all
      have full: "M = ?M" using M(3) ok by simp
      show ?thesis unfolding purged_def v full by (intro conjI exI [of _ N] exI [of _ ?M]) (use N(2,3) in simp_all)
    qed
  qed
qed

lemma purged_trans:
  assumes "purged os w w1 True" "purged os' w1 w' full"
  shows "purged (os @ os') w w' full"
proof -
  let ?U = "\<lambda>v os. {n. \<exists>t. fst (vt v) n = Some t \<and> task_OpUID t \<in> op_UID ` set os}"
  obtain N M where two: "fst (vl w') = fst (vl w1)" "fst (vo w') = fst (vo w1) |` (- N)" "N \<subseteq> op_Name ` set os'" "full \<longrightarrow> N = op_Name ` set os'"
    "fst (vt w') = fst (vt w1) |` (- M)" "M \<subseteq> ?U w1 os'" "full \<longrightarrow> M = ?U w1 os'" by (rule purgedE [OF assms(2)])
  have one: "fst (vo w1) = fst (vo w) |` (- (op_Name ` set os))" "fst (vt w1) = fst (vt w) |` (- ?U w os)" "fst (vl w1) = fst (vl w)"
    by (rule purgedE [OF assms(1)]; simp)+
  have U: "?U w os \<union> ?U w1 os' = ?U w (os @ os')" unfolding one(2) by (auto simp: restrict_map_def split: if_splits)
  show ?thesis
  proof (rule purgedI)
    show "fst (vo w') = fst (vo w) |` (- (op_Name ` set os \<union> N))" unfolding two(2) one(1) by simp
    show "fst (vt w') = fst (vt w) |` (- (?U w os \<union> M))" unfolding two(5) one(2) by simp
    show "?U w os \<union> M \<subseteq> ?U w (os @ os')" using two(6) unfolding U [symmetric] by (rule Un_mono [OF order_refl])
    show "full \<longrightarrow> ?U w os \<union> M = ?U w (os @ os')" using two(7) unfolding U [symmetric] by simp
  qed (use two(1,3,4) one(3) in auto)
qed

lemma purged_more:
  assumes "purged os w w' full" "set os \<subseteq> set os'"
  shows "purged os' w w' False"
proof (rule purgedE [OF assms(1)])
  fix N M assume P: "fst (vl w') = fst (vl w)" "fst (vo w') = fst (vo w) |` (- N)" "N \<subseteq> op_Name ` set os"
    "fst (vt w') = fst (vt w) |` (- M)" "M \<subseteq> {n. \<exists>t. fst (vt w) n = Some t \<and> task_OpUID t \<in> op_UID ` set os}"
  show ?thesis
  proof (rule purgedI [OF P(1,2) _ _ P(4)])
    show "N \<subseteq> op_Name ` set os'" using P(3) assms(2) by blast
    show "M \<subseteq> {n. \<exists>t. fst (vt w) n = Some t \<and> task_OpUID t \<in> op_UID ` set os'}" using P(5) assms(2) by blast
  qed simp_all
qed

lemma purged_keyed: "purged os w w' full \<Longrightarrow> keyed_by nm (fst (vt w)) \<Longrightarrow> keyed_by nm (fst (vt w'))"
  by (auto simp: purged_def keyed_by_def restrict_map_def split: if_splits)

lemma purge_history:
  assumes "keyed_by (\<lambda>t. task_Name t) (fst (vt w))" "purgeHistory am s os w = (r, w')"
  shows "purged os w w' (r = Inr ())"
  using assms
proof (induction os arbitrary: w)
  case Nil
  then show ?case by (auto simp: purgeHistory_def purged_def intro!: exI [of _ "{}"])
next
  case (Cons op os)
  let ?one = "io_bind (ListTasksByOperationUID am s (op_UID op) []) (\<lambda>tasks.
      io_bind (io_forM (ol_Items tasks) (\<lambda>t. deleteObject (s_tasks s) (task_Name t))) (\<lambda>_. deleteObject (s_operations s) (op_Name op)))"
  obtain x w1 where x: "?one w = (x, w1)" by fastforce
  have p: "purged [op] w w1 (x = Inr ())" by (rule purge_operation [OF Cons.prems(1) x])
  show ?case
  proof (cases x)
    case (Inl e)
    then have "r = Inl e" "w' = w1" using Cons.prems(2) x by (simp_all add: purgeHistory_def io_bind_def [of ?one])
    then show ?thesis using purged_more [OF p, of "op # os"] by simp
  next
    case (Inr u)
    then have run: "purgeHistory am s os w1 = (r, w')" using Cons.prems(2) x by (simp add: purgeHistory_def io_bind_def [of ?one])
    have p': "purged [op] w w1 True" using p Inr by simp
    show ?thesis using purged_trans [OF p' Cons.IH [OF purged_keyed [OF p Cons.prems(1)] run]] by simp
  qed
qed

lemma list_locks:
  assumes "listLocks am s w = (r, w')"
  shows "w' = w \<and> (\<forall>l. r = Inr l \<longrightarrow> set (ol_Items l) = ran (fst (vl w)))"
proof (cases "internalListOptions am empty_ListOptions")
  case (Inl e)
  then show ?thesis using assms by (auto simp: listLocks_def io_bind_def)
next
  case (Inr internal)
  have "empty_ListOptions\<lparr>lo_ResourceVersion := [], lo_FieldSelector := []\<rparr> = empty_ListOptions" by (simp add: empty_ListOptions_def)
  then have o1: "io_FieldSelector internal = [] \<and> io_LabelSelector internal = [] \<and> io_ResourceVersion internal = [] \<and> io_Limit internal = 0 \<and> io_Continue internal = []"
    using list_options [of "[]" internal "[]"] Inr parseFields(1) by simp
  have "set (ol_Items l) = ran (fst (vl w))" if "st_List (s_locks s) internal w = Inr l" for l
    using rest_storage.list_content [OF quiet_storage.axioms(1) [OF locks] that] o1 by (simp add: matchesFields_def)
  then show ?thesis using assms Inr by (auto simp: listLocks_def io_bind_def)
qed

lemma stale_locks:
  assumes "keyed_by (\<lambda>l. lock_Name l) (fst (vl w))" "deleteStaleLocks am s u w = (r, w')"
  shows "vo w' = vo w \<and> vt w' = vt w \<and> (\<exists>N. fst (vl w') = fst (vl w) |` (- N) \<and> N \<subseteq> {n. \<exists>l. fst (vl w) n = Some l \<and> or_UID (lock_Target l) = u} \<and>
    (r = Inr () \<longrightarrow> N = {n. \<exists>l. fst (vl w) n = Some l \<and> or_UID (lock_Target l) = u}))"
proof -
  obtain x w1 where x: "listLocks am s w = (x, w1)" by fastforce
  show ?thesis
  proof (cases x)
    case (Inl e)
    then have "r = Inl e" "w' = w" using assms(2) x list_locks [OF x] by (auto simp: deleteStaleLocks_def io_bind_def)
    then show ?thesis by (auto intro!: exI [of _ "{}"])
  next
    case (Inr l)
    let ?ls = "filter (\<lambda>lock. or_UID (lock_Target lock) = u) (ol_Items l)"
    have run: "io_forM ?ls (\<lambda>lock. deleteObject (s_locks s) (lock_Name lock)) w = (r, w')"
      using assms(2) x list_locks [OF x] Inr unfolding deleteStaleLocks_def forM_filter by (auto simp: io_bind_def)
    have set: "lock_Name ` set ?ls = {n. \<exists>l. fst (vl w) n = Some l \<and> or_UID (lock_Target l) = u}"
      using list_locks [OF x] Inr assms(1) by (force simp: keyed_by_def ran_def)
    show ?thesis
      using quiet_storage.delete_all [OF locks run] quiet_storage.delete_frame [OF locks frame_l(1) run]
        quiet_storage.delete_frame [OF locks frame_l(2) run] unfolding set by simp
  qed
qed

end

subsection \<open>The purge as a whole\<close>

lemma purge_effect:
  assumes qs: "quiet_store am s opSize taskSize vo vt vl"
    and keyed: "keyed_by (\<lambda>op. op_Name op) (fst (vo w))" "keyed_by (\<lambda>t. task_Name t) (fst (vt w))" "keyed_by (\<lambda>l. lock_Name l) (fst (vl w))"
    and set: "set os = {op \<in> ran (fst (vo w)). targets u op}"
    and run: "io_bind (purgeHistory am s os) (\<lambda>_. deleteStaleLocks am s u) w = (r, w')"
  shows "(\<forall>n op. fst (vo w) n = Some op \<and> \<not> targets u op \<longrightarrow> fst (vo w') n = Some op) \<and>
    (\<forall>n t. fst (vt w) n = Some t \<and> (\<forall>op \<in> ran (fst (vo w)). targets u op \<longrightarrow> op_UID op \<noteq> task_OpUID t) \<longrightarrow> fst (vt w') n = Some t) \<and>
    (\<forall>n l. fst (vl w) n = Some l \<and> or_UID (lock_Target l) \<noteq> u \<longrightarrow> fst (vl w') n = Some l) \<and>
    (r = Inr () \<longrightarrow> (\<forall>op \<in> ran (fst (vo w')). \<not> targets u op) \<and> (\<forall>l \<in> ran (fst (vl w')). or_UID (lock_Target l) \<noteq> u) \<and>
      (\<forall>op \<in> ran (fst (vo w)). targets u op \<longrightarrow> (\<forall>t \<in> ran (fst (vt w')). task_OpUID t \<noteq> op_UID op)))"
proof -
  let ?U = "{n. \<exists>t. fst (vt w) n = Some t \<and> task_OpUID t \<in> op_UID ` set os}" and ?K = "{n. \<exists>l. fst (vl w) n = Some l \<and> or_UID (lock_Target l) = u}"
  obtain x w1 where x: "purgeHistory am s os w = (x, w1)" by fastforce
  obtain N M where P: "fst (vl w1) = fst (vl w)" "fst (vo w1) = fst (vo w) |` (- N)" "N \<subseteq> op_Name ` set os" "x = Inr () \<longrightarrow> N = op_Name ` set os"
    "fst (vt w1) = fst (vt w) |` (- M)" "M \<subseteq> ?U" "x = Inr () \<longrightarrow> M = ?U"
    by (rule quiet_store.purgedE [OF qs quiet_store.purge_history [OF qs keyed(2) x]])
  have names: "op_Name ` set os = {n. \<exists>op. fst (vo w) n = Some op \<and> targets u op}" unfolding set using keyed(1) by (force simp: keyed_by_def ran_def)
  obtain K where K: "fst (vo w') = fst (vo w1)" "fst (vt w') = fst (vt w1)" "fst (vl w') = fst (vl w) |` (- K)" "K \<subseteq> ?K"
      "r = Inr () \<longrightarrow> x = Inr () \<and> K = ?K"
  proof (cases x)
    case (Inl e)
    then have "r = Inl e" "w' = w1" using run x by (auto simp: io_bind_def)
    then show ?thesis using that [of "{}"] P(1) by (simp add: restrict_map_def)
  next
    case (Inr v)
    then have d: "deleteStaleLocks am s u w1 = (r, w')" using run x by (simp add: io_bind_def)
    have k: "keyed_by (\<lambda>l. lock_Name l) (fst (vl w1))" using keyed(3) P(1) by simp
    show ?thesis using quiet_store.stale_locks [OF qs k d] that Inr unfolding P(1) by auto
  qed
  have vo: "fst (vo w') = fst (vo w) |` (- N)" and vt: "fst (vt w') = fst (vt w) |` (- M)" using K(1,2) P(2,5) by simp_all
  have a: "fst (vo w') n = Some op" if "fst (vo w) n = Some op" "\<not> targets u op" for n op
    using that P(3) unfolding vo names by (auto simp: restrict_map_def)
  have b: "fst (vt w') n = Some t" if "fst (vt w) n = Some t" "\<forall>op \<in> ran (fst (vo w)). targets u op \<longrightarrow> op_UID op \<noteq> task_OpUID t" for n t
    using that P(6) set unfolding vt by (fastforce simp: restrict_map_def)
  have c: "fst (vl w') n = Some l" if "fst (vl w) n = Some l" "or_UID (lock_Target l) \<noteq> u" for n l
    using that K(4) unfolding K(3) by (auto simp: restrict_map_def)
  have d: "(\<forall>op \<in> ran (fst (vo w')). \<not> targets u op) \<and> (\<forall>l \<in> ran (fst (vl w')). or_UID (lock_Target l) \<noteq> u) \<and>
      (\<forall>op \<in> ran (fst (vo w)). targets u op \<longrightarrow> (\<forall>t \<in> ran (fst (vt w')). task_OpUID t \<noteq> op_UID op))" if "r = Inr ()"
  proof -
    have full: "N = {n. \<exists>op. fst (vo w) n = Some op \<and> targets u op}" "M = ?U" "K = ?K" using that K(5) P(4,7) names by auto
    show ?thesis unfolding vo vt K(3) full ran_restrict set by auto
  qed
  show ?thesis using a b c d by blast
qed

text \<open>
  C36.  Purging the history of a target.  While anything of the target is unfinished, an operation or a task of one of its
  operations, the purge fails and changes nothing.  Whatever its outcome, it keeps every operation
  and every lock of other targets and every task of their operations.  If it succeeds, no operation and
  no lock of the target is left, and no task of its operations.
\<close>

theorem history_purge:
  assumes "quiet_store am s opSize taskSize vo vt vl"
    and "keyed_by (\<lambda>op. op_Name op) (fst (vo w))" "keyed_by (\<lambda>t. task_Name t) (fst (vt w))" "keyed_by (\<lambda>l. lock_Name l) (fst (vl w))"
    and "CleanupByTargetUID am s u w = (r, w')"
  shows "((\<exists>op \<in> ran (fst (vo w)). targets u op \<and> \<not> ended (fst (vt w)) op) \<longrightarrow> r \<noteq> Inr () \<and> w' = w) \<and>
    (\<forall>n op. fst (vo w) n = Some op \<and> \<not> targets u op \<longrightarrow> fst (vo w') n = Some op) \<and>
    (\<forall>n t. fst (vt w) n = Some t \<and> (\<forall>op \<in> ran (fst (vo w)). targets u op \<longrightarrow> op_UID op \<noteq> task_OpUID t) \<longrightarrow> fst (vt w') n = Some t) \<and>
    (\<forall>n l. fst (vl w) n = Some l \<and> or_UID (lock_Target l) \<noteq> u \<longrightarrow> fst (vl w') n = Some l) \<and>
    (r = Inr () \<longrightarrow> (\<forall>op \<in> ran (fst (vo w')). \<not> targets u op) \<and> (\<forall>l \<in> ran (fst (vl w')). or_UID (lock_Target l) \<noteq> u) \<and>
      (\<forall>op \<in> ran (fst (vo w)). targets u op \<longrightarrow> (\<forall>t \<in> ran (fst (vt w')). task_OpUID t \<noteq> op_UID op)))"
proof -
  note qs = assms(1)
  show ?thesis
  proof (cases "u = []")
    case True
    then have "r \<noteq> Inr ()" "w' = w" using assms(5) by (auto simp: CleanupByTargetUID_def)
    then show ?thesis by simp
  next
    case u: False
    obtain x w1 where x: "ListOperations am s u [] w = (x, w1)" by fastforce
    note L = quiet_store.list_operations [OF qs x]
    show ?thesis
    proof (cases x)
      case (Inl e)
      then have "r \<noteq> Inr ()" "w' = w" using assms(5) u x L by (auto simp: CleanupByTargetUID_def io_bind_def)
      then show ?thesis by simp
    next
      case (Inr l)
      let ?os = "ol_Items l"
      have w1: "w1 = w" and set: "set ?os = {op \<in> ran (fst (vo w)). targets u op}" using L Inr u by (auto simp: targets_def)
      obtain y w2 where y: "verifyTerminalHistory am s ?os w = (y, w2)" by fastforce
      have sub: "set ?os \<subseteq> ran (fst (vo w))" using set by blast
      have V: "w2 = w" "\<forall>v. y = Inr v \<longrightarrow> (\<forall>op \<in> set ?os. ended (fst (vt w)) op)"
        using quiet_store.verify_history [OF qs assms(2,3) sub y] by blast+
      show ?thesis
      proof (cases y)
        case ye: (Inl e)
        then have "r \<noteq> Inr ()" "w' = w" using assms(5) u x Inr w1 y V(1) by (auto simp: CleanupByTargetUID_def io_bind_def)
        then show ?thesis by simp
      next
        case ok: (Inr v)
        have all: "\<not> (\<exists>op \<in> ran (fst (vo w)). targets u op \<and> \<not> ended (fst (vt w)) op)" using V(2) ok set by auto
        have run: "io_bind (purgeHistory am s ?os) (\<lambda>_. deleteStaleLocks am s u) w = (r, w')"
          using assms(5) u x Inr w1 y V(1) ok by (simp add: CleanupByTargetUID_def io_bind_def)
        show ?thesis using all purge_effect [OF qs assms(2-4) set run] by blast
      qed
    qed
  qed
qed

text \<open>A failed operation with a failed task is purged; the task of another operation stays.\<close>

lemma sample_purge: "fst (CleanupByTargetUID memAm memStore ''c-uid'' api_world) = Inr ()"
  by code_simp

lemma sample_history:
  "\<exists>t. fst (view_tasks api_world) ''task1'' = Some t \<and> task_OpUID t = ''other-uid''"
  "\<forall>op \<in> ran (fst (view_ops api_world)). op_UID op = ''op-uid''"
  "keyed_by (\<lambda>l. lock_Name l) (fst (view_locks w))"
proof -
  have "show_int 0 = ''0''" "show_int 1 = ''1''" by code_simp+
  then show "\<exists>t. fst (view_tasks api_world) ''task1'' = Some t \<and> task_OpUID t = ''other-uid''"
    by (simp add: view_tasks_def coll_view_def coll_find_def api_world_def sample_task_def sample_meta_def)
  show "\<forall>op \<in> ran (fst (view_ops api_world)). op_UID op = ''op-uid''"
    by (auto simp: view_ops_def coll_view_def coll_find_def api_world_def failed_op_def sample_op_def sample_meta_def ran_def split: if_splits)
  show "keyed_by (\<lambda>l. lock_Name l) (fst (view_locks w))"
    by (auto simp: keyed_by_def view_locks_def coll_view_def coll_find_def find_Some_iff)
qed

theorem history_purge_witness:
  "{op \<in> ran (fst (view_ops (snd (CleanupByTargetUID memAm memStore ''c-uid'' api_world)))). targets ''c-uid'' op} = {} \<and>
   (\<exists>t. fst (view_tasks (snd (CleanupByTargetUID memAm memStore ''c-uid'' api_world))) ''task1'' = Some t)"
proof -
  let ?run = "CleanupByTargetUID memAm memStore ''c-uid'' api_world"
  obtain t where t: "fst (view_tasks api_world) ''task1'' = Some t" "task_OpUID t = ''other-uid''" using sample_history(1) by blast
  have other: "\<forall>op \<in> ran (fst (view_ops api_world)). targets ''c-uid'' op \<longrightarrow> op_UID op \<noteq> task_OpUID t" using sample_history(2) t(2) by auto
  have run: "?run = (Inr (), snd ?run)" using sample_purge by (cases ?run) simp
  show ?thesis
    using history_purge [OF mem_engine.quiet_store_axioms sample_keyed sample_history(3) run] t(1) other by blast
qed

end
