(* ===== verification/Cron_Backup_Props.thy ===== *)
theory Cron_Backup_Props
  imports Cron_Backup
begin

text \<open>
  What scheduled backups keep and remove.  The contract of the collaborators is the locale \<open>backup_env\<close>; \<open>view\<close> is the
  collection of stored backups.  The list of backups is assumed to be up to date.
\<close>

subsection \<open>Parts that change nothing\<close>

lemma resolve_world: "resolveTargets nodes sid cache ns w = (res, w') \<Longrightarrow> w' = w"
  by (induction ns arbitrary: cache res)
    (auto simp: io_bind_def io_try_def split: option.splits sum.splits prod.splits)

lemma convert_world: "convert_loop marshal nodes cache steps src w = (res, w') \<Longrightarrow> w' = w"
proof (induction src arbitrary: cache steps)
  case (Cons s src)
  have one: "convertStep marshal nodes cache s w = (x, w1) \<Longrightarrow> w1 = w" for x w1
    by (auto simp: convertStep_def io_bind_def split: if_splits sum.splits prod.splits dest: resolve_world)
  from Cons.prems show ?case using Cons.IH one by (auto elim!: io_bind_cases)
qed simp

lemma FromCore_world: "FromCoreOperation marshal nodes plan cluster w = (res, w') \<Longrightarrow> w' = w"
  by (auto simp: FromCoreOperation_def convertSteps_def elim!: io_bind_cases split: option.splits dest: convert_world)

lemma InitSteps_world: "InitSteps r stepper masters w = (res, w') \<Longrightarrow> w' = w"
  by (auto simp: InitSteps_def makeInstallSteps_def makeUninstallSteps_def AvailableKubeMasters_def Let_def
      elim!: io_bind_cases split: if_splits option.splits)

lemma int64_le: "0 \<le> x \<Longrightarrow> int64 x \<le> x"
  using zmod_le_nonneg_dividend [of "x + 9223372036854775808" 18446744073709551616] by (simp add: int64_def)

subsection \<open>The contract\<close>

locale backup_env =
  fixes r :: "'w CronBackupReconciler" and view :: "'w \<Rightarrow> string \<rightharpoonup> Backup"
  assumes list_exact: "cr_ListBackups r w = Inr bs \<Longrightarrow> distinct (map bu_Name bs)"
      "cr_ListBackups r w = Inr bs \<Longrightarrow> view w n = Some b \<longleftrightarrow> b \<in> set bs \<and> bu_Name b = n"
    and delete_one: "cr_DeleteBackup r n w = (d, w') \<Longrightarrow> view w' = view w \<or> view w' = (view w)(n := None)"
    and create_adds: "cr_CreateBackup r b w = (x, w') \<Longrightarrow> view w \<subseteq>\<^sub>m view w'"
    and cron_keeps: "cr_UpdateCronBackup r cb w = (y, w') \<Longrightarrow> view w' = view w"
    and cluster_keeps: "cr_UpdateCluster r c w = (z, w') \<Longrightarrow> view w' = view w"
    and engine_keeps: "CreateOperation (cr_OperationStore r) op w = (q, w') \<Longrightarrow> view w' = view w"
    and sort_perm: "mset (cr_sortByCreation r bs) = mset bs"
    and sort_sorted: "sorted_wrt (\<lambda>a b. bu_CreationTimestamp a \<le> bu_CreationTimestamp b) (cr_sortByCreation r bs)"
begin

definition grows :: "'w \<Rightarrow> 'w \<Rightarrow> bool" where "grows w w' \<longleftrightarrow> view w \<subseteq>\<^sub>m view w'"

lemma grows_refl [simp]: "grows w w" by (simp add: grows_def)

lemma grows_trans: "grows x y \<Longrightarrow> grows y z \<Longrightarrow> grows x z" using map_le_trans by (auto simp: grows_def)

lemma core_keeps: "CreateFromCore marshal (cr_OperationStore r) nodes cluster plan w = (x, w') \<Longrightarrow> view w' = view w"
  by (auto simp: CreateFromCore_def elim!: io_bind_cases dest!: FromCore_world engine_keeps)

lemma deliver_grows: "deliverBackup r cb c plan b w = (x, w') \<Longrightarrow> grows w w'"
  by (auto simp: deliverBackup_def grows_def elim!: io_bind_cases split: if_splits dest!: core_keeps create_adds cluster_keeps)

lemma prepare_grows: "prepareBackup r cb c bp name w = (x, w') \<Longrightarrow> grows w w'"
  by (auto simp: prepareBackup_def Let_def elim!: io_bind_cases split: if_splits list.splits prod.splits dest!: deliver_grows InitSteps_world)

lemma create_grows: "createBackup r cb w = (x, w') \<Longrightarrow> grows w w'"
  by (auto simp: createBackup_def Let_def elim!: io_bind_cases io_try_cases split: if_splits dest!: prepare_grows)

lemma delete_keeps: "deleteBackup r cn b w = (x, w') \<Longrightarrow> view w' = view w"
  by (auto simp: deleteBackup_def elim!: io_bind_cases split: if_splits prod.splits dest!: core_keeps InitSteps_world)

lemma remove_effect:
  "remove_loop r bs w = (x, w') \<Longrightarrow> view w' n = view w n \<or> view w' n = None \<and> (\<exists>b \<in> set bs. bu_Name b = n \<and> bu_State b = ClusterBackupAvailable)"
proof (induction bs arbitrary: w)
  case (Cons b bs)
  show ?case
  proof (cases "bu_State b = ClusterBackupAvailable")
    case False
    then show ?thesis using Cons by fastforce
  next
    case True
    let ?one = "\<lambda>w1. view w1 n = view w n \<or> view w1 n = None \<and> bu_Name b = n"
    have del: "cr_DeleteBackup r (bu_Name b) w = (d, w1) \<Longrightarrow> ?one w1" for d w1
      using delete_one [of "bu_Name b" w d w1] by (auto simp: fun_upd_def split: if_splits)
    from Cons.prems True have "io_bind (cr_DeleteBackup r (bu_Name b)) (\<lambda>_.
           io_bind (deleteBackup r (label (bu_Labels b) LabelClusterName) b) (\<lambda>_. remove_loop r bs)) w = (x, w')" by simp
    then show ?thesis
    proof (cases rule: io_bind_cases)
      case (1 e)
      then show ?thesis using del True by auto
    next
      case (2 u w1)
      note del = del [OF 2(1)]
      from 2(2) show ?thesis
      proof (cases rule: io_bind_cases)
        case (1 e)
        then show ?thesis using del delete_keeps True by auto
      next
        case (2 u2 w2)
        then show ?thesis using del delete_keeps [OF 2(1)] Cons.IH [OF 2(2)] True by auto
      qed
    qed
  qed
qed simp

lemma group_filter: "GroupBackupsByParent g bs u = filter (\<lambda>b. GetParentUIDFromBackup g b = Some u) bs"
proof -
  let ?f = "\<lambda>backup groups. case GetParentUIDFromBackup g backup of None \<Rightarrow> groups | Some parentUID \<Rightarrow> groups(parentUID := groups parentUID @ [backup])"
  have "fold ?f bs groups u = groups u @ filter (\<lambda>b. GetParentUIDFromBackup g b = Some u) bs" for groups
    by (induction bs arbitrary: groups) (auto split: option.splits)
  then show ?thesis by (simp add: GroupBackupsByParent_def)
qed

definition newer_own :: "CronBackup \<Rightarrow> Backup \<Rightarrow> 'w \<Rightarrow> Backup set" where
  "newer_own cb b w = {b'. view w (bu_Name b') = Some b' \<and> GetParentUIDFromBackup (cr_GetControllerOf r) b' = Some (cb_UID cb) \<and>
     bu_CreationTimestamp b \<le> bu_CreationTimestamp b' \<and> bu_Name b' \<noteq> bu_Name b}"

lemma victims_older:
  assumes "distinct (map bu_Name s)" "sorted_wrt (\<lambda>a b. bu_CreationTimestamp a \<le> bu_CreationTimestamp b) s" "b \<in> set (take k s)" "b' \<in> set (drop k s)"
  shows "bu_CreationTimestamp b \<le> bu_CreationTimestamp b' \<and> bu_Name b' \<noteq> bu_Name b" "bu_Name b' \<notin> bu_Name ` set (take k s)"
proof -
  have "sorted_wrt (\<lambda>a b. bu_CreationTimestamp a \<le> bu_CreationTimestamp b) (take k s @ drop k s)" using assms(2) by simp
  then have "bu_CreationTimestamp b \<le> bu_CreationTimestamp b'" using assms(3,4) unfolding sorted_wrt_append by blast
  moreover have "distinct (map bu_Name (take k s @ drop k s))" using assms(1) by simp
  then have "bu_Name ` set (take k s) \<inter> bu_Name ` set (drop k s) = {}" unfolding map_append distinct_append by (simp only: set_map)
  ultimately show "bu_CreationTimestamp b \<le> bu_CreationTimestamp b' \<and> bu_Name b' \<noteq> bu_Name b" "bu_Name b' \<notin> bu_Name ` set (take k s)"
    using assms(3,4) by blast+
qed

lemma keepMax_effect:
  assumes run: "keepMax r cb w = (x, w')" and b: "view w n = Some b" "view w' n \<noteq> Some b"
  shows "GetParentUIDFromBackup (cr_GetControllerOf r) b = Some (cb_UID cb) \<and> bu_State b = ClusterBackupAvailable \<and>
    cb_MaxBackupNum cb \<le> int (card (newer_own cb b w'))"
proof -
  obtain bs where bs: "cr_ListBackups r w = Inr bs" using run b by (cases "cr_ListBackups r w") (auto simp: keepMax_def io_bind_def)
  define own where "own = filter (\<lambda>b. GetParentUIDFromBackup (cr_GetControllerOf r) b = Some (cb_UID cb)) bs"
  define s where "s = cr_sortByCreation r own"
  define k where "k = nat (int64 (int (length own) - cb_MaxBackupNum cb))"
  have more: "cb_MaxBackupNum cb < int (length own)" and loop: "\<exists>y. remove_loop r (take k s) w = (y, w')"
    using run b bs by (auto simp: keepMax_def group_filter own_def s_def k_def Let_def split: if_splits elim!: io_bind_cases)
  from loop obtain y where loop: "remove_loop r (take k s) w = (y, w')" by blast
  have perm: "mset s = mset own" using sort_perm by (simp add: s_def)
  then have "mset (map bu_Name s) = mset (map bu_Name own)" by simp
  moreover have "distinct (map bu_Name own)" using list_exact(1) [OF bs] by (simp add: own_def distinct_map_filter)
  ultimately have s: "set s = set own" "length s = length own" "distinct (map bu_Name s)"
    using mset_eq_setD [OF perm] mset_eq_length [OF perm] mset_eq_imp_distinct_iff by blast+
  have victim: "b \<in> set (take k s)" and av: "bu_State b = ClusterBackupAvailable"
  proof -
    obtain b1 where b1: "b1 \<in> set (take k s)" "bu_Name b1 = n" "bu_State b1 = ClusterBackupAvailable"
      using remove_effect [OF loop, of n] b by auto
    then have "b1 \<in> set bs" using s(1) by (auto simp: own_def dest: in_set_takeD)
    then have "b1 = b" using list_exact(2) [OF bs, of n b1] b1 b(1) by simp
    then show "b \<in> set (take k s)" "bu_State b = ClusterBackupAvailable" using b1 by auto
  qed
  have kept: "set (drop k s) \<subseteq> newer_own cb b w'"
  proof
    fix b' assume b': "b' \<in> set (drop k s)"
    then have in_own: "b' \<in> set own" using s(1) by (auto dest: in_set_dropD)
    then have v: "view w (bu_Name b') = Some b'" using list_exact(2) [OF bs] by (simp add: own_def)
    note old = victims_older [OF s(3) sort_sorted [of own, folded s_def] victim b']
    have "view w' (bu_Name b') = Some b'" using remove_effect [OF loop, of "bu_Name b'"] v old(2) by (metis imageI)
    then show "b' \<in> newer_own cb b w'" using old(1) in_own by (simp add: newer_own_def own_def)
  qed
  have "dom (view w) \<subseteq> bu_Name ` set bs" using list_exact(2) [OF bs] by (auto simp: dom_def)
  moreover have "dom (view w') \<subseteq> dom (view w)" using remove_effect [OF loop] by (auto simp: dom_def) (metis option.distinct(1))
  ultimately have fin: "finite (dom (view w'))" by (meson finite_imageI finite_set finite_subset)
  have "finite (newer_own cb b w')"
  proof (rule finite_subset)
    show "newer_own cb b w' \<subseteq> ran (view w')" by (auto simp: newer_own_def ran_def)
    show "finite (ran (view w'))" using fin by (simp add: finite_ran)
  qed
  moreover have "distinct (drop k s)" using s(3) by (simp add: distinct_drop distinct_map)
  ultimately have "length s - k \<le> card (newer_own cb b w')" using card_mono [OF _ kept] by (simp add: distinct_card)
  moreover have "cb_MaxBackupNum cb \<le> int (length s - k)" if "0 \<le> cb_MaxBackupNum cb"
  proof -
    have "int64 (int (length own) - cb_MaxBackupNum cb) \<le> int (length own) - cb_MaxBackupNum cb" using more by (simp add: int64_le)
    then have "int k \<le> int (length own) - cb_MaxBackupNum cb" using more unfolding k_def by linarith
    then show ?thesis using s(2) that by linarith
  qed
  moreover have "GetParentUIDFromBackup (cr_GetControllerOf r) b = Some (cb_UID cb)"
    using victim s(1) by (auto simp: own_def dest: in_set_takeD)
  ultimately show ?thesis using av by linarith
qed

lemma keeps_grows: "view w' = view w \<Longrightarrow> grows w w'" by (simp add: grows_def)

lemma scheduled_effect:
  assumes "runScheduled r cb nextTime now w = (x, w')"
  shows "grows w w' \<or> (\<exists>w1 y cb'. grows w w1 \<and> keepMax r cb' w1 = (y, w') \<and> cb_UID cb' = cb_UID cb \<and> cb_MaxBackupNum cb' = cb_MaxBackupNum cb)"
proof (cases "nextTime < now")
  case True
  from assms True have "io_try (createBackup r cb)
      (\<lambda>err. case err of Panic m \<Rightarrow> io_err err | _ \<Rightarrow> io_bind (cr_UpdateCronBackup r (cb\<lparr>cb_LastScheduleTime := Some now\<rparr>)) (\<lambda>_. io_ret 0))
      (\<lambda>_. \<lambda>w. case nextRun r cb (cr_Now r 1 w) now of Inl e \<Rightarrow> (Inl e, w) | Inr nextRunAt \<Rightarrow>
         (let cb = cb\<lparr>cb_LastScheduleTime := Some now, cb_LastSuccessfulTime := Some now, cb_NextScheduleTime := Some nextRunAt\<rparr> in
            io_bind (io_try (cr_UpdateCronBackup r cb) (\<lambda>_. io_ret ()) (\<lambda>_. io_ret ())) (\<lambda>_.
            io_bind (keepMax r cb) (\<lambda>_. io_ret (time_Sub nextRunAt now))) w)) w = (x, w')" by (simp add: runScheduled_def)
  then show ?thesis
  proof (cases rule: io_try_cases)
    case (1 e w1)
    then have "grows w1 w'" by (auto split: goerr.splits elim!: io_bind_cases dest!: cron_keeps simp: keeps_grows)
    then show ?thesis using create_grows [OF 1(1)] grows_trans by blast
  next
    case (2 u w1)
    show ?thesis
    proof (cases "nextRun r cb (cr_Now r 1 w1) now")
      case (Inl e)
      then show ?thesis using 2 create_grows by auto
    next
      case (Inr at)
      let ?cb = "cb\<lparr>cb_LastScheduleTime := Some now, cb_LastSuccessfulTime := Some now, cb_NextScheduleTime := Some at\<rparr>"
      from 2(2) Inr obtain w2 y where "view w2 = view w1" "keepMax r ?cb w2 = (y, w')"
        by (auto simp: Let_def elim!: io_bind_cases io_try_cases dest!: cron_keeps)
      then show ?thesis using grows_trans [OF create_grows [OF 2(1)] keeps_grows]
        by (intro disjI2 exI [of _ w2] exI [of _ y] exI [of _ ?cb]) simp
    qed
  qed
qed (use assms in \<open>simp add: runScheduled_def\<close>)

lemma due_effect:
  assumes "cron_due r cb w = (x, w')"
  shows "grows w w' \<or> (\<exists>w1 y cb'. grows w w1 \<and> keepMax r cb' w1 = (y, w') \<and> cb_UID cb' = cb_UID cb \<and> cb_MaxBackupNum cb' = cb_MaxBackupNum cb)"
proof -
  have first: "firstSchedule r cb w = (x, w') \<Longrightarrow> grows w w'" for w
    by (auto simp: firstSchedule_def split: sum.splits elim!: io_bind_cases dest!: cron_keeps intro: keeps_grows)
  have once: "runOnce r cb t now w = (x, w') \<Longrightarrow> grows w w'" for t now
    by (auto simp: runOnce_def split: if_splits elim!: io_bind_cases io_try_cases dest!: cron_keeps create_grows intro: keeps_grows simp: grows_def)
  have upd: "io_bind (cr_UpdateCronBackup r c') (\<lambda>_. io_ret 0) w = (x, w') \<Longrightarrow> grows w w'" for c'
    by (auto elim!: io_bind_cases dest!: cron_keeps intro: keeps_grows)
  have sched: "cronScheduled r cb now w = (x, w') \<Longrightarrow> ?thesis" for now
    using first scheduled_effect by (auto simp: cronScheduled_def split: if_splits option.splits)
  show ?thesis using assms first once upd sched by (auto simp: cron_due_def Let_def split: if_splits option.splits)
qed

lemma cron_effect:
  assumes "cron_Reconcile r name w = (x, w')" "view w n = Some b" "view w' n \<noteq> Some b"
  shows "\<exists>cb. cr_GetCronBackup r name w = Inr cb \<and> GetParentUIDFromBackup (cr_GetControllerOf r) b = Some (cb_UID cb) \<and>
    bu_State b = ClusterBackupAvailable \<and> cb_MaxBackupNum cb \<le> int (card (newer_own cb b w'))"
proof -
  have lost: "\<not> grows w w'" using assms(2,3) by (metis domI grows_def map_le_def)
  obtain cb where cb: "cr_GetCronBackup r name w = Inr cb"
    using assms(1) lost by (cases "cr_GetCronBackup r name w") (auto simp: cron_Reconcile_def io_try_def split: if_splits)
  have "cron_due r cb w = (x, w')"
    using assms(1) cb lost by (auto simp: cron_Reconcile_def io_try_def split: sum.splits if_splits)
  from due_effect [OF this] lost obtain w1 y cb' where w1: "grows w w1" "keepMax r cb' w1 = (y, w')"
    and same: "cb_UID cb' = cb_UID cb" "cb_MaxBackupNum cb' = cb_MaxBackupNum cb" by blast
  have "view w1 n = Some b" using w1(1) assms(2) by (metis domI grows_def map_le_def)
  from keepMax_effect [OF w1(2) this assms(3)] same cb show ?thesis by (auto simp: newer_own_def)
qed

end

subsection \<open>A reference environment\<close>

record cron_world =
  cw_backups :: "Backup list"
  cw_cron :: CronBackup
  cw_cluster :: BackupCluster

fun first_by_name :: "Backup list \<Rightarrow> Backup list" where
  "first_by_name [] = []"
| "first_by_name (b # bs) = b # filter (\<lambda>x. bu_Name x \<noteq> bu_Name b) (first_by_name bs)"

definition cw_view :: "cron_world \<times> mem \<Rightarrow> string \<rightharpoonup> Backup" where
  "cw_view w n = find (\<lambda>b. bu_Name b = n) (cw_backups (fst w))"

definition cw_node :: BackupNode where
  "cw_node = \<lparr>bn_Name = ''n'', bn_Ipv4DefaultIP = ''10.0.0.1'', bn_NodeIpv4DefaultIP = ''10.0.0.1'', bn_Hostname = ''h'', bn_Labels = []\<rparr>"

definition mem_cron :: "(cron_world \<times> mem) CronBackupReconciler" where
  "mem_cron = \<lparr>
     cr_GetCronBackup = (\<lambda>n w. if cb_Name (cw_cron (fst w)) = n then Inr (cw_cron (fst w)) else Inl (NotFound ''cronbackup'' n)),
     cr_UpdateCronBackup = (\<lambda>cb w. (Inr cb, (fst w\<lparr>cw_cron := cb\<rparr>, snd w))),
     cr_GetCluster = (\<lambda>n w. if cl_Name (cw_cluster (fst w)) = n then Inr (cw_cluster (fst w)) else Inl (NotFound ''cluster'' n)),
     cr_UpdateCluster = (\<lambda>c w. (Inr c, (fst w\<lparr>cw_cluster := c\<rparr>, snd w))),
     cr_GetBackup = (\<lambda>n w. case cw_view w n of None \<Rightarrow> Inl (NotFound ''backup'' n) | Some b \<Rightarrow> Inr b),
     cr_ListBackups = (\<lambda>w. Inr (first_by_name (cw_backups (fst w)))),
     cr_CreateBackup = (\<lambda>b w. if cw_view w (bu_Name b) \<noteq> None then (Inl (AlreadyExists ''backup'' (bu_Name b)), w)
        else (Inr b, (fst w\<lparr>cw_backups := cw_backups (fst w) @ [b]\<rparr>, snd w))),
     cr_DeleteBackup = (\<lambda>n w. (Inr (), (fst w\<lparr>cw_backups := filter (\<lambda>b. bu_Name b \<noteq> n) (cw_backups (fst w))\<rparr>, snd w))),
     cr_GetBackupPoint = (\<lambda>n w. Inr \<lparr>bp_StorageType = FSStorage, bp_FsConfig = Some ''/opt'', bp_S3Config = None\<rparr>),
     cr_GetNode = (\<lambda>n w. Inr cw_node), cr_ListNodes = (\<lambda>k v w. Inr [cw_node]),
     cr_OperationStore = beside_store memStore,
     cr_NodeReader = \<lparr>rd_GetClusterEx = (\<lambda>n rv w. Inl (NotFound ''cluster'' n)),
       rd_GetNodeEx = (\<lambda>n rv w. Inr \<lparr>nd_Name = ''n'', nd_UID = ''n-uid'', nd_Ipv4DefaultIP = ''10.0.0.1'', nd_AgentLogPort = 0\<rparr>)\<rparr>,
     cr_Now = (\<lambda>k w. 100), cr_timeNow = (\<lambda>w. 100), cr_Date = (\<lambda>t. (1970, 1, 1)), cr_cron = (\<lambda>s. Some (\<lambda>t. t + 60)),
     cr_rand = (\<lambda>w. ''abcdef''), cr_uuid = (\<lambda>k w. ''u'' @ show_nat k), cr_reachable = (\<lambda>k a w. True), cr_arrival = (\<lambda>k l w. l),
     cr_marshalStep = (\<lambda>p. Inr ''{}''), cr_marshalAct = (\<lambda>a. Inr ''{}''),
     cr_GetControllerOf = (\<lambda>b. find (\<lambda>o'. ow_Controller o' = Some True) (bu_OwnerReferences b)),
     cr_sortByCreation = sort_key bu_CreationTimestamp\<rparr>"

lemma first_by_name_in: "b \<in> set (first_by_name bs) \<longleftrightarrow> find (\<lambda>x. bu_Name x = bu_Name b) bs = Some b"
  by (induction bs) auto

lemma first_by_name_distinct: "distinct (map bu_Name (first_by_name bs))"
  by (induction bs) (auto simp: distinct_map_filter)

lemma find_name: "find (\<lambda>x. bu_Name x = n) bs = Some b \<Longrightarrow> bu_Name b = n"
  by (auto simp: find_Some_iff)

lemma find_name_filter: "find (\<lambda>b. bu_Name b = m) (filter (\<lambda>b. bu_Name b \<noteq> n) bs) = (if m = n then None else find (\<lambda>b. bu_Name b = m) bs)"
  by (induction bs) auto

lemma find_append: "find P (xs @ ys) = (case find P xs of None \<Rightarrow> find P ys | Some x \<Rightarrow> Some x)"
  by (induction xs) auto

interpretation mem_ce: backup_env mem_cron cw_view
proof
  fix w :: "cron_world \<times> mem" and bs n b
  assume "cr_ListBackups mem_cron w = Inr bs"
  then have bs: "bs = first_by_name (cw_backups (fst w))" by (simp add: mem_cron_def)
  show "distinct (map bu_Name bs)" unfolding bs by (rule first_by_name_distinct)
  show "cw_view w n = Some b \<longleftrightarrow> b \<in> set bs \<and> bu_Name b = n"
    unfolding bs first_by_name_in cw_view_def using find_name by auto
next
  fix w w' :: "cron_world \<times> mem" and n d
  assume "cr_DeleteBackup mem_cron n w = (d, w')"
  then show "cw_view w' = cw_view w \<or> cw_view w' = (cw_view w)(n := None)"
    by (auto simp: mem_cron_def cw_view_def find_name_filter fun_eq_iff)
next
  fix w w' :: "cron_world \<times> mem" and b x
  assume "cr_CreateBackup mem_cron b w = (x, w')"
  then show "cw_view w \<subseteq>\<^sub>m cw_view w'"
    by (auto simp: mem_cron_def cw_view_def map_le_def find_append dom_def split: if_splits option.splits)
next
  fix w w' :: "cron_world \<times> mem" and op q
  assume "CreateOperation (cr_OperationStore mem_cron) op w = (q, w')"
  then have "fst w' = fst w"
    by (auto simp: mem_cron_def CreateOperation_def beside_store_def beside_def map_prod_def split: option.splits prod.splits)
  then show "cw_view w' = cw_view w" by (simp add: cw_view_def fun_eq_iff)
next
  fix w w' :: "cron_world \<times> mem" and cb y
  assume "cr_UpdateCronBackup mem_cron cb w = (y, w')"
  then show "cw_view w' = cw_view w" by (auto simp: mem_cron_def cw_view_def)
next
  fix w w' :: "cron_world \<times> mem" and c z
  assume "cr_UpdateCluster mem_cron c w = (z, w')"
  then show "cw_view w' = cw_view w" by (auto simp: mem_cron_def cw_view_def)
next
  fix bs
  show "mset (cr_sortByCreation mem_cron bs) = mset bs" by (simp add: mem_cron_def)
  show "sorted_wrt (\<lambda>a b. bu_CreationTimestamp a \<le> bu_CreationTimestamp b) (cr_sortByCreation mem_cron bs)"
    using sorted_sort_key [of bu_CreationTimestamp bs] by (simp add: mem_cron_def sorted_map)
qed

subsection \<open>Properties\<close>


definition sample_cron :: CronBackup where
  "sample_cron = \<lparr>cb_Name = ''nightly'', cb_UID = ''cron-uid'', cb_Labels = [], cb_ClusterName = ''c'', cb_Schedule = ''0 1 L * *'', cb_MaxBackupNum = 1,
     cb_RunAt = None, cb_NextScheduleTime = Some 90, cb_LastScheduleTime = None, cb_LastSuccessfulTime = None\<rparr>"

definition own_backup :: "string \<Rightarrow> gotime \<Rightarrow> Backup" where
  "own_backup n t = sample_backup\<lparr>bu_Name := n, bu_CreationTimestamp := t, bu_OwnerReferences := ownerRefs sample_cron,
     bu_Status := (bu_Status sample_backup)\<lparr>bs_ClusterBackupStatus := ClusterBackupAvailable\<rparr>\<rparr>"

definition cron_start :: "string \<Rightarrow> cron_world \<times> mem" where
  "cron_start phase = (\<lparr>cw_backups = [own_backup ''new'' 20, own_backup ''old'' 10], cw_cron = sample_cron,
     cw_cluster = \<lparr>cl_Name = ''c'', cl_UID = ''c-uid'', cl_ResourceVersion = ''1'', cl_Phase = phase, cl_KubernetesVersion = ''v1.27.4'',
       bc_Labels = [(LabelBackupPoint, ''p'')], bc_Masters = [\<lparr>wn_ID = ''n'', wn_Labels = []\<rparr>]\<rparr>\<rparr>, mem0)"

lemma cron_start_run: "map bu_Name (cw_backups (fst (snd (cron_Reconcile mem_cron ''nightly'' (cron_start ClusterUpgrading))))) = [''new'']"
  by code_simp


text \<open>
  What the code does beyond what it means to.  A scheduled backup that falls due while the cluster is
  not Running is recorded as successful, and the next time is set, though nothing was created.
\<close>

lemma missed_backup_recorded:
  assumes "cb_Schedule cb \<noteq> []" "cb_RunAt cb = None" "map_of (cb_Labels cb) LabelCronBackupDisable = None"
    and "cb_NextScheduleTime cb = Some t" "t < cr_Now r 0 w" "cr_GetCluster r (cb_ClusterName cb) w = Inr c" "cl_Phase c \<noteq> ClusterRunning"
    and "nextRun r cb (cr_Now r 1 w) (cr_Now r 0 w) = Inr at"
  shows "createBackup r cb w = (Inr (), w) \<and> (\<exists>rest. cron_due r cb w = io_bind
    (io_try (cr_UpdateCronBackup r (cb\<lparr>cb_LastScheduleTime := Some (cr_Now r 0 w), cb_LastSuccessfulTime := Some (cr_Now r 0 w), cb_NextScheduleTime := Some at\<rparr>))
       (\<lambda>_. io_ret ()) (\<lambda>_. io_ret ())) rest w)"
proof -
  have c: "createBackup r cb w = (Inr (), w)" using assms(6,7) by (simp add: createBackup_def io_bind_def)
  then show ?thesis using assms by (auto simp: cron_due_def cronScheduled_def runScheduled_def io_try_def [of "createBackup r cb"] Let_def)
qed

text \<open>
  Removal deletes the record of a backup first and looks it up again before it hands the removal of
  the file to the engine: if the lister already knows of the deletion, no operation is created
  and the file stays.
\<close>

lemma removed_file_kept:
  assumes "bu_State b = ClusterBackupAvailable" "cr_DeleteBackup r (bu_Name b) w = (Inr (), w1)"
    and "cr_GetCluster r (label (bu_Labels b) LabelClusterName) w1 = Inr c" "cr_GetBackupPoint r (label (bc_Labels c) LabelBackupPoint) w1 = Inr bp"
    and "cr_GetBackup r (bu_Name b) w1 = Inl e"
  shows "remove_loop r (b # bs) w = (Inl e, w1)"
  using assms by (simp add: io_bind_def deleteBackup_def)

text \<open>The last day of a month is written into the schedule as a number when the schedule is evaluated.\<close>

lemma ParseSchedule_last_day:
  assumes "splitOn CHR '' '' [] schedule = a # b # ''L'' # rest" "Date now = (y, m, d)" "1 \<le> m" "m \<le> 12" "1 \<le> d" "d \<le> month_days y m"
  shows "ParseSchedule Date schedule now = Inr (replaceFirst CHR ''L'' (show_int (month_days y m)) schedule)"
proof -
  have n: "norm_month y m = (y, m)" using assms(3,4) by (simp add: norm_month_def)
  have "norm_month y (m + 1) = (if m = 12 then (y + 1, 1) else (y, m + 1))" using assms(3,4) by (auto simp: norm_month_def)
  then have last_day: "days_back (norm_month y (m + 1)) 0 = (y, m, month_days y m)"
    using assms(3,4) month_days_pos(1) [of y m]
    by (auto simp: days_back.simps norm_month_def month_days_def split: if_splits)
  have "AddDate (y, m, d) 0 0 (- d + 1) = (y, m, 1)" using n month_days_pos(2) [of y m] by (simp add: AddDate_def days_on.simps)
  moreover have "AddDate (y, m, 1) 0 1 (-1) = (y, m, month_days y m)" using last_day by (simp add: AddDate_def)
  ultimately show ?thesis using assms(1,2) by (simp add: ParseSchedule_def)
qed

end
