(* ===== verification/Cluster_Ctrl_Props.thy ===== *)
theory Cluster_Ctrl_Props
  imports Cluster_Ctrl Op_Purge Cron_Backup_Props
begin

text \<open>
  What the cluster controller guarantees: labels of nodes are changed only for nodes without a role or of the same cluster,
  pending operations are handed to the engine once and forgotten only when all of them have ended,
  and the finalizer of a cluster goes only after its operation history.  The locale \<open>cluster_env\<close> states what the
  controller's other writes leave alone.  The last section shows that the registries of a
  running cluster are never delivered, because their step has no identifier.
\<close>

subsection \<open>Labels of nodes\<close>

text \<open>
  The labels that a node gets or loses; \<open>relabelled\<close> says that nothing else of the node differs.
\<close>

definition relabelled :: "string \<Rightarrow> string \<Rightarrow> bool \<Rightarrow> CtrlNode \<Rightarrow> CtrlNode \<Rightarrow> bool" where
  "relabelled clusterName role del node node' \<longleftrightarrow>
     node'\<lparr>kn_Labels := kn_Labels node\<rparr> = node \<and>
     (\<forall>k. k \<noteq> LabelNodeRole \<and> k \<noteq> LabelClusterName \<longrightarrow> node_label node' k = node_label node k) \<and>
     (if del
      then node_label node LabelNodeRole \<noteq> None \<and> node_label node LabelClusterName = Some clusterName \<and>
           node_label node' LabelNodeRole = None \<and> node_label node' LabelClusterName = None
      else node_label node LabelNodeRole = None \<and>
           node_label node' LabelNodeRole = Some role \<and> node_label node' LabelClusterName = Some clusterName)"

lemma labels_apart: "LabelNodeRole \<noteq> LabelClusterName"
  by (simp add: LabelNodeRole_def LabelClusterName_def)

lemma node_label_effect:
  assumes "updateNodeRoleLabel r clusterName nodeName role del w = (res, w')"
  shows "w' = w \<or> (\<exists>node node'. kr_GetNode r nodeName w = Inr node \<and> relabelled clusterName role del node node' \<and>
    w' = snd (kr_UpdateNode r node' (kr_PutNode r node' w)))"
proof (cases "kr_GetNode r nodeName w")
  case (Inl e)
  then show ?thesis using assms by (auto simp: updateNodeRoleLabel_def io_bind_def)
next
  case (Inr node)
  show ?thesis
  proof (cases del)
    case True
    let ?ls = "AList.delete LabelClusterName (AList.delete LabelNodeRole (the (kn_Labels node)))"
    let ?n = "node\<lparr>kn_Labels := Some ?ls\<rparr>"
    show ?thesis
    proof (cases "node_label node LabelNodeRole \<noteq> None \<and> node_label node LabelClusterName = Some clusterName")
      case act: True
      have "relabelled clusterName role del node ?n"
        using True act labels_apart by (auto simp: relabelled_def node_label_def delete_conv' split: option.splits)
      moreover have "w' = snd (kr_UpdateNode r ?n (kr_PutNode r ?n w))"
        using assms Inr True act by (auto simp: updateNodeRoleLabel_def Let_def io_bind_def split: prod.splits sum.splits)
      ultimately show ?thesis using Inr by blast
    next
      case False
      then show ?thesis using assms Inr True by (auto simp: updateNodeRoleLabel_def Let_def io_bind_def split: if_splits)
    qed
  next
    case False
    show ?thesis
    proof (cases "node_label node LabelNodeRole = None \<and> kn_Labels node \<noteq> None")
      case act: True
      then obtain ls where ls: "kn_Labels node = Some ls" by blast
      let ?n = "node\<lparr>kn_Labels := Some (AList.update LabelClusterName clusterName (AList.update LabelNodeRole role ls))\<rparr>"
      have "relabelled clusterName role del node ?n"
        using False act ls labels_apart by (auto simp: relabelled_def node_label_def update_conv')
      moreover have "w' = snd (kr_UpdateNode r ?n (kr_PutNode r ?n w))"
        using assms Inr False act ls by (auto simp: updateNodeRoleLabel_def Let_def io_bind_def split: prod.splits sum.splits)
      ultimately show ?thesis using Inr by blast
    next
      case nothing: False
      then show ?thesis using assms Inr False by (auto simp: updateNodeRoleLabel_def Let_def io_bind_def split: if_splits option.splits)
    qed
  qed
qed

subsection \<open>Plans of pending operations\<close>

lemma cri_world: "GetCriStep lower sb get extra c action nodes w = (x, w') \<Longrightarrow> w' = w"
  by (auto simp: GetCriStep_def Let_def io_bind_def split: if_splits sum.splits prod.splits)

lemma package_world: "getPackageSteps sb c action nodes w = (x, w') \<Longrightarrow> w' = w"
  by (auto simp: getPackageSteps_def split: if_splits)

lemma steps_world:
  "addSteps lower sb get p extra c nodes w = (x, w') \<Longrightarrow> w' = w"
  "removeSteps lower sb get p extra c nodes w = (x, w') \<Longrightarrow> w' = w"
  by (auto simp: addSteps_def removeSteps_def elim!: io_bind_cases dest!: cri_world package_world split: prod.splits)

lemma MakeOperation_effect:
  assumes "MakeOperation lower sb get p extra c w = (x, w')"
  shows "w' = w \<and> (\<forall>plan. x = Inr plan \<longrightarrow> cop_Name plan = em_OperationID extra \<and> label (cop_Labels plan) LabelClusterName = cl_Name c \<and>
    label (cop_Labels plan) LabelOperationAction \<in> {OperationAddNodes, OperationRemoveNodes})"
proof -
  have apart: "LabelOperationAction \<noteq> LabelClusterName" by (simp add: LabelOperationAction_def LabelClusterName_def)
  show ?thesis using assms apart
    by (auto simp: MakeOperation_def doMakeOperation_def makeWorkerOperation_def Let_def label_def elim!: io_bind_cases dest: steps_world
        split: option.splits if_splits)
qed

lemma build_effect:
  assumes "BuildOperationAdapter lower sb get c p extra w = (x, w')"
  shows "w' = w \<and> (\<forall>plan. x = Inr plan \<longrightarrow> cop_Name plan = em_OperationID extra \<and>
    label (cop_Labels plan) LabelOperationAction \<in> {OperationAddNodes, OperationRemoveNodes})"
proof (cases "po_OperationType p \<in> {OperationAddNodes, OperationRemoveNodes}")
  case False
  then show ?thesis using assms by (auto simp: BuildOperationAdapter_def split: if_splits)
next
  case True
  have apart: "LabelOperationAction \<noteq> LabelOperationSponsor" "LabelOperationAction \<noteq> LabelTimeoutSeconds"
    by (simp_all add: LabelOperationAction_def LabelOperationSponsor_def LabelTimeoutSeconds_def)
  have "NodeOperation_Builder lower sb get c p extra w = (x, w')" using assms True by (simp add: BuildOperationAdapter_def)
  then show ?thesis using apart
    by (auto simp: NodeOperation_Builder_def Let_def label_def update_conv' elim!: io_bind_cases dest: MakeOperation_effect split: if_splits)
qed

text \<open>The types that have no builder end the call with a nil dereference.\<close>

lemma unbuildable_types:
  assumes "po_OperationType p \<in> {OperationInstallComponents, OperationUninstallComponents, OperationCreateCluster, OperationDeleteCluster,
    OperationUpgradeCluster, OperationBackupCluster, OperationDeleteBackup, OperationRecoverCluster, OperationUpdateCertification,
    OperationUpdateAPIServerCertification}"
  shows "BuildOperationAdapter lower sb get c p extra w = (Inl (Panic ''nil pointer dereference''), w)"
proof -
  have "po_OperationType p \<notin> {OperationAddNodes, OperationRemoveNodes}" using assms by (auto simp: action_defs)
  then show ?thesis using assms unfolding BuildOperationAdapter_def by simp
qed

lemma convertNodes_world: "convertNodes r ns w = (x, w') \<Longrightarrow> w' = w"
  by (induction ns arbitrary: x) (auto elim!: io_bind_cases)

lemma assemble_world: "assembleClusterExtraMetadata r c w = (x, w') \<Longrightarrow> w' = w"
  by (auto simp: assembleClusterExtraMetadata_def Let_def elim!: io_bind_cases dest!: convertNodes_world)

lemma assemble_keeps:
  "assembleClusterExtraMetadata r c w = (Inr (clu, extra), w') \<Longrightarrow> cl_Name clu = cl_Name c \<and> cl_UID clu = cl_UID c"
  by (auto simp: assembleClusterExtraMetadata_def Let_def io_bind_Inr)

subsection \<open>Handing over pending operations\<close>

definition handled :: "'w store \<Rightarrow> 'w \<Rightarrow> PendingOperation \<Rightarrow> bool" where
  "handled s w p \<longleftrightarrow> (\<exists>op. st_Get (s_operations s) (po_OperationID p) [] w = Inr op \<and> op_Phase op \<noteq> OperationPending \<and> op_Phase op \<noteq> OperationRunning)"

lemma pending_loop_dirty: "pending_loop r s name False ps w = (x, w') \<Longrightarrow> x \<noteq> Inr True"
  by (induction ps arbitrary: w) (auto elim!: io_try_cases split: if_splits)

lemma pending_loop_clean:
  assumes "pending_loop r s name True ps w = (x, w')"
  shows "if \<forall>p \<in> set ps. handled s w p then x = Inr True \<and> w' = w else x \<noteq> Inr True"
  using assms
proof (induction ps)
  case (Cons p ps)
  show ?case
  proof (cases "handled s w p")
    case True
    then have "pending_loop r s name True ps w = (x, w')"
      using Cons.prems by (auto simp: handled_def GetOperation_def io_try_def)
    then show ?thesis using Cons.IH True by auto
  next
    case False
    then have "x \<noteq> Inr True"
      using Cons.prems by (auto simp: handled_def GetOperation_def elim!: io_try_cases split: if_splits dest!: pending_loop_dirty)
    then show ?thesis using False by auto
  qed
qed simp

lemma pending_loop_keeps:
  assumes "preorder_rel R" "\<forall>p \<in> set ps. io_keeps R (createPending r s name p)"
  shows "io_keeps R (pending_loop r s name clean ps)"
  using assms(2)
proof (induction ps arbitrary: clean)
  case (Cons p ps)
  have create: "io_keeps R (createPending r s name p)" and rest: "io_keeps R (pending_loop r s name b ps)" for b using Cons by auto
  have "io_keeps R (GetOperation s (po_OperationID p) [])" unfolding GetOperation_def by (rule io_keeps_pure [OF assms(1)])
  then show ?case by (auto intro!: io_keeps_try [OF assms(1)] create rest io_keeps_pure [OF assms(1)])
qed (simp add: io_keeps_pure [OF assms(1)] del: io_ret_eq)

lemma process_effect:
  assumes "processPendingOperations r shared c w = (res, w')" "kr_OperationStore r = Some s"
    and "preorder_rel R" "\<forall>p \<in> set (kc_PendingOperations c). io_keeps R (createPending r s (cl_Name c) p)"
  shows "if kc_PendingOperations c \<noteq> [] \<and> (\<forall>p \<in> set (kc_PendingOperations c). handled s w p)
    then w' = snd (kr_UpdateCluster r (c\<lparr>kc_PendingOperations := []\<rparr>)
      (if shared then kr_PutCluster r (c\<lparr>kc_PendingOperations := []\<rparr>) w else w))
    else R w w'"
proof (cases "kc_PendingOperations c = []")
  case True
  then show ?thesis using assms(1,3) by (auto simp: processPendingOperations_def preorder_rel_def)
next
  case False
  obtain x w1 where x: "pending_loop r s (cl_Name c) True (kc_PendingOperations c) w = (x, w1)" by fastforce
  note C = pending_loop_clean [OF x]
  show ?thesis
  proof (cases "\<forall>p \<in> set (kc_PendingOperations c). handled s w p")
    case True
    then show ?thesis using False C assms(1,2) x
      by (auto simp: processPendingOperations_def with_store_def io_bind_def Let_def split: prod.splits sum.splits)
  next
    case nh: False
    have "x \<noteq> Inr True" using C [unfolded if_not_P [OF nh]] .
    then have "w' = w1" using False assms(1,2) x
      by (cases x) (auto simp: processPendingOperations_def with_store_def io_bind_def)
    moreover have "R w w1" by (rule io_keepsD [OF pending_loop_keeps [OF assms(3,4)] x])
    ultimately show ?thesis using False nh by auto
  qed
qed

context quiet_store begin

lemma core_effect:
  assumes "CreateFromCore marshal s nodes (Some c) (Some plan) w = (x, w')"
  shows "vt w' = vt w \<and> vl w' = vl w \<and>
    (case x of
       Inl _ \<Rightarrow> vo w' = vo w
     | Inr op \<Rightarrow> fst (vo w) (cop_Name plan) = None \<and> fst (vo w') = (fst (vo w))(cop_Name plan \<mapsto> op) \<and> op_Phase op = OperationPending \<and>
         os_Action (op_Spec op) = label (cop_Labels plan) LabelOperationAction \<and>
         os_TargetRef (op_Spec op) = \<lparr>or_Kind = KindCluster, or_Name = cl_Name c, or_UID = cl_UID c\<rparr>)"
proof -
  obtain y w1 where y: "FromCoreOperation marshal nodes (Some plan) (Some c) w = (y, w1)" by fastforce
  have w1: "w1 = w" by (rule FromCore_world [OF y])
  show ?thesis
  proof (cases y)
    case (Inl e)
    then show ?thesis using assms y w1 by (auto simp: CreateFromCore_def io_bind_def)
  next
    case (Inr op)
    then have "FromCoreOperation marshal nodes (Some plan) (Some c) w = (Inr op, w1)" using y by simp
    from FromCore_Inr [OF this] obtain timeout steps where op: "op = newOperation plan c timeout steps" by blast
    have cr: "st_Create (s_operations s) op w = (x, w')" using assms y w1 Inr by (simp add: CreateFromCore_def io_bind_def CreateOperation_def)
    note keep = writes_keepD(1) [OF frame_o(1) cr] writes_keepD(1) [OF frame_o(2) cr] and E = quiet_storage.create_effect [OF ops cr]
    have nm: "op_Name op = cop_Name plan" using op by (simp add: newOperation_def)
    show ?thesis
    proof (cases x)
      case xe: (Inl e)
      then show ?thesis using E keep by simp
    next
      case new: (Inr z)
      then show ?thesis using E keep nm op
        by (auto simp: stored_create_def operation_PrepareForCreate_def newOperation_def Let_def)
    qed
  qed
qed

lemma createPending_effect:
  assumes "createPending r s name p w = (x, w')"
  shows "vt w' = vt w \<and> vl w' = vl w \<and>
    (case x of
       Inl _ \<Rightarrow> vo w' = vo w
     | Inr op \<Rightarrow> fst (vo w) (po_OperationID p) = None \<and> fst (vo w') = (fst (vo w))(po_OperationID p \<mapsto> op) \<and> op_Phase op = OperationPending \<and>
         os_Action (op_Spec op) \<in> {OperationAddNodes, OperationRemoveNodes} \<and>
         (\<exists>c. kr_GetClusterEx r name (po_ClusterResourceVersion p) w = Inr c \<and>
            os_TargetRef (op_Spec op) = \<lparr>or_Kind = KindCluster, or_Name = cl_Name c, or_UID = cl_UID c\<rparr>))"
proof -
  obtain y w1 where y: "io_bind (io_read (kr_GetClusterEx r name (po_ClusterResourceVersion p))) (\<lambda>clu.
     io_bind (assembleClusterExtraMetadata r clu) (\<lambda>(clu, extraMeta).
     io_bind (BuildOperationAdapter (kr_lower r) (kr_builders r) (kr_GetRegistry r) clu p
         (extraMeta\<lparr>em_OperationID := po_OperationID p\<rparr>)) (\<lambda>plan. io_ret (clu, plan)))) w = (y, w1)" by fastforce
  have w1: "w1 = w" using y by (auto elim!: io_bind_cases dest!: assemble_world dest: build_effect split: prod.splits)
  show ?thesis
  proof (cases y)
    case (Inl e)
    then have "x = Inl e" "w' = w" using assms y w1
      by (auto simp: createPending_def io_bind_def split: prod.splits sum.splits)
    then show ?thesis by simp
  next
    case (Inr cp)
    obtain clu plan where cp: "cp = (clu, plan)" by fastforce
    obtain c extra where c: "kr_GetClusterEx r name (po_ClusterResourceVersion p) w = Inr c"
        "assembleClusterExtraMetadata r c w = (Inr (clu, extra), w)"
        "BuildOperationAdapter (kr_lower r) (kr_builders r) (kr_GetRegistry r) clu p (extra\<lparr>em_OperationID := po_OperationID p\<rparr>) w = (Inr plan, w)"
      using y Inr cp w1 by (auto simp: io_bind_Inr dest: assemble_world build_effect)
    have run: "CreateFromCore (kr_marshalStep r) s (kr_NodeReader r) (Some (Cluster.truncate clu)) (Some plan) w = (x, w')"
      using assms c by (simp add: createPending_def io_bind_def)
    have same: "cl_Name clu = cl_Name c" "cl_UID clu = cl_UID c" using assemble_keeps [OF c(2)] by simp_all
    have b: "cop_Name plan = po_OperationID p" "label (cop_Labels plan) LabelOperationAction \<in> {OperationAddNodes, OperationRemoveNodes}"
      using build_effect [OF c(3)] by simp_all
    show ?thesis using core_effect [OF run] b c(1) same by (cases x) (auto simp: Cluster.truncate_def)
  qed
qed

text \<open>What the loop may do to the operations: add new ones under the names that the pending operations carry.\<close>

definition handed_over :: "PendingOperation set \<Rightarrow> 'w \<Rightarrow> 'w \<Rightarrow> bool" where
  "handed_over P w w' \<longleftrightarrow> vt w' = vt w \<and> vl w' = vl w \<and> fst (vo w) \<subseteq>\<^sub>m fst (vo w') \<and>
     (\<forall>n op. fst (vo w') n = Some op \<and> fst (vo w) n = None \<longrightarrow>
        op_Phase op = OperationPending \<and> os_Action (op_Spec op) \<in> {OperationAddNodes, OperationRemoveNodes} \<and> (\<exists>p \<in> P. po_OperationID p = n))"

lemma handed_over_preorder: "preorder_rel (\<lambda>w w'. handed_over P w w' \<and> vc w' = vc w)"
proof -
  have "handed_over P w w" for w by (auto simp: handed_over_def)
  moreover have "handed_over P x z" if xy: "handed_over P x y" and yz: "handed_over P y z" for x y z
  proof -
    have "fst (vo x) \<subseteq>\<^sub>m fst (vo z)" using xy yz map_le_trans unfolding handed_over_def by blast
    moreover have "op_Phase op = OperationPending \<and> os_Action (op_Spec op) \<in> {OperationAddNodes, OperationRemoveNodes} \<and> (\<exists>p \<in> P. po_OperationID p = n)"
      if n: "fst (vo z) n = Some op" "fst (vo x) n = None" for n op
    proof (cases "fst (vo y) n")
      case None
      then show ?thesis using yz n(1) unfolding handed_over_def by blast
    next
      case (Some op')
      moreover have "fst (vo y) \<subseteq>\<^sub>m fst (vo z)" using yz by (simp add: handed_over_def)
      ultimately have "op' = op" using n(1) by (metis domI map_le_def option.inject)
      then show ?thesis using xy n(2) Some unfolding handed_over_def by blast
    qed
    moreover have "vt z = vt x" "vl z = vl x" using xy yz by (simp_all add: handed_over_def)
    ultimately show ?thesis unfolding handed_over_def by blast
  qed
  ultimately show ?thesis unfolding preorder_rel_def by auto
qed

lemma createPending_keeps:
  assumes "p \<in> P" "writes_keep (s_operations s) vc"
  shows "io_keeps (\<lambda>w w'. handed_over P w w' \<and> vc w' = vc w) (createPending r s name p)"
  unfolding io_keeps_def
proof (intro allI impI conjI)
  fix w x w' assume run: "createPending r s name p w = (x, w')"
  note E = createPending_effect [OF run]
  show "handed_over P w w'"
  proof (cases x)
    case (Inl e)
    then show ?thesis using E by (auto simp: handed_over_def)
  next
    case (Inr op)
    then show ?thesis using E assms(1) by (auto simp: handed_over_def map_le_def split: if_splits)
  qed
  show "vc w' = vc w" using run writes_keepD(1) [OF assms(2)]
    by (auto simp: createPending_def CreateFromCore_def CreateOperation_def elim!: io_bind_cases dest!: assemble_world FromCore_world
        dest: build_effect split: prod.splits)
qed

end

text \<open>
  C37.  Pending operations are handed over once.  As long as some pending operation of a cluster has no stored operation or one that is
  Pending or Running, processing them leaves the cluster and all existing operations, tasks and
  locks alone and at most creates operations, each in phase Pending, for nodes to add or remove, and under the name that a
  pending operation carries.  Only when all have stored operations beyond these phases, the
  list is emptied, by the one write of the cluster.
\<close>

theorem pending_handed_over:
  assumes "quiet_store am s opSize taskSize vo vt vl" "kr_OperationStore r = Some s" "writes_keep (s_operations s) vc"
    and "processPendingOperations r shared c w = (res, w')"
  shows "if kc_PendingOperations c \<noteq> [] \<and> (\<forall>p \<in> set (kc_PendingOperations c). handled s w p)
    then w' = snd (kr_UpdateCluster r (c\<lparr>kc_PendingOperations := []\<rparr>)
      (if shared then kr_PutCluster r (c\<lparr>kc_PendingOperations := []\<rparr>) w else w))
    else vc w' = vc w \<and> vt w' = vt w \<and> vl w' = vl w \<and> fst (vo w) \<subseteq>\<^sub>m fst (vo w') \<and>
      (\<forall>n op. fst (vo w') n = Some op \<and> fst (vo w) n = None \<longrightarrow> op_Phase op = OperationPending \<and>
         os_Action (op_Spec op) \<in> {OperationAddNodes, OperationRemoveNodes} \<and> (\<exists>p \<in> set (kc_PendingOperations c). po_OperationID p = n))"
proof -
  note qs = assms(1)
  let ?R = "\<lambda>w w'. quiet_store.handed_over vo vt vl (set (kc_PendingOperations c)) w w' \<and> vc w' = vc w"
  have "\<forall>p \<in> set (kc_PendingOperations c). io_keeps ?R (createPending r s (cl_Name c) p)"
    using quiet_store.createPending_keeps [OF qs _ assms(3)] by blast
  from process_effect [OF assms(4,2) quiet_store.handed_over_preorder [OF qs] this]
  show ?thesis unfolding quiet_store.handed_over_def [OF qs] by (auto split: if_splits)
qed

subsection \<open>Deletion\<close>

definition same_views :: "('w \<Rightarrow> 'a) \<Rightarrow> ('w \<Rightarrow> 'b) \<Rightarrow> ('w \<Rightarrow> 'c) \<Rightarrow> 'w \<Rightarrow> 'w \<Rightarrow> bool" where
  "same_views vo vt vl w w' \<longleftrightarrow> vo w' = vo w \<and> vt w' = vt w \<and> vl w' = vl w"

lemma same_views_preorder: "preorder_rel (same_views vo vt vl)"
  by (simp add: preorder_rel_def same_views_def)

text \<open>The controller beside the operation store: what it writes elsewhere does not change the operations, tasks and locks.\<close>

locale cluster_env = quiet_store am s opSize taskSize vo vt vl
  for am and s :: "'w store" and opSize taskSize vo vt vl +
  fixes r :: "'w ClusterReconciler"
  assumes r_store: "kr_OperationStore r = Some s" and r_am: "kr_am r = am"
    and puts: "same_views vo vt vl w (kr_PutCluster r c w)" "same_views vo vt vl w (kr_PutNode r n w)"
      "same_views vo vt vl w (kr_RemoveClientSet r name w)"
    and cluster_update: "kr_UpdateCluster r c w = (x, w') \<Longrightarrow> same_views vo vt vl w w'"
    and node_update: "kr_UpdateNode r n w = (y, w') \<Longrightarrow> same_views vo vt vl w w'"
    and cron_delete: "kr_DeleteCronBackups r q w = (z, w') \<Longrightarrow> same_views vo vt vl w w'"
begin

lemma nodes_keep: "io_keeps (same_views vo vt vl) (updateClusterNode r c del)"
proof -
  have "io_keeps (same_views vo vt vl) (updateNodeRoleLabel r cn nn role del)" for cn nn role
    unfolding io_keeps_def
  proof (intro allI impI)
    fix w x w' assume "updateNodeRoleLabel r cn nn role del w = (x, w')"
    from node_label_effect [OF this] show "same_views vo vt vl w w'"
    proof (elim disjE exE conjE)
      fix node' assume w': "w' = snd (kr_UpdateNode r node' (kr_PutNode r node' w))"
      have "same_views vo vt vl (kr_PutNode r node' w) w'" using node_update w' by (metis prod.collapse)
      with puts(2) [of w node'] show ?thesis by (simp add: same_views_def)
    qed (simp add: same_views_def)
  qed
  then show ?thesis unfolding updateClusterNode_def Let_def
    by (auto intro!: io_keeps_bind io_keeps_forM io_keeps_try io_keeps_pure same_views_preorder)
qed

text \<open>A successful finalization: the history is purged first, the cluster is written last and without the finalizer.\<close>

lemma finalize_Inr:
  assumes "finalizeCluster r c w = (Inr x, w')"
  shows "\<exists>w1 w2 c' c''. CleanupByTargetUID am s (cl_UID c) w = (Inr (), w1) \<and> same_views vo vt vl w1 w' \<and>
    ClusterFinalizer \<notin> set (kc_Finalizers c') \<and> c'\<lparr>kc_Finalizers := kc_Finalizers c\<rparr> = c \<and> kr_UpdateCluster r c' w2 = (Inr c'', w')"
proof -
  let ?c = "c\<lparr>kc_Finalizers := sort (remdups (removeAll ClusterFinalizer (kc_Finalizers c)))\<rparr>"
  obtain w1 w2 w3 c'' where h: "CleanupByTargetUID am s (cl_UID c) w = (Inr (), w1)" "updateClusterNode r c True w1 = (Inr (), w2)"
      "kr_DeleteCronBackups r (''spec.clusterName='' @ cl_Name c) w2 = (Inr (), w3)" "kr_UpdateCluster r ?c (kr_PutCluster r ?c w3) = (Inr c'', w')"
    using assms r_store r_am by (auto simp: finalizeCluster_def io_bind_Inr wrapped_Inr Let_def)
  have "same_views vo vt vl w1 w'"
    using io_keepsD [OF nodes_keep h(2)] cron_delete [OF h(3)] puts(1) [of w3 ?c] cluster_update [OF h(4)] by (simp add: same_views_def)
  moreover have "ClusterFinalizer \<notin> set (kc_Finalizers ?c)" "?c\<lparr>kc_Finalizers := kc_Finalizers c\<rparr> = c" by simp_all
  ultimately show ?thesis using h(1,4) by blast
qed

lemma finalize_refused:
  assumes "CleanupByTargetUID am s (cl_UID c) w = (Inl e, w1)" "finalizeCluster r c w = (x, w')"
  shows "w' = w1 \<and> (\<exists>e'. x = Inl e')"
proof -
  have "wrapped t (CleanupByTargetUID am s (cl_UID c)) w = (y, w2) \<Longrightarrow> w2 = w1 \<and> (\<exists>e'. y = Inl e')" for t y w2
    using assms(1) by (auto simp: wrapped_def io_try_def split: goerr.splits)
  then show ?thesis using assms(2) r_store r_am by (auto simp: finalizeCluster_def elim!: io_bind_cases)
qed

end

text \<open>
  C35.  The finalizer goes last.  Reconciling a cluster that is being deleted: while an operation of the cluster or a task of one is unfinished,
  the call fails, so that it is repeated, and writes nothing but the client sets.  If it succeeds, no operation and
  no lock of the cluster is left and no task of its operations, and its last write is the cluster, otherwise unchanged, without the
  finalizer.
\<close>

theorem finalizer_goes_last:
  assumes "cluster_env am s opSize taskSize vo vt vl r"
    and "keyed_by (\<lambda>op. op_Name op) (fst (vo w))" "keyed_by (\<lambda>t. task_Name t) (fst (vt w))" "keyed_by (\<lambda>l. lock_Name l) (fst (vl w))"
    and "kr_GetCluster r name w = Inr c" "kc_Deleting c" "ClusterFinalizer \<in> set (kc_Finalizers c)"
    and "cluster_Reconcile r name w = (res, w')"
  shows "((\<exists>op \<in> ran (fst (vo w)). targets (cl_UID c) op \<and> \<not> ended (fst (vt w)) op) \<longrightarrow>
      (\<exists>e. res = Inl e) \<and> w' = kr_RemoveClientSet r (cl_Name c) w) \<and>
    (res = Inr () \<longrightarrow> (\<forall>op \<in> ran (fst (vo w')). \<not> targets (cl_UID c) op) \<and> (\<forall>l \<in> ran (fst (vl w')). or_UID (lock_Target l) \<noteq> cl_UID c) \<and>
      (\<forall>op \<in> ran (fst (vo w)). targets (cl_UID c) op \<longrightarrow> (\<forall>t \<in> ran (fst (vt w')). task_OpUID t \<noteq> op_UID op)) \<and>
      (\<exists>c' c'' w2. ClusterFinalizer \<notin> set (kc_Finalizers c') \<and> c'\<lparr>kc_Finalizers := kc_Finalizers c\<rparr> = c \<and> kr_UpdateCluster r c' w2 = (Inr c'', w')))"
proof -
  note env = assms(1)
  note qs = cluster_env.axioms(1) [OF env]
  let ?w = "kr_RemoveClientSet r (cl_Name c) w"
  have same: "vo ?w = vo w" "vt ?w = vt w" "vl ?w = vl w" using cluster_env.puts(3) [OF env, of w "cl_Name c"] by (simp_all add: same_views_def)
  have run: "finalizeCluster r c ?w = (res, w')"
    using assms(5-8) by (simp add: cluster_Reconcile_def io_try_def deleteCluster_def io_bind_def)
  obtain x w1 where x: "CleanupByTargetUID am s (cl_UID c) ?w = (x, w1)" by fastforce
  note P = history_purge [OF qs assms(2-4) [folded same] x, unfolded same]
  show ?thesis
  proof (cases x)
    case (Inl e)
    then have "w' = w1" "\<exists>e'. res = Inl e'" using cluster_env.finalize_refused [OF env _ run] x by auto
    then show ?thesis using P by auto
  next
    case (Inr u)
    then have none: "\<not> (\<exists>op \<in> ran (fst (vo w)). targets (cl_UID c) op \<and> \<not> ended (fst (vt w)) op)" using P by auto
    show ?thesis
    proof (cases res)
      case (Inl e)
      then show ?thesis using none by auto
    next
      case ok: (Inr v)
      from run [unfolded ok] obtain v1 w2 c' c'' where f: "CleanupByTargetUID am s (cl_UID c) ?w = (Inr (), v1)" "same_views vo vt vl v1 w'"
        "ClusterFinalizer \<notin> set (kc_Finalizers c')" "c'\<lparr>kc_Finalizers := kc_Finalizers c\<rparr> = c" "kr_UpdateCluster r c' w2 = (Inr c'', w')"
        using cluster_env.finalize_Inr [OF env] by blast
      have "fst (vo w') = fst (vo w1)" "fst (vt w') = fst (vt w1)" "fst (vl w') = fst (vl w1)" using f(1,2) x by (simp_all add: same_views_def)
      then show ?thesis using P none Inr f(3-5) by auto
    qed
  qed
qed

subsection \<open>Registries of running clusters\<close>

lemma step_without_id:
  assumes "cs_ID st = []"
  shows "\<exists>e. CreateFromCore marshal s nodes cluster (Some \<lparr>cop_Name = n, cop_Labels = ls, cop_Steps = [st]\<rparr>) w = (Inl e, w)"
proof -
  let ?plan = "Some \<lparr>cop_Name = n, cop_Labels = ls, cop_Steps = [st]\<rparr>"
  obtain y w1 where y: "FromCoreOperation marshal nodes ?plan cluster w = (y, w1)" by fastforce
  have w1: "w1 = w" by (rule FromCore_world [OF y])
  have "y \<noteq> Inr op" for op
    using y assms by (auto simp: FromCoreOperation_def convertSteps_def convertStep_def io_bind_def split: option.splits sum.splits prod.splits)
  then obtain e where "y = Inl e" by (cases y) auto
  then show ?thesis using y w1 by (simp add: CreateFromCore_def io_bind_def)
qed

lemma registry_step_id: "criRegistryUpdateStep r c regs nodes = Inr st \<Longrightarrow> cs_ID st = []"
  by (auto simp: criRegistryUpdateStep_def registryStep_def Let_def split: if_splits sum.splits)

lemma wrapped_Inl: "m w = (Inl e, w) \<Longrightarrow> \<exists>e'. wrapped p m w = (Inl e', w)"
  by (auto simp: wrapped_def io_try_def split: goerr.split)

lemma delivery_fails: "\<exists>e. deliverRegistries r c regs w = (Inl e, w)"
proof (cases "kr_NewRequirement r LabelClusterName (cl_Name c)")
  case (Some e)
  then obtain e' where "wrapped ''new cluster node selector requirement:'' (io_check (kr_NewRequirement r LabelClusterName (cl_Name c))) w = (Inl e', w)"
    using wrapped_Inl [of "io_check (kr_NewRequirement r LabelClusterName (cl_Name c))" w e] by auto
  then show ?thesis by (simp add: deliverRegistries_def io_bind_def)
next
  case req: None
  have ok: "wrapped t (io_check (kr_NewRequirement r LabelClusterName (cl_Name c))) w = (Inr (), w)" for t
    using req by (simp add: wrapped_Inr)
  show ?thesis
  proof (cases "kr_ListNodes r LabelClusterName (cl_Name c) w")
    case (Inl e)
    then show ?thesis using ok by (simp add: deliverRegistries_def io_bind_def io_try_def)
  next
    case nodes: (Inr nodes)
    show ?thesis
    proof (cases "criRegistryUpdateStep r c regs nodes")
      case (Inl e)
      then obtain e' where "wrapped ''criRegistryUpdateOperation:'' (io_of (criRegistryUpdateStep r c regs nodes)) w = (Inl e', w)"
        using wrapped_Inl [of "io_of (criRegistryUpdateStep r c regs nodes)" w e] by auto
      then show ?thesis using ok nodes by (simp add: deliverRegistries_def io_bind_def io_try_def)
    next
      case st: (Inr st)
      let ?plan = "\<lparr>cop_Name = kr_uuid r w, cop_Labels = [(LabelClusterName, cl_Name c), (LabelOperationAction, OperationInstallComponents)], cop_Steps = [st]\<rparr>"
      let ?make = "with_store r (\<lambda>s. CreateFromCore (kr_marshalStep r) s (kr_NodeReader r) (Some (Cluster.truncate c)) (Some ?plan))"
      have "\<exists>e. ?make w = (Inl e, w)"
        using step_without_id [OF registry_step_id [OF st]] by (cases "kr_OperationStore r") (simp_all add: with_store_def)
      then obtain e0 where "?make w = (Inl e0, w)" by (rule exE)
      then obtain e where "wrapped ''create CRI registry Operation:'' ?make w = (Inl e, w)" by (rule exE [OF wrapped_Inl])
      moreover have "wrapped t (io_of (criRegistryUpdateStep r c regs nodes)) w = (Inr st, w)" for t using st by (simp add: wrapped_Inr)
      ultimately show ?thesis using ok nodes by (simp add: deliverRegistries_def io_bind_def io_try_def)
    qed
  qed
qed

lemma recorded_host:
  assumes "GetClusterCRIRegistriesForMode lower get (Offline c) (kc_ImageRegistry c) (kc_RegistryRefs c) = Inr (host, regs)"
  shows "GetClusterCRIRegistries lower get c = (c\<lparr>kc_ResolvedImageRegistry := host\<rparr>, Inr regs)"
  using assms by (auto simp: GetClusterCRIRegistries_def recordImageRegistry_def GetClusterCRIRegistriesForMode_def Let_def split: sum.splits)


subsection \<open>A reference environment\<close>

text \<open>The storage of the engine beside clusters, the cache of clusters, nodes and client sets.\<close>

lemma beside_calls:
  "st_Create (beside S) x w = (r, w') \<longleftrightarrow> st_Create S x (snd w) = (r, snd w') \<and> fst w' = fst w"
  "st_Update (beside S) n x w = (r, w') \<longleftrightarrow> st_Update S n x (snd w) = (r, snd w') \<and> fst w' = fst w"
  "st_Delete (beside S) n u w = (d, w') \<longleftrightarrow> st_Delete S n u (snd w) = (d, snd w') \<and> fst w' = fst w"
  "st_Get (beside S) n rv w = st_Get S n rv (snd w)" "st_List (beside S) opts w = st_List S opts (snd w)"
  by (auto simp: beside_def map_prod_def prod_eq_iff split: prod.splits)

lemma beside_rest: "rest_storage sg S view \<Longrightarrow> rest_storage sg (beside S) (\<lambda>w. view (snd w))"
  unfolding rest_storage_def beside_def by (auto simp: map_prod_def split: prod.splits)

lemma beside_quiet:
  assumes "quiet_storage sg S view"
  shows "quiet_storage sg (beside S) (\<lambda>w. view (snd w))"
proof (intro quiet_storage.intro beside_rest quiet_storage.axioms(1) [OF assms] quiet_storage_axioms.intro, goal_cases)
  case (1 x w r w')
  then show ?case unfolding beside_calls by (intro quiet_storage.create_effect [OF assms]) simp
next
  case (2 n x w r w')
  then show ?case unfolding beside_calls by (intro quiet_storage.update_effect [OF assms]) simp
next
  case (3 n pre w d w')
  then show ?case unfolding beside_calls by (intro quiet_storage.delete_effect [OF assms]) simp
qed

lemma beside_writes: "writes_keep S v \<Longrightarrow> writes_keep (beside S) (\<lambda>w. v (snd w))"
  by (auto simp: writes_keep_def beside_def map_prod_def split: prod.splits)

lemma beside_writes_other: "writes_keep (beside S) (\<lambda>w. v (fst w))"
  by (auto simp: writes_keep_def beside_def map_prod_def split: prod.splits)

lemma beside_quiet_store:
  assumes "quiet_store am s opSize taskSize vo vt vl"
  shows "quiet_store am (beside_store s) opSize taskSize (\<lambda>w. vo (snd w)) (\<lambda>w. vt (snd w)) (\<lambda>w. vl (snd w))"
proof -
  note q = assms [unfolded quiet_store_def]
  show ?thesis unfolding quiet_store_def beside_store_def store.simps
    using q by (auto intro!: beside_quiet beside_rest beside_writes simp: map_prod_def split: prod.splits)
qed

record ctrl_world =
  kw_clusters :: "CtrlCluster list"
  kw_cache :: "CtrlCluster list"
  kw_nodes :: "CtrlNode list"
  kw_clients :: "string list"

definition put_named :: "('a \<Rightarrow> string) \<Rightarrow> 'a \<Rightarrow> 'a list \<Rightarrow> 'a list" where
  "put_named nm x xs = map (\<lambda>y. if nm y = nm x then x else y) xs"

definition get_named :: "string \<Rightarrow> ('a \<Rightarrow> string) \<Rightarrow> 'a list \<Rightarrow> string \<Rightarrow> goerr + 'a" where
  "get_named kind nm xs n = (case find (\<lambda>x. nm x = n) xs of None \<Rightarrow> Inl (NotFound kind n) | Some x \<Rightarrow> Inr x)"

definition sample_builders :: "(ctrl_world \<times> mem) step_builders" where
  "sample_builders = \<lparr>sb_unmarshalPatch = (\<lambda>d. Inr \<lparr>pn_Operation = NodesOperationAdd, pn_Nodes = [\<lparr>wn_ID = ''n2'', wn_Labels = []\<rparr>],
       pn_Role = NodeRoleWorker, pn_ConvertNodes = []\<rparr>),
     sb_docker = (\<lambda>e c ns a w. Inr []), sb_containerd = (\<lambda>e c ns rs a w. Inr []), sb_extInstall = (\<lambda>c ns w. Inr []),
     sb_extUninstall = (\<lambda>c ns w. Inr []), sb_packInstall = (\<lambda>c ns w. Inr []), sb_packUninstall = (\<lambda>c ns w. Inr []),
     sb_nodeInstall = (\<lambda>e c role ns w. Inr [ClusterAccessStep ns]), sb_nodeUninstall = (\<lambda>e c role ns w. Inr [])\<rparr>"

definition mem_ctrl :: "(ctrl_world \<times> mem) ClusterReconciler" where
  "mem_ctrl = \<lparr>
     kr_GetCluster = (\<lambda>n w. get_named ''cluster'' (\<lambda>c. cl_Name c) (kw_cache (fst w)) n),
     kr_ListClusters = (\<lambda>w. Inr (kw_cache (fst w))),
     kr_PutCluster = (\<lambda>c w. (fst w\<lparr>kw_cache := put_named (\<lambda>c. cl_Name c) c (kw_cache (fst w))\<rparr>, snd w)),
     kr_UpdateCluster = (\<lambda>c w. (Inr c, (fst w\<lparr>kw_clusters := put_named (\<lambda>c. cl_Name c) c (kw_clusters (fst w))\<rparr>, snd w))),
     kr_GetClusterEx = (\<lambda>n rv w. get_named ''cluster'' (\<lambda>c. cl_Name c) (kw_clusters (fst w)) n),
     kr_GetRegistry = (\<lambda>n w. sample_registry n),
     kr_GetNode = (\<lambda>n w. get_named ''node'' kn_Name (kw_nodes (fst w)) n),
     kr_ListNodes = (\<lambda>k v w. Inr (filter (\<lambda>n. node_label n k = Some v) (kw_nodes (fst w)))),
     kr_PutNode = (\<lambda>n w. w),
     kr_UpdateNode = (\<lambda>n w. (Inr n, (fst w\<lparr>kw_nodes := put_named kn_Name n (kw_nodes (fst w))\<rparr>, snd w))),
     kr_GetNodeEx = (\<lambda>n rv w. get_named ''node'' kn_Name (kw_nodes (fst w)) n),
     kr_NodeReader = \<lparr>rd_GetClusterEx = (\<lambda>n rv w. Inl (NotFound ''cluster'' n)),
       rd_GetNodeEx = (\<lambda>n rv w. Inr \<lparr>nd_Name = n, nd_UID = n @ ''-uid'', nd_Ipv4DefaultIP = ''10.0.0.1'', nd_AgentLogPort = 0\<rparr>)\<rparr>,
     kr_OperationStore = Some (beside_store memStore),
     kr_DeleteCronBackups = (\<lambda>q w. (Inr (), w)),
     kr_GetCloudProvider = (\<lambda>n w. Inl (NotFound ''cloudprovider'' n)),
     kr_providerKubeConfig = (\<lambda>p n w. Inl (Plain ''unreachable'')),
     kr_GetClientSet = (\<lambda>n w. n \<in> set (kw_clients (fst w))),
     kr_AddClientSet = (\<lambda>n k w. (fst w\<lparr>kw_clients := n # kw_clients (fst w)\<rparr>, snd w)),
     kr_RemoveClientSet = (\<lambda>n w. (fst w\<lparr>kw_clients := removeAll n (kw_clients (fst w))\<rparr>, snd w)),
     kr_newClient = (\<lambda>k. None), kr_listPods = (\<lambda>k w. PodsListed), kr_NewRequirement = (\<lambda>k v. None),
     kr_uuid = (\<lambda>w. ''uuid''), kr_sha256 = (\<lambda>s. s), kr_lower = (\<lambda>s. s), kr_am = memAm, kr_marshalStep = (\<lambda>p. Inr ''{}''),
     kr_dockerConfigure = (\<lambda>rs. Inr ''{}''), kr_containerdConfigure = (\<lambda>m c ns rs. Inr ''{}''), kr_builders = sample_builders\<rparr>"

interpretation mem_cluster: cluster_env memAm "beside_store memStore" anySize anySize "\<lambda>w. view_ops (snd w)" "\<lambda>w. view_tasks (snd w)"
  "\<lambda>w. view_locks (snd w)" mem_ctrl
proof (intro cluster_env.intro cluster_env_axioms.intro, goal_cases)
  case 1
  show ?case by (rule beside_quiet_store) (rule mem_engine.quiet_store_axioms)
qed (auto simp: mem_ctrl_def same_views_def)

definition sample_cluster :: CtrlCluster where
  "sample_cluster = \<lparr>cl_Name = ''demo'', cl_UID = ''c-uid'', cl_ResourceVersion = ''1'', cl_Phase = ClusterRunning, cl_KubernetesVersion = ''v1.27.4'',
     kc_Namespace = [], kc_Labels = [], kc_Annotations = [], kc_Deleting = False, kc_Finalizers = [ClusterFinalizer],
     kc_Masters = [\<lparr>wn_ID = ''n1'', wn_Labels = []\<rparr>], kc_Workers = [], kc_ImageRegistry = [], kc_ResolvedImageRegistry = [],
     kc_RegistryRefs = [], kc_CRIType = CRIContainerd, kc_KubeletRootDir = [], kc_CNIType = [], kc_CNINamespace = [], kc_Addons = [],
     kc_KubeConfig = [], kc_Registries = [], kc_ControlPlaneHealth = [], kc_PendingOperations = []\<rparr>"

definition sample_ctrl_world :: "CtrlCluster \<Rightarrow> ctrl_world" where
  "sample_ctrl_world c = \<lparr>kw_clusters = [c], kw_cache = [c],
     kw_nodes = [\<lparr>kn_Name = ''n1'', kn_Deleting = False, kn_Labels = Some [(LabelNodeRole, NodeRoleMaster), (LabelClusterName, ''demo'')],
       kn_Annotations = [], kn_Ipv4DefaultIP = ''10.0.0.1'', kn_NodeIpv4DefaultIP = ''10.0.0.1'', kn_Hostname = ''h1''\<rparr>], kw_clients = []\<rparr>"

text \<open>A deleted cluster whose only operation failed: it is finalized and its history is gone.\<close>

definition deleted_cluster :: CtrlCluster where "deleted_cluster = sample_cluster\<lparr>kc_Deleting := True\<rparr>"

lemma deleted_cluster_run:
  "fst (cluster_Reconcile mem_ctrl ''demo'' (sample_ctrl_world deleted_cluster, api_world)) = Inr ()"
  by code_simp

theorem finalizer_goes_last_witness:
  "{op \<in> ran (fst (view_ops (snd (snd (cluster_Reconcile mem_ctrl ''demo'' (sample_ctrl_world deleted_cluster, api_world)))))). targets ''c-uid'' op} = {}"
proof -
  let ?w = "(sample_ctrl_world deleted_cluster, api_world)" and ?run = "cluster_Reconcile mem_ctrl ''demo'' (sample_ctrl_world deleted_cluster, api_world)"
  have get: "kr_GetCluster mem_ctrl ''demo'' ?w = Inr deleted_cluster" "kc_Deleting deleted_cluster" "ClusterFinalizer \<in> set (kc_Finalizers deleted_cluster)"
    "cl_UID deleted_cluster = ''c-uid''"
    by (simp_all add: mem_ctrl_def get_named_def sample_ctrl_world_def deleted_cluster_def sample_cluster_def)
  have run: "?run = (Inr (), snd ?run)" using deleted_cluster_run by (cases ?run) simp
  show ?thesis
    using finalizer_goes_last [OF mem_cluster.cluster_env_axioms sample_keyed sample_history(3) get(1-3) run] unfolding get(4) by blast
qed

text \<open>A pending operation to add a node is created under its own name.\<close>

definition growing_cluster :: CtrlCluster where
  "growing_cluster = sample_cluster\<lparr>kc_PendingOperations := [\<lparr>po_OperationID = ''op9'', po_OperationType = OperationAddNodes, po_OperationSponsor = [],
     po_Timeout = ''600'', po_ClusterResourceVersion = ''1'', po_ExtraData = []\<rparr>]\<rparr>"

lemma growing_cluster_run:
  "Option.is_none (fst (view_ops (snd (snd (processPendingOperations mem_ctrl True growing_cluster (sample_ctrl_world growing_cluster, mem0))))) ''op9'') = False"
  by code_simp

theorem pending_handed_over_witness:
  "\<exists>op. fst (view_ops (snd (snd (processPendingOperations mem_ctrl True growing_cluster (sample_ctrl_world growing_cluster, mem0))))) ''op9'' = Some op \<and>
     op_Phase op = OperationPending"
proof -
  let ?w = "(sample_ctrl_world growing_cluster, mem0)" and ?run = "processPendingOperations mem_ctrl True growing_cluster (sample_ctrl_world growing_cluster, mem0)"
  obtain op where op: "fst (view_ops (snd (snd ?run))) ''op9'' = Some op" using growing_cluster_run by (auto simp: Option.is_none_def)
  have none: "fst (view_ops (snd ?w)) n = None" for n by (simp add: view_ops_def coll_view_def coll_find_def mem0_def empty_coll_def)
  have keep: "writes_keep (s_operations (beside_store memStore)) (\<lambda>w. kw_clusters (fst w))"
    unfolding beside_store_def store.simps by (rule beside_writes_other)
  have nh: "\<not> handled (beside_store memStore) ?w p" for p
    using rest_storage.get_found [OF mem_ops.rest_storage_axioms, of "po_OperationID p" mem0] none
    by (auto simp: handled_def beside_store_def beside_calls)
  have ne: "kc_PendingOperations growing_cluster \<noteq> []" by (simp add: growing_cluster_def)
  show ?thesis
    using pending_handed_over [OF mem_cluster.quiet_store_axioms mem_cluster.r_store keep prod.collapse [symmetric, of ?run]] op none nh ne
    by (auto split: if_splits)
qed

text \<open>A running cluster that names a registry: nothing is stored.\<close>

definition registry_cluster :: CtrlCluster where "registry_cluster = sample_cluster\<lparr>kc_RegistryRefs := [Some ''a'']\<rparr>"

lemma registry_cluster_run:
  "fst (updateClusterNode mem_ctrl registry_cluster False (sample_ctrl_world registry_cluster, mem0)) = Inr ()"
  "snd (updateClusterNode mem_ctrl registry_cluster False (sample_ctrl_world registry_cluster, mem0)) = (sample_ctrl_world registry_cluster, mem0)"
  "GetClusterCRIRegistriesForMode (\<lambda>s. s) sample_registry (Offline registry_cluster) (kc_ImageRegistry registry_cluster) (kc_RegistryRefs registry_cluster) = Inr ([], [sample_specs ! 1])"
  by code_simp+


end
