(* ===== verification/Dns.thy ===== *)
theory Dns
  imports Cluster_Ctrl
begin

text \<open>
  The DNS controller (\<^verbatim>\<open>pkg/controller/dnscontroller\<close>): domains with their records are rendered into the configuration of CoreDNS
  in every cluster they are synchronised to.  The clients of the clusters, the template engine and MD5 are arguments.  The
  records of a domain are a Go map, and a loop over it visits them in an order the runtime chooses: it is
  the field \<open>dn_order\<close>.  Listers return pointers into a cache; assignments through them are \<open>dn_PutDomain\<close>.
\<close>

subsection \<open>Domains and their rendering\<close>

record DnsRecord =
  dr_Domain :: string
  dr_RR :: string
  dr_IPs :: "string list"

record Domain =
  dm_Name :: string
  dm_Deleting :: bool
  dm_Records :: "(string \<times> DnsRecord) list"
  dm_SyncCluster :: "string list"
  dm_Count :: int

record ARecord =
  ar_RR :: string
  ar_IP :: string

record ExtensiveRecord =
  er_RR :: string
  er_IPs :: "string list"
  er_Name :: string

record DomainEntry =
  de_Name :: string
  de_A :: "ARecord list"
  de_Extensive :: "ExtensiveRecord list"

record DNS =
  dns_Domains :: "DomainEntry list"
  dns_DNSDomain :: string
  dns_CoreDNSVIP :: string

definition isGenericRecord :: "string \<Rightarrow> bool" where
  "isGenericRecord rr \<longleftrightarrow> rr = ''*'' \<or> (let split = splitOn CHR ''.'' [] rr in length split > 1 \<and> split ! 0 = ''*'')"

definition record_key :: "DnsRecord \<Rightarrow> string" where
  "record_key r = (if dr_RR r = ''@'' then dr_Domain r else dr_RR r @ ''.'' @ dr_Domain r)"

definition transform_domain :: "DnsRecord list \<Rightarrow> Domain \<Rightarrow> DomainEntry" where
  "transform_domain records domain =
     \<lparr>de_Name = dm_Name domain,
      de_A = concat (map (\<lambda>r. if isGenericRecord (dr_RR r) then [] else map (\<lambda>ip. \<lparr>ar_RR = record_key r, ar_IP = ip\<rparr>) (dr_IPs r)) records),
      de_Extensive = go_sort (\<lambda>x y. length (er_RR x) > length (er_RR y))
        (concat (map (\<lambda>r. if isGenericRecord (dr_RR r) then [\<lparr>er_RR = record_key r, er_IPs = dr_IPs r, er_Name = dr_Domain r\<rparr>] else []) records))\<rparr>"

definition transformer :: "(Domain \<Rightarrow> DnsRecord list) \<Rightarrow> Domain list \<Rightarrow> DNS" where
  "transformer order data = \<lparr>dns_Domains = map (\<lambda>d. transform_domain (order d) d) data, dns_DNSDomain = [], dns_CoreDNSVIP = []\<rparr>"

definition renderCorefile :: "(DNS \<Rightarrow> goerr + string) \<Rightarrow> (Domain \<Rightarrow> DnsRecord list) \<Rightarrow> Domain list \<Rightarrow> string \<Rightarrow> string \<Rightarrow> goerr + string" where
  "renderCorefile RenderTo order data vip dnsDomain =
     RenderTo ((transformer order data)\<lparr>dns_DNSDomain := dnsDomain, dns_CoreDNSVIP := vip\<rparr>)"

subsection \<open>The reconciler\<close>

record ServicePort =
  sp_Name :: string
  sp_Protocol :: string
  sp_Port :: int
  sp_TargetPort :: int

definition UDP5300 :: ServicePort where "UDP5300 = \<lparr>sp_Name = ''5300udp'', sp_Protocol = ''UDP'', sp_Port = 5300, sp_TargetPort = 5300\<rparr>"
definition TCP5300 :: ServicePort where "TCP5300 = \<lparr>sp_Name = ''5300tcp'', sp_Protocol = ''TCP'', sp_Port = 5300, sp_TargetPort = 5300\<rparr>"

definition addonPorts :: "ServicePort list \<Rightarrow> ServicePort list" where
  "addonPorts data = data @ filter (\<lambda>p. sp_Name p \<notin> set (map sp_Name data)) [UDP5300, TCP5300]"

record DnsService =
  sv_ClusterIP :: string
  sv_Ports :: "ServicePort list"

record DnsCluster =
  dc_Name :: string
  dc_Deleting :: bool
  dc_DNSDomain :: string

record 'w DNSReconciler =
  dn_GetDomain :: "string \<Rightarrow> 'w \<Rightarrow> goerr + Domain"
  dn_ListDomains :: "'w \<Rightarrow> goerr + Domain list"
  dn_PutDomain :: "Domain \<Rightarrow> 'w \<Rightarrow> 'w"
  dn_UpdateDomain :: "Domain \<Rightarrow> ('w, Domain) io"
  dn_GetCluster :: "string \<Rightarrow> 'w \<Rightarrow> goerr + DnsCluster"
  dn_ListClusters :: "'w \<Rightarrow> goerr + DnsCluster list"
  dn_HasClient :: "string \<Rightarrow> 'w \<Rightarrow> bool"
  dn_GetService :: "string \<Rightarrow> 'w \<Rightarrow> goerr + DnsService"
  dn_UpdateService :: "string \<Rightarrow> DnsService \<Rightarrow> ('w, unit) io"
  dn_GetConfigMap :: "string \<Rightarrow> 'w \<Rightarrow> goerr + (string \<times> string) list option"
  dn_UpdateConfigMap :: "string \<Rightarrow> (string \<times> string) list option \<Rightarrow> ('w, unit) io"
  dn_RenderTo :: "DNS \<Rightarrow> goerr + string"
  dn_MD5 :: "string \<Rightarrow> string"
  dn_order :: "'w \<Rightarrow> Domain \<Rightarrow> DnsRecord list"

definition buildDomain :: "Domain list \<Rightarrow> string \<Rightarrow> Domain list" where
  "buildDomain domains clusterName = concat (map (\<lambda>d. replicate (count_list (dm_SyncCluster d) clusterName) d) domains)"

text \<open>The clusters to be removed from the list of a domain; an error of the lister, also \<open>NotFound\<close>, is returned.\<close>

fun removed_clusters :: "'w DNSReconciler \<Rightarrow> string list \<Rightarrow> 'w \<Rightarrow> goerr + string list" where
  "removed_clusters r [] w = Inr []"
| "removed_clusters r (cluName # names) w =
     (case dn_GetCluster r cluName w of
        Inl err \<Rightarrow> Inl err
      | Inr clu \<Rightarrow>
          (case removed_clusters r names w of
             Inl err \<Rightarrow> Inl err
           | Inr removed \<Rightarrow> Inr (if dc_Deleting clu then cluName # removed else removed)))"

definition put_domain :: "'w DNSReconciler \<Rightarrow> Domain \<Rightarrow> ('w, unit) io" where
  "put_domain r d = io_modify (dn_PutDomain r d)"

definition syncDomainCluster :: "'w DNSReconciler \<Rightarrow> Domain \<Rightarrow> ('w, unit) io" where
  "syncDomainCluster r domain =
     io_bind (io_read (removed_clusters r (dm_SyncCluster domain))) (\<lambda>removed.
       if removed = [] then io_ret ()
       else let domain = domain\<lparr>dm_SyncCluster := filter (\<lambda>n. n \<notin> set removed) (dm_SyncCluster domain)\<rparr> in
         io_bind (put_domain r domain) (\<lambda>_. io_bind (dn_UpdateDomain r domain) (\<lambda>_. io_ret ())))"

text \<open>Writing an entry of a nil map panics.\<close>

definition with_corefile :: "string \<Rightarrow> (string \<times> string) list option \<Rightarrow> goerr + (string \<times> string) list option" where
  "with_corefile corefile data =
     (case data of None \<Rightarrow> Inl (Panic ''assignment to entry in nil map'') | Some m \<Rightarrow> Inr (Some (AList.update ''Corefile'' corefile m)))"

definition data_value :: "(string \<times> string) list option \<Rightarrow> string \<Rightarrow> string" where
  "data_value data k = (case data of None \<Rightarrow> [] | Some m \<Rightarrow> (case map_of m k of None \<Rightarrow> [] | Some v \<Rightarrow> v))"

definition syncCluster :: "'w DNSReconciler \<Rightarrow> (string \<Rightarrow> Domain list) \<Rightarrow> DnsCluster \<Rightarrow> ('w, unit) io" where
  "syncCluster r m clu w =
     (if \<not> dn_HasClient r (dc_Name clu) w then (Inl (Plain ''get cluster client failed''), w)
      else io_bind (wrapped ''get coredns svc failed: '' (io_read (dn_GetService r (dc_Name clu)))) (\<lambda>svc.
           io_bind (wrapped ''failed to render corefile: ''
             (io_read (\<lambda>w. renderCorefile (dn_RenderTo r) (dn_order r w) (m (dc_Name clu)) (sv_ClusterIP svc) (dc_DNSDomain clu)))) (\<lambda>corefile.
           io_bind (wrapped ''get coredns configmap failed: '' (io_read (dn_GetConfigMap r (dc_Name clu)))) (\<lambda>configmap.
             if dn_MD5 r (data_value configmap ''Corefile'') = dn_MD5 r corefile then io_ret ()
             else io_bind (io_of (with_corefile corefile configmap)) (\<lambda>configmap.
                  io_bind (wrapped ''update coredns configmap failed: '' (dn_UpdateConfigMap r (dc_Name clu) configmap)) (\<lambda>_.
                    let addonPort = addonPorts (sv_Ports svc) in
                    if length addonPort \<noteq> length (sv_Ports svc)
                    then wrapped ''update coredns svc failed: '' (dn_UpdateService r (dc_Name clu) (svc\<lparr>sv_Ports := addonPort\<rparr>))
                    else io_ret ()))))) w)"

definition syncConfigMap :: "'w DNSReconciler \<Rightarrow> ('w, unit) io" where
  "syncConfigMap r =
     io_bind (io_read (dn_ListDomains r)) (\<lambda>originDomains.
     io_bind (io_read (dn_ListClusters r)) (\<lambda>clusters.
       io_forM clusters (syncCluster r (buildDomain originDomains))))"

definition dns_Reconcile :: "'w DNSReconciler \<Rightarrow> string \<Rightarrow> ('w, unit) io" where
  "dns_Reconcile r name =
     io_try (io_read (dn_GetDomain r name)) (\<lambda>err. if IsNotFound err then io_ret () else io_err err) (\<lambda>domain.
       let counted = domain\<lparr>dm_Count := int64 (int (length (dm_Records domain)))\<rparr>;
           recount = \<not> dm_Deleting domain \<and> dm_Count domain \<noteq> dm_Count counted;
           current = (if recount then counted else domain)
       in io_bind (if recount then io_bind (put_domain r counted) (\<lambda>_. io_bind (dn_UpdateDomain r counted) (\<lambda>_. io_ret ())) else io_ret ()) (\<lambda>_.
          io_bind (syncDomainCluster r current) (\<lambda>_. syncConfigMap r)))"

definition dns_findObjectsForCluster :: "'w DNSReconciler \<Rightarrow> DnsCluster \<Rightarrow> 'w \<Rightarrow> string list" where
  "dns_findObjectsForCluster r clu w =
     (if \<not> dc_Deleting clu then []
      else case dn_ListDomains r w of
        Inl _ \<Rightarrow> []
      | Inr domains \<Rightarrow> map dm_Name (filter (\<lambda>d. dc_Name clu \<in> set (dm_SyncCluster d)) domains))"

subsection \<open>The contract\<close>

text \<open>
  What is relied on: writing a domain touches no cluster, client or configuration; a configuration that is written is
  the one that is read, and no other changes; a service is apart from the configuration.
\<close>

locale dns_env =
  fixes r :: "'w DNSReconciler"
  assumes put_keeps: "dn_GetCluster r n (dn_PutDomain r d w) = dn_GetCluster r n w" "dn_GetConfigMap r n (dn_PutDomain r d w) = dn_GetConfigMap r n w"
    and domain_keeps: "dn_UpdateDomain r d w = (y, w') \<Longrightarrow> dn_GetCluster r n w' = dn_GetCluster r n w \<and> dn_GetConfigMap r n w' = dn_GetConfigMap r n w"
    and config_written: "dn_UpdateConfigMap r c data w = (Inr (), w') \<Longrightarrow> dn_GetConfigMap r c w' = Inr data"
    and config_keeps: "dn_UpdateConfigMap r c data w = (x, w') \<Longrightarrow> dn_HasClient r n w' = dn_HasClient r n w"
      "dn_UpdateConfigMap r c data w = (x, w') \<Longrightarrow> n \<noteq> c \<Longrightarrow> dn_GetConfigMap r n w' = dn_GetConfigMap r n w"
    and service_keeps: "dn_UpdateService r c svc w = (x, w') \<Longrightarrow> dn_HasClient r n w' = dn_HasClient r n w \<and> dn_GetConfigMap r n w' = dn_GetConfigMap r n w"
begin

lemma dangling_removed: "n \<in> set names \<Longrightarrow> dn_GetCluster r n w = Inl err \<Longrightarrow> isl (removed_clusters r names w)"
  by (induction names) (auto split: sum.splits)

definition apart :: "string \<Rightarrow> 'w \<Rightarrow> 'w \<Rightarrow> bool" where
  "apart c w w' \<longleftrightarrow> (\<forall>n. dn_HasClient r n w' = dn_HasClient r n w) \<and> (\<forall>n. n \<noteq> c \<longrightarrow> dn_GetConfigMap r n w' = dn_GetConfigMap r n w)"

lemma writes_apart: "io_keeps (apart c) (dn_UpdateConfigMap r c data)" "io_keeps (apart c) (dn_UpdateService r c svc)"
  by (auto simp: io_keeps_def apart_def dest: config_keeps service_keeps)

lemma apart_preorder: "preorder_rel (apart c)"
  by (auto simp: preorder_rel_def apart_def)

lemma sync_apart: "io_keeps (apart (dc_Name clu)) (syncCluster r m clu)"
proof -
  note rules = io_keeps_bind [OF apart_preorder] io_keeps_pure [OF apart_preorder] wrapped_keeps writes_apart
  have unchanged: "apart c w w" for c w by (simp add: apart_def)
  show ?thesis unfolding io_keeps_def syncCluster_def Let_def
    using unchanged by (auto split: if_splits elim!: io_keepsD [rotated] intro!: rules)
qed

lemma sync_keeps:
  assumes "syncCluster r m clu w = (x, w')"
  shows "dn_HasClient r n w' = dn_HasClient r n w" "n \<noteq> dc_Name clu \<Longrightarrow> dn_GetConfigMap r n w' = dn_GetConfigMap r n w"
  using io_keepsD [OF sync_apart assms] by (simp_all add: apart_def)

lemma sync_loop_keeps:
  "io_forM cs (syncCluster r m) w = (x, w') \<Longrightarrow> n \<notin> dc_Name ` set cs \<Longrightarrow> dn_GetConfigMap r n w' = dn_GetConfigMap r n w"
  by (induction cs arbitrary: w) (auto elim!: io_bind_cases dest: sync_keeps(2))

lemma synced:
  assumes "syncCluster r m clu w = (Inr (), w')"
  shows "\<exists>svc corefile data. dn_GetService r (dc_Name clu) w = Inr svc \<and>
    renderCorefile (dn_RenderTo r) (dn_order r w) (m (dc_Name clu)) (sv_ClusterIP svc) (dc_DNSDomain clu) = Inr corefile \<and>
    dn_GetConfigMap r (dc_Name clu) w' = Inr data \<and> dn_MD5 r (data_value data ''Corefile'') = dn_MD5 r corefile"
proof -
  have value_set: "with_corefile corefile old = Inr data \<Longrightarrow> data_value data ''Corefile'' = corefile" for corefile old data
    by (auto simp: with_corefile_def data_value_def update_conv split: option.splits)
  show ?thesis using assms
    by (auto simp: syncCluster_def Let_def io_bind_Inr wrapped_Inr split: if_splits dest!: config_written service_keeps value_set)
qed

lemma dangling_stops:
  assumes "dn_GetDomain r name w = Inr d" "n \<in> set (dm_SyncCluster d)" "dn_GetCluster r n w = Inl err" "dns_Reconcile r name w = (res, w')"
  shows "isl res \<and> (\<forall>c. dn_GetConfigMap r c w' = dn_GetConfigMap r c w)"
proof -
  have stop: "\<exists>e. syncDomainCluster r d' w1 = (Inl e, w1)"
    if "dn_GetCluster r n w1 = Inl err" "dm_SyncCluster d' = dm_SyncCluster d" for d' w1
    using dangling_removed [OF assms(2) that(1)] by (auto simp: syncDomainCluster_def that(2) io_bind_def isl_def)
  let ?counted = "d\<lparr>dm_Count := int64 (int (length (dm_Records d)))\<rparr>"
  show ?thesis
  proof (cases "\<not> dm_Deleting d \<and> dm_Count d \<noteq> dm_Count ?counted")
    case True
    obtain y w1 where u: "dn_UpdateDomain r ?counted (dn_PutDomain r ?counted w) = (y, w1)" by force
    have keeps: "dn_GetCluster r n w1 = Inl err" "dn_GetConfigMap r c w1 = dn_GetConfigMap r c w" for c
      using domain_keeps [OF u] put_keeps assms(3) by simp_all
    have "isl res \<and> w' = w1"
      using assms(1,4) True u stop [OF keeps(1), of ?counted]
      by (cases y) (auto simp: dns_Reconcile_def io_try_def Let_def put_domain_def io_bind_def)
    then show ?thesis using keeps(2) by simp
  next
    case False
    then show ?thesis using assms(1,4) stop [OF assms(3) refl]
      by (auto simp: dns_Reconcile_def io_try_def Let_def io_bind_def)
  qed
qed

lemma clientless_stops:
  assumes "dn_ListDomains r w = Inr ds" "dn_ListClusters r w = Inr (pre @ c # post)" "\<not> dn_HasClient r (dc_Name c) w"
    and "syncConfigMap r w = (res, w')"
  shows "isl res \<and> (\<forall>n. n \<notin> dc_Name ` set pre \<longrightarrow> dn_GetConfigMap r n w' = dn_GetConfigMap r n w)"
proof -
  have "isl x \<and> (\<forall>n. n \<notin> dc_Name ` set pre \<longrightarrow> dn_GetConfigMap r n w2 = dn_GetConfigMap r n w1)"
    if "io_forM (pre @ c # post) (syncCluster r m) w1 = (x, w2)" "\<not> dn_HasClient r (dc_Name c) w1" for m w1 w2 x
    using that
  proof (induction pre arbitrary: w1)
    case Nil
    then show ?case by (auto simp: syncCluster_def io_bind_def)
  next
    case (Cons p pre)
    show ?case
    proof (cases "fst (syncCluster r m p w1)")
      case (Inl e)
      then show ?thesis using Cons.prems(1) sync_keeps(2) [of m p w1] by (auto simp: io_bind_def split: prod.splits)
    next
      case (Inr u)
      then obtain w3 where p: "syncCluster r m p w1 = (Inr (), w3)" by (cases "syncCluster r m p w1") auto
      then show ?thesis using Cons.IH [of w3] Cons.prems sync_keeps [OF p] by (simp add: io_bind_def)
    qed
  qed
  then show ?thesis using assms by (auto simp: syncConfigMap_def elim!: io_bind_cases)
qed

lemma loop_synced:
  assumes "io_forM cs (syncCluster r m) w = (Inr (), w')" "distinct (map dc_Name cs)" "clu \<in> set cs"
  shows "\<exists>w1 svc corefile data. dn_GetService r (dc_Name clu) w1 = Inr svc \<and>
    renderCorefile (dn_RenderTo r) (dn_order r w1) (m (dc_Name clu)) (sv_ClusterIP svc) (dc_DNSDomain clu) = Inr corefile \<and>
    dn_GetConfigMap r (dc_Name clu) w' = Inr data \<and> dn_MD5 r (data_value data ''Corefile'') = dn_MD5 r corefile"
  using assms
proof (induction cs arbitrary: w)
  case (Cons c cs)
  from Cons.prems(1) obtain w1 where 1: "syncCluster r m c w = (Inr (), w1)" "io_forM cs (syncCluster r m) w1 = (Inr (), w')"
    by (auto simp: io_bind_Inr)
  show ?case
  proof (cases "clu = c")
    case True
    then have "dn_GetConfigMap r (dc_Name clu) w' = dn_GetConfigMap r (dc_Name clu) w1"
      using sync_loop_keeps [OF 1(2)] Cons.prems(2) by simp
    then show ?thesis using synced [OF 1(1)] unfolding True by (metis (no_types, lifting))
  qed (use Cons.IH [OF 1(2)] Cons.prems in auto)
qed simp

end

subsection \<open>A world with clusters\<close>

record dns_world =
  dw_domains :: "Domain list"
  dw_clusters :: "DnsCluster list"
  dw_clients :: "string list"
  dw_services :: "string \<Rightarrow> DnsService"
  dw_configs :: "string \<Rightarrow> (string \<times> string) list option"

definition find_named :: "string \<Rightarrow> ('a \<Rightarrow> string) \<Rightarrow> 'a list \<Rightarrow> string \<Rightarrow> goerr + 'a" where
  "find_named kind name_of xs n = (case find (\<lambda>x. name_of x = n) xs of None \<Rightarrow> Inl (NotFound kind n) | Some x \<Rightarrow> Inr x)"

definition put_named :: "Domain \<Rightarrow> dns_world \<Rightarrow> dns_world" where
  "put_named d w = w\<lparr>dw_domains := map (\<lambda>x. if dm_Name x = dm_Name d then d else x) (dw_domains w)\<rparr>"

definition mem_dns :: "dns_world DNSReconciler" where
  "mem_dns = \<lparr>
     dn_GetDomain = (\<lambda>n w. find_named ''domain'' dm_Name (dw_domains w) n),
     dn_ListDomains = (\<lambda>w. Inr (dw_domains w)),
     dn_PutDomain = put_named,
     dn_UpdateDomain = (\<lambda>d w. (Inr d, put_named d w)),
     dn_GetCluster = (\<lambda>n w. find_named ''cluster'' dc_Name (dw_clusters w) n),
     dn_ListClusters = (\<lambda>w. Inr (dw_clusters w)),
     dn_HasClient = (\<lambda>n w. n \<in> set (dw_clients w)),
     dn_GetService = (\<lambda>n w. Inr (dw_services w n)),
     dn_UpdateService = (\<lambda>n svc w. (Inr (), w\<lparr>dw_services := (dw_services w)(n := svc)\<rparr>)),
     dn_GetConfigMap = (\<lambda>n w. Inr (dw_configs w n)),
     dn_UpdateConfigMap = (\<lambda>n data w. (Inr (), w\<lparr>dw_configs := (dw_configs w)(n := data)\<rparr>)),
     dn_RenderTo = (\<lambda>dns. Inr (concat (map de_Name (dns_Domains dns)))),
     dn_MD5 = id,
     dn_order = (\<lambda>w d. map snd (dm_Records d))\<rparr>"

interpretation mem_dns: dns_env mem_dns
  by unfold_locales (auto simp: mem_dns_def put_named_def)

subsection \<open>Properties\<close>

lemma buildDomain_in: "d \<in> set (buildDomain ds c) \<longleftrightarrow> d \<in> set ds \<and> c \<in> set (dm_SyncCluster d)"
proof -
  have "0 < count_list xs c \<longleftrightarrow> c \<in> set xs" for xs :: "string list" using count_list_0_iff [of xs c] by auto
  then show ?thesis by (auto simp: buildDomain_def)
qed

text \<open>
  A synchronisation that succeeds leaves in every cluster a configuration whose digest is that of the rendering of
  exactly the domains that name the cluster.
\<close>

theorem corefiles_synced:
  assumes "dns_env r" "syncConfigMap r w = (Inr (), w')" "dn_ListDomains r w = Inr ds" "dn_ListClusters r w = Inr cs"
    and "distinct (map dc_Name cs)" "clu \<in> set cs"
  shows "\<exists>w1 svc corefile data. dn_GetService r (dc_Name clu) w1 = Inr svc \<and>
    renderCorefile (dn_RenderTo r) (dn_order r w1) (buildDomain ds (dc_Name clu)) (sv_ClusterIP svc) (dc_DNSDomain clu) = Inr corefile \<and>
    dn_GetConfigMap r (dc_Name clu) w' = Inr data \<and> dn_MD5 r (data_value data ''Corefile'') = dn_MD5 r corefile"
proof -
  have "io_forM cs (syncCluster r (buildDomain ds)) w = (Inr (), w')" using assms(2-4) by (simp add: syncConfigMap_def io_bind_def)
  then show ?thesis by (rule dns_env.loop_synced [OF assms(1) _ assms(5,6)])
qed

text \<open>
  A domain that names a cluster which no longer exists is stuck: every reconciliation ends with an error before any
  configuration is written, in that cluster or another, although the code after the lookup means to remove such a
  cluster from the list.
\<close>

theorem dangling_cluster_blocks:
  assumes "dns_env r" "dn_GetDomain r name w = Inr d" "n \<in> set (dm_SyncCluster d)" "dn_GetCluster r n w = Inl err"
    and "dns_Reconcile r name w = (res, w')"
  shows "isl res \<and> (\<forall>c. dn_GetConfigMap r c w' = dn_GetConfigMap r c w)"
  by (rule dns_env.dangling_stops [OF assms])

text \<open>A cluster without a client, as while it is being installed, stops the synchronisation of all clusters listed after it.\<close>

theorem clientless_cluster_stops_sync:
  assumes "dns_env r" "dn_ListDomains r w = Inr ds" "dn_ListClusters r w = Inr (pre @ c # post)" "\<not> dn_HasClient r (dc_Name c) w"
    and "syncConfigMap r w = (res, w')"
  shows "isl res \<and> (\<forall>n. n \<notin> dc_Name ` set pre \<longrightarrow> dn_GetConfigMap r n w' = dn_GetConfigMap r n w)"
  by (rule dns_env.clientless_stops [OF assms])

text \<open>A domain that has been deleted stays in the configurations: its reconciliation does nothing.\<close>

theorem deleted_domain_kept:
  assumes "dn_GetDomain r name w = Inl err" "IsNotFound err"
  shows "dns_Reconcile r name w = (Inr (), w)"
  using assms by (simp add: dns_Reconcile_def io_try_def)

text \<open>The order in which the records of a domain are visited shows in the rendering, so equal domains may be written again and again.\<close>

lemma order_shows:
  assumes "\<not> isGenericRecord (dr_RR r1)" "\<not> isGenericRecord (dr_RR r2)" "record_key r1 \<noteq> record_key r2" "dr_IPs r1 \<noteq> []" "dr_IPs r2 \<noteq> []"
  shows "transform_domain [r1, r2] d \<noteq> transform_domain [r2, r1] d"
  using assms by (cases "dr_IPs r1"; cases "dr_IPs r2") (auto simp: transform_domain_def)

end
