(* ===== verification/Ctrl_Runtime.thy ===== *)
theory Ctrl_Runtime
  imports Op_Controller
begin

text \<open>
  The controller runtime (\<^verbatim>\<open>pkg/controller-runtime\<close>): from a notification of an informer through predicates and
  event handlers to requests in a work queue, the workers that take requests out and reconcile them,
  and the leases by which the manager shows that it is alive.  The work queue itself is a library of
  Kubernetes; its documented contract is the locale \<open>work_queue\<close>, and a queue that follows the library's algorithm is an
  instance of it.  The result of a reconciliation is the \<open>Result\<close> of the operation controller.
\<close>

subsection \<open>Events and handlers\<close>

record ReconcileRequest =
  rq_Namespace :: string
  rq_Name :: string

text \<open>An object that is nil is \<^const>\<open>None\<close>.\<close>

datatype 'o ctrl_event =
    CreateEvent "'o option"
  | UpdateEvent "'o option" "'o option"
  | DeleteEvent "'o option"
  | GenericEvent "'o option"

text \<open>A handler is given by the requests it adds to the queue, in their order.\<close>

definition EnqueueRequestForObject :: "('o \<Rightarrow> ReconcileRequest) \<Rightarrow> 'o ctrl_event \<Rightarrow> ReconcileRequest list" where
  "EnqueueRequestForObject key evt =
     (case evt of
        UpdateEvent old new \<Rightarrow> (case new of Some obj \<Rightarrow> [key obj] | None \<Rightarrow> (case old of Some obj \<Rightarrow> [key obj] | None \<Rightarrow> []))
      | CreateEvent obj \<Rightarrow> (case obj of Some obj \<Rightarrow> [key obj] | None \<Rightarrow> [])
      | DeleteEvent obj \<Rightarrow> (case obj of Some obj \<Rightarrow> [key obj] | None \<Rightarrow> [])
      | GenericEvent obj \<Rightarrow> (case obj of Some obj \<Rightarrow> [key obj] | None \<Rightarrow> []))"

text \<open>The loop of \<^verbatim>\<open>mapAndEnqueue\<close>: what is added and what has been added so far.\<close>

fun mapAndEnqueue :: "'r list \<Rightarrow> 'r list \<Rightarrow> 'r list \<times> 'r list" where
  "mapAndEnqueue [] reqs = ([], reqs)"
| "mapAndEnqueue (req # rest) reqs =
     (if req \<in> set reqs then mapAndEnqueue rest reqs
      else (case mapAndEnqueue rest (req # reqs) of (added, reqs') \<Rightarrow> (req # added, reqs')))"

definition EnqueueRequestsFromMapFunc :: "('o option \<Rightarrow> ReconcileRequest list) \<Rightarrow> 'o ctrl_event \<Rightarrow> ReconcileRequest list" where
  "EnqueueRequestsFromMapFunc toRequests evt =
     (case evt of
        UpdateEvent old new \<Rightarrow>
          (case mapAndEnqueue (toRequests old) [] of (added, reqs) \<Rightarrow> added @ fst (mapAndEnqueue (toRequests new) reqs))
      | CreateEvent obj \<Rightarrow> fst (mapAndEnqueue (toRequests obj) [])
      | DeleteEvent obj \<Rightarrow> fst (mapAndEnqueue (toRequests obj) [])
      | GenericEvent obj \<Rightarrow> fst (mapAndEnqueue (toRequests obj) []))"

lemma mapAndEnqueue_facts:
  "set (fst (mapAndEnqueue rs reqs)) = set rs - set reqs \<and> distinct (fst (mapAndEnqueue rs reqs)) \<and>
   set (snd (mapAndEnqueue rs reqs)) = set rs \<union> set reqs"
proof (induction rs arbitrary: reqs)
  case (Cons r rs)
  show ?case using Cons.IH [of reqs] Cons.IH [of "r # reqs"] by (cases "r \<in> set reqs") (auto simp: split_beta)
qed simp

text \<open>A handler that maps objects adds every request of the old and the new object exactly once.\<close>

theorem mapped_once:
  "distinct (EnqueueRequestsFromMapFunc f evt) \<and>
   set (EnqueueRequestsFromMapFunc f evt) =
     (case evt of UpdateEvent old new \<Rightarrow> set (f old) \<union> set (f new) | CreateEvent o' \<Rightarrow> set (f o') | DeleteEvent o' \<Rightarrow> set (f o')
      | GenericEvent o' \<Rightarrow> set (f o'))"
proof (cases evt)
  case (UpdateEvent old new)
  then show ?thesis unfolding EnqueueRequestsFromMapFunc_def by (auto simp: mapAndEnqueue_facts split_beta)
qed (simp_all add: EnqueueRequestsFromMapFunc_def mapAndEnqueue_facts)

subsection \<open>Predicates and notifications\<close>

record 'o Funcs =
  pf_CreateFunc :: "('o ctrl_event \<Rightarrow> bool) option"
  pf_DeleteFunc :: "('o ctrl_event \<Rightarrow> bool) option"
  pf_UpdateFunc :: "('o ctrl_event \<Rightarrow> bool) option"
  pf_GenericFunc :: "('o ctrl_event \<Rightarrow> bool) option"

definition optional_pred :: "('e \<Rightarrow> bool) option \<Rightarrow> 'e \<Rightarrow> bool" where
  "optional_pred p e = (case p of None \<Rightarrow> True | Some f \<Rightarrow> f e)"

definition admits :: "'o Funcs \<Rightarrow> 'o ctrl_event \<Rightarrow> bool" where
  "admits p e =
     (case e of
        CreateEvent _ \<Rightarrow> optional_pred (pf_CreateFunc p) e
      | DeleteEvent _ \<Rightarrow> optional_pred (pf_DeleteFunc p) e
      | UpdateEvent _ _ \<Rightarrow> optional_pred (pf_UpdateFunc p) e
      | GenericEvent _ \<Rightarrow> optional_pred (pf_GenericFunc p) e)"

text \<open>What an informer passes to its callbacks: an object, the tombstone of a deletion that was missed, or something else.\<close>

datatype 'o informed = Object 'o | Tombstone "'o option" | Alien

datatype 'o notification = Added "'o informed" | Updated "'o informed" "'o informed" | Deleted "'o informed"

definition OnAdd :: "'o informed \<Rightarrow> 'o ctrl_event option" where
  "OnAdd x = (case x of Object o' \<Rightarrow> Some (CreateEvent (Some o')) | _ \<Rightarrow> None)"

definition OnUpdate :: "'o informed \<Rightarrow> 'o informed \<Rightarrow> 'o ctrl_event option" where
  "OnUpdate old new = (case (old, new) of (Object x, Object y) \<Rightarrow> Some (UpdateEvent (Some x) (Some y)) | _ \<Rightarrow> None)"

definition OnDelete :: "'o informed \<Rightarrow> 'o ctrl_event option" where
  "OnDelete x =
     (case x of
        Object o' \<Rightarrow> Some (DeleteEvent (Some o'))
      | Tombstone t \<Rightarrow> (case t of Some o' \<Rightarrow> Some (DeleteEvent (Some o')) | None \<Rightarrow> None)
      | Alien \<Rightarrow> None)"

definition event_of :: "'o notification \<Rightarrow> 'o ctrl_event option" where
  "event_of n = (case n of Added x \<Rightarrow> OnAdd x | Updated x y \<Rightarrow> OnUpdate x y | Deleted x \<Rightarrow> OnDelete x)"

record ('w, 'o) watchDescription =
  wd_handler :: "'w \<Rightarrow> 'o ctrl_event \<Rightarrow> ReconcileRequest list"
  wd_predicates :: "'o Funcs list"

definition dispatch :: "('w, 'o) watchDescription \<Rightarrow> 'o notification \<Rightarrow> 'w \<Rightarrow> ReconcileRequest list" where
  "dispatch d n w =
     (case event_of n of
        None \<Rightarrow> []
      | Some evt \<Rightarrow> if list_all (\<lambda>p. admits p evt) (wd_predicates d) then wd_handler d w evt else [])"

subsection \<open>Workers\<close>

datatype work_item = ReqItem ReconcileRequest | OtherItem string

text \<open>\<open>ShuttingDown\<close> ends a worker; on \<open>Blocked\<close> it waits.\<close>

datatype 'q got = Got work_item 'q | Blocked | ShuttingDown

record 'q Queue =
  q_Add :: "work_item \<Rightarrow> 'q \<Rightarrow> 'q"
  q_Get :: "'q \<Rightarrow> 'q got"
  q_Done :: "work_item \<Rightarrow> 'q \<Rightarrow> 'q"
  q_AddRateLimited :: "work_item \<Rightarrow> 'q \<Rightarrow> 'q"
  q_AddAfter :: "work_item \<Rightarrow> duration \<Rightarrow> 'q \<Rightarrow> 'q"
  q_Forget :: "work_item \<Rightarrow> 'q \<Rightarrow> 'q"
  q_Expire :: "work_item \<Rightarrow> 'q \<Rightarrow> 'q"

record 'w ctrl =
  ct_Name :: string
  ct_MaxConcurrentReconciles :: int
  ct_CacheSyncTimeout :: duration
  ct_Do :: "ReconcileRequest \<Rightarrow> ('w, Result) io"
  ct_RecoverPanic :: bool
  ct_Stack :: string

definition NewUnmanaged :: "string \<Rightarrow> (ReconcileRequest \<Rightarrow> ('w, Result) io) option \<Rightarrow> int \<Rightarrow> duration \<Rightarrow> bool \<Rightarrow> string \<Rightarrow> goerr + 'w ctrl" where
  "NewUnmanaged name Reconciler MaxConcurrentReconciles CacheSyncTimeout RecoverPanic stack =
     (case Reconciler of
        None \<Rightarrow> Inl (Plain ''must specify Reconciler'')
      | Some run \<Rightarrow>
          if name = [] then Inl (Plain ''must specify Name for Controller'')
          else Inr \<lparr>ct_Name = name, ct_MaxConcurrentReconciles = (if MaxConcurrentReconciles \<le> 0 then 1 else MaxConcurrentReconciles),
            ct_CacheSyncTimeout = (if CacheSyncTimeout = 0 then 2 * Minute else CacheSyncTimeout), ct_Do = run,
            ct_RecoverPanic = RecoverPanic, ct_Stack = stack\<rparr>)"

definition ctrl_Reconcile :: "'w ctrl \<Rightarrow> ReconcileRequest \<Rightarrow> ('w, Result) io" where
  "ctrl_Reconcile c req w =
     (case ct_Do c req w of
        (Inl (Panic m), w') \<Rightarrow>
          (if ct_RecoverPanic c then (Inl (Plain (''panic: '' @ m @ '' [recovered]'' @ CHR 0x0A # ct_Stack c)), w') else (Inl (Panic m), w'))
      | other \<Rightarrow> other)"

text \<open>A panic that is not recovered ends the process: the result is \<^const>\<open>None\<close>.\<close>

definition reconcileHandler :: "'w ctrl \<Rightarrow> 'q Queue \<Rightarrow> work_item \<Rightarrow> 'q \<Rightarrow> 'w \<Rightarrow> ('q \<times> 'w) option" where
  "reconcileHandler c qs obj q w =
     (case obj of
        OtherItem _ \<Rightarrow> Some (q_Forget qs obj q, w)
      | ReqItem req \<Rightarrow>
          (case ctrl_Reconcile c req w of
             (Inl (Panic _), _) \<Rightarrow> None
           | (Inl err, w') \<Rightarrow> Some (q_AddRateLimited qs (ReqItem req) q, w')
           | (Inr result, w') \<Rightarrow>
               if RequeueAfter result > 0 then Some (q_AddAfter qs (ReqItem req) (RequeueAfter result) (q_Forget qs obj q), w')
               else if Requeue result then Some (q_AddRateLimited qs (ReqItem req) q, w')
               else Some (q_Forget qs obj q, w')))"

text \<open>\<^verbatim>\<open>processNextWorkItem\<close> after \<^verbatim>\<open>Get\<close>: the deferred \<^verbatim>\<open>Done\<close> comes last.\<close>

definition processWorkItem :: "'w ctrl \<Rightarrow> 'q Queue \<Rightarrow> work_item \<Rightarrow> 'q \<Rightarrow> 'w \<Rightarrow> ('q \<times> 'w) option" where
  "processWorkItem c qs obj q w = map_option (\<lambda>(q', w'). (q_Done qs obj q', w')) (reconcileHandler c qs obj q w)"

subsection \<open>The system of watches and workers\<close>

text \<open>
  Between \<^verbatim>\<open>Get\<close> and the end of its reconciliation a worker holds an item.  Two history variables say what is owed:
  \<open>rt_fresh\<close> are the items added for a notification that no worker has taken since, \<open>rt_held\<close> those that a worker has taken
  and not yet reconciled without an error.
\<close>

record ('q, 'w) runtime =
  rt_queue :: 'q
  rt_world :: 'w
  rt_workers :: "nat \<Rightarrow> work_item option"
  rt_fresh :: "work_item set"
  rt_held :: "work_item set"

definition runtime_init :: "'q \<Rightarrow> 'w \<Rightarrow> ('q, 'w) runtime" where
  "runtime_init q w = \<lparr>rt_queue = q, rt_world = w, rt_workers = (\<lambda>_. None), rt_fresh = {}, rt_held = {}\<rparr>"

definition add_all :: "'q Queue \<Rightarrow> ReconcileRequest list \<Rightarrow> 'q \<Rightarrow> 'q" where
  "add_all qs reqs q = foldl (\<lambda>q r. q_Add qs (ReqItem r) q) q reqs"

definition succeeded :: "'w ctrl \<Rightarrow> work_item \<Rightarrow> 'w \<Rightarrow> bool" where
  "succeeded c item w = (case item of OtherItem _ \<Rightarrow> True | ReqItem req \<Rightarrow> \<not> isl (fst (ctrl_Reconcile c req w)))"

inductive runtime_step :: "'w ctrl \<Rightarrow> 'q Queue \<Rightarrow> ('w, 'o) watchDescription list \<Rightarrow> ('q, 'w) runtime \<Rightarrow> ('q, 'w) runtime \<Rightarrow> bool"
  for c :: "'w ctrl" and qs :: "'q Queue" and watches :: "('w, 'o) watchDescription list" where
  notify: "d \<in> set watches \<Longrightarrow> reqs = dispatch d n w' \<Longrightarrow>
    runtime_step c qs watches s (s\<lparr>rt_queue := add_all qs reqs (rt_queue s), rt_world := w', rt_fresh := rt_fresh s \<union> ReqItem ` set reqs\<rparr>)"
| take_item: "int i < ct_MaxConcurrentReconciles c \<Longrightarrow> rt_workers s i = None \<Longrightarrow> q_Get qs (rt_queue s) = Got item q' \<Longrightarrow>
    runtime_step c qs watches s (s\<lparr>rt_queue := q', rt_workers := (rt_workers s)(i \<mapsto> item), rt_fresh := rt_fresh s - {item},
      rt_held := (if item \<in> rt_fresh s then insert item (rt_held s) else rt_held s)\<rparr>)"
| finish_item: "rt_workers s i = Some item \<Longrightarrow> processWorkItem c qs item (rt_queue s) (rt_world s) = Some (q', w') \<Longrightarrow>
    runtime_step c qs watches s (s\<lparr>rt_queue := q', rt_world := w', rt_workers := (rt_workers s)(i := None),
      rt_held := (if succeeded c item (rt_world s) then rt_held s - {item} else rt_held s)\<rparr>)"
| timer: "runtime_step c qs watches s (s\<lparr>rt_queue := q_Expire qs item (rt_queue s)\<rparr>)"

lemma ran_erase:
  assumes "inj_on m (dom m)" "m i = Some x"
  shows "ran (m(i := None)) = ran m - {x}"
proof (intro set_eqI iffI)
  fix y assume "y \<in> ran (m(i := None))"
  then obtain j where "j \<noteq> i" "m j = Some y" by (auto simp: ran_def split: if_splits)
  then show "y \<in> ran m - {x}" using assms by (metis DiffI domI inj_onD ranI singletonD)
next
  fix y assume "y \<in> ran m - {x}"
  then obtain j where "m j = Some y" "y \<noteq> x" by (auto simp: ran_def)
  then have "(m(i := None)) j = Some y" using assms(2) by auto
  then show "y \<in> ran (m(i := None))" by (rule ranI)
qed

text \<open>
  The contract of the work queue.  \<open>waiting\<close> are the items that will be handed out, at once or after a delay, \<open>busy\<close> those
  handed out and not yet done.  An item is never handed out while it is busy; one that is added meanwhile waits.
\<close>

locale work_queue =
  fixes qs :: "'q Queue" and sane :: "'q \<Rightarrow> bool" and waiting busy :: "'q \<Rightarrow> work_item set"
  assumes add: "sane q \<Longrightarrow> sane (q_Add qs x q) \<and> waiting (q_Add qs x q) = insert x (waiting q) \<and> busy (q_Add qs x q) = busy q"
    and add_limited: "sane q \<Longrightarrow> sane (q_AddRateLimited qs x q) \<and> waiting (q_AddRateLimited qs x q) = insert x (waiting q) \<and>
      busy (q_AddRateLimited qs x q) = busy q"
    and add_after: "sane q \<Longrightarrow> sane (q_AddAfter qs x d q) \<and> waiting (q_AddAfter qs x d q) = insert x (waiting q) \<and> busy (q_AddAfter qs x d q) = busy q"
    and forget: "sane q \<Longrightarrow> sane (q_Forget qs x q) \<and> waiting (q_Forget qs x q) = waiting q \<and> busy (q_Forget qs x q) = busy q"
    and expire: "sane q \<Longrightarrow> sane (q_Expire qs x q) \<and> waiting (q_Expire qs x q) = waiting q \<and> busy (q_Expire qs x q) = busy q"
    and get: "sane q \<Longrightarrow> q_Get qs q = Got x q' \<Longrightarrow> sane q' \<and> x \<in> waiting q - busy q \<and> waiting q - {x} \<subseteq> waiting q' \<and> busy q' = insert x (busy q)"
    and fin: "sane q \<Longrightarrow> sane (q_Done qs x q) \<and> waiting (q_Done qs x q) = waiting q \<and> busy (q_Done qs x q) = busy q - {x}"
begin

lemma add_all_laws:
  "sane q \<Longrightarrow> sane (add_all qs reqs q) \<and> waiting (add_all qs reqs q) = waiting q \<union> ReqItem ` set reqs \<and> busy (add_all qs reqs q) = busy q"
  unfolding add_all_def by (induction reqs arbitrary: q) (auto simp: add)

text \<open>An item whose reconciliation fails or asks for another turn waits again when the worker is done with it.\<close>

lemma process_laws:
  assumes "sane q" "processWorkItem c qs item q w = Some (q', w')"
  shows "sane q'" "waiting q \<subseteq> waiting q'" "busy q' = busy q - {item}" "\<not> succeeded c item w \<Longrightarrow> item \<in> waiting q'"
  using assms
  by (auto simp: processWorkItem_def reconcileHandler_def succeeded_def add_limited add_after forget fin
      split: work_item.splits prod.splits sum.splits goerr.splits if_splits)

definition rt_inv :: "'w ctrl \<Rightarrow> ('q, 'w) runtime \<Rightarrow> bool" where
  "rt_inv c s \<longleftrightarrow> sane (rt_queue s) \<and> rt_fresh s \<subseteq> waiting (rt_queue s) \<and> rt_held s \<subseteq> waiting (rt_queue s) \<union> busy (rt_queue s) \<and>
     busy (rt_queue s) = ran (rt_workers s) \<and> inj_on (rt_workers s) (dom (rt_workers s)) \<and>
     (\<forall>i \<in> dom (rt_workers s). int i < ct_MaxConcurrentReconciles c)"

lemma init_inv: "sane q \<Longrightarrow> busy q = {} \<Longrightarrow> rt_inv c (runtime_init q w)"
  by (auto simp: rt_inv_def runtime_init_def)

lemma step_inv: "runtime_step c qs watches s s' \<Longrightarrow> rt_inv c s \<Longrightarrow> rt_inv c s'"
proof (induction rule: runtime_step.induct)
  case (notify d reqs n w' s)
  then show ?case using add_all_laws [of "rt_queue s" reqs] by (auto simp: rt_inv_def)
next
  case (take_item i s item q')
  then have I: "sane (rt_queue s)" "rt_fresh s \<subseteq> waiting (rt_queue s)" "rt_held s \<subseteq> waiting (rt_queue s) \<union> busy (rt_queue s)"
    "busy (rt_queue s) = ran (rt_workers s)" "inj_on (rt_workers s) (dom (rt_workers s))" by (auto simp: rt_inv_def)
  have G: "sane q'" "item \<notin> ran (rt_workers s)" "waiting (rt_queue s) - {item} \<subseteq> waiting q'" "busy q' = insert item (busy (rt_queue s))"
    using get [OF I(1) take_item.hyps(3)] I(4) by auto
  have "inj_on ((rt_workers s)(i \<mapsto> item)) (insert i (dom (rt_workers s)))"
    using I(5) G(2) by (auto simp: inj_on_def ran_def)
  moreover have "ran ((rt_workers s)(i \<mapsto> item)) = insert item (ran (rt_workers s))" using take_item.hyps(2) by (rule ran_map_upd)
  ultimately show ?case using take_item.prems take_item.hyps(1) I G by (auto simp: rt_inv_def)
next
  case (finish_item s i item q' w')
  then have I: "sane (rt_queue s)" "rt_fresh s \<subseteq> waiting (rt_queue s)" "rt_held s \<subseteq> waiting (rt_queue s) \<union> busy (rt_queue s)"
    "busy (rt_queue s) = ran (rt_workers s)" "inj_on (rt_workers s) (dom (rt_workers s))" by (auto simp: rt_inv_def)
  note P = process_laws [OF I(1) finish_item.hyps(2)]
  have "ran ((rt_workers s)(i := None)) = ran (rt_workers s) - {item}"
    using I(5) finish_item.hyps(1) by (rule ran_erase)
  moreover have "inj_on ((rt_workers s)(i := None)) (dom (rt_workers s) - {i})" using I(5) by (auto simp: inj_on_def)
  ultimately show ?case using finish_item.prems I P by (auto simp: rt_inv_def)
next
  case (timer s item)
  then show ?case by (auto simp: rt_inv_def expire)
qed

lemma reach_inv: "(runtime_step c qs watches)\<^sup>*\<^sup>* s s' \<Longrightarrow> rt_inv c s \<Longrightarrow> rt_inv c s'"
  by (induction rule: rtranclp_induct) (auto dest: step_inv)

end

subsection \<open>A work queue\<close>

text \<open>
  The queue of the Kubernetes client library: items that are dirty are either in the list or busy and put into the
  list when they are done; delayed items become dirty when their timer fires.
\<close>

record wqueue =
  wq_queue :: "work_item list"
  wq_dirty :: "work_item list"
  wq_processing :: "work_item list"
  wq_delayed :: "work_item list"

definition wq_Add :: "work_item \<Rightarrow> wqueue \<Rightarrow> wqueue" where
  "wq_Add x q =
     (if x \<in> set (wq_dirty q) then q
      else let q = q\<lparr>wq_dirty := x # wq_dirty q\<rparr> in
        if x \<in> set (wq_processing q) then q else q\<lparr>wq_queue := wq_queue q @ [x]\<rparr>)"

definition wq_Get :: "wqueue \<Rightarrow> wqueue got" where
  "wq_Get q =
     (case wq_queue q of
        [] \<Rightarrow> Blocked
      | x # xs \<Rightarrow> Got x (q\<lparr>wq_queue := xs, wq_processing := x # wq_processing q, wq_dirty := removeAll x (wq_dirty q)\<rparr>))"

definition wq_Done :: "work_item \<Rightarrow> wqueue \<Rightarrow> wqueue" where
  "wq_Done x q =
     (let q' = q\<lparr>wq_processing := removeAll x (wq_processing q)\<rparr> in
      if x \<in> set (wq_dirty q) \<and> x \<in> set (wq_processing q) then q'\<lparr>wq_queue := wq_queue q' @ [x]\<rparr> else q')"

definition wq_delay :: "work_item \<Rightarrow> wqueue \<Rightarrow> wqueue" where
  "wq_delay x q = q\<lparr>wq_delayed := x # wq_delayed q\<rparr>"

definition wq_Expire :: "work_item \<Rightarrow> wqueue \<Rightarrow> wqueue" where
  "wq_Expire x q = (if x \<in> set (wq_delayed q) then wq_Add x (q\<lparr>wq_delayed := removeAll x (wq_delayed q)\<rparr>) else q)"

definition wqueues :: "wqueue Queue" where
  "wqueues = \<lparr>q_Add = wq_Add, q_Get = wq_Get, q_Done = wq_Done, q_AddRateLimited = wq_delay,
     q_AddAfter = (\<lambda>x d q. if d \<le> 0 then wq_Add x q else wq_delay x q), q_Forget = (\<lambda>x q. q), q_Expire = wq_Expire\<rparr>"

definition wq_wf :: "wqueue \<Rightarrow> bool" where
  "wq_wf q \<longleftrightarrow> set (wq_queue q) = set (wq_dirty q) - set (wq_processing q) \<and> distinct (wq_queue q)"

definition wq_waiting :: "wqueue \<Rightarrow> work_item set" where "wq_waiting q = set (wq_dirty q) \<union> set (wq_delayed q)"
definition wq_busy :: "wqueue \<Rightarrow> work_item set" where "wq_busy q = set (wq_processing q)"

lemmas wq_defs = wq_Add_def wq_Get_def wq_Done_def wq_delay_def wq_Expire_def wqueues_def wq_wf_def wq_waiting_def wq_busy_def Let_def

interpretation wq: work_queue wqueues wq_wf wq_waiting wq_busy
proof
  fix q x q' d
  assume q: "wq_wf q"
  have add: "wq_wf (wq_Add x q) \<and> wq_waiting (wq_Add x q) = insert x (wq_waiting q) \<and> wq_busy (wq_Add x q) = wq_busy q" if "wq_wf q" for q
    using that by (auto simp: wq_defs)
  show "wq_wf (q_Add wqueues x q) \<and> wq_waiting (q_Add wqueues x q) = insert x (wq_waiting q) \<and> wq_busy (q_Add wqueues x q) = wq_busy q"
    using add [OF q] by (simp add: wqueues_def)
  show limited: "wq_wf (q_AddRateLimited wqueues x q) \<and> wq_waiting (q_AddRateLimited wqueues x q) = insert x (wq_waiting q) \<and>
      wq_busy (q_AddRateLimited wqueues x q) = wq_busy q" using q by (auto simp: wq_defs)
  show "wq_wf (q_AddAfter wqueues x d q) \<and> wq_waiting (q_AddAfter wqueues x d q) = insert x (wq_waiting q) \<and>
      wq_busy (q_AddAfter wqueues x d q) = wq_busy q" using add [OF q] limited by (simp add: wqueues_def)
  show "wq_wf (q_Forget wqueues x q) \<and> wq_waiting (q_Forget wqueues x q) = wq_waiting q \<and> wq_busy (q_Forget wqueues x q) = wq_busy q"
    using q by (simp add: wqueues_def)
  show "wq_wf (q_Expire wqueues x q) \<and> wq_waiting (q_Expire wqueues x q) = wq_waiting q \<and> wq_busy (q_Expire wqueues x q) = wq_busy q"
  proof (cases "x \<in> set (wq_delayed q)")
    case True
    have "wq_wf (q\<lparr>wq_delayed := removeAll x (wq_delayed q)\<rparr>)" using q by (simp add: wq_wf_def)
    moreover have "wq_waiting q = insert x (wq_waiting (q\<lparr>wq_delayed := removeAll x (wq_delayed q)\<rparr>))" using True by (auto simp: wq_waiting_def)
    ultimately show ?thesis using True add by (simp add: wqueues_def wq_Expire_def) (simp add: wq_busy_def)
  qed (use q in \<open>simp add: wqueues_def wq_Expire_def\<close>)
  show "wq_wf (q_Done wqueues x q) \<and> wq_waiting (q_Done wqueues x q) = wq_waiting q \<and> wq_busy (q_Done wqueues x q) = wq_busy q - {x}"
    using q by (auto simp: wq_defs)
  assume "q_Get wqueues q = Got x q'"
  then obtain xs where xs: "wq_queue q = x # xs" and
    q': "q' = q\<lparr>wq_queue := xs, wq_processing := x # wq_processing q, wq_dirty := removeAll x (wq_dirty q)\<rparr>"
    by (auto simp: wqueues_def wq_Get_def split: list.splits)
  have "x \<in> set (wq_dirty q) - set (wq_processing q)" "x \<notin> set xs" "distinct xs" "set xs = set (wq_dirty q) - set (wq_processing q) - {x}"
    using q xs by (auto simp: wq_wf_def)
  then show "wq_wf q' \<and> x \<in> wq_waiting q - wq_busy q \<and> wq_waiting q - {x} \<subseteq> wq_waiting q' \<and> wq_busy q' = insert x (wq_busy q)"
    unfolding q' by (auto simp: wq_wf_def wq_waiting_def wq_busy_def)
qed

text \<open>An item that is dirty and not busy is handed out: a worker that asks does not wait.\<close>

lemma wq_progress:
  assumes "wq_wf q" "x \<in> set (wq_dirty q)" "x \<notin> wq_busy q"
  shows "\<exists>y q'. wq_Get q = Got y q'"
  using assms by (auto simp: wq_wf_def wq_busy_def wq_Get_def split: list.splits)

subsection \<open>No change is forgotten\<close>

text \<open>
  C28.  No change is forgotten.  Start with a well-formed idle queue and let notifications arrive, workers take and
  finish items and timers fire in any order.  Every request for which a notification has arrived and that
  has not been reconciled without an error by a worker that took it afterwards is waiting in the queue or being worked on; if no worker has
  taken it since, it is waiting.  No two workers ever work on the same request and no more than the permitted number of them work.
\<close>

theorem no_change_forgotten:
  assumes "work_queue qs sane waiting busy" "sane q" "busy q = {}"
    and "(runtime_step c qs watches)\<^sup>*\<^sup>* (runtime_init q w) s"
  shows "rt_fresh s \<subseteq> waiting (rt_queue s) \<and> rt_held s \<subseteq> waiting (rt_queue s) \<union> ran (rt_workers s) \<and>
    inj_on (rt_workers s) (dom (rt_workers s)) \<and> dom (rt_workers s) \<subseteq> {i. int i < ct_MaxConcurrentReconciles c}"
  using work_queue.reach_inv [OF assms(1,4) work_queue.init_inv [OF assms(1-3)]]
  by (auto simp: work_queue.rt_inv_def [OF assms(1)])

text \<open>A reconciler that panics: the request is kept.\<close>

definition faulty :: "unit ctrl" where
  "faulty = \<lparr>ct_Name = ''op'', ct_MaxConcurrentReconciles = 1, ct_CacheSyncTimeout = 2 * Minute,
     ct_Do = (\<lambda>req w. (Inl (Panic ''nil pointer dereference''), w)), ct_RecoverPanic = True, ct_Stack = []\<rparr>"

definition watch_names :: "(unit, string) watchDescription" where
  "watch_names = \<lparr>wd_handler = (\<lambda>w. EnqueueRequestForObject (\<lambda>n. \<lparr>rq_Namespace = [], rq_Name = n\<rparr>)), wd_predicates = []\<rparr>"

definition empty_wqueue :: wqueue where
  "empty_wqueue = \<lparr>wq_queue = [], wq_dirty = [], wq_processing = [], wq_delayed = []\<rparr>"

definition demo_item :: work_item where "demo_item = ReqItem \<lparr>rq_Namespace = [], rq_Name = ''demo''\<rparr>"

lemma faulty_run:
  "\<exists>s. (runtime_step faulty wqueues [watch_names])\<^sup>*\<^sup>* (runtime_init empty_wqueue ()) s \<and> demo_item \<in> rt_held s \<and> rt_workers s = (\<lambda>_. None)"
proof -
  let ?q1 = "empty_wqueue\<lparr>wq_queue := [demo_item], wq_dirty := [demo_item]\<rparr>" and ?q2 = "empty_wqueue\<lparr>wq_processing := [demo_item]\<rparr>"
    and ?q3 = "empty_wqueue\<lparr>wq_delayed := [demo_item]\<rparr>"
  let ?s0 = "runtime_init empty_wqueue ()"
  let ?s1 = "?s0\<lparr>rt_queue := ?q1, rt_fresh := {demo_item}\<rparr>"
  let ?s2 = "?s0\<lparr>rt_queue := ?q2, rt_workers := [0 \<mapsto> demo_item], rt_held := {demo_item}\<rparr>"
  let ?s3 = "?s0\<lparr>rt_queue := ?q3, rt_held := {demo_item}\<rparr>"
  have d: "dispatch watch_names (Added (Object ''demo'')) () = [\<lparr>rq_Namespace = [], rq_Name = ''demo''\<rparr>]"
    by (simp add: dispatch_def event_of_def OnAdd_def watch_names_def EnqueueRequestForObject_def)
  have "runtime_step faulty wqueues [watch_names] ?s0 ?s1"
    using runtime_step.notify [of watch_names "[watch_names]" _ "Added (Object ''demo'')" "()" faulty wqueues ?s0, OF _ refl] unfolding d
    by (simp add: add_all_def wq_defs demo_item_def empty_wqueue_def runtime_init_def)
  moreover have "runtime_step faulty wqueues [watch_names] ?s1 ?s2"
    using runtime_step.take_item [of 0 faulty ?s1 wqueues demo_item ?q2 "[watch_names]"]
    by (simp add: wq_defs empty_wqueue_def runtime_init_def faulty_def)
  moreover have "runtime_step faulty wqueues [watch_names] ?s2 ?s3"
    using runtime_step.finish_item [of ?s2 0 demo_item faulty wqueues ?q3 "()" "[watch_names]"]
    by (simp add: wq_defs empty_wqueue_def runtime_init_def faulty_def processWorkItem_def reconcileHandler_def ctrl_Reconcile_def demo_item_def
        succeeded_def)
  ultimately have "(runtime_step faulty wqueues [watch_names])\<^sup>*\<^sup>* ?s0 ?s3" by (meson r_into_rtranclp rtranclp.rtrancl_into_rtrancl)
  then show ?thesis by (intro exI [of _ ?s3]) (simp add: runtime_init_def)
qed

theorem no_change_forgotten_witness:
  "\<exists>s. (runtime_step faulty wqueues [watch_names])\<^sup>*\<^sup>* (runtime_init empty_wqueue ()) s \<and> demo_item \<in> wq_waiting (rt_queue s)"
proof -
  obtain s where s: "(runtime_step faulty wqueues [watch_names])\<^sup>*\<^sup>* (runtime_init empty_wqueue ()) s" "demo_item \<in> rt_held s" "rt_workers s = (\<lambda>_. None)"
    using faulty_run by blast
  have "wq_wf empty_wqueue" "wq_busy empty_wqueue = {}" by (simp_all add: wq_defs empty_wqueue_def)
  from no_change_forgotten [OF wq.work_queue_axioms this s(1)] s show ?thesis by (auto simp: ran_def)
qed

subsection \<open>The health of the manager\<close>

definition resourceLockNS :: string where "resourceLockNS = ''default''"
definition resourceLockName :: string where "resourceLockName = ''nodelifecycle-controller''"
definition readinessLeaseName :: string where "readinessLeaseName = ''kc-controller-manager-ready''"
definition readinessLeaseTimeout :: duration where "readinessLeaseTimeout = 15 * Second"

record CoordLease =
  lz_Name :: string
  lz_Namespace :: string
  lz_HolderIdentity :: "string option"
  lz_LeaseDurationSeconds :: "int option"
  lz_AcquireTime :: "gotime option"
  lz_RenewTime :: "gotime option"

text \<open>Reads and writes of leases by name and namespace, and the clock.\<close>

record 'w ControllerManager =
  mg_identity :: string
  mg_GetLease :: "string \<Rightarrow> string \<Rightarrow> 'w \<Rightarrow> goerr + CoordLease"
  mg_CreateLease :: "CoordLease \<Rightarrow> ('w, CoordLease) io"
  mg_UpdateLease :: "CoordLease \<Rightarrow> ('w, CoordLease) io"
  mg_Now :: "'w \<Rightarrow> gotime"

definition validateLease :: "CoordLease \<Rightarrow> gotime \<Rightarrow> goerr option" where
  "validateLease item now =
     (case (lz_RenewTime item, lz_LeaseDurationSeconds item) of
        (Some t, Some d) \<Rightarrow> if \<not> now < t + int64 (d * Second) then Some (Plain ''lease expired'') else None
      | _ \<Rightarrow> Some (Plain ''lease timing is incomplete''))"

definition wrapE :: "string \<Rightarrow> goerr \<Rightarrow> goerr" where "wrapE prefix_text e = Plain (prefix_text @ '': '' @ Error_text e)"

definition Health :: "'w ControllerManager \<Rightarrow> 'w \<Rightarrow> goerr option" where
  "Health s w =
     (case mg_GetLease s resourceLockName resourceLockNS w of
        Inl err \<Rightarrow> Some (wrapE ''get leader lease'' err)
      | Inr leader \<Rightarrow>
          (case mg_GetLease s readinessLeaseName resourceLockNS w of
             Inl err \<Rightarrow> Some (wrapE ''get readiness lease'' err)
           | Inr ready \<Rightarrow>
               (let now = mg_Now s w in
                case validateLease leader now of
                  Some err \<Rightarrow> Some (wrapE ''leader lease'' err)
                | None \<Rightarrow>
                    (case validateLease ready now of
                       Some err \<Rightarrow> Some (wrapE ''readiness lease'' err)
                     | None \<Rightarrow>
                         if lz_HolderIdentity leader = None \<or> lz_HolderIdentity ready = None \<or> lz_HolderIdentity leader \<noteq> lz_HolderIdentity ready
                         then Some (Plain ''leader and readiness lease holders do not match'') else None))))"

definition renewReadinessLease :: "'w ControllerManager \<Rightarrow> ('w, unit) io" where
  "renewReadinessLease s w =
     (let now = mg_Now s w; durationSeconds = readinessLeaseTimeout div Second in
      case mg_GetLease s readinessLeaseName resourceLockNS w of
        Inl err \<Rightarrow>
          if IsNotFound err
          then io_bind (mg_CreateLease s \<lparr>lz_Name = readinessLeaseName, lz_Namespace = resourceLockNS, lz_HolderIdentity = Some (mg_identity s),
                 lz_LeaseDurationSeconds = Some durationSeconds, lz_AcquireTime = Some now, lz_RenewTime = Some now\<rparr>) (\<lambda>_. io_ret ()) w
          else (Inl err, w)
      | Inr item \<Rightarrow>
          io_bind (mg_UpdateLease s (item\<lparr>lz_HolderIdentity := Some (mg_identity s), lz_LeaseDurationSeconds := Some durationSeconds,
            lz_RenewTime := Some now\<rparr>)) (\<lambda>_. io_ret ()) w)"

text \<open>
  The health check passes exactly if both leases have not run out and are held by the same manager.
\<close>

theorem health_iff:
  "Health s w = None \<longleftrightarrow>
     (\<exists>leader ready holder. mg_GetLease s resourceLockName resourceLockNS w = Inr leader \<and> mg_GetLease s readinessLeaseName resourceLockNS w = Inr ready \<and>
        validateLease leader (mg_Now s w) = None \<and> validateLease ready (mg_Now s w) = None \<and>
        lz_HolderIdentity leader = Some holder \<and> lz_HolderIdentity ready = Some holder)"
  by (auto simp: Health_def Let_def split: sum.splits option.splits if_splits)

text \<open>
  A manager that has renewed its lease passes the check for fifteen seconds as long as it leads.  The
  assumptions are those of the storage: a write that succeeds is what the next read returns.
\<close>

theorem renewed_manager_healthy:
  assumes "renewReadinessLease s w = (Inr (), w1)"
    and "\<And>l l' w w'. mg_CreateLease s l w = (Inr l', w') \<Longrightarrow> mg_GetLease s (lz_Name l) (lz_Namespace l) w' = Inr l"
    and "\<And>l l' w w'. mg_UpdateLease s l w = (Inr l', w') \<Longrightarrow> mg_GetLease s (lz_Name l) (lz_Namespace l) w' = Inr l"
    and "\<And>l. mg_GetLease s readinessLeaseName resourceLockNS w = Inr l \<Longrightarrow> lz_Name l = readinessLeaseName \<and> lz_Namespace l = resourceLockNS"
    and "mg_GetLease s readinessLeaseName resourceLockNS w2 = mg_GetLease s readinessLeaseName resourceLockNS w1"
    and "mg_GetLease s resourceLockName resourceLockNS w2 = Inr leader" "validateLease leader (mg_Now s w2) = None"
      "lz_HolderIdentity leader = Some (mg_identity s)"
    and "mg_Now s w2 < mg_Now s w + 15 * Second"
  shows "Health s w2 = None"
proof -
  have "\<exists>ready. mg_GetLease s readinessLeaseName resourceLockNS w1 = Inr ready \<and> lz_HolderIdentity ready = Some (mg_identity s) \<and>
      lz_LeaseDurationSeconds ready = Some 15 \<and> lz_RenewTime ready = Some (mg_Now s w)"
    using assms(1-4)
    by (auto simp: renewReadinessLease_def Let_def io_bind_Inr readinessLeaseTimeout_def Second_def split: sum.splits if_splits dest!: assms(2,3))
  moreover have "int64 (15 * Second) = 15 * Second" by (simp add: int64_def Second_def)
  ultimately show ?thesis using assms(5-9) unfolding health_iff by (auto simp: validateLease_def)
qed

end
