(* ===== verification/Housekeeping.thy ===== *)
theory Housekeeping
  imports Cluster_Ctrl Query_Page Ctrl_Runtime
begin

text \<open>
  Controllers that keep things in order: regions follow the labels of nodes (\<^verbatim>\<open>pkg/controller/regioncontroller\<close>), tokens
  expire (\<^verbatim>\<open>pkg/controller/tokencontroller\<close>), old audit events and login records go (\<^verbatim>\<open>pkg/controller/audit_status.go\<close>,
  \<^verbatim>\<open>iam_status.go\<close>), and the health of clusters is written down (\<^verbatim>\<open>pkg/controller/cluster_status.go\<close>).
\<close>

subsection \<open>Regions\<close>

record RegionNode =
  rn_Deleting :: bool
  rn_Labels :: "(string \<times> string) list"

record 'w RegionReconciler =
  rr_GetRegion :: "string \<Rightarrow> 'w \<Rightarrow> goerr + string"
  rr_ListRegions :: "'w \<Rightarrow> goerr + string list"
  rr_ListNodes :: "string \<Rightarrow> string \<Rightarrow> 'w \<Rightarrow> goerr + RegionNode list"
  rr_NewRequirement :: "string \<Rightarrow> string \<Rightarrow> goerr option"
  rr_CreateRegion :: "string \<Rightarrow> ('w, unit) io"
  rr_DeleteRegion :: "string \<Rightarrow> ('w, unit) io"

definition needDelete :: "'w RegionReconciler \<Rightarrow> string \<Rightarrow> 'w \<Rightarrow> bool" where
  "needDelete r region w =
     (case rr_NewRequirement r LabelTopologyRegion region of
        Some _ \<Rightarrow> False
      | None \<Rightarrow>
          (case rr_ListNodes r LabelTopologyRegion region w of Inl err \<Rightarrow> IsNotFound err | Inr nodes \<Rightarrow> length nodes = 0))"

definition needDeleteRegions :: "'w RegionReconciler \<Rightarrow> 'w \<Rightarrow> string list" where
  "needDeleteRegions r w = (case rr_ListRegions r w of Inl _ \<Rightarrow> [] | Inr regions \<Rightarrow> filter (\<lambda>region. needDelete r region w) regions)"

definition findObjectsForRegion :: "'w RegionReconciler \<Rightarrow> RegionNode \<Rightarrow> 'w \<Rightarrow> string list" where
  "findObjectsForRegion r node w =
     (if rn_Deleting node then needDeleteRegions r w
      else (case map_of (rn_Labels node) LabelTopologyRegion of None \<Rightarrow> [] | Some region \<Rightarrow> [region]))"

definition region_Reconcile :: "'w RegionReconciler \<Rightarrow> string \<Rightarrow> ('w, unit) io" where
  "region_Reconcile r name =
     io_try (io_read (rr_GetRegion r name))
       (\<lambda>err. if IsNotFound err then rr_CreateRegion r name else io_err err)
       (\<lambda>_ w. if needDelete r name w then rr_DeleteRegion r name w else (Inr (), w))"

text \<open>The contract: \<open>regions\<close> are the stored regions, \<open>inhabited\<close> tells whether a node carries the label of a region.\<close>

locale region_env =
  fixes r :: "'w RegionReconciler" and regions :: "'w \<Rightarrow> string set" and inhabited :: "'w \<Rightarrow> string \<Rightarrow> bool"
  assumes get: "\<exists>x. rr_GetRegion r n w = (if n \<in> regions w then Inr x else Inl (NotFound ''region'' n))"
    and lists: "\<exists>ns. rr_ListNodes r LabelTopologyRegion n w = Inr ns \<and> (ns = [] \<longleftrightarrow> \<not> inhabited w n)"
    and valid: "rr_NewRequirement r LabelTopologyRegion n = None"
    and creates: "rr_CreateRegion r n w = (Inr (), w') \<Longrightarrow> regions w' = insert n (regions w) \<and> inhabited w' = inhabited w"
    and deletes: "rr_DeleteRegion r n w = (Inr (), w') \<Longrightarrow> regions w' = regions w - {n} \<and> inhabited w' = inhabited w"
begin

lemma need: "needDelete r n w \<longleftrightarrow> \<not> inhabited w n"
  using lists [of n w] by (auto simp: needDelete_def valid)

lemma reconcile_effect:
  assumes "region_Reconcile r n w = (Inr (), w')"
  shows "regions w' = (if n \<in> regions w then (if inhabited w n then regions w else regions w - {n}) else insert n (regions w)) \<and>
    inhabited w' = inhabited w"
proof (cases "n \<in> regions w")
  case True
  then obtain x where "rr_GetRegion r n w = Inr x" using get [of n w] by auto
  then show ?thesis using assms True by (auto simp: region_Reconcile_def io_try_def need dest: deletes split: if_splits)
next
  case False
  then have "rr_GetRegion r n w = Inl (NotFound ''region'' n)" using get [of n w] by auto
  then show ?thesis using assms False by (auto simp: region_Reconcile_def io_try_def IsNotFound_def dest: creates)
qed

end

record region_world =
  gw_regions :: "string list"
  gw_nodes :: "RegionNode list"

definition mem_regions :: "region_world RegionReconciler" where
  "mem_regions = \<lparr>
     rr_GetRegion = (\<lambda>n w. if n \<in> set (gw_regions w) then Inr n else Inl (NotFound ''region'' n)),
     rr_ListRegions = (\<lambda>w. Inr (gw_regions w)),
     rr_ListNodes = (\<lambda>k v w. Inr (filter (\<lambda>n. map_of (rn_Labels n) k = Some v) (gw_nodes w))),
     rr_NewRequirement = (\<lambda>k v. None),
     rr_CreateRegion = (\<lambda>n w. (Inr (), w\<lparr>gw_regions := n # gw_regions w\<rparr>)),
     rr_DeleteRegion = (\<lambda>n w. (Inr (), w\<lparr>gw_regions := removeAll n (gw_regions w)\<rparr>))\<rparr>"

definition gw_inhabited :: "region_world \<Rightarrow> string \<Rightarrow> bool" where
  "gw_inhabited w n \<longleftrightarrow> (\<exists>x \<in> set (gw_nodes w). map_of (rn_Labels x) LabelTopologyRegion = Some n)"

interpretation mem_regions: region_env mem_regions "\<lambda>w. set (gw_regions w)" gw_inhabited
  by unfold_locales (auto simp: mem_regions_def gw_inhabited_def filter_empty_conv)

text \<open>
  A reconciliation keeps a region that has nodes, removes one that has none, and creates one that does not exist,
  whether it has nodes or not.
\<close>

theorem region_effect:
  assumes "region_env r regions inhabited" "region_Reconcile r n w = (Inr (), w')"
  shows "n \<in> regions w' \<longleftrightarrow> n \<notin> regions w \<or> inhabited w n" "regions w' - {n} = regions w - {n}"
  using region_env.reconcile_effect [OF assms] by auto

text \<open>
  Hence reconciliation of a region without nodes is not idempotent: a second request for a region that has
  just been removed brings it back without any node.
\<close>

theorem region_resurrected:
  assumes "region_env r regions inhabited" "n \<in> regions w" "\<not> inhabited w n"
    and "region_Reconcile r n w = (Inr (), w1)" "region_Reconcile r n w1 = (Inr (), w2)"
  shows "n \<notin> regions w1 \<and> n \<in> regions w2 \<and> \<not> inhabited w2 n"
  using region_env.reconcile_effect [OF assms(1,4)] region_env.reconcile_effect [OF assms(1,5)] assms(2,3) by auto

subsection \<open>Tokens\<close>

record StoredToken =
  sk_Name :: string
  sk_Deleting :: bool
  sk_CreationTimestamp :: gotime
  sk_TTL :: "int option"
  sk_ExpiresAt :: "gotime option"

record 'w TokenReconciler =
  tr_GetToken :: "string \<Rightarrow> 'w \<Rightarrow> goerr + StoredToken"
  tr_UpdateToken :: "StoredToken \<Rightarrow> ('w, StoredToken) io"
  tr_DeleteToken :: "string \<Rightarrow> ('w, unit) io"
  tr_Now :: "'w \<Rightarrow> gotime"

definition expireAt :: "gotime \<Rightarrow> int \<Rightarrow> gotime" where "expireAt created ttl = created + int64 (ttl * Second)"

definition token_done :: Result where "token_done = \<lparr>Requeue = False, RequeueAfter = 0\<rparr>"

definition token_Reconcile :: "'w TokenReconciler \<Rightarrow> string \<Rightarrow> ('w, Result) io" where
  "token_Reconcile r name =
     io_try (io_read (tr_GetToken r name)) (\<lambda>err. if IsNotFound err then io_ret token_done else io_err err) (\<lambda>token w.
       if sk_Deleting token then (Inr token_done, w)
       else case sk_TTL token of
         None \<Rightarrow> (Inr token_done, w)
       | Some ttl \<Rightarrow>
           if ttl = 0 then (Inr token_done, w)
           else let e = expireAt (sk_CreationTimestamp token) ttl in
             case sk_ExpiresAt token of
               None \<Rightarrow> io_bind (tr_UpdateToken r (token\<lparr>sk_ExpiresAt := Some e\<rparr>)) (\<lambda>_. io_ret token_done) w
             | Some at \<Rightarrow>
                 if at = 0 \<or> at \<noteq> e then io_bind (tr_UpdateToken r (token\<lparr>sk_ExpiresAt := Some e\<rparr>)) (\<lambda>_. io_ret token_done) w
                 else let now = tr_Now r w in
                   if now > at then io_bind (tr_DeleteToken r (sk_Name token)) (\<lambda>_. io_ret token_done) w
                   else (Inr \<lparr>Requeue = False, RequeueAfter = time_Sub at now\<rparr>, w))"

definition token_ctrl :: "'w TokenReconciler \<Rightarrow> 'w ctrl" where
  "token_ctrl r = \<lparr>ct_Name = ''token'', ct_MaxConcurrentReconciles = 1, ct_CacheSyncTimeout = 2 * Minute,
     ct_Do = (\<lambda>req. token_Reconcile r (rq_Name req)), ct_RecoverPanic = True, ct_Stack = []\<rparr>"

text \<open>
  A worker of the token controller, once the time of expiry of a token has been written down.  Before that time nothing is
  stored and the request comes back; after it the token is deleted, or the request comes back.
\<close>

theorem token_comes_back:
  assumes "work_queue qs sane waiting busy" "sane q"
    and "tr_GetToken r (rq_Name req) w = Inr token" "\<not> sk_Deleting token" "sk_TTL token = Some ttl" "ttl \<noteq> 0"
    and "sk_ExpiresAt token = Some e" "e = expireAt (sk_CreationTimestamp token) ttl" "e \<noteq> 0" "tr_Now r w \<noteq> e"
    and "processWorkItem (token_ctrl r) qs (ReqItem req) q w = Some (q', w')"
  shows "(if tr_Now r w < e then w' = w \<and> ReqItem req \<in> waiting q'
    else tr_DeleteToken r (sk_Name token) w = (Inr (), w') \<or> ReqItem req \<in> waiting q')"
proof -
  note W = work_queue.add_after [OF assms(1)] work_queue.add_limited [OF assms(1)] work_queue.forget [OF assms(1)]
    work_queue.fin [OF assms(1)]
  have sub: "tr_Now r w < e \<Longrightarrow> 0 < time_Sub e (tr_Now r w)" by (auto simp: time_Sub_def MaxInt64_def MinInt64_def)
  show ?thesis
  proof (cases "tr_Now r w < e")
    case True
    then have "ctrl_Reconcile (token_ctrl r) req w = (Inr \<lparr>Requeue = False, RequeueAfter = time_Sub e (tr_Now r w)\<rparr>, w)"
      using assms(3-9) by (simp add: ctrl_Reconcile_def token_ctrl_def token_Reconcile_def io_try_def Let_def)
    then show ?thesis using assms(2,11) sub [OF True] True W by (auto simp: processWorkItem_def reconcileHandler_def)
  next
    case False
    obtain x w1 where d: "tr_DeleteToken r (sk_Name token) w = (x, w1)" by force
    show ?thesis
    proof (cases x)
      case (Inl err)
      have "\<exists>e' w2. ctrl_Reconcile (token_ctrl r) req w = (Inl e', w2) \<and> (\<forall>m. e' \<noteq> Panic m)"
        using assms(3-10) False d Inl
        by (cases err) (auto simp: ctrl_Reconcile_def token_ctrl_def token_Reconcile_def io_try_def Let_def io_bind_def)
      then show ?thesis using assms(2,11) False W
        by (auto simp: processWorkItem_def reconcileHandler_def split: goerr.splits)
    next
      case (Inr u)
      then have "ctrl_Reconcile (token_ctrl r) req w = (Inr token_done, w1)"
        using assms(3-10) False d by (simp add: ctrl_Reconcile_def token_ctrl_def token_Reconcile_def io_try_def Let_def io_bind_def)
      then show ?thesis using assms(11) False d Inr by (auto simp: processWorkItem_def reconcileHandler_def token_done_def)
    qed
  qed
qed

text \<open>At the very instant of its expiry the token is neither deleted nor looked at again.\<close>

theorem token_missed_instant:
  assumes "work_queue qs sane waiting busy" "sane q"
    and "tr_GetToken r (rq_Name req) w = Inr token" "\<not> sk_Deleting token" "sk_TTL token = Some ttl" "ttl \<noteq> 0"
    and "sk_ExpiresAt token = Some (tr_Now r w)" "tr_Now r w = expireAt (sk_CreationTimestamp token) ttl" "tr_Now r w \<noteq> 0"
    and "processWorkItem (token_ctrl r) qs (ReqItem req) q w = Some (q', w')"
  shows "w' = w \<and> waiting q' = waiting q"
proof -
  have "ctrl_Reconcile (token_ctrl r) req w = (Inr token_done, w)"
    using assms(3-9) by (simp add: ctrl_Reconcile_def token_ctrl_def token_Reconcile_def io_try_def Let_def time_Sub_def token_done_def MaxInt64_def MinInt64_def)
  then show ?thesis using assms(2,10) work_queue.forget [OF assms(1)] work_queue.fin [OF assms(1)]
    by (auto simp: processWorkItem_def reconcileHandler_def token_done_def)
qed

text \<open>The multiplication by a second wraps: a token that is to live for 292 years and a bit expires before it is made.\<close>

lemma token_ttl_wraps: "expireAt created 9223372037 < created"
  by (simp add: expireAt_def int64_def Second_def)

subsection \<open>Retention of audit events and login records\<close>

text \<open>
  Both monitors list the records oldest first, remove what exceeds the maximal number, and only then look at the age of
  the others.  The loops are the same but for the treatment of errors, which is in \<open>remove\<close>.
\<close>

fun delete_while :: "('o \<Rightarrow> bool) \<Rightarrow> ('o \<Rightarrow> ('w, unit) io) \<Rightarrow> 'o list \<Rightarrow> ('w, unit) io" where
  "delete_while old remove [] = io_ret ()"
| "delete_while old remove (x # xs) = (if \<not> old x then io_ret () else io_bind (remove x) (\<lambda>_. delete_while old remove xs))"

definition retain :: "int \<Rightarrow> ('o \<Rightarrow> bool) \<Rightarrow> ('o \<Rightarrow> ('w, unit) io) \<Rightarrow> 'o list \<Rightarrow> ('w, unit) io" where
  "retain maximum old remove items =
     (let deviation = int64 (int (length items) - maximum) in
      if deviation > 0
      then io_bind (io_of (slice items 0 deviation)) (\<lambda>first.
           io_bind (io_forM first remove) (\<lambda>_.
           io_bind (io_of (slice items deviation (int (length items)))) (delete_while old remove)))
      else io_ret ())"

record Event =
  ev_Meta :: ObjectMeta
  ev_Type :: string
  ev_Username :: string
  ev_SourceIP :: string
  ev_RequestReceivedTimestamp :: gotime

fun Contains :: "string \<Rightarrow> string \<Rightarrow> bool" where
  "Contains [] sub = (sub = [])"
| "Contains (c # s) sub = (prefix sub (c # s) \<or> Contains s sub)"

definition eventCustomFilter :: "Event \<Rightarrow> string \<Rightarrow> string \<Rightarrow> bool" where
  "eventCustomFilter ev key v =
     (if key = ''ip'' then Contains (ev_SourceIP ev) v else if key = ''username'' then Contains (ev_Username ev) v else True)"

text \<open>Only the two keys that the filter knows can deselect an event.\<close>

definition eventFilter :: "Event list \<Rightarrow> Query \<Rightarrow> Event list" where
  "eventFilter records q =
     (case q_FuzzySearch q of
        None \<Rightarrow> records
      | Some m \<Rightarrow> filter (\<lambda>ev. list_all (\<lambda>k. case m k of None \<Rightarrow> True | Some v \<Rightarrow> eventCustomFilter ev k v) [''ip'', ''username'']) records)"

record 'w AuditStatusMon =
  as_ListEvents :: "Query \<Rightarrow> 'w \<Rightarrow> goerr + Event list"
  as_DeleteEvent :: "string \<Rightarrow> ('w, unit) io"
  as_RetentionPeriod :: duration
  as_MaximumEntries :: int
  as_Now :: "'w \<Rightarrow> gotime"

definition ListEventsEx :: "'w AuditStatusMon \<Rightarrow> Query \<Rightarrow> 'w \<Rightarrow> goerr + Event PageableResponse" where
  "ListEventsEx m q w = ListExV2 (\<lambda>q. as_ListEvents m q w) (DefaultCompareFunc ev_Meta) id eventFilter q"

definition zero_Query :: Query where
  "zero_Query = \<lparr>q_Pagination = None, q_TimeoutSeconds = None, q_ResourceVersion = [], q_Watch = False, q_LabelSelector = [], q_FieldSelector = [],
     q_Continue = [], q_Limit = 0, q_Reverse = False, q_OrderBy = [], q_DryRun = [], q_AllowWatchBookmarks = False, q_ResourceVersionMatch = [],
     q_FuzzySearch = None\<rparr>"

definition log_error :: "('w, unit) io \<Rightarrow> ('w, unit) io" where
  "log_error m = io_try m (\<lambda>e. case e of Panic _ \<Rightarrow> io_err e | _ \<Rightarrow> io_ret ()) io_ret"

definition clean :: "'w AuditStatusMon \<Rightarrow> string \<Rightarrow> gotime \<Rightarrow> ('w, unit) io" where
  "clean m fieldSelector timestamp =
     io_try (io_read (ListEventsEx m (zero_Query\<lparr>q_FieldSelector := fieldSelector, q_Reverse := True, q_Pagination := Some NoPagination\<rparr>)))
       (\<lambda>e. log_error (io_err e))
       (\<lambda>eventList. retain (as_MaximumEntries m) (\<lambda>ev. timestamp > ev_RequestReceivedTimestamp ev)
          (\<lambda>ev. log_error (as_DeleteEvent m (m_Name (ev_Meta ev)))) (pr_Items eventList))"

definition monitorAuditStatus :: "'w AuditStatusMon \<Rightarrow> ('w, unit) io" where
  "monitorAuditStatus m w =
     (let timestamp = as_Now m w + int64 (- as_RetentionPeriod m) in
      io_bind (clean m ''type='' timestamp) (\<lambda>_. clean m ''type!='' timestamp) w)"

record LoginRecord =
  lr_Meta :: ObjectMeta

definition LabelUserReference :: string where "LabelUserReference = ''iam.kubeclipper.io/user-ref''"

text \<open>Of the users only their names, in the order of the list, are read.\<close>

record 'w IAMStatusMon =
  im_ListUserNames :: "Query \<Rightarrow> 'w \<Rightarrow> goerr + string list"
  im_ListLoginRecords :: "Query \<Rightarrow> 'w \<Rightarrow> goerr + LoginRecord list"
  im_DeleteLoginRecord :: "string \<Rightarrow> ('w, unit) io"
  im_RetentionPeriod :: duration
  im_MaximumEntries :: int
  im_Now :: "'w \<Rightarrow> gotime"

definition ListLoginRecordEx :: "'w IAMStatusMon \<Rightarrow> Query \<Rightarrow> 'w \<Rightarrow> goerr + LoginRecord PageableResponse" where
  "ListLoginRecordEx m q w = ListExV2 (\<lambda>q. im_ListLoginRecords m q w) (DefaultCompareFunc lr_Meta) id (\<lambda>rs q. rs) q"

definition monitorIAMStatus :: "'w IAMStatusMon \<Rightarrow> ('w, unit) io" where
  "monitorIAMStatus m w =
     (let timestamp = im_Now m w + int64 (- im_RetentionPeriod m);
          q = zero_Query\<lparr>q_Pagination := Some NoPagination, q_Reverse := True\<rparr>
      in log_error (io_bind (io_read (im_ListUserNames m q)) (\<lambda>users.
           io_forM users (\<lambda>user.
             io_bind (io_read (ListLoginRecordEx m (q\<lparr>q_LabelSelector := LabelUserReference @ ''='' @ user\<rparr>))) (\<lambda>loginLogs.
               retain (im_MaximumEntries m) (\<lambda>l. timestamp > m_CreationTimestamp (lr_Meta l))
                 (\<lambda>l. im_DeleteLoginRecord m (m_Name (lr_Meta l))) (pr_Items loginLogs))))) w)"

text \<open>The reversed order of a list is not irreflexive, but on distinct elements it is the order from old to new.\<close>

lemma sift_cong: "(\<And>y. y \<in> set ys \<Longrightarrow> lt x y = lt' x y) \<Longrightarrow> sift lt x ys = sift lt' x ys"
  by (induction ys) auto

lemma foldl_sift_cong:
  assumes "distinct (ys @ xs)" "\<And>x y. x \<in> set (ys @ xs) \<Longrightarrow> y \<in> set (ys @ xs) \<Longrightarrow> x \<noteq> y \<Longrightarrow> lt x y = lt' x y"
  shows "foldl (\<lambda>acc x. sift lt x acc) ys xs = foldl (\<lambda>acc x. sift lt' x acc) ys xs"
  using assms
proof (induction xs arbitrary: ys)
  case (Cons x xs)
  have x: "sift lt x ys = sift lt' x ys" using Cons.prems by (intro sift_cong) auto
  have "mset (sift lt' x ys @ xs) = mset (ys @ x # xs)" by simp
  then have "distinct (sift lt' x ys @ xs)" "set (sift lt' x ys @ xs) = set (ys @ x # xs)"
    using Cons.prems(1) mset_eq_imp_distinct_iff mset_eq_setD by blast+
  then show ?case using Cons.IH [of "sift lt' x ys"] Cons.prems(2) by (simp add: x)
qed simp

definition older :: "('o \<Rightarrow> ObjectMeta) \<Rightarrow> 'o \<Rightarrow> 'o \<Rightarrow> bool" where
  "older meta x y = DefaultCompareFunc meta y x []"

lemma sorted_oldest_first:
  assumes "distinct (map (\<lambda>x. m_Name (meta x)) es)"
  shows "sorted_wrt (older meta) (go_sort (\<lambda>x y. \<not> DefaultCompareFunc meta x y ob) es)"
proof -
  have inj: "inj_on (\<lambda>x. m_Name (meta x)) (set es)" and d: "distinct es" using assms by (auto simp: distinct_map)
  have lin: "strict_linear_on (set es) (older meta)"
    using compare_linear [OF inj, of "[]"] unfolding strict_linear_on_def older_def by blast
  have "foldl (\<lambda>acc x. sift (\<lambda>x y. \<not> DefaultCompareFunc meta x y ob) x acc) [] es = foldl (\<lambda>acc x. sift (older meta) x acc) [] es"
    using d inj by (intro foldl_sift_cong) (auto simp: older_def DefaultCompareFunc_def dest: inj_onD, meson inj_onD linorder_neqE)
  then show ?thesis using sorted_go_sort_strict [OF lin d] by (simp add: go_sort_def)
qed

lemma list_oldest_first:
  assumes "list q = Inr es" "slicef es q = es" "q_Reverse q" "q_Pagination q = Some NoPagination" "distinct (map (\<lambda>x. m_Name (meta x)) es)"
  shows "\<exists>items. ListExV2 list (DefaultCompareFunc meta) id slicef q = Inr \<lparr>pr_Items = items, pr_TotalCount = length es\<rparr> \<and>
    mset items = mset es \<and> sorted_wrt (older meta) items"
  using assms sorted_oldest_first [OF assms(5), of "q_OrderBy q"]
  by (auto simp: ListExV2_def DefaultList_def Let_def GetValidPagination_def slice_def)

lemma slice_split:
  assumes "d \<le> length items"
  shows "slice items 0 (int d) = Inr (take d items)" "slice items (int d) (int (length items)) = Inr (drop d items)"
  using assms by (auto simp: slice_def)

text \<open>A store in which removal works.\<close>

locale removal =
  fixes remove :: "'o \<Rightarrow> ('w, unit) io" and name :: "'o \<Rightarrow> string" and content :: "'w \<Rightarrow> 'o list"
  assumes removed: "\<exists>w'. remove x w = (Inr (), w') \<and> content w' = filter (\<lambda>y. name y \<noteq> name x) (content w)"
begin

lemma remove_all:
  "\<exists>w'. io_forM xs remove w = (Inr (), w') \<and> content w' = filter (\<lambda>y. name y \<notin> name ` set xs) (content w)"
proof (induction xs arbitrary: w)
  case (Cons x xs)
  obtain w1 where 1: "remove x w = (Inr (), w1)" "content w1 = filter (\<lambda>y. name y \<noteq> name x) (content w)" using removed by blast
  obtain w2 where "io_forM xs remove w1 = (Inr (), w2)" "content w2 = filter (\<lambda>y. name y \<notin> name ` set xs) (content w1)"
    using Cons.IH by blast
  then show ?case using 1 by (auto simp: io_bind_def conj_commute)
qed simp

lemma delete_while_takeWhile: "delete_while old remove xs = io_forM (takeWhile old xs) remove"
  by (induction xs) auto

lemma retained:
  assumes "0 \<le> maximum" "maximum \<le> MaxInt64" "int (length items) \<le> MaxInt64"
  shows "\<exists>w'. retain maximum old remove items w = (Inr (), w') \<and>
    (if int (length items) \<le> maximum then w' = w
     else content w' = filter (\<lambda>y. name y \<notin> name ` set (take (length items - nat maximum) items @ takeWhile old (drop (length items - nat maximum) items)))
       (content w))"
proof (cases "int (length items) \<le> maximum")
  case True
  then have "int64 (int (length items) - maximum) \<le> 0" using assms by (subst int64_id) (auto simp: MaxInt64_def MinInt64_def)
  then show ?thesis using True by (simp add: retain_def)
next
  case False
  define d where "d = length items - nat maximum"
  have dev: "int64 (int (length items) - maximum) = int d" unfolding d_def using False assms by (subst int64_id) (auto simp: MinInt64_def)
  have s: "slice items 0 (int d) = Inr (take d items)" "slice items (int d) (int (length items)) = Inr (drop d items)"
    unfolding d_def by (rule slice_split, simp)+
  obtain w1 where 1: "io_forM (take d items) remove w = (Inr (), w1)" "content w1 = filter (\<lambda>y. name y \<notin> name ` set (take d items)) (content w)"
    using remove_all by blast
  obtain w2 where 2: "io_forM (takeWhile old (drop d items)) remove w1 = (Inr (), w2)"
    "content w2 = filter (\<lambda>y. name y \<notin> name ` set (takeWhile old (drop d items))) (content w1)" using remove_all by blast
  have "0 < int d" unfolding d_def using False assms(1) by linarith
  then have "retain maximum old remove items w = (Inr (), w2)" using 1(1) 2(1)
    by (simp add: retain_def dev s delete_while_takeWhile io_bind_def)
  then show ?thesis using False 1(2) 2(2) unfolding d_def by (auto simp: image_Un intro!: filter_cong)
qed

end

text \<open>Events in memory.\<close>

definition mem_audit :: "duration \<Rightarrow> int \<Rightarrow> (string \<Rightarrow> Event \<Rightarrow> bool) \<Rightarrow> Event list AuditStatusMon" where
  "mem_audit period maximum selects =
     \<lparr>as_ListEvents = (\<lambda>q w. Inr (filter (selects (q_FieldSelector q)) w)),
      as_DeleteEvent = (\<lambda>n w. (Inr (), filter (\<lambda>e. m_Name (ev_Meta e) \<noteq> n) w)),
      as_RetentionPeriod = period, as_MaximumEntries = maximum, as_Now = (\<lambda>w. 0)\<rparr>"

interpretation mem_events: removal "\<lambda>ev. log_error (as_DeleteEvent (mem_audit period maximum selects) (m_Name (ev_Meta ev)))"
  "\<lambda>ev. m_Name (ev_Meta ev)" "\<lambda>w. w"
  by unfold_locales (simp add: mem_audit_def log_error_def io_try_def)

text \<open>
  Retention of audit events, for a store that lists the events a selector matches and whose deletions succeed.  As long as
  there are no more of them than the maximal number, nothing is removed, however old they are.  Otherwise exactly the oldest
  ones beyond that number go, and of the rest those up to the first that is young enough.
\<close>

theorem audit_retention:
  assumes "removal (\<lambda>ev. log_error (as_DeleteEvent m (m_Name (ev_Meta ev)))) (\<lambda>ev. m_Name (ev_Meta ev)) events"
    and "\<And>q. as_ListEvents m q w = Inr (filter (selects (q_FieldSelector q)) (events w))" "distinct (map (\<lambda>e. m_Name (ev_Meta e)) (events w))"
    and "0 \<le> as_MaximumEntries m" "as_MaximumEntries m \<le> MaxInt64" "int (length (events w)) \<le> MaxInt64"
  shows "\<exists>w' items. clean m s ts w = (Inr (), w') \<and> mset items = mset (filter (selects s) (events w)) \<and> sorted_wrt (older ev_Meta) items \<and>
    (if int (length items) \<le> as_MaximumEntries m then w' = w
     else let d = length items - nat (as_MaximumEntries m);
              gone = take d items @ takeWhile (\<lambda>e. ev_RequestReceivedTimestamp e < ts) (drop d items)
          in events w' = filter (\<lambda>e. e \<notin> set gone) (events w))"
proof -
  let ?es = "filter (selects s) (events w)"
  have d: "distinct (map (\<lambda>e. m_Name (ev_Meta e)) ?es)" using assms(3) by (simp add: distinct_map_filter)
  let ?q = "zero_Query\<lparr>q_FieldSelector := s, q_Reverse := True, q_Pagination := Some NoPagination\<rparr>"
  have "as_ListEvents m ?q w = Inr ?es" "eventFilter ?es ?q = ?es" by (simp_all add: assms(2) eventFilter_def zero_Query_def)
  from list_oldest_first [where list = "\<lambda>q. as_ListEvents m q w" and slicef = eventFilter and meta = ev_Meta, OF this _ _ d]
  obtain items where items: "ListEventsEx m ?q w = Inr \<lparr>pr_Items = items, pr_TotalCount = length ?es\<rparr>" "mset items = mset ?es"
    "sorted_wrt (older ev_Meta) items" by (auto simp: ListEventsEx_def)
  have sub: "set items \<subseteq> set (events w)" "length items \<le> length (events w)"
    using items(2) mset_eq_setD [of items ?es] mset_eq_length [of items ?es] length_filter_le [of "selects s" "events w"] by auto
  then have len: "int (length items) \<le> MaxInt64" using assms(6) by linarith
  let ?d = "length items - nat (as_MaximumEntries m)"
  let ?gone = "take ?d items @ takeWhile (\<lambda>e. ev_RequestReceivedTimestamp e < ts) (drop ?d items)"
  have "set ?gone \<subseteq> set (events w)" using sub(1) by (auto dest!: set_takeWhileD in_set_takeD in_set_dropD)
  then have names: "filter (\<lambda>e. m_Name (ev_Meta e) \<notin> (\<lambda>e. m_Name (ev_Meta e)) ` set ?gone) (events w) = filter (\<lambda>e. e \<notin> set ?gone) (events w)"
    using assms(3) by (intro filter_cong) (auto simp: distinct_map inj_on_def)
  have run: "clean m s ts w = retain (as_MaximumEntries m) (\<lambda>e. ts > ev_RequestReceivedTimestamp e)
      (\<lambda>ev. log_error (as_DeleteEvent m (m_Name (ev_Meta ev)))) items w"
    unfolding clean_def by (simp add: io_try_def items(1))
  show ?thesis
    using removal.retained [OF assms(1,4,5) len, of "\<lambda>e. ts > ev_RequestReceivedTimestamp e" w] items(2,3) unfolding run names Let_def by blast
qed

subsection \<open>The health of clusters\<close>

definition ComponentHealthy :: string where "ComponentHealthy = ''Healthy''"
definition ComponentUnhealthy :: string where "ComponentUnhealthy = ''Unhealthy''"
definition ComponentUnKnown :: string where "ComponentUnKnown = ''Unknown''"
definition ComponentUnsupported :: string where "ComponentUnsupported = ''Unsupported''"

record ComponentConditions =
  cc_Name :: string
  cc_Category :: string
  cc_Status :: string

record MonCluster = CtrlCluster +
  mc_ComponentConditions :: "ComponentConditions list"
  mc_Certifications :: "string list"

text \<open>What the monitor asks of an addon, once its component has been loaded and its configuration decoded.\<close>

record component_probe =
  cp_Supported :: bool
  cp_Ns :: string
  cp_Svc :: string
  cp_RequestPath :: string
  cp_Category :: string
  cp_InstanceName :: string

text \<open>
  \<open>cs_component\<close> is the registry of components with the decoding of an addon, \<open>cs_Get\<close> a request to the API server of a cluster
  through its client, \<open>cs_CommonRequest\<close> a plain request.  \<open>cs_PutCluster\<close> is an assignment through a pointer of the cache.
\<close>

record 'w ClusterStatusMon =
  cs_ListClusters :: "'w \<Rightarrow> goerr + MonCluster list"
  cs_GetCluster :: "string \<Rightarrow> 'w \<Rightarrow> goerr + MonCluster"
  cs_PutCluster :: "MonCluster \<Rightarrow> 'w \<Rightarrow> 'w"
  cs_UpdateCluster :: "MonCluster \<Rightarrow> ('w, MonCluster) io"
  cs_GetNode :: "string \<Rightarrow> 'w \<Rightarrow> goerr + CtrlNode"
  cs_HasClient :: "string \<Rightarrow> 'w \<Rightarrow> bool"
  cs_Get :: "string \<Rightarrow> string \<Rightarrow> 'w \<Rightarrow> goerr + string"
  cs_CommonRequest :: "string \<Rightarrow> 'w \<Rightarrow> goerr + string"
  cs_component :: "Addon \<Rightarrow> component_probe option"
  cs_GetCloudProvider :: "string \<Rightarrow> 'w \<Rightarrow> goerr + string"
  cs_GetCertification :: "string \<Rightarrow> string \<Rightarrow> 'w \<Rightarrow> goerr + string list"

definition exemptStatus :: "string list" where
  "exemptStatus = [ClusterInstalling, ClusterInstallFailed, ClusterTerminating, ClusterTerminateFailed]"

fun component_index :: "string \<Rightarrow> nat \<Rightarrow> ComponentConditions list \<Rightarrow> int" where
  "component_index name i [] = - 1"
| "component_index name i (c # cs) = (if cc_Name c = name then int i else component_index name (Suc i) cs)"

definition getClusterComponentIndex :: "MonCluster \<Rightarrow> string \<Rightarrow> int" where
  "getClusterComponentIndex clu name = component_index name 0 (mc_ComponentConditions clu)"

definition set_component :: "MonCluster \<Rightarrow> string \<Rightarrow> string \<Rightarrow> string \<Rightarrow> MonCluster" where
  "set_component clu category name status =
     (let index = getClusterComponentIndex clu name; cs = mc_ComponentConditions clu in
      if index = - 1 then clu\<lparr>mc_ComponentConditions := cs @ [\<lparr>cc_Name = name, cc_Category = category, cc_Status = status\<rparr>]\<rparr>
      else clu\<lparr>mc_ComponentConditions := cs[nat index := (cs ! nat index)\<lparr>cc_Status := status\<rparr>]\<rparr>)"

definition updateClusterComponentStatus :: "'w ClusterStatusMon \<Rightarrow> string \<Rightarrow> string \<Rightarrow> string \<Rightarrow> string \<Rightarrow> 'w \<Rightarrow> 'w" where
  "updateClusterComponentStatus s clusterName category name status w =
     (case cs_GetCluster s clusterName w of
        Inl _ \<Rightarrow> w
      | Inr clu \<Rightarrow>
          (let index = getClusterComponentIndex clu name in
           if index \<noteq> - 1 \<and> cc_Status (mc_ComponentConditions clu ! nat index) = status then w
           else let clu = set_component clu category name status in snd (cs_UpdateCluster s clu (cs_PutCluster s clu w))))"

definition getCertificationFromProvider :: "'w ClusterStatusMon \<Rightarrow> MonCluster \<Rightarrow> 'w \<Rightarrow> goerr + string list" where
  "getCertificationFromProvider s clu w =
     (case cs_GetCloudProvider s (label (kc_Labels clu) LabelClusterProviderName) w of
        Inl err \<Rightarrow> Inl err
      | Inr provider \<Rightarrow> cs_GetCertification s provider (cl_Name clu) w)"

definition updateClusterCertification :: "'w ClusterStatusMon \<Rightarrow> string \<Rightarrow> ('w, unit) io" where
  "updateClusterCertification s clusterName =
     io_bind (io_read (cs_GetCluster s clusterName)) (\<lambda>clu.
       case map_of (kc_Labels clu) LabelClusterProviderName of
         None \<Rightarrow> io_ret ()
       | Some provider \<Rightarrow>
           if provider = ProviderKubeadm then io_ret ()
           else io_bind (io_read (getCertificationFromProvider s clu)) (\<lambda>certifications.
             let clu = clu\<lparr>mc_Certifications := certifications\<rparr> in
             io_bind (io_modify (cs_PutCluster s clu)) (\<lambda>_. log_error (io_bind (cs_UpdateCluster s clu) (\<lambda>_. io_ret ())))))"

text \<open>The first assignment to the status, for a request that failed, is always followed by the second.\<close>

definition controlPlaneHealth :: "'w ClusterStatusMon \<Rightarrow> string \<Rightarrow> 'w \<Rightarrow> goerr + ControlPlaneHealth" where
  "controlPlaneHealth s i w =
     (case cs_GetNode s i w of
        Inl err \<Rightarrow> Inl err
      | Inr node \<Rightarrow>
          (let apiServer = apiServerOf node;
               health = \<lparr>cph_ID = i, cph_Hostname = kn_Hostname node, cph_Address = apiServer, cph_Status = []\<rparr>;
               answer = cs_CommonRequest s (''https://'' @ apiServer @ ''/livez'') w;
               resp = (case answer of Inl _ \<Rightarrow> [] | Inr body \<Rightarrow> body);
               health = (if isl answer then health\<lparr>cph_Status := ComponentUnKnown\<rparr> else health)
           in Inr (health\<lparr>cph_Status := (if resp = ''ok'' then ComponentHealthy else ComponentUnhealthy)\<rparr>)))"

fun controlPlaneHealths :: "'w ClusterStatusMon \<Rightarrow> string list \<Rightarrow> 'w \<Rightarrow> goerr + ControlPlaneHealth list" where
  "controlPlaneHealths s [] w = Inr []"
| "controlPlaneHealths s (i # is) w =
     (case controlPlaneHealth s i w of
        Inl err \<Rightarrow> Inl err
      | Inr h \<Rightarrow> (case controlPlaneHealths s is w of Inl err \<Rightarrow> Inl err | Inr hs \<Rightarrow> Inr (h # hs)))"

definition isControlPlaneHealthChange :: "ControlPlaneHealth list \<Rightarrow> ControlPlaneHealth list \<Rightarrow> bool" where
  "isControlPlaneHealthChange a b \<longleftrightarrow> length a \<noteq> length b \<or> list_ex (\<lambda>i. a ! i \<noteq> b ! i) [0..<length a]"

definition updateClusterControlPlaneStatus :: "'w ClusterStatusMon \<Rightarrow> MonCluster \<Rightarrow> ('w, unit) io" where
  "updateClusterControlPlaneStatus s clu =
     io_bind (io_read (controlPlaneHealths s (GetNodeIDs (kc_Masters clu)))) (\<lambda>controlplanestatus.
       if isControlPlaneHealthChange (kc_ControlPlaneHealth clu) controlplanestatus
       then io_bind (cs_UpdateCluster s (clu\<lparr>kc_ControlPlaneHealth := controlplanestatus\<rparr>)) (\<lambda>_. io_ret ())
       else io_ret ())"

definition monitorAddon :: "'w ClusterStatusMon \<Rightarrow> MonCluster \<Rightarrow> Addon \<Rightarrow> 'w \<Rightarrow> 'w" where
  "monitorAddon s clu com w =
     (case cs_component s com of
        None \<Rightarrow> w
      | Some p \<Rightarrow>
          (let update = updateClusterComponentStatus s (cl_Name clu) (cp_Category p) (cp_InstanceName p) in
           if cp_Supported p
           then (case cs_Get s (cl_Name clu) (''/api/v1/namespaces/'' @ cp_Ns p @ ''/services/'' @ cp_Svc p @ ''/proxy/'' @ cp_RequestPath p) w of
                   Inl _ \<Rightarrow> update ComponentUnhealthy w
                 | Inr _ \<Rightarrow> update ComponentHealthy w)
           else update ComponentUnsupported w))"

definition monitorCluster :: "'w ClusterStatusMon \<Rightarrow> MonCluster \<Rightarrow> 'w \<Rightarrow> 'w" where
  "monitorCluster s clu w =
     (if cl_Phase clu \<in> set exemptStatus then w
      else let w = snd (updateClusterControlPlaneStatus s clu w);
               update = updateClusterComponentStatus s (cl_Name clu) ''kubernetes'' ''kubernetes''
           in if \<not> cs_HasClient s (cl_Name clu) w then w
              else (case cs_Get s (cl_Name clu) ''/healthz'' w of
                Inl _ \<Rightarrow> update ComponentUnKnown w
              | Inr content \<Rightarrow>
                  foldl (\<lambda>w com. monitorAddon s clu com w) (update (if content = ''ok'' then ComponentHealthy else ComponentUnhealthy) w) (kc_Addons clu)))"

definition monitorClusterStatus :: "'w ClusterStatusMon \<Rightarrow> 'w \<Rightarrow> 'w" where
  "monitorClusterStatus s w = (case cs_ListClusters s w of Inl _ \<Rightarrow> w | Inr clusters \<Rightarrow> foldl (\<lambda>w clu. monitorCluster s clu w) w clusters)"

lemma change_iff: "isControlPlaneHealthChange a b \<longleftrightarrow> a \<noteq> b"
  unfolding isControlPlaneHealthChange_def list_ex_iff list_eq_iff_nth_eq [of a b] by (simp add: Bex_def)

text \<open>
  The recorded health of a control plane names every master once and in order, and its status is Healthy exactly if
  the master answered \<^verbatim>\<open>ok\<close>.  A master that could not be asked is Unhealthy; the status Unknown, which the code
  assigns to it first, is never stored.
\<close>

theorem control_plane_recorded:
  assumes "controlPlaneHealths s is w = Inr hs"
  shows "map cph_ID hs = is \<and>
    (\<forall>h \<in> set hs. cph_Status h = (if cs_CommonRequest s (''https://'' @ cph_Address h @ ''/livez'') w = Inr ''ok'' then ComponentHealthy else ComponentUnhealthy))"
  using assms
proof (induction "is" arbitrary: hs)
  case (Cons i "is")
  then obtain h rest where h: "controlPlaneHealth s i w = Inr h" "controlPlaneHealths s is w = Inr rest" "hs = h # rest"
    by (auto split: sum.splits)
  from h(1) obtain node where "cs_GetNode s i w = Inr node" by (auto simp: controlPlaneHealth_def split: sum.splits)
  with h(1) have "cph_ID h = i \<and> cph_Status h = (if cs_CommonRequest s (''https://'' @ cph_Address h @ ''/livez'') w = Inr ''ok''
      then ComponentHealthy else ComponentUnhealthy)"
    by (cases "cs_CommonRequest s (''https://'' @ apiServerOf node @ ''/livez'') w") (auto simp: controlPlaneHealth_def Let_def)
  then show ?case using Cons.IH [OF h(2)] unfolding h(3) by simp
qed simp

lemma component_index_missing:
  "component_index name i cs = - 1 \<Longrightarrow> cc_Name c = name \<Longrightarrow> component_index name i (cs @ [c]) = int (i + length cs)"
  by (induction cs arbitrary: i) (auto split: if_splits)

lemma component_index_found:
  assumes "component_index name i cs \<noteq> - 1"
  shows "\<exists>k < length cs. component_index name i cs = int (i + k) \<and> cc_Name (cs ! k) = name \<and>
    (\<forall>c. cc_Name c = name \<longrightarrow> component_index name i (cs[k := c]) = int (i + k))"
  using assms
proof (induction cs arbitrary: i)
  case (Cons d cs)
  show ?case
  proof (cases "cc_Name d = name")
    case False
    with Cons.prems Cons.IH [of "Suc i"] obtain k where "k < length cs" "component_index name (Suc i) cs = int (Suc i + k)" "cc_Name (cs ! k) = name"
      "\<forall>c. cc_Name c = name \<longrightarrow> component_index name (Suc i) (cs[k := c]) = int (Suc i + k)" by auto
    then show ?thesis using False by (intro exI [of _ "Suc k"]) simp
  qed (intro exI [of _ 0], simp)
qed simp

lemma set_component_index:
  "\<exists>k. getClusterComponentIndex (set_component clu category name status) name = int k \<and>
     cc_Status (mc_ComponentConditions (set_component clu category name status) ! k) = status"
proof (cases "getClusterComponentIndex clu name = - 1")
  case True
  then show ?thesis unfolding getClusterComponentIndex_def set_component_def Let_def
    by (intro exI [of _ "length (mc_ComponentConditions clu)"]) (simp add: component_index_missing)
next
  case False
  from component_index_found [OF False [unfolded getClusterComponentIndex_def]]
  obtain k where "k < length (mc_ComponentConditions clu)" "component_index name 0 (mc_ComponentConditions clu) = int k"
    "cc_Name (mc_ComponentConditions clu ! k) = name"
    "\<forall>c. cc_Name c = name \<longrightarrow> component_index name 0 ((mc_ComponentConditions clu)[k := c]) = int k" by auto
  then show ?thesis unfolding getClusterComponentIndex_def set_component_def Let_def by (intro exI [of _ k]) simp
qed

text \<open>
  A status that could not be stored is lost: the assignment has already changed the cached cluster, so the next
  attempt to record the same status finds nothing to do and writes nothing.
\<close>

theorem component_status_lost:
  assumes "cs_GetCluster s n w = Inr clu" "cl_Name clu = n"
    and "\<And>c w. cs_GetCluster s (cl_Name c) (cs_PutCluster s c w) = Inr c"
    and "cs_UpdateCluster s (set_component clu category name status) (cs_PutCluster s (set_component clu category name status) w) =
      (Inl err, cs_PutCluster s (set_component clu category name status) w)"
    and "w1 = cs_PutCluster s (set_component clu category name status) w"
  shows "updateClusterComponentStatus s n category name status w1 = w1"
proof -
  have "cl_Name (set_component clu category name status) = n" using assms(2) by (simp add: set_component_def Let_def)
  then have "cs_GetCluster s n w1 = Inr (set_component clu category name status)" using assms(3,5) by metis
  then show ?thesis using set_component_index [of clu category name status] by (auto simp: updateClusterComponentStatus_def Let_def)
qed

end
