(* ===== verification/Server_Gate.thy ===== *)
theory Server_Gate
  imports Rbac Auth Query_Page
begin

text \<open>
  What a request passes before it reaches a handler (\<^verbatim>\<open>buildHandlerChain\<close> in \<^verbatim>\<open>pkg/server/server.go\<close>): the request is
  classified by its path and method (\<^verbatim>\<open>pkg/server/request\<close>), authenticated and authorized (\<^verbatim>\<open>pkg/server/filters\<close>).  The parser of
  field selectors, the test for names in paths and the union of authenticators belong to Kubernetes and are arguments.
\<close>

subsection \<open>Classification\<close>

record Info =
  ri_IsResourceRequest :: bool
  ri_Path :: string
  ri_Verb :: string
  ri_APIPrefix :: string
  ri_APIGroup :: string
  ri_APIVersion :: string
  ri_Resource :: string
  ri_Subresource :: string
  ri_Name :: string

record server_request = http_request +
  sr_Method :: string

definition TrimSlashes :: "string \<Rightarrow> string" where
  "TrimSlashes s = rev (dropWhile (\<lambda>c. c = CHR ''/'') (rev (dropWhile (\<lambda>c. c = CHR ''/'') s)))"

definition splitPath :: "string \<Rightarrow> string list" where
  "splitPath p = (let p = TrimSlashes p in if p = [] then [] else splitOn (CHR ''/'') [] p)"

definition methodVerb :: "string \<Rightarrow> string" where
  "methodVerb m =
     (if m = ''POST'' then ''create'' else if m = ''GET'' \<or> m = ''HEAD'' then ''get'' else if m = ''PUT'' then ''update''
      else if m = ''PATCH'' then ''patch'' else if m = ''DELETE'' then ''delete'' else [])"

definition plainInfo :: "server_request \<Rightarrow> Info" where
  "plainInfo req = \<lparr>ri_IsResourceRequest = False, ri_Path = hr_Path req, ri_Verb = ToLower (sr_Method req), ri_APIPrefix = [], ri_APIGroup = [],
     ri_APIVersion = [], ri_Resource = [], ri_Subresource = [], ri_Name = []\<rparr>"

text \<open>The resource, name and subresource, as far as the path has them.\<close>

definition withParts :: "string list \<Rightarrow> Info \<Rightarrow> Info" where
  "withParts parts info =
     (let info = (if length parts \<ge> 3 then info\<lparr>ri_Subresource := parts ! 2\<rparr> else info);
          info = (if length parts \<ge> 2 then info\<lparr>ri_Name := parts ! 1\<rparr> else info)
      in if length parts \<ge> 1 then info\<lparr>ri_Resource := parts ! 0\<rparr> else info)"

definition collectionVerb :: "(string \<Rightarrow> goerr + 's) \<Rightarrow> 's \<Rightarrow> ('s \<Rightarrow> string \<Rightarrow> string option) \<Rightarrow> (string \<Rightarrow> bool) \<Rightarrow> (string \<times> string) list \<Rightarrow> Info \<Rightarrow> Info" where
  "collectionVerb parse everything exact validSegment rawQuery info =
     (if ri_Name info = [] \<and> ri_Verb info = ''get''
      then (let opts = NewFromRawQuery rawQuery;
                info = info\<lparr>ri_Verb := (if q_Watch opts then ''watch'' else ''list'')\<rparr>
            in if q_FieldSelector opts \<noteq> []
               then (case exact (GetFieldSelector parse everything opts) ''metadata.name'' of
                       Some name \<Rightarrow> if validSegment name then info\<lparr>ri_Name := name\<rparr> else info
                     | None \<Rightarrow> info)
               else info)
      else info)"

definition NewRequestInfo :: "(string \<Rightarrow> goerr + 's) \<Rightarrow> 's \<Rightarrow> ('s \<Rightarrow> string \<Rightarrow> string option) \<Rightarrow> (string \<Rightarrow> bool) \<Rightarrow> string list \<Rightarrow> server_request \<Rightarrow> Info" where
  "NewRequestInfo parse everything exact validSegment APIPrefixes req =
     (let requestInfo = plainInfo req; currentParts = splitPath (hr_Path req) in
      if length currentParts < 3 then requestInfo
      else if currentParts ! 0 \<notin> set APIPrefixes then requestInfo
      else let requestInfo = requestInfo\<lparr>ri_Verb := methodVerb (sr_Method req), ri_APIPrefix := currentParts ! 0\<rparr> in
        if currentParts ! 0 = ''api''
        then collectionVerb parse everything exact validSegment (hr_Query req)
          (withParts (drop 3 currentParts) (requestInfo\<lparr>ri_APIGroup := currentParts ! 1, ri_APIVersion := currentParts ! 2, ri_IsResourceRequest := True\<rparr>))
        else if currentParts ! 0 = ''cluster''
        then requestInfo\<lparr>ri_Name := currentParts ! 1, ri_APIGroup := ''core.kubeclipper.io'', ri_IsResourceRequest := True, ri_Resource := ''clusters'',
          ri_Subresource := ''proxy''\<rparr>
        else collectionVerb parse everything exact validSegment (hr_Query req) (withParts currentParts requestInfo))"

subsection \<open>The filters\<close>

datatype gate_result = Passed UserInfo Info | Unauthorized401 | InternalError500 | Forbidden403

definition getAuthorizerAttributes :: "UserInfo \<Rightarrow> Info \<Rightarrow> Attributes" where
  "getAuthorizerAttributes user info =
     \<lparr>at_User = user, at_ResourceRequest = ri_IsResourceRequest info, at_Verb = ri_Verb info, at_APIGroup = ri_APIGroup info,
      at_Resource = ri_Resource info, at_Subresource = ri_Subresource info, at_Name = ri_Name info, at_Path = ri_Path info\<rparr>"

text \<open>The authorizer of roles never returns an error, so what is not allowed is forbidden.\<close>

definition WithAuthorization :: "(Attributes \<Rightarrow> Decision \<times> string) \<Rightarrow> UserInfo \<Rightarrow> Info \<Rightarrow> gate_result" where
  "WithAuthorization authorize user info =
     (case authorize (getAuthorizerAttributes user info) of
        (DecisionAllow, _) \<Rightarrow> Passed user info
      | _ \<Rightarrow> Forbidden403)"

definition WithAuthentication :: "(http_request \<Rightarrow> auth_result) \<Rightarrow> (UserInfo \<Rightarrow> gate_result) \<Rightarrow> server_request \<Rightarrow> gate_result" where
  "WithAuthentication authenticate next req =
     (case authenticate (http_request.truncate req) of
        Inr (Some user) \<Rightarrow> next user
      | _ \<Rightarrow> Unauthorized401)"

definition APIPrefixes :: "string list" where "APIPrefixes = [''api'', ''cluster'']"

definition buildHandlerChain :: "(server_request \<Rightarrow> Info) \<Rightarrow> (http_request \<Rightarrow> auth_result) \<Rightarrow> (Attributes \<Rightarrow> Decision \<times> string) \<Rightarrow> server_request \<Rightarrow> gate_result" where
  "buildHandlerChain infoOf authenticate authorize req =
     (let info = infoOf req in WithAuthentication authenticate (\<lambda>user. WithAuthorization authorize user info) req)"

subsection \<open>Paths\<close>

definition segment :: "string \<Rightarrow> bool" where "segment s \<longleftrightarrow> s \<noteq> [] \<and> CHR ''/'' \<notin> set s"

lemma Join_ends:
  assumes "list_all segment parts" "parts \<noteq> []"
  shows "Join parts ''/'' \<noteq> []" "hd (Join parts ''/'') \<noteq> CHR ''/''" "last (Join parts ''/'') \<noteq> CHR ''/''"
  using assms by (induction parts "''/''" rule: Join.induct) (auto simp: segment_def hd_append dest: hd_in_set last_in_set)

lemma splitPath_Join:
  assumes "list_all segment parts" "parts \<noteq> []"
  shows "splitPath (''/'' @ Join parts ''/'') = parts"
proof -
  note J = Join_ends [OF assms]
  have 1: "dropWhile (\<lambda>c. c = CHR ''/'') (CHR ''/'' # Join parts ''/'') = Join parts ''/''" using J by (cases "Join parts ''/''") auto
  have 2: "dropWhile (\<lambda>c. c = CHR ''/'') (rev (Join parts ''/'')) = rev (Join parts ''/'')"
    using J by (cases "rev (Join parts ''/'')") (auto simp: hd_rev [symmetric])
  have "TrimSlashes (CHR ''/'' # Join parts ''/'') = Join parts ''/''" unfolding TrimSlashes_def 1 2 by simp
  moreover have "splitOn (CHR ''/'') [] (Join parts ''/'') = parts"
    using assms by (intro splitOn_Join) (auto simp: list_all_iff segment_def)
  ultimately show ?thesis using J(1) by (simp add: splitPath_def)
qed

text \<open>
  A path of the API is read as it is written: group, version and resource, then the name and the subresource if there
  are any.  With a name the verb is that of the method.
\<close>

theorem api_path_read:
  assumes "list_all segment ([''api'', g, v, r] @ rest)" "hr_Path req = ''/'' @ Join ([''api'', g, v, r] @ rest) ''/''"
    and "info = NewRequestInfo parse everything exact valid APIPrefixes req"
  shows "ri_IsResourceRequest info \<and> ri_APIGroup info = g \<and> ri_APIVersion info = v \<and> ri_Resource info = r \<and>
    ri_Subresource info = (if length rest \<ge> 2 then rest ! 1 else []) \<and>
    (rest \<noteq> [] \<longrightarrow> ri_Name info = rest ! 0 \<and> ri_Verb info = methodVerb (sr_Method req))"
proof -
  have s: "splitPath (hr_Path req) = [''api'', g, v, r] @ rest" unfolding assms(2) by (rule splitPath_Join [OF assms(1)]) simp
  have name: "rest \<noteq> [] \<Longrightarrow> rest ! 0 \<noteq> []" using assms(1) by (cases rest) (auto simp: segment_def)
  have cv: "ri_IsResourceRequest (collectionVerb parse everything exact valid q i) = ri_IsResourceRequest i \<and>
      ri_APIGroup (collectionVerb parse everything exact valid q i) = ri_APIGroup i \<and>
      ri_APIVersion (collectionVerb parse everything exact valid q i) = ri_APIVersion i \<and>
      ri_Resource (collectionVerb parse everything exact valid q i) = ri_Resource i \<and>
      ri_Subresource (collectionVerb parse everything exact valid q i) = ri_Subresource i \<and>
      (ri_Name i \<noteq> [] \<longrightarrow> collectionVerb parse everything exact valid q i = i)" for q i
    by (auto simp: collectionVerb_def Let_def split: option.splits)
  have more: "Suc 0 \<le> length rest \<longleftrightarrow> rest \<noteq> []" by (cases rest) auto
  show ?thesis unfolding assms(3) NewRequestInfo_def Let_def s using cv name
    by (cases "rest = []"; cases "length rest \<ge> 2") (auto simp: APIPrefixes_def withParts_def Let_def plainInfo_def more)
qed

text \<open>A path of the proxy of a cluster is a request for the subresource \<^verbatim>\<open>proxy\<close> of that cluster, whatever follows.\<close>

theorem proxy_path_read:
  assumes "list_all segment ([''cluster'', c, x] @ rest)" "hr_Path req = ''/'' @ Join ([''cluster'', c, x] @ rest) ''/''"
    and "info = NewRequestInfo parse everything exact valid APIPrefixes req"
  shows "ri_IsResourceRequest info \<and> ri_Resource info = ''clusters'' \<and> ri_Subresource info = ''proxy'' \<and> ri_Name info = c \<and>
    ri_Verb info = methodVerb (sr_Method req)"
proof -
  have s: "splitPath (hr_Path req) = [''cluster'', c, x] @ rest" unfolding assms(2) by (rule splitPath_Join [OF assms(1)]) simp
  show ?thesis unfolding assms(3) NewRequestInfo_def Let_def s by (simp add: APIPrefixes_def)
qed

subsection \<open>Who gets through\<close>

text \<open>
  C30.  The gate of the API server.  A request reaches a handler exactly if an authenticator names its user and some
  role binding of that user or one of the user's groups grants the request as classified by its path and method;
  the handler then sees that user and that classification.
\<close>

theorem request_gate_iff:
  "buildHandlerChain (NewRequestInfo parse everything exact valid APIPrefixes) authenticate (Authorize rego aggregate am) req = Passed user info \<longleftrightarrow>
     info = NewRequestInfo parse everything exact valid APIPrefixes req \<and> authenticate (http_request.truncate req) = Inr (Some user) \<and>
     (\<exists>bindings b. iam_ListRoleBindings am = Inr bindings \<and> b \<in> set bindings \<and> grants rego am (getAuthorizerAttributes user info) b)"
proof -
  let ?info = "NewRequestInfo parse everything exact valid APIPrefixes req"
  have "WithAuthorization (Authorize rego aggregate am) u ?info = Passed user info \<longleftrightarrow> u = user \<and> ?info = info \<and>
      (\<exists>bindings b. iam_ListRoleBindings am = Inr bindings \<and> b \<in> set bindings \<and> grants rego am (getAuthorizerAttributes u ?info) b)" for u
    using authorize_iff [of rego aggregate am "getAuthorizerAttributes u ?info"]
    by (cases "Authorize rego aggregate am (getAuthorizerAttributes u ?info)")
      (auto simp: WithAuthorization_def split: Decision.splits if_splits)
  then show ?thesis by (auto simp: buildHandlerChain_def WithAuthentication_def Let_def split: sum.splits option.splits)
qed

end
