(* ===== verification/Login.thy ===== *)
theory Login
  imports Auth Query_Page
begin

text \<open>
  Logging in (\<^verbatim>\<open>pkg/apis/oauth/handler.go\<close>, \<^verbatim>\<open>pkg/authentication/auth/mfa.go\<close>): the grants by password, refresh token and
  verification code, the limit on wrong passwords, the records of logins, and the caches that keep counters and
  verification tokens (\<^verbatim>\<open>pkg/simple/client/cache\<close>).  The records that the code writes in the background are written in place.
\<close>

subsection \<open>Caches\<close>

definition ErrNotExists :: goerr where "ErrNotExists = Plain ''key not exists''"

definition IsNotExists :: "goerr \<Rightarrow> bool" where "IsNotExists e \<longleftrightarrow> e = ErrNotExists"

record 'w Cache =
  ca_Set :: "string \<Rightarrow> string \<Rightarrow> duration \<Rightarrow> ('w, unit) io"
  ca_Update :: "string \<Rightarrow> string \<Rightarrow> ('w, unit) io"
  ca_Get :: "string \<Rightarrow> ('w, string) io"
  ca_Exist :: "string \<Rightarrow> ('w, bool) io"
  ca_Remove :: "string \<Rightarrow> ('w, unit) io"
  ca_Expire :: "string \<Rightarrow> duration \<Rightarrow> ('w, unit) io"

text \<open>
  The cache in memory.  A stored value is an entry or, after an update, a pointer to one; reading asserts that it is an
  entry.  An expiry of zero means none.
\<close>

record entry =
  en_expireAt :: gotime
  en_value :: string

datatype stored = Val entry | Ptr entry

record memory =
  my_storage :: "string \<rightharpoonup> stored"
  my_now :: gotime

definition memory_get :: "string \<Rightarrow> (memory, entry) io" where
  "memory_get key w =
     (case my_storage w key of
        None \<Rightarrow> (Inl ErrNotExists, w)
      | Some (Ptr _) \<Rightarrow> (Inl (Panic ''interface conversion: interface {} is *cache.entry, not cache.entry''), w)
      | Some (Val e) \<Rightarrow>
          if en_expireAt e \<noteq> 0 \<and> my_now w > en_expireAt e then (Inl ErrNotExists, w\<lparr>my_storage := (my_storage w)(key := None)\<rparr>)
          else (Inr e, w))"

definition memory_store :: "string \<Rightarrow> stored \<Rightarrow> (memory, unit) io" where
  "memory_store key v w = (Inr (), w\<lparr>my_storage := (my_storage w)(key \<mapsto> v)\<rparr>)"

definition memory_Set :: "string \<Rightarrow> string \<Rightarrow> duration \<Rightarrow> (memory, unit) io" where
  "memory_Set key v expire w = memory_store key (Val \<lparr>en_expireAt = (if expire > 0 then my_now w + expire else 0), en_value = v\<rparr>) w"

definition memory_Update :: "string \<Rightarrow> string \<Rightarrow> (memory, unit) io" where
  "memory_Update key v = io_bind (memory_get key) (\<lambda>e. memory_store key (Ptr (e\<lparr>en_value := v\<rparr>)))"

definition memory_Get :: "string \<Rightarrow> (memory, string) io" where
  "memory_Get key = io_bind (memory_get key) (\<lambda>e. io_ret (en_value e))"

definition memory_Exist :: "string \<Rightarrow> (memory, bool) io" where
  "memory_Exist key = io_try (memory_get key) (\<lambda>err. if IsNotExists err then io_ret False else io_err err) (\<lambda>_. io_ret True)"

definition memory_Remove :: "string \<Rightarrow> (memory, unit) io" where
  "memory_Remove key w = (Inr (), w\<lparr>my_storage := (my_storage w)(key := None)\<rparr>)"

definition memory_Expire :: "string \<Rightarrow> duration \<Rightarrow> (memory, unit) io" where
  "memory_Expire key expire = io_bind (memory_get key) (\<lambda>e w. memory_store key (Val (e\<lparr>en_expireAt := my_now w + expire\<rparr>)) w)"

definition memoryKV :: "memory Cache" where
  "memoryKV = \<lparr>ca_Set = memory_Set, ca_Update = memory_Update, ca_Get = memory_Get, ca_Exist = memory_Exist, ca_Remove = memory_Remove,
     ca_Expire = memory_Expire\<rparr>"

text \<open>A value that has been updated can never be read again: the access panics.\<close>

theorem memory_update_breaks:
  assumes "ca_Update memoryKV key v w = (Inr (), w')"
  shows "\<exists>m. ca_Get memoryKV key w' = (Inl (Panic m), w') \<and> ca_Exist memoryKV key w' = (Inl (Panic m), w')"
proof -
  from assms obtain e where "my_storage w' key = Some (Ptr e)"
    by (auto simp: memoryKV_def memory_Update_def memory_store_def io_bind_Inr)
  then show ?thesis by (simp add: memoryKV_def memory_Get_def memory_Exist_def memory_get_def io_bind_def io_try_def IsNotExists_def ErrNotExists_def)
qed

text \<open>The cache in the token storage.\<close>

record CacheToken =
  ctk_Name :: string
  ctk_Token :: string
  ctk_TTL :: int

record 'w token_storage =
  tks_Get :: "string \<Rightarrow> 'w \<Rightarrow> goerr + CacheToken"
  tks_Create :: "CacheToken \<Rightarrow> ('w, CacheToken) io"
  tks_Update :: "CacheToken \<Rightarrow> ('w, CacheToken) io"
  tks_Delete :: "string \<Rightarrow> ('w, unit) io"

definition etcd_get :: "'w token_storage \<Rightarrow> string \<Rightarrow> ('w, CacheToken) io" where
  "etcd_get s key = io_try (io_read (tks_Get s key)) (\<lambda>err. if IsNotFound err then io_err ErrNotExists else io_err err) io_ret"

definition etcdKV :: "(duration \<Rightarrow> int) \<Rightarrow> 'w token_storage \<Rightarrow> 'w Cache" where
  "etcdKV newTTL s =
     \<lparr>ca_Set = (\<lambda>key v expire. io_bind (tks_Create s \<lparr>ctk_Name = key, ctk_Token = v, ctk_TTL = newTTL expire\<rparr>) (\<lambda>_. io_ret ())),
      ca_Update = (\<lambda>key v. io_bind (etcd_get s key) (\<lambda>t. io_bind (tks_Update s (t\<lparr>ctk_Token := v\<rparr>)) (\<lambda>_. io_ret ()))),
      ca_Get = (\<lambda>key. io_bind (etcd_get s key) (\<lambda>t. io_ret (ctk_Token t))),
      ca_Exist = (\<lambda>key. io_try (io_read (tks_Get s key)) (\<lambda>err. if IsNotFound err then io_ret False else io_err err) (\<lambda>_. io_ret True)),
      ca_Remove = tks_Delete s,
      ca_Expire = (\<lambda>key expire. io_bind (etcd_get s key) (\<lambda>t. io_bind (tks_Update s (t\<lparr>ctk_TTL := newTTL expire\<rparr>)) (\<lambda>_. io_ret ())))\<rparr>"

subsection \<open>Verification codes\<close>

definition maxVerificationTimes :: int where "maxVerificationTimes = 3"

definition marshalTokenValue :: "string \<Rightarrow> int \<Rightarrow> string" where
  "marshalTokenValue username n = username @ '':'' @ show_int n"

definition parseTokenValue :: "string \<Rightarrow> goerr + string \<times> int" where
  "parseTokenValue v =
     (let parts = splitOn (CHR '':'') [] v in
      if length parts < 2 then Inl (Plain ''invalid token value'')
      else case ParseInt (parts ! 1) of
        None \<Rightarrow> Inl (Plain ''invalid token value'')
      | Some n \<Rightarrow> Inr (parts ! 0, n))"

text \<open>A provider sends and verifies codes; both are outside of the sources here.\<close>

record 'w mfa_provider =
  mp_Request :: "PasswordInfo \<Rightarrow> ('w, unit) io"
  mp_Verify :: "(string \<times> string) list \<Rightarrow> PasswordInfo \<Rightarrow> ('w, unit) io"

record 'w mfaAuthenticator =
  ma_cache :: "'w Cache"
  ma_Enabled :: bool
  ma_Providers :: "string list"
  ma_GetProvider :: "string \<Rightarrow> goerr + 'w mfa_provider"
  ma_GetUserEx :: "string \<Rightarrow> 'w \<Rightarrow> goerr + User"
  ma_uuid :: "'w \<Rightarrow> string"

definition mfa_key :: "string \<Rightarrow> string" where "mfa_key token = ''mfa-'' @ token"

definition userExtra :: "User \<Rightarrow> string \<Rightarrow> PasswordInfo" where
  "userExtra usr name = \<lparr>pi_Name = name, pi_Extra = [(''phone'', [us_Phone usr]), (''email'', [us_Email usr])]\<rparr>"

text \<open>The answer tells the token and the configured providers.\<close>

definition mfa_Providers :: "'w mfaAuthenticator \<Rightarrow> PasswordInfo \<Rightarrow> ('w, string \<times> string list) io" where
  "mfa_Providers m info w =
     (if ma_Providers m = [] then (Inl (Plain ''server not have mfa provider config''), w)
      else let token = ma_uuid m w in
        io_bind (ca_Set (ma_cache m) (mfa_key token) (marshalTokenValue (pi_Name info) 0) (15 * Minute)) (\<lambda>_.
        io_bind (io_forM (ma_Providers m) (\<lambda>ty. io_bind (io_of (ma_GetProvider m ty)) (\<lambda>_. io_ret ()))) (\<lambda>_.
          io_ret (token, ma_Providers m))) w)"

definition ProviderRequest :: "'w mfaAuthenticator \<Rightarrow> string \<Rightarrow> string \<Rightarrow> ('w, unit) io" where
  "ProviderRequest m ty token =
     io_bind (ca_Get (ma_cache m) (mfa_key token)) (\<lambda>v.
     io_bind (io_of (ma_GetProvider m ty)) (\<lambda>p.
     io_bind (io_of (parseTokenValue v)) (\<lambda>(usrName, _).
     io_bind (io_read (ma_GetUserEx m usrName)) (\<lambda>usr. mp_Request p (userExtra usr usrName)))))"

text \<open>A failed verification is counted, and the token removed after too many; errors of the cache are only logged.\<close>

definition failedVerification :: "'w Cache \<Rightarrow> string \<Rightarrow> string \<Rightarrow> int \<Rightarrow> goerr \<Rightarrow> ('w, 'a) io" where
  "failedVerification c tokenKey usrName failures err =
     io_try (if failures \<ge> maxVerificationTimes then ca_Remove c tokenKey else ca_Update c tokenKey (marshalTokenValue usrName failures))
       (\<lambda>_. io_err err) (\<lambda>_. io_err err)"

definition mfa_Authenticate :: "'w mfaAuthenticator \<Rightarrow> string \<Rightarrow> string \<Rightarrow> (string \<times> string) list \<Rightarrow> ('w, PasswordInfo) io" where
  "mfa_Authenticate m provider token form =
     io_bind (ca_Get (ma_cache m) (mfa_key token)) (\<lambda>v.
     io_bind (io_of (ma_GetProvider m provider)) (\<lambda>p.
     io_bind (io_of (parseTokenValue v)) (\<lambda>(usrName, failures).
     io_bind (io_read (ma_GetUserEx m usrName)) (\<lambda>usr.
       let info = userExtra usr usrName in
       io_try (mp_Verify p form info)
         (failedVerification (ma_cache m) (mfa_key token) usrName (int64 (failures + 1))) (\<lambda>_. io_ret info)))))"

subsection \<open>External providers\<close>

definition MappingMethodAuto :: string where "MappingMethodAuto = ''auto''"
definition MappingMethodLookup :: string where "MappingMethodLookup = ''lookup''"
definition MappingMethodMixed :: string where "MappingMethodMixed = ''mixed''"

record IdentityProviderOptions =
  ip_Name :: string
  ip_MappingMethod :: string

record Identity =
  id_UserID :: string
  id_Username :: string
  id_Email :: string

record IAMUser = User +
  iu_DisplayName :: string
  iu_Labels :: "(string \<times> string) list"

text \<open>The exchange of a request for an identity belongs to the provider.\<close>

record 'w oauthAuthenticator =
  oa_IdentityProviders :: "IdentityProviderOptions list"
  oa_GetOAuthProvider :: "string \<Rightarrow> goerr + ('w, Identity) io"
  oa_ListUsers :: "string \<Rightarrow> 'w \<Rightarrow> goerr + IAMUser list"
  oa_CreateUser :: "IAMUser \<Rightarrow> ('w, IAMUser) io"

definition IdentityProviderOptions_of :: "IdentityProviderOptions list \<Rightarrow> string \<Rightarrow> goerr + IdentityProviderOptions" where
  "IdentityProviderOptions_of ps name =
     (case find (\<lambda>p. ip_Name p = name) ps of Some p \<Rightarrow> Inr p | None \<Rightarrow> Inl (Plain ''the identity provider was not found''))"

definition findMappedUser :: "'w oauthAuthenticator \<Rightarrow> string \<Rightarrow> string \<Rightarrow> 'w \<Rightarrow> goerr + IAMUser" where
  "findMappedUser o' name i w =
     (case oa_ListUsers o' (''iam.kubeclipper.io/idp='' @ name @ '',iam.kubeclipper.io/origin-uid='' @ i) w of
        Inl err \<Rightarrow> Inl err
      | Inr items \<Rightarrow> if length items \<noteq> 1 then Inl (Plain ''user not found'') else Inr (items ! 0))"

definition convertUser :: "Identity \<Rightarrow> string \<Rightarrow> IAMUser" where
  "convertUser i idp =
     \<lparr>us_Name = ToLower (id_Username i), us_EncryptedPassword = [], us_State = Some UserActive, us_Groups = [], us_Phone = [], us_Email = id_Email i,
      iu_DisplayName = id_Username i, iu_Labels = [(''iam.kubeclipper.io/idp'', idp), (''iam.kubeclipper.io/origin-uid'', id_UserID i)]\<rparr>"

definition oauth_Authenticate :: "'w oauthAuthenticator \<Rightarrow> string \<Rightarrow> ('w, UserInfo \<times> string) io" where
  "oauth_Authenticate o' provider =
     io_bind (io_of (IdentityProviderOptions_of (oa_IdentityProviders o') provider)) (\<lambda>opts.
       if ip_MappingMethod opts = MappingMethodMixed \<or> ip_MappingMethod opts = MappingMethodLookup
       then io_err (Plain (''provider '' @ provider @ '' not support mapping method '' @ ip_MappingMethod opts @ '' yet''))
       else io_bind (io_of (oa_GetOAuthProvider o' (ip_Name opts))) (\<lambda>exchange.
            io_bind exchange (\<lambda>authenticated.
              let enter = (\<lambda>usr. io_ret (\<lparr>u_Name = us_Name usr, u_Groups = []\<rparr>, ip_Name opts)) in
              io_try (io_read (findMappedUser o' (ip_Name opts) (id_UserID authenticated)))
                (\<lambda>err. if ip_MappingMethod opts = MappingMethodAuto
                        then io_bind (oa_CreateUser o' (convertUser authenticated (ip_Name opts))) enter
                        else io_err (Plain (''user auto mapping failed, wrap err '' @ Error_text err)))
                enter)))"

text \<open>
  Who enters by an external provider: the one user mapped to the identity, whatever the state of that account; and in the automatic
  mode a new user, also if the users could not be listed or several are mapped.
\<close>

theorem oauth_enters:
  assumes "IdentityProviderOptions_of (oa_IdentityProviders o') provider = Inr opts" "ip_MappingMethod opts = MappingMethodAuto"
    and "oa_GetOAuthProvider o' (ip_Name opts) = Inr exchange" "exchange w = (Inr i, w1)"
    and "oa_ListUsers o' (''iam.kubeclipper.io/idp='' @ ip_Name opts @ '',iam.kubeclipper.io/origin-uid='' @ id_UserID i) w1 = listed"
  shows "oauth_Authenticate o' provider w =
    (case listed of
       Inr [usr] \<Rightarrow> (Inr (\<lparr>u_Name = us_Name usr, u_Groups = []\<rparr>, ip_Name opts), w1)
     | _ \<Rightarrow> io_bind (oa_CreateUser o' (convertUser i (ip_Name opts))) (\<lambda>usr. io_ret (\<lparr>u_Name = us_Name usr, u_Groups = []\<rparr>, ip_Name opts)) w1)"
  using assms
  by (auto simp: oauth_Authenticate_def io_bind_def io_try_def findMappedUser_def MappingMethodAuto_def MappingMethodMixed_def MappingMethodLookup_def
      split: sum.split list.split)

subsection \<open>The handlers\<close>

definition AuthenticatedSuccessfully :: string where "AuthenticatedSuccessfully = ''authenticated successfully''"
definition ErrRateLimitExceeded :: goerr where "ErrRateLimitExceeded = Plain ''auth rate limit exceeded''"
definition ErrIncorrectPassword :: goerr where "ErrIncorrectPassword = Plain ''incorrect password''"

record LoginEntry =
  lg_Username :: string
  lg_Type :: string
  lg_Provider :: string
  lg_SourceIP :: string
  lg_UserAgent :: string
  lg_Success :: bool
  lg_Reason :: string

record 'w oauth_handler =
  oh_cache :: "'w Cache"
  oh_Authenticate :: "string \<Rightarrow> string \<Rightarrow> 'w \<Rightarrow> goerr + PasswordInfo"
  oh_oauth2 :: "'w oauthAuthenticator"
  oh_tokens :: "'w tokenOperator"
  oh_Seconds :: "duration \<Rightarrow> int"
  oh_mfa :: "'w mfaAuthenticator"
  oh_MaxTries :: int
  oh_LimiterDuration :: duration
  oh_CreateLoginRecord :: "LoginEntry \<Rightarrow> ('w, unit) io"

datatype login_response = LoginOK oauth_token | LoginMFA string "string list" | LoginFail nat | LoginPanic

definition rateLimitKey :: "string \<Rightarrow> string" where "rateLimitKey username = ''auth-rate-limit-'' @ username"

definition Atoi :: "string \<Rightarrow> goerr + int" where
  "Atoi s = (case ParseInt s of None \<Rightarrow> Inl (Plain ''invalid syntax'') | Some n \<Rightarrow> Inr n)"

definition rateLimiterChecker :: "'w oauth_handler \<Rightarrow> string \<Rightarrow> ('w, unit) io" where
  "rateLimiterChecker h username =
     io_try (ca_Get (oh_cache h) (rateLimitKey username)) (\<lambda>err. if IsNotExists err then io_ret () else io_err err) (\<lambda>str.
       io_bind (io_of (Atoi str)) (\<lambda>n. if n \<ge> oh_MaxTries h then io_err ErrRateLimitExceeded else io_ret ()))"

definition rateLimiterCounter :: "'w oauth_handler \<Rightarrow> string \<Rightarrow> ('w, unit) io" where
  "rateLimiterCounter h username =
     (let key = rateLimitKey username in
      io_bind (ca_Exist (oh_cache h) key) (\<lambda>exist.
        if exist
        then io_bind (ca_Get (oh_cache h) key) (\<lambda>str.
             io_bind (io_of (Atoi str)) (\<lambda>n.
               let n = int64 (n + 1) in
               io_bind (ca_Update (oh_cache h) key (show_int n)) (\<lambda>_.
                 if n = oh_MaxTries h then io_err ErrRateLimitExceeded else io_ret ())))
        else ca_Set (oh_cache h) key ''1'' (oh_LimiterDuration h)))"

definition rateLimiterFinalizer :: "'w oauth_handler \<Rightarrow> string \<Rightarrow> ('w, unit) io" where
  "rateLimiterFinalizer h username = ca_Remove (oh_cache h) (rateLimitKey username)"

fun create_record :: "nat \<Rightarrow> 'w oauth_handler \<Rightarrow> LoginEntry \<Rightarrow> 'w \<Rightarrow> 'w" where
  "create_record 0 h e w = w"
| "create_record (Suc n) h e w = (case oh_CreateLoginRecord h e w of (Inr _, w') \<Rightarrow> w' | (Inl _, w') \<Rightarrow> create_record n h e w')"

definition loginEntry :: "string \<Rightarrow> string \<Rightarrow> string \<Rightarrow> string \<Rightarrow> string \<Rightarrow> goerr option \<Rightarrow> LoginEntry" where
  "loginEntry username ty provider sourceIP userAgent authErr =
     (let e = \<lparr>lg_Username = username, lg_Type = ty, lg_Provider = provider, lg_SourceIP = sourceIP, lg_UserAgent = userAgent, lg_Success = True,
        lg_Reason = AuthenticatedSuccessfully\<rparr>
      in case authErr of None \<Rightarrow> e | Some err \<Rightarrow> e\<lparr>lg_Success := False, lg_Reason := Error_text err\<rparr>)"

definition recordLogin :: "'w oauth_handler \<Rightarrow> string \<Rightarrow> string \<Rightarrow> string \<Rightarrow> string \<Rightarrow> string \<Rightarrow> goerr option \<Rightarrow> 'w \<Rightarrow> 'w" where
  "recordLogin h username ty provider sourceIP userAgent authErr = create_record 5 h (loginEntry username ty provider sourceIP userAgent authErr)"

text \<open>
  The status of a failed authentication by password; a wrong password is counted and recorded first.  The authenticator of
  passwords always names the empty provider.
\<close>

definition passwordError :: "'w oauth_handler \<Rightarrow> string \<Rightarrow> string \<Rightarrow> string \<Rightarrow> goerr \<Rightarrow> 'w \<Rightarrow> login_response \<times> 'w" where
  "passwordError h username ip agent err w =
     (if err = Plain ''user or password not valid'' \<or> err = Plain ''user not exist'' then (LoginFail 401, w)
      else if err = ErrIncorrectPassword
      then (case rateLimiterCounter h username w of
              (Inl (Panic _), w') \<Rightarrow> (LoginPanic, w')
            | (Inl e, w') \<Rightarrow> (LoginFail 401, recordLogin h username ''Token'' [] ip agent (Some e) w')
            | (Inr _, w') \<Rightarrow> (LoginFail 401, recordLogin h username ''Token'' [] ip agent None w'))
      else if err = ErrRateLimitExceeded then (LoginFail 429, w)
      else if err = Plain ''account is not active'' then (LoginFail 403, w)
      else (case err of Panic _ \<Rightarrow> (LoginPanic, w) | _ \<Rightarrow> (LoginFail 500, w)))"

definition passwordGrant :: "'w oauth_handler \<Rightarrow> string \<Rightarrow> string \<Rightarrow> string \<Rightarrow> string \<Rightarrow> 'w \<Rightarrow> login_response \<times> 'w" where
  "passwordGrant h username password ip agent =
     io_try (rateLimiterChecker h username)
       (\<lambda>err w. if err = ErrRateLimitExceeded then (LoginFail 429, w) else (case err of Panic _ \<Rightarrow> (LoginPanic, w) | _ \<Rightarrow> (LoginFail 500, w)))
       (\<lambda>_. io_try (io_read (oh_Authenticate h username password)) (passwordError h username ip agent) (\<lambda>authenticated.
          if ma_Enabled (oh_mfa h)
          then io_try (mfa_Providers (oh_mfa h) authenticated) (\<lambda>_ w. (LoginFail 500, w)) (\<lambda>(token, ps) w. (LoginMFA token ps, w))
          else io_try (IssueTo (oh_tokens h) (oh_Seconds h) \<lparr>u_Name = pi_Name authenticated, u_Groups = []\<rparr>) (\<lambda>_ w. (LoginFail 500, w)) (\<lambda>result w.
            (LoginOK result, recordLogin h username ''Token'' [] ip agent None (snd (rateLimiterFinalizer h username w))))))"

definition refreshTokenGrant :: "'w oauth_handler \<Rightarrow> string option \<Rightarrow> 'w \<Rightarrow> login_response \<times> 'w" where
  "refreshTokenGrant h refreshToken =
     (case refreshToken of
        None \<Rightarrow> (\<lambda>w. (LoginFail 400, w))
      | Some t \<Rightarrow>
          io_try (token_Verify (oh_tokens h) t) (\<lambda>_ w. (LoginFail 401, w)) (\<lambda>authenticated.
          io_try (IssueTo (oh_tokens h) (oh_Seconds h) authenticated) (\<lambda>_ w. (LoginFail 401, w)) (\<lambda>result w. (LoginOK result, w))))"

text \<open>The form values are a nil map, and setting an entry of it panics.\<close>

definition values_Set :: "string \<Rightarrow> string \<Rightarrow> (string \<times> string) list option \<Rightarrow> goerr + (string \<times> string) list" where
  "values_Set k v m = (case m of None \<Rightarrow> Inl (Panic ''assignment to entry in nil map'') | Some xs \<Rightarrow> Inr (AList.update k v xs))"

definition verificationCodeGrant :: "'w oauth_handler \<Rightarrow> string option \<Rightarrow> string option \<Rightarrow> string option \<Rightarrow> 'w \<Rightarrow> login_response \<times> 'w" where
  "verificationCodeGrant h provider token code =
     (case (provider, token, code) of
        (Some p, Some t, Some c) \<Rightarrow>
          (case values_Set ''code'' c None of
             Inl _ \<Rightarrow> (\<lambda>w. (LoginPanic, w))
           | Inr form \<Rightarrow>
               io_try (mfa_Authenticate (oh_mfa h) p t form) (\<lambda>_ w. (LoginFail 401, w)) (\<lambda>authenticated.
               io_try (IssueTo (oh_tokens h) (oh_Seconds h) \<lparr>u_Name = pi_Name authenticated, u_Groups = []\<rparr>) (\<lambda>_ w. (LoginFail 401, w))
                 (\<lambda>result w. (LoginOK result, w))))
      | _ \<Rightarrow> (\<lambda>w. (LoginFail 400, w)))"

record token_form =
  tf_grant_type :: "string option"
  tf_username :: string
  tf_password :: string
  tf_refresh_token :: "string option"
  tf_mfa_provider :: "string option"
  tf_token :: "string option"
  tf_code :: "string option"

definition oauth_Token :: "'w oauth_handler \<Rightarrow> token_form \<Rightarrow> string \<Rightarrow> string \<Rightarrow> 'w \<Rightarrow> login_response \<times> 'w" where
  "oauth_Token h f ip agent =
     (case tf_grant_type f of
        None \<Rightarrow> (\<lambda>w. (LoginFail 400, w))
      | Some ty \<Rightarrow>
          if ty = ''password'' then passwordGrant h (tf_username f) (tf_password f) ip agent
          else if ty = ''refresh_token'' then refreshTokenGrant h (tf_refresh_token f)
          else if ty = ''mfa'' then verificationCodeGrant h (tf_mfa_provider f) (tf_token f) (tf_code f)
          else (\<lambda>w. (LoginFail 400, w)))"

definition oauth_callback :: "'w oauth_handler \<Rightarrow> string \<Rightarrow> string \<Rightarrow> string \<Rightarrow> 'w \<Rightarrow> login_response \<times> 'w" where
  "oauth_callback h provider ip agent =
     io_try (oauth_Authenticate (oh_oauth2 h) provider) (\<lambda>_ w. (LoginFail 401, w)) (\<lambda>(authenticated, _).
     io_try (IssueTo (oh_tokens h) (oh_Seconds h) authenticated) (\<lambda>_ w. (LoginFail 401, w)) (\<lambda>result w.
       (LoginOK result, recordLogin h (u_Name authenticated) ''OAuth'' provider ip agent None w)))"

definition oauth_Login :: "'w oauth_handler \<Rightarrow> goerr + string \<times> string \<Rightarrow> string \<Rightarrow> string \<Rightarrow> 'w \<Rightarrow> login_response \<times> 'w" where
  "oauth_Login h entity ip agent =
     (case entity of Inl _ \<Rightarrow> (\<lambda>w. (LoginFail 400, w)) | Inr (username, password) \<Rightarrow> passwordGrant h username password ip agent)"

text \<open>The statuses of a request for a verification code.\<close>

definition SendVerificationCode :: "'w oauth_handler \<Rightarrow> goerr + string \<times> string \<Rightarrow> 'w \<Rightarrow> nat \<times> 'w" where
  "SendVerificationCode h entity =
     (case entity of
        Inl _ \<Rightarrow> (\<lambda>w. (400, w))
      | Inr (ty, token) \<Rightarrow> io_try (ProviderRequest (oh_mfa h) ty token) (\<lambda>_ w. (500, w)) (\<lambda>_ w. (200, w)))"

definition oauth_Logout :: "'w oauth_handler \<Rightarrow> UserInfo option \<Rightarrow> ('w, unit) io" where
  "oauth_Logout h user = (case user of None \<Rightarrow> io_ret () | Some u \<Rightarrow> RevokeAllUserTokens (oh_tokens h) (u_Name u))"

subsection \<open>The contract of a cache\<close>

text \<open>
  What the handlers rely on while no entry expires: \<open>view\<close> are the entries, reads return them, writes change them and nothing else does.
  A new entry can be set where there is none.
\<close>

locale kv_cache =
  fixes c :: "'w Cache" and view :: "'w \<Rightarrow> string \<rightharpoonup> string"
  assumes get: "\<exists>w'. ca_Get c k w = (case view w k of None \<Rightarrow> Inl ErrNotExists | Some v \<Rightarrow> Inr v, w') \<and> view w' = view w"
    and exist: "\<exists>w'. ca_Exist c k w = (Inr (view w k \<noteq> None), w') \<and> view w' = view w"
    and set_new: "view w k = None \<Longrightarrow> \<exists>w'. ca_Set c k v d w = (Inr (), w') \<and> view w' = (view w)(k \<mapsto> v)"
    and update: "view w k \<noteq> None \<Longrightarrow> \<exists>w'. ca_Update c k v w = (Inr (), w') \<and> view w' = (view w)(k \<mapsto> v)"
    and remove: "\<exists>x w'. ca_Remove c k w = (x, w') \<and> view w' = (view w)(k := None)"

text \<open>The counter of wrong passwords of a user.\<close>

definition counted :: "('w \<Rightarrow> string \<rightharpoonup> string) \<Rightarrow> string \<Rightarrow> int \<Rightarrow> 'w \<Rightarrow> bool" where
  "counted view u n w \<longleftrightarrow> view w (rateLimitKey u) = (if n = 0 then None else Some (show_int n))"

text \<open>A handler over such a cache, in which login records and tokens are kept apart from the counters.\<close>

locale login_env = kv_cache "oh_cache h" view for h :: "'w oauth_handler" and view +
  assumes record_keeps: "oh_CreateLoginRecord h e w = (x, w') \<Longrightarrow> view w' = view w"
    and max_tries: "1 \<le> oh_MaxTries h" "oh_MaxTries h \<le> MaxInt64"
begin

lemma create_keeps: "view (create_record n h e w) = view w"
  by (induction n arbitrary: w) (auto split: prod.splits sum.splits dest: record_keeps)

lemma checked:
  assumes "counted view u n w" "0 \<le> n" "n \<le> MaxInt64"
  shows "\<exists>w'. rateLimiterChecker h u w = (if n \<ge> oh_MaxTries h then Inl ErrRateLimitExceeded else Inr (), w') \<and> view w' = view w"
proof -
  obtain w' where "ca_Get (oh_cache h) (rateLimitKey u) w = (case view w (rateLimitKey u) of None \<Rightarrow> Inl ErrNotExists | Some v \<Rightarrow> Inr v, w')"
    "view w' = view w" using get by blast
  then show ?thesis using assms max_tries ParseInt_show_int [of n]
    by (cases "n = 0") (auto simp: rateLimiterChecker_def io_try_def counted_def IsNotExists_def Atoi_def io_bind_def MinInt64_def)
qed

lemma counts:
  assumes "counted view u n w" "0 \<le> n" "n < oh_MaxTries h"
  shows "\<exists>x w'. rateLimiterCounter h u w = (x, w') \<and> view w' = (view w)(rateLimitKey u \<mapsto> show_int (n + 1)) \<and>
    x = (if n \<noteq> 0 \<and> n + 1 = oh_MaxTries h then Inl ErrRateLimitExceeded else Inr ())"
proof (cases "n = 0")
  case True
  obtain w1 where 1: "ca_Exist (oh_cache h) (rateLimitKey u) w = (Inr False, w1)" "view w1 = view w"
    using exist [of "rateLimitKey u" w] assms(1) True by (auto simp: counted_def)
  moreover have "view w1 (rateLimitKey u) = None" using 1(2) assms(1) True by (simp add: counted_def)
  then obtain w2 where "ca_Set (oh_cache h) (rateLimitKey u) ''1'' (oh_LimiterDuration h) w1 = (Inr (), w2)" "view w2 = (view w1)(rateLimitKey u \<mapsto> ''1'')"
    using set_new by blast
  moreover have "show_int 1 = ''1''" by code_simp
  ultimately show ?thesis using True by (auto simp: rateLimiterCounter_def Let_def io_bind_def)
next
  case False
  then have v: "view w (rateLimitKey u) = Some (show_int n)" using assms(1) by (simp add: counted_def)
  obtain w1 where 1: "ca_Exist (oh_cache h) (rateLimitKey u) w = (Inr True, w1)" "view w1 = view w"
    using exist [of "rateLimitKey u" w] v by auto
  obtain w2 where 2: "ca_Get (oh_cache h) (rateLimitKey u) w1 = (Inr (show_int n), w2)" "view w2 = view w"
    using get [of "rateLimitKey u" w1] v 1(2) by auto
  obtain w3 where 3: "ca_Update (oh_cache h) (rateLimitKey u) (show_int (n + 1)) w2 = (Inr (), w3)"
      "view w3 = (view w2)(rateLimitKey u \<mapsto> show_int (n + 1))" using update [of w2 "rateLimitKey u"] v 2(2) by fastforce
  have p: "ParseInt (show_int n) = Some n" using ParseInt_show_int [of n] assms(2,3) max_tries(2) by (simp add: MinInt64_def)
  have i: "int64 (n + 1) = n + 1" using assms(2,3) max_tries(2) by (intro int64_id) (auto simp: MinInt64_def)
  show ?thesis using 1 2 3 False p i by (auto simp: rateLimiterCounter_def Let_def io_bind_def Atoi_def)
qed

lemma wrong_password:
  assumes "counted view u n w" "0 \<le> n" "n < oh_MaxTries h" "\<And>w. oh_Authenticate h u p w = Inl ErrIncorrectPassword"
  shows "\<exists>w'. passwordGrant h u p ip agent w = (LoginFail 401, w') \<and> counted view u (n + 1) w'"
proof -
  have "n \<le> MaxInt64" using assms(3) max_tries(2) by linarith
  from checked [OF assms(1,2) this] assms(3) obtain w1 where 1: "rateLimiterChecker h u w = (Inr (), w1)" "view w1 = view w" by auto
  then have "counted view u n w1" using assms(1) by (simp add: counted_def)
  from counts [OF this assms(2,3)] obtain x w2 where 2: "rateLimiterCounter h u w1 = (x, w2)" "view w2 = (view w1)(rateLimitKey u \<mapsto> show_int (n + 1))"
    "x = (if n \<noteq> 0 \<and> n + 1 = oh_MaxTries h then Inl ErrRateLimitExceeded else Inr ())" by blast
  have "counted view u (n + 1) (recordLogin h u ''Token'' [] ip agent e w2)" for e
    using assms(2) 2(2) by (simp add: counted_def recordLogin_def create_keeps)
  then show ?thesis using 1 2(1,3) assms(4)
    by (auto simp: passwordGrant_def io_try_def passwordError_def ErrIncorrectPassword_def ErrRateLimitExceeded_def)
qed

lemma locked_out:
  assumes "counted view u n w" "oh_MaxTries h \<le> n" "n \<le> MaxInt64"
  shows "\<exists>w'. passwordGrant h u p ip agent w = (LoginFail 429, w') \<and> counted view u n w'"
proof -
  have "0 \<le> n" using assms(2) max_tries(1) by linarith
  from checked [OF assms(1) this assms(3)] assms(2) obtain w1 where "rateLimiterChecker h u w = (Inl ErrRateLimitExceeded, w1)" "view w1 = view w" by auto
  then show ?thesis using assms(1) by (auto simp: passwordGrant_def io_try_def counted_def)
qed

end

subsection \<open>Runs of wrong passwords\<close>

fun attempts :: "'w oauth_handler \<Rightarrow> string \<Rightarrow> string \<Rightarrow> string \<Rightarrow> string list \<Rightarrow> 'w \<Rightarrow> login_response list \<times> 'w" where
  "attempts h u ip agent [] w = ([], w)"
| "attempts h u ip agent (p # ps) w =
     (let (r, w1) = passwordGrant h u p ip agent w; (rs, w2) = attempts h u ip agent ps w1 in (r # rs, w2))"

lemma attempts_Cons:
  "passwordGrant h u p ip agent w = (r, w1) \<Longrightarrow> fst (attempts h u ip agent (p # ps) w) = r # fst (attempts h u ip agent ps w1)"
  by (simp add: case_prod_unfold Let_def)

context login_env
begin

lemma attempts_locked:
  assumes "counted view u n w" "oh_MaxTries h \<le> n" "n \<le> MaxInt64"
  shows "fst (attempts h u ip agent ps w) = replicate (length ps) (LoginFail 429)"
  using assms(1)
proof (induction ps arbitrary: w)
  case (Cons p ps)
  from locked_out [OF Cons.prems assms(2,3)] obtain w1 where "passwordGrant h u p ip agent w = (LoginFail 429, w1)" "counted view u n w1" by blast
  with Cons.IH [of w1] show ?case by (simp add: attempts_Cons del: attempts.simps(2))
qed simp

lemma attempts_fail:
  assumes "list_all (\<lambda>p. \<forall>w. oh_Authenticate h u p w = Inl ErrIncorrectPassword) ps" "counted view u n w" "0 \<le> n"
    and "n + int (length ps) = oh_MaxTries h"
  shows "fst (attempts h u ip agent (ps @ qs) w) = replicate (length ps) (LoginFail 401) @ replicate (length qs) (LoginFail 429)"
  using assms
proof (induction ps arbitrary: n w)
  case Nil
  then show ?case using attempts_locked [of u n w ip agent qs] max_tries(2) by simp
next
  case (Cons p ps)
  then have "n < oh_MaxTries h" by simp
  from wrong_password [OF Cons.prems(2,3) this, of p ip agent] Cons.prems(1) obtain w1
    where "passwordGrant h u p ip agent w = (LoginFail 401, w1)" "counted view u (n + 1) w1" by auto
  with Cons.IH [of "n + 1" w1] Cons.prems show ?case by (simp add: attempts_Cons del: attempts.simps(2))
qed

end

text \<open>
  The limit on wrong passwords: of a run of logins of a user whose counter is empty, all with wrong passwords, exactly the first
  \<^verbatim>\<open>MaxTries\<close> are refused as wrong; from then on every login is turned away, whatever its password.
\<close>

theorem lockout:
  assumes "login_env h view" "counted view u 0 w" "list_all (\<lambda>p. \<forall>w. oh_Authenticate h u p w = Inl ErrIncorrectPassword) ps"
    and "length ps = nat (oh_MaxTries h)"
  shows "fst (attempts h u ip agent (ps @ qs) w) = replicate (length ps) (LoginFail 401) @ replicate (length qs) (LoginFail 429)"
proof -
  have "1 \<le> oh_MaxTries h" using login_env.max_tries [OF assms(1)] by blast
  then show ?thesis using login_env.attempts_fail [OF assms(1,3,2), of ip agent qs] assms(4) by simp
qed

text \<open>
  A login with a wrong password is recorded as a successful one, unless it reaches the limit: the record is made from the
  answer of the counter and not from the failure.
\<close>

theorem failed_login_recorded_as_success:
  assumes "login_env h view" "counted view u n w" "0 \<le> n" "n + 1 < oh_MaxTries h" "\<And>w. oh_Authenticate h u p w = Inl ErrIncorrectPassword"
  shows "\<exists>e w'. passwordGrant h u p ip agent w = (LoginFail 401, create_record 5 h e w') \<and> lg_Success e \<and> lg_Reason e = AuthenticatedSuccessfully"
proof -
  note max = login_env.max_tries [OF assms(1)]
  have n: "n \<le> MaxInt64" "n < oh_MaxTries h" using assms(4) max by linarith+
  from login_env.checked [OF assms(1,2,3) n(1)] n(2) obtain w1 where 1: "rateLimiterChecker h u w = (Inr (), w1)" "view w1 = view w" by auto
  then have "counted view u n w1" using assms(2) by (simp add: counted_def)
  from login_env.counts [OF assms(1) this assms(3) n(2)] assms(4) obtain w2 where "rateLimiterCounter h u w1 = (Inr (), w2)" by auto
  then show ?thesis using 1(1) assms(5)
    by (auto simp: passwordGrant_def io_try_def passwordError_def ErrIncorrectPassword_def recordLogin_def loginEntry_def)
qed

subsection \<open>Verification tokens\<close>

lemma show_int_no_colon: "0 \<le> n \<Longrightarrow> CHR '':'' \<notin> set (show_int n)"
  using show_nat_digits [of "nat n"] by (auto simp: show_int_def list_all_iff is_digit_def)

text \<open>The value of a verification token is read back for every name without a colon; with a colon it is refused.\<close>

theorem token_value_roundtrip:
  assumes "CHR '':'' \<notin> set u" "0 \<le> n" "n \<le> MaxInt64"
  shows "parseTokenValue (marshalTokenValue u n) = Inr (u, n)"
proof -
  have "splitOn (CHR '':'') [] (u @ CHR '':'' # show_int n) = [u, show_int n]"
    using assms show_int_no_colon [of n] by (simp add: splitOn_append splitOn_no)
  then show ?thesis using ParseInt_show_int [of n] assms by (simp add: parseTokenValue_def marshalTokenValue_def MinInt64_def)
qed

theorem colon_name_refused: "parseTokenValue (marshalTokenValue ''a:b'' 0) = Inl (Plain ''invalid token value'')"
  by code_simp

context kv_cache
begin

text \<open>One verification: the token is read, and its user found.\<close>

lemma mfa_verified:
  assumes "ma_cache m = c" "view w (mfa_key t) = Some (marshalTokenValue u n)" "CHR '':'' \<notin> set u" "0 \<le> n" "n \<le> MaxInt64"
    and "ma_GetProvider m p = Inr prov" "\<And>w. ma_GetUserEx m u w = Inr usr"
  shows "\<exists>w'. view w' = view w \<and> mfa_Authenticate m p t form w =
     io_try (mp_Verify prov form (userExtra usr u)) (failedVerification c (mfa_key t) u (int64 (n + 1)))
       (\<lambda>_. io_ret (userExtra usr u)) w'"
proof -
  from get [of "mfa_key t" w] assms(2) obtain w' where "ca_Get c (mfa_key t) w = (Inr (marshalTokenValue u n), w')" "view w' = view w" by auto
  then show ?thesis using assms(1,6,7) token_value_roundtrip [OF assms(3-5)] by (auto simp: mfa_Authenticate_def io_bind_def Let_def)
qed

lemma mfa_failed:
  assumes "ma_cache m = c" "view w (mfa_key t) = Some (marshalTokenValue u n)" "CHR '':'' \<notin> set u" "0 \<le> n" "n < maxVerificationTimes"
    and "ma_GetProvider m p = Inr prov" "\<And>w. ma_GetUserEx m u w = Inr usr"
    and "\<And>w. \<exists>w'. mp_Verify prov form (userExtra usr u) w = (Inl err, w') \<and> view w' = view w"
  shows "\<exists>w'. mfa_Authenticate m p t form w = (Inl err, w') \<and>
    view w' = (view w)(mfa_key t := if n + 1 = maxVerificationTimes then None else Some (marshalTokenValue u (n + 1)))"
proof -
  have n: "n \<le> MaxInt64" "int64 (n + 1) = n + 1" using assms(4,5) by (auto simp: maxVerificationTimes_def MaxInt64_def MinInt64_def intro!: int64_id)
  obtain w1 where 1: "view w1 = view w" and run: "mfa_Authenticate m p t form w = io_try (mp_Verify prov form (userExtra usr u)) (failedVerification c (mfa_key t) u (int64 (n + 1)))
       (\<lambda>_. io_ret (userExtra usr u)) w1" using mfa_verified [OF assms(1-4) n(1) assms(6,7)] by blast
  obtain w2 where 2: "mp_Verify prov form (userExtra usr u) w1 = (Inl err, w2)" "view w2 = view w" using assms(8) [of w1] 1 by auto
  obtain x w3 where rm: "ca_Remove c (mfa_key t) w2 = (x, w3)" "view w3 = (view w)(mfa_key t := None)" using remove [of "mfa_key t" w2] 2 by auto
  obtain w4 where up: "ca_Update c (mfa_key t) (marshalTokenValue u (n + 1)) w2 = (Inr (), w4)" "view w4 = (view w)(mfa_key t \<mapsto> marshalTokenValue u (n + 1))"
    using update [of w2 "mfa_key t" "marshalTokenValue u (n + 1)"] 2 assms(2) by auto
  show ?thesis unfolding run using 2 rm up n(2) assms(5) by (cases x) (auto simp: io_try_def failedVerification_def)
qed

lemma mfa_passed:
  assumes "ma_cache m = c" "view w (mfa_key t) = Some (marshalTokenValue u n)" "CHR '':'' \<notin> set u" "0 \<le> n" "n \<le> MaxInt64"
    and "ma_GetProvider m p = Inr prov" "\<And>w. ma_GetUserEx m u w = Inr usr"
    and "\<And>w. \<exists>w'. mp_Verify prov form (userExtra usr u) w = (Inr (), w') \<and> view w' = view w"
  shows "\<exists>w'. mfa_Authenticate m p t form w = (Inr (userExtra usr u), w') \<and> view w' = view w"
proof -
  obtain w1 where 1: "view w1 = view w" and run: "mfa_Authenticate m p t form w = io_try (mp_Verify prov form (userExtra usr u)) (failedVerification c (mfa_key t) u (int64 (n + 1)))
       (\<lambda>_. io_ret (userExtra usr u)) w1" using mfa_verified [OF assms(1-7)] by blast
  obtain w2 where "mp_Verify prov form (userExtra usr u) w1 = (Inr (), w2)" "view w2 = view w" using assms(8) [of w1] 1 by auto
  then show ?thesis unfolding run by (simp add: io_try_def)
qed

end

text \<open>The grant by verification code never gets as far: it panics once it has its three parameters.\<close>

theorem verificationCodeGrant_panics: "verificationCodeGrant h (Some p) (Some t) (Some c) w = (LoginPanic, w)"
  by (simp add: verificationCodeGrant_def values_Set_def)

subsection \<open>The caches of the server\<close>

text \<open>What a storage of tokens documents: it returns what was stored under a name, and refuses with "not found" otherwise.\<close>

definition texts :: "('w \<Rightarrow> string \<rightharpoonup> CacheToken) \<Rightarrow> 'w \<Rightarrow> string \<rightharpoonup> string" where
  "texts tview w = map_option ctk_Token \<circ> tview w"

lemma texts_None [simp]: "texts tview w k = None \<longleftrightarrow> tview w k = None"
  by (simp add: texts_def)

locale named_tokens =
  fixes s :: "'w token_storage" and tview :: "'w \<Rightarrow> string \<rightharpoonup> CacheToken" and newTTL :: "duration \<Rightarrow> int"
  assumes none: "tview w k = None \<Longrightarrow> \<exists>e. tks_Get s k w = Inl e \<and> IsNotFound e"
    and some: "tview w k = Some t \<Longrightarrow> tks_Get s k w = Inr t \<and> ctk_Name t = k"
    and created: "tview w (ctk_Name t) = None \<Longrightarrow> \<exists>x w'. tks_Create s t w = (Inr x, w') \<and> tview w' = (tview w)(ctk_Name t \<mapsto> t)"
    and updated: "tview w (ctk_Name t) \<noteq> None \<Longrightarrow> \<exists>x w'. tks_Update s t w = (Inr x, w') \<and> tview w' = (tview w)(ctk_Name t \<mapsto> t)"
    and deleted: "\<exists>x w'. tks_Delete s k w = (x, w') \<and> tview w' = (tview w)(k := None)"
begin

lemma etcd_get_eq:
  "etcd_get s k w = (case tview w k of None \<Rightarrow> Inl ErrNotExists | Some t \<Rightarrow> Inr t, w)"
  using none [of w k] some [of w k] by (cases "tview w k") (auto simp: etcd_get_def io_try_def)

lemma etcd_update_eq:
  assumes "tview w k \<noteq> None"
  shows "\<exists>w'. ca_Update (etcdKV newTTL s) k v w = (Inr (), w') \<and> texts tview w' = (texts tview w)(k \<mapsto> v)"
proof -
  from assms obtain t where t: "tview w k = Some t" by blast
  with some have n: "ctk_Name t = k" by blast
  from updated [of w "t\<lparr>ctk_Token := v\<rparr>"] t n obtain x w' where
    "tks_Update s (t\<lparr>ctk_Token := v\<rparr>) w = (Inr x, w')" "tview w' = (tview w)(k \<mapsto> t\<lparr>ctk_Token := v\<rparr>)" by auto
  then show ?thesis using t by (auto simp: etcdKV_def etcd_get_eq io_bind_def texts_def fun_eq_iff)
qed

lemma etcd_set_eq:
  assumes "tview w k = None"
  shows "\<exists>w'. ca_Set (etcdKV newTTL s) k v d w = (Inr (), w') \<and> texts tview w' = (texts tview w)(k \<mapsto> v)"
  using assms created [of w "\<lparr>ctk_Name = k, ctk_Token = v, ctk_TTL = newTTL d\<rparr>"] by (auto simp: etcdKV_def io_bind_def texts_def fun_eq_iff)

lemma etcd_exist_eq: "ca_Exist (etcdKV newTTL s) k w = (Inr (tview w k \<noteq> None), w)"
  using none [of w k] some [of w k] by (cases "tview w k") (auto simp: etcdKV_def io_try_def)

lemma etcd_remove_eq: "\<exists>x w'. ca_Remove (etcdKV newTTL s) k w = (x, w') \<and> texts tview w' = (texts tview w)(k := None)"
  using deleted [of k w] by (auto simp: etcdKV_def texts_def fun_eq_iff)

end

text \<open>The cache in a storage of tokens keeps the contract; the one in memory does not, see above.\<close>

sublocale named_tokens \<subseteq> etcd: kv_cache "etcdKV newTTL s" "texts tview"
proof
  show "\<exists>w'. ca_Get (etcdKV newTTL s) k w = (case texts tview w k of None \<Rightarrow> Inl ErrNotExists | Some v \<Rightarrow> Inr v, w') \<and> texts tview w' = texts tview w" for k w
    by (auto simp: etcdKV_def etcd_get_eq io_bind_def texts_def split: option.split)
  show "\<exists>w'. ca_Exist (etcdKV newTTL s) k w = (Inr (texts tview w k \<noteq> None), w') \<and> texts tview w' = texts tview w" for k w
    by (simp add: etcd_exist_eq)
qed (simp_all add: etcd_set_eq etcd_update_eq etcd_remove_eq)

text \<open>A server with the storages in memory: tokens by name, issued tokens and login records.\<close>

record login_world =
  lw_tokens :: "string \<rightharpoonup> string \<times> int"
  lw_issued :: "Token list"
  lw_records :: "LoginEntry list"

definition held :: "login_world \<Rightarrow> string \<rightharpoonup> CacheToken" where
  "held w k = map_option (\<lambda>(v, ttl). \<lparr>ctk_Name = k, ctk_Token = v, ctk_TTL = ttl\<rparr>) (lw_tokens w k)"

definition put_token :: "CacheToken \<Rightarrow> (login_world, CacheToken) io" where
  "put_token t w = (Inr t, w\<lparr>lw_tokens := (lw_tokens w)(ctk_Name t \<mapsto> (ctk_Token t, ctk_TTL t))\<rparr>)"

definition mem_tokens :: "login_world token_storage" where
  "mem_tokens =
     \<lparr>tks_Get = (\<lambda>k w. case held w k of None \<Rightarrow> Inl (NotFound ''token'' k) | Some t \<Rightarrow> Inr t),
      tks_Create = (\<lambda>t w. if held w (ctk_Name t) = None then put_token t w else (Inl (AlreadyExists ''token'' (ctk_Name t)), w)),
      tks_Update = (\<lambda>t w. if held w (ctk_Name t) = None then (Inl (NotFound ''token'' (ctk_Name t)), w) else put_token t w),
      tks_Delete = (\<lambda>k w. (if held w k = None then Inl (NotFound ''token'' k) else Inr (), w\<lparr>lw_tokens := (lw_tokens w)(k := None)\<rparr>))\<rparr>"

lemma held_put: "put_token t w = (r, w') \<Longrightarrow> held w' = (held w)(ctk_Name t \<mapsto> t)"
  by (auto simp: put_token_def held_def fun_eq_iff)

interpretation mem: named_tokens mem_tokens held "\<lambda>d. d div Second"
proof
  fix k w and t :: CacheToken
  show "\<exists>e. tks_Get mem_tokens k w = Inl e \<and> IsNotFound e" if "held w k = None" using that by (simp add: mem_tokens_def)
  show "tks_Get mem_tokens k w = Inr t \<and> ctk_Name t = k" if "held w k = Some t" using that by (auto simp: mem_tokens_def held_def)
  show "\<exists>x w'. tks_Create mem_tokens t w = (Inr x, w') \<and> held w' = (held w)(ctk_Name t \<mapsto> t)" if "held w (ctk_Name t) = None"
    using that held_put [of t w] by (simp add: mem_tokens_def put_token_def)
  show "\<exists>x w'. tks_Update mem_tokens t w = (Inr x, w') \<and> held w' = (held w)(ctk_Name t \<mapsto> t)" if "held w (ctk_Name t) \<noteq> None"
    using that held_put [of t w] by (simp add: mem_tokens_def put_token_def)
  show "\<exists>x w'. tks_Delete mem_tokens k w = (x, w') \<and> held w' = (held w)(k := None)"
    by (simp add: mem_tokens_def held_def fun_eq_iff)
qed

definition mem_cache :: "login_world Cache" where "mem_cache = etcdKV (\<lambda>d. d div Second) mem_tokens"

definition mem_issued :: "login_world token_cache" where
  "mem_issued =
     \<lparr>tca_Create = (\<lambda>tok w. (Inr tok, w\<lparr>lw_issued := lw_issued w @ [tok]\<rparr>)),
      tca_DeleteOf = (\<lambda>u w. (Inr (), w\<lparr>lw_issued := filter (\<lambda>t. tk_Username t \<noteq> u) (lw_issued w)\<rparr>)),
      tca_List = (\<lambda>u s w. Inr (filter (\<lambda>t. tk_Username t = u \<and> tk_Token t = s) (lw_issued w)))\<rparr>"

definition mem_user :: User where
  "mem_user = \<lparr>us_Name = ''alice'', us_EncryptedPassword = ''secret'', us_State = Some UserActive, us_Groups = [], us_Phone = [], us_Email = []\<rparr>"

definition mem_handler :: "login_world oauth_handler" where
  "mem_handler =
     \<lparr>oh_cache = mem_cache,
      oh_Authenticate = (\<lambda>u p w. Authenticate (\<lambda>_. False) (=) \<lparr>iu_GetUserEx = (\<lambda>u. if u = ''alice'' then Inr mem_user else Inl (NotFound ''user'' u)),
        iu_ListByEmail = (\<lambda>_. Inr [])\<rparr> u p),
      oh_oauth2 = \<lparr>oa_IdentityProviders = [], oa_GetOAuthProvider = (\<lambda>_. Inl (Plain ''identity provider not found'')), oa_ListUsers = (\<lambda>_ _. Inr []),
        oa_CreateUser = (\<lambda>u w. (Inr u, w))\<rparr>,
      oh_tokens = \<lparr>to_issuer = plain_issuer, to_cache = mem_issued, to_AccessTokenMaxAge = Hour, to_AccessTokenInactivityTimeout = Hour, to_MultipleLogin = False\<rparr>,
      oh_Seconds = (\<lambda>d. d div Second),
      oh_mfa = \<lparr>ma_cache = mem_cache, ma_Enabled = False, ma_Providers = [], ma_GetProvider = (\<lambda>_. Inl (Plain ''provider not found'')),
        ma_GetUserEx = (\<lambda>_ _. Inr mem_user), ma_uuid = (\<lambda>_. ''0'')\<rparr>,
      oh_MaxTries = 5, oh_LimiterDuration = 10 * Minute,
      oh_CreateLoginRecord = (\<lambda>e w. (Inr (), w\<lparr>lw_records := lw_records w @ [e]\<rparr>))\<rparr>"

interpretation mem_login: login_env mem_handler "texts held"
proof -
  have c: "kv_cache (oh_cache mem_handler) (texts held)" using mem.etcd.kv_cache_axioms by (simp add: mem_handler_def mem_cache_def)
  have k: "texts held (w\<lparr>lw_records := r\<rparr>) = texts held w" for w r by (simp add: texts_def held_def fun_eq_iff)
  show "login_env mem_handler (texts held)"
    by (intro login_env.intro login_env_axioms.intro c) (auto simp: mem_handler_def MaxInt64_def k)
qed

text \<open>Five wrong passwords, then the right one: it is turned away.\<close>

theorem right_password_locked_out:
  "fst (attempts mem_handler ''alice'' ip agent ([''a'', ''b'', ''c'', ''d'', ''e''] @ [''secret'']) \<lparr>lw_tokens = \<lambda>_. None, lw_issued = [], lw_records = []\<rparr>) =
     replicate 5 (LoginFail 401) @ [LoginFail 429]"
proof -
  have "fst (attempts mem_handler ''alice'' ip agent ([''a'', ''b'', ''c'', ''d'', ''e''] @ [''secret'']) \<lparr>lw_tokens = \<lambda>_. None, lw_issued = [], lw_records = []\<rparr>) =
     replicate (length [''a'', ''b'', ''c'', ''d'', ''e'']) (LoginFail 401) @ replicate (length [''secret'']) (LoginFail 429)"
    by (rule lockout [OF mem_login.login_env_axioms])
      (simp_all add: counted_def held_def mem_handler_def Authenticate_def findUser_def mem_user_def ErrIncorrectPassword_def)
  then show ?thesis by (simp add: numeral_eq_Suc)
qed

end
