(* ===== verification/Spec2Isabelle.thy ===== *)
theory Spec2Isabelle
  imports Op_Typing Op_Agent_Props Op_Log Op_Business Rbac Query_Page Node_Monitor Auth Cluster_Ctrl_Props Dns Housekeeping Server_Gate Login "HOL-Library.Code_Target_Nat"
begin

text \<open>
  \<^bold>\<open>KubeClipper: the operation engine and the controllers around it.\<close>

  KubeClipper installs and maintains Kubernetes clusters.  Every piece of work on a cluster is an
  \<^emph>\<open>operation\<close>: a plan of steps, each with target nodes.  The API server stores operations, a controller turns the
  current step into \<^emph>\<open>tasks\<close>, one per node and attempt, agents on the nodes run tasks and report their
  status, and further controllers react to the outcome.  This development models these parts and
  proves what makes them correct.  Source paths below are relative to \<^verbatim>\<open>src/pkg\<close>.

  \<^bold>\<open>Parts and theories.\<close>

  \<^item> \<open>Go_Prelude\<close>, \<open>Go_Utf8\<close>: what the sources use of Go and its standard library (64-bit integers and durations, times,
    decimal notation, quoting, splitting, sorting, UTF-8), errors as values of \<open>goerr\<close>, and effects as functions \<open>('w, 'a) io\<close>
    of a world with their frame and Hoare rules.
  \<^item> \<open>Op_Types\<close>, \<open>Op_Validation\<close>: \<^verbatim>\<open>scheme/operations\<close>.  Records for the structs, admission, the two phase machines.
  \<^item> \<open>Storage_Api\<close>: the storage interface of the API server (a third-party library) as locales: \<open>rest_storage\<close> allows other clients to
    commit changes at any time, \<open>quiet_storage\<close> has a single writer per collection.  \<open>Op_Strategy\<close>: \<^verbatim>\<open>server/registry/operationv2\<close>.
    \<open>Op_Typing\<close>: what can ever be stored.
  \<^item> \<open>Op_Store\<close>, \<open>Op_Paging\<close>: \<^verbatim>\<open>models/operationv2/store.go\<close>.  \<open>Op_Purge\<close>: what the removal of the history of a target deletes and refuses.
  \<^item> \<open>Op_Names\<close>, \<open>Op_Reducer\<close>, \<open>Op_Controller\<close>: \<^verbatim>\<open>controller/operationv2\<close>, function by function.  \<open>Op_Safety\<close> has the invariant of the engine and
    the locale \<open>reconciler\<close> in which every function of the controller keeps it; \<open>Op_Frame\<close> and \<open>Op_Engine\<close> have the transition systems
    \<open>engine_step\<close> (single writer) and \<open>system_step\<close> (any other clients) and derive the locales from the storage contract.
  \<^item> \<open>Mem_Storage\<close>: a storage in memory on which all these locales are interpreted.
  \<^item> \<open>Op_Handler\<close>, \<open>Op_Handler_Props\<close>: \<^verbatim>\<open>apis/operations/v1alpha1/handler.go\<close>, from the parsed request to the response.
  \<^item> \<open>Op_Agent\<close>, \<open>Op_Agent_Props\<close>, \<open>Op_Log\<close>: \<^verbatim>\<open>agent/operationv2\<close>, \<^verbatim>\<open>oplog\<close>: the worker, its executors, and the log server.
  \<^item> \<open>Op_Builder\<close>, \<open>Op_Business\<close>: \<^verbatim>\<open>operationv2/builder.go\<close> makes operations of plans, \<^verbatim>\<open>controller/operationv2/business.go\<close> and \<^verbatim>\<open>setup.go\<close>
    apply their outcome to clusters and map events to operations.
  \<^item> \<open>Rbac\<close>, \<open>Auth\<close>: \<^verbatim>\<open>authorization/rbac\<close>, \<^verbatim>\<open>authentication\<close>: who a request comes from and what it may do.
    \<open>Server_Gate\<close>: \<^verbatim>\<open>server/request\<close>, \<^verbatim>\<open>server/filters\<close>: what a request passes before it reaches a handler.
    \<open>Login\<close>: \<^verbatim>\<open>apis/oauth/handler.go\<close>, \<^verbatim>\<open>authentication/auth\<close> (verification codes and external providers), \<^verbatim>\<open>simple/client/cache\<close>: logins, their limit
    and the caches behind them (locales \<open>kv_cache\<close>, \<open>login_env\<close>, \<open>named_tokens\<close>).
  \<^item> \<open>Query_Page\<close>: \<^verbatim>\<open>query\<close>, \<^verbatim>\<open>models/models.go\<close>: query parameters and paged lists.
  \<^item> \<open>Node_Monitor\<close>, \<open>Cluster_Nodes\<close>: \<^verbatim>\<open>controller/node_status.go\<close>, \<^verbatim>\<open>controller/nodecontroller\<close>, \<^verbatim>\<open>clusteroperation/node.go\<close>: health, roles and membership of nodes.
  \<^item> \<open>Backups\<close>, \<open>Cron_Backup\<close>, \<open>Cron_Backup_Props\<close>: \<^verbatim>\<open>controller/backupcontroller\<close>, \<^verbatim>\<open>controller/cronbackupcontroller\<close> and the backup steps of
    \<^verbatim>\<open>scheme/core/v1/k8s/cluster.go\<close>.
  \<^item> \<open>Registries\<close>, \<open>Cluster_Plan\<close>, \<open>Cluster_Ctrl\<close>, \<open>Cluster_Ctrl_Props\<close>: the registries of \<^verbatim>\<open>component/utils\<close> and of clusters, the plans of \<^verbatim>\<open>clusteroperation\<close>,
    and the cluster controller \<^verbatim>\<open>controller/clustercontroller\<close> with its finalizer, node labels, client, registries and pending operations.
  \<^item> \<open>Ctrl_Runtime\<close>: \<^verbatim>\<open>controller-runtime\<close>, from the notifications of informers to the workers that reconcile requests, over the contract of the work
    queue (locale \<open>work_queue\<close>), and the readiness lease of the manager.
  \<^item> \<open>Dns\<close>, \<open>Housekeeping\<close>: \<^verbatim>\<open>controller/dnscontroller\<close>; \<^verbatim>\<open>controller/regioncontroller\<close>, \<^verbatim>\<open>controller/tokencontroller\<close>, \<^verbatim>\<open>controller/audit_status.go\<close>,
    \<^verbatim>\<open>iam_status.go\<close> and \<^verbatim>\<open>cluster_status.go\<close>.

  \<^bold>\<open>How code is represented.\<close>  A struct is a record, a string enumeration a string constant, a map an association list or a HOL map
  where its order is never observed, a nil-able pointer an option.  A function that returns an error and has effects is a function
  of a world; panics are the error \<open>Panic\<close>.  Loops are structural recursions or \<open>function\<close>s with a termination proof; no fuel is used in the
  model.  (The client that follows continuation tokens in \<open>Op_Paging\<close> and the one that reads a log in \<open>Op_Log\<close> are bounded by the number of
  operations, respectively bytes, and one more, and are proved to be done within the bound.)  Times are integers of nanoseconds; the storage rounds creation
  times to seconds, so ties occur.  Library functions outside the sources (digests, JSON, certificates, cron expressions, selectors,
  retry loops) are arguments of the definitions; where a theorem relies on them it says so, and its witness
  gives a concrete instance.

  \<^bold>\<open>What is proved.\<close>

  \<^item> \<^emph>\<open>The engine\<close> (this theory).  From empty collections and in any order of steps: two active tasks of one target belong to one operation (C1), a
    Succeeded operation has a Succeeded task for every node of every step (C2), an active task belongs to a Running operation that holds the
    lock (C3).  Under interference by any other clients: terminal task facts are final (C4), plans never change (C5), stored objects
    are well typed (C6).
  \<^item> \<^emph>\<open>The reducer\<close>: it reports completion and the current step exactly when it should, attempts respect the retry limits,
    exactly one waiting operation of a target runs next.
  \<^item> \<^emph>\<open>The API\<close>: the handlers take only steps of the engine, agents touch only tasks of their own node, each handler has exactly the effect
    its route names, pages and tokens are complete.
  \<^item> \<^emph>\<open>Agents\<close>: what they change, that the server accepts what they report, that messages stay valid text, and who may read logs.
  \<^item> \<^emph>\<open>Around the engine\<close>: built operations are admitted and their steps fit together, outcomes reach the clusters, blocked operations are
    woken; no notification is forgotten by the controller runtime; a request reaches a handler exactly if it is authenticated and some role grants it; after the configured
    number of wrong passwords every login is turned away; silent
    nodes are found and live ones kept; a cluster is finalized only after its history, its pending operations are handed over once; backups
    follow their operations and retention keeps the newest.
  \<^item> \<^emph>\<open>What goes wrong\<close>: registries of running clusters are never delivered, a domain that names a deleted cluster is stuck, a region can
    come back without nodes, a failed status update is not repeated, wrong passwords are recorded as successful logins, the grant by verification code always panics.  These theorems state what the code does on such paths.

  \<^bold>\<open>Assumptions worth knowing.\<close>  The invariants C1 to C3 are proved for a single writer per collection (one elected controller
  manager and API servers whose guarded updates are atomic); C4 to C6 need no such assumption.  Liveness under fairness of the work queues is not
  stated; instead the events that wake a blocked operation are.

  \<^bold>\<open>Not modelled.\<close>  The start of the controllers, informers and leader election (the order in which reconcilers run is arbitrary here); the
  controller of external cloud providers, which drives ssh sessions and foreign clusters; the core and IAM handlers, which mostly assemble queries and pass objects
  to the storage; templates and shell steps of the installed components, whose effect lies in other programs; the command
  line, configuration, wiring and auditing; the exchange with identity and verification providers, the cache in Redis and the signing of tokens; generated code.
\<close>

section \<open>A run of the engine\<close>

text \<open>
  A concrete run on the reference storage: an operation with one step on one node is submitted,
  the controller starts it and creates the task of the first attempt, the agent runs the task to
  success, and the controller finishes the operation.
\<close>

definition request :: Operation where
  "request = sample_op\<lparr>op_Meta := sample_meta ''op'' [] [], op_Status := empty_OperationStatus\<rparr>"

definition run1 :: mem where "run1 = snd (CreateOperation memStore (Some request) mem0)"
definition run2 :: mem where "run2 = snd (Reconcile memReconciler ''op'' run1)"
definition run3 :: mem where "run3 = snd (Reconcile memReconciler ''op'' run2)"

definition report :: "string \<Rightarrow> mem \<Rightarrow> mem" where
  "report phase w = snd (UpdateTaskStatus memStore (task_Name (hd (co_items (mem_tasks w)))) [] []
     (empty_OperationTaskStatus\<lparr>tst_Phase := phase\<rparr>) w)"

definition run4 :: mem where "run4 = report TaskRunning run3"
definition run5 :: mem where "run5 = report TaskSucceeded run4"
definition run6 :: mem where "run6 = snd (Reconcile memReconciler ''op'' run5)"

lemma step_reconcile: "engine_step s r w (snd (Reconcile r n w))"
  by (rule engine_step.reconcile [OF prod.collapse [symmetric]])

lemma step_report: "engine_step s r w (snd (UpdateTaskStatus s n u rv st w))"
  by (rule engine_step.report [OF prod.collapse [symmetric]])

lemma step_submit: "engine_step s r w (snd (CreateOperation s op w))"
  by (rule engine_step.submit [OF prod.collapse [symmetric]])

lemma reach3: "(engine_step memStore memReconciler)\<^sup>*\<^sup>* mem0 run3"
  unfolding run3_def run2_def run1_def
  by (meson rtranclp.rtrancl_into_rtrancl rtranclp.rtrancl_refl step_submit step_reconcile)

lemma reach6: "(engine_step memStore memReconciler)\<^sup>*\<^sup>* mem0 run6"
  using reach3 unfolding run6_def run5_def run4_def report_def
  by (meson rtranclp.rtrancl_into_rtrancl step_report step_reconcile)

lemma mem0_views: "fst (view_ops mem0) = Map.empty" "fst (view_tasks mem0) = Map.empty" "fst (view_locks mem0) = Map.empty"
  by (auto simp: mem0_def empty_coll_def view_ops_def view_tasks_def view_locks_def coll_view_def coll_find_def)

text \<open>The state after the first attempt has been created, written out.\<close>

definition run3_op :: Operation where
  "run3_op = sample_op\<lparr>op_Type := metav1TypeMeta KindOperation, op_Meta := sample_meta ''op'' ''uid-0'' ''2'',
     op_Status := empty_OperationStatus\<lparr>ost_Phase := OperationRunning, ost_Deadline := Some 5400000000000,
       ost_StartedAt := Some 0\<rparr>\<rparr>"

definition run3_task :: OperationTask where
  "run3_task = (attemptTask memReconciler run3_op sample_step [] 5400000000000 (sample_node, 0))
     \<lparr>task_Type := metav1TypeMeta KindOperationTask, task_Status := empty_OperationTaskStatus\<lparr>tst_Phase := TaskPending\<rparr>,
      task_Meta := (sample_meta (TaskName id ''uid-0'' 0 ''prepare'' ''node-uid'' 0) ''uid-0'' ''1'')\<lparr>m_CreationTimestamp := 3000000000\<rparr>\<rparr>"

definition run3_lock :: ExecutionLock where
  "run3_lock = (wantedLock memReconciler run3_op)\<lparr>lock_Type := metav1TypeMeta KindExecutionLock,
     lock_Meta := sample_meta (LockName id ''Cluster'' ''c-uid'') ''uid-0'' ''1''\<rparr>"

lemma run3_eq [code]:
  "run3 = \<lparr>mem_ops = \<lparr>co_items = [run3_op], co_next = 1, co_rev = 2\<rparr>,
     mem_tasks = \<lparr>co_items = [run3_task], co_next = 1, co_rev = 1\<rparr>,
     mem_locks = \<lparr>co_items = [run3_lock], co_next = 1, co_rev = 1\<rparr>, mem_clock = 3000000000\<rparr>"
  by code_simp

lemma run6_done:
  "map (\<lambda>op. (op_Name op, op_UID op, op_Phase op, op_Steps op)) (co_items (mem_ops run6)) =
     [(''op'', ''uid-0'', OperationSucceeded, [sample_step])] \<and>
   map (\<lambda>t. (task_Name t, task_UID t, task_Phase t)) (co_items (mem_tasks run6)) =
     [(task_Name run3_task, ''uid-0'', TaskSucceeded)] \<and> co_items (mem_locks run6) = []"
  by code_simp

lemma run3_views:
  "fst (view_ops run3) ''op'' = Some run3_op" "fst (view_tasks run3) (task_Name run3_task) = Some run3_task"
  "active run3_task" "op_UID run3_op = task_OpUID run3_task"
proof -
  have "op_Name run3_op = ''op''" "op_UID run3_op = ''uid-0''" "task_OpUID run3_task = ''uid-0''" "active run3_task"
    by (simp_all add: run3_op_def run3_task_def attemptTask_def sample_defs active_def)
  then show "fst (view_ops run3) ''op'' = Some run3_op" "fst (view_tasks run3) (task_Name run3_task) = Some run3_task"
    "active run3_task" "op_UID run3_op = task_OpUID run3_task"
    by (simp_all add: view_ops_def view_tasks_def coll_view_def coll_find_def run3_eq)
qed

lemma run3_lock_view: "fst (view_locks run3) (lock_Name run3_lock) = Some run3_lock"
  by (simp add: view_locks_def coll_view_def coll_find_def run3_eq)

lemma run3_issued: "uids_issued (operationStrategy anySize) (view_ops run3)" "uids_issued (taskStrategy anySize) (view_tasks run3)"
  "uids_issued lockStrategy (view_locks run3)"
proof -
  have "op_UID run3_op = ''uid-0''" "task_UID run3_task = ''uid-0''" "lock_UID run3_lock = ''uid-0''"
    by (simp_all add: run3_op_def run3_task_def run3_lock_def sample_defs)
  moreover have "show_nat 0 = ''0''" by code_simp
  then have "''uid-0'' \<in> issued (Suc 0)" by (simp add: issued_Suc)
  ultimately show "uids_issued (operationStrategy anySize) (view_ops run3)" "uids_issued (taskStrategy anySize) (view_tasks run3)"
    "uids_issued lockStrategy (view_locks run3)"
    by (auto simp: uids_issued_def view_ops_def view_tasks_def view_locks_def coll_view_def coll_find_def run3_eq
        ran_def split: if_splits)
qed

lemma run4_kept: "map (\<lambda>op. (op_Name op, op_UID op)) (co_items (mem_ops run4)) = [(''op'', ''uid-0'')] \<and>
    co_items (mem_locks run4) = [run3_lock]"
  by code_simp

lemma run6_views:
  "\<exists>op. fst (view_ops run6) ''op'' = Some op \<and> op_Phase op = OperationSucceeded \<and> op_Steps op = [sample_step] \<and> op_UID op = ''uid-0''"
  "\<exists>t. fst (view_tasks run6) (task_Name run3_task) = Some t \<and> task_UID t = ''uid-0'' \<and> task_Phase t = TaskSucceeded"
  using run6_done by (auto simp: view_ops_def view_tasks_def coll_view_def coll_find_def)

lemma reach36: "(system_step memAm memStore memReconciler)\<^sup>*\<^sup>* run3 run6"
  "(system_step memAm memStore memReconciler)\<^sup>*\<^sup>* run3 run4"
proof -
  have "system_step memAm memStore memReconciler run3 run4"
    unfolding run4_def report_def system_step_def by (intro disjI1) (rule step_report)
  moreover have "system_step memAm memStore memReconciler run4 run5"
    unfolding run5_def report_def system_step_def by (intro disjI1) (rule step_report)
  moreover have "system_step memAm memStore memReconciler run5 run6"
    unfolding run6_def system_step_def by (intro disjI1) (rule step_reconcile)
  ultimately show "(system_step memAm memStore memReconciler)\<^sup>*\<^sup>* run3 run6"
    "(system_step memAm memStore memReconciler)\<^sup>*\<^sup>* run3 run4" by auto
qed

section \<open>Properties of the engine\<close>

lemma engine_reach_inv:
  assumes "engine am s opSize taskSize vo vt vl r"
    and "fst (vo w0) = Map.empty" "fst (vt w0) = Map.empty" "fst (vl w0) = Map.empty"
    and "(engine_step s r)\<^sup>*\<^sup>* w0 w"
  shows "engine_inv (r_sha256 r) (fst (vo w)) (fst (vt w)) (fst (vl w))"
proof -
  have "engine.einv opSize vo vt vl r w0"
    using assms(2-4) by (simp add: engine.einv_def [OF assms(1)] engine_inv_def uids_issued_def)
  then have "engine.einv opSize vo vt vl r w" by (rule engine.engine_run_inv [OF assms(1,5)])
  then show ?thesis by (simp add: engine.einv_def [OF assms(1)])
qed

text \<open>
  C1.  Mutual exclusion.  Start from empty collections and let the controller reconcile any
  operations, agents report any task statuses, handlers change control fields and submit
  operations, in any order.  Whenever two tasks are active (Pending or Running) and their
  operations have the same target, the two tasks belong to the same operation.
\<close>

theorem engine_mutual_exclusion:
  assumes "engine am s opSize taskSize vo vt vl r"
    and "fst (vo w0) = Map.empty" "fst (vt w0) = Map.empty" "fst (vl w0) = Map.empty"
    and "(engine_step s r)\<^sup>*\<^sup>* w0 w"
    and "fst (vt w) n1 = Some t1" "active t1" "fst (vo w) m1 = Some op1" "op_UID op1 = task_OpUID t1"
    and "fst (vt w) n2 = Some t2" "active t2" "fst (vo w) m2 = Some op2" "op_UID op2 = task_OpUID t2"
    and "or_Kind (os_TargetRef (op_Spec op1)) = or_Kind (os_TargetRef (op_Spec op2))"
      "or_UID (os_TargetRef (op_Spec op1)) = or_UID (os_TargetRef (op_Spec op2))"
  shows "op1 = op2"
proof -
  note D = engine_invD [OF engine_reach_inv [OF assms(1-5)]]
  have holds: "holds_lock (r_sha256 r) (fst (vl w)) op"
    if "fst (vt w) n = Some t" "active t" "fst (vo w) m = Some op" "op_UID op = task_OpUID t" for n t m op
    using D(6) [OF that(1,2)] D(5) [OF _ that(3)] that(3,4) by fastforce
  have "op_UID op1 = op_UID op2"
    using holds [OF assms(6-9)] holds [OF assms(10-13)] assms(14,15) by (auto simp: holds_lock_def)
  then show ?thesis using D(5) [OF assms(8,12)] assms(8,12) by simp
qed

theorem engine_mutual_exclusion_witness:
  "active run3_task \<and> fst (view_tasks run3) (task_Name run3_task) = Some run3_task \<and>
   the (fst (view_ops run3) ''op'') = run3_op"
proof -
  note v = run3_views
  have "fst (view_ops run3) ''op'' = Some (the (fst (view_ops run3) ''op''))"
    "op_UID (the (fst (view_ops run3) ''op'')) = task_OpUID run3_task" using v(1,4) by simp_all
  from engine_mutual_exclusion [OF mem_engine.engine_axioms mem0_views reach3 v(2,3) this v(2,3,1,4)] v show ?thesis
    by simp
qed

text \<open>
  C2.  Work done.  In every state reachable as in C1, an operation that is Succeeded has, for every
  target node of every step of its plan, a task of that step and node that Succeeded.
\<close>

theorem engine_succeeded_done:
  assumes "engine am s opSize taskSize vo vt vl r"
    and "fst (vo w0) = Map.empty" "fst (vt w0) = Map.empty" "fst (vl w0) = Map.empty"
    and "(engine_step s r)\<^sup>*\<^sup>* w0 w"
    and "fst (vo w) m = Some op" "op_Phase op = OperationSucceeded"
    and "st \<in> set (op_Steps op)" "n \<in> set (step_Targets st)"
  shows "\<exists>t \<in> ran (fst (vt w)). task_OpUID t = op_UID op \<and> task_StepID t = step_ID st \<and>
    task_NodeUID t = nr_UID n \<and> task_Phase t = TaskSucceeded"
  using engine_invD(7) [OF engine_reach_inv [OF assms(1-5)] assms(6,7)] assms(8,9)
  by (auto simp: work_done_def)

theorem engine_succeeded_done_witness:
  "\<exists>t \<in> ran (fst (view_tasks run6)). task_OpUID t = ''uid-0'' \<and> task_StepID t = ''prepare'' \<and>
    task_NodeUID t = ''node-uid'' \<and> task_Phase t = TaskSucceeded"
proof -
  obtain op where op: "fst (view_ops run6) ''op'' = Some op" "op_Phase op = OperationSucceeded"
    and st: "op_Steps op = [sample_step]" and u: "op_UID op = ''uid-0''" using run6_views(1) by blast
  have "sample_step \<in> set (op_Steps op)" "sample_node \<in> set (step_Targets sample_step)"
    using st by (simp_all add: sample_step_def)
  from engine_succeeded_done [OF mem_engine.engine_axioms mem0_views reach6 op this] show ?thesis
    by (simp add: u sample_step_def sample_node_def)
qed

text \<open>
  C3.  Active tasks are covered.  In every state reachable as in C1, an active task belongs to a stored
  operation that is Running, and the lock of the target of that operation is held by it; in
  particular an operation in a terminal phase has no active tasks.
\<close>

theorem engine_active_locked:
  assumes "engine am s opSize taskSize vo vt vl r"
    and "fst (vo w0) = Map.empty" "fst (vt w0) = Map.empty" "fst (vl w0) = Map.empty"
    and "(engine_step s r)\<^sup>*\<^sup>* w0 w"
    and "fst (vt w) n = Some t" "active t"
  shows "\<exists>op l. fst (vo w) (task_OpName t) = Some op \<and> op_UID op = task_OpUID t \<and> op_Phase op = OperationRunning \<and>
    fst (vl w) (LockName (r_sha256 r) (or_Kind (os_TargetRef (op_Spec op))) (or_UID (os_TargetRef (op_Spec op)))) = Some l \<and>
    or_UID (lock_Holder l) = op_UID op"
  using engine_invD(6) [OF engine_reach_inv [OF assms(1-5)] assms(6,7)] by (auto simp: holds_lock_def)

theorem engine_active_locked_witness:
  "\<exists>op. fst (view_ops run3) ''op'' = Some op \<and> op_Phase op = OperationRunning"
proof -
  have "task_OpName run3_task = ''op''" by (simp add: run3_task_def attemptTask_def run3_op_def sample_defs)
  then show ?thesis using engine_active_locked [OF mem_engine.engine_axioms mem0_views reach3 run3_views(2,3)] by auto
qed

text \<open>
  C4.  Task facts are final.  On storages that other clients use at the same time, whatever the
  controller, the agents, the handlers and the history purge do, two stored versions of one task
  (same name and UID) have the same spec, their phases are connected by admissible transitions,
  and a terminal phase never changes again.
\<close>

theorem system_task_versions:
  assumes "system_frame (histories opSize taskSize vo vt vl) s am r"
    and "(system_step am s r)\<^sup>*\<^sup>* w w'"
    and "uids_issued (taskStrategy taskSize) (vt w)"
    and "fst (vt w) n = Some t" "fst (vt w') n = Some t'" "task_UID t' = task_UID t"
  shows "task_Spec t' = task_Spec t \<and> task_phase_step\<^sup>*\<^sup>* (task_Phase t) (task_Phase t') \<and>
    (TaskPhase_IsTerminal (task_Phase t) \<longrightarrow> task_Phase t' = task_Phase t)"
proof -
  have "histories opSize taskSize vo vt vl w w'" by (rule system_frame.system_run_keeps [OF assms(1,2)])
  then have "obj_history (taskStrategy taskSize) (vt w) (vt w')" by (simp add: histories_def)
  then show ?thesis using assms(3-6) by (rule task_history_monotone)
qed

theorem system_task_versions_witness:
  "\<exists>t. fst (view_tasks run6) (task_Name run3_task) = Some t \<and> task_Spec t = task_Spec run3_task \<and>
     task_phase_step\<^sup>*\<^sup>* TaskPending (task_Phase t)"
proof -
  obtain t where t: "fst (view_tasks run6) (task_Name run3_task) = Some t" "task_UID t = ''uid-0''" using run6_views(2) by blast
  have u: "task_UID t = task_UID run3_task" "task_Phase run3_task = TaskPending"
    using t(2) by (simp_all add: run3_task_def sample_defs)
  show ?thesis
    using system_task_versions [OF mem_engine.keeps_histories reach36(1) run3_issued(2) run3_views(2) t(1) u(1)] t(1) u(2) by auto
qed



text \<open>
  C6.  Stored objects are well typed.  Start from empty collections and let the system run on storages that other
  clients use at the same time.  Every stored operation has a full target reference, an action, a timeout between
  the bounds, between 1 and 256 well-formed steps and one of the six phases; every stored task has
  full references, a step, an executor, a deadline, non-negative counters, a bounded payload, one of
  the six phases and a result within the size limits; every lock names a target and an operation as holder; and
  each object is stored under its own name.
\<close>

theorem system_well_typed:
  assumes "system_frame (histories opSize taskSize vo vt vl) s am r"
    and "fst (vo w0) = Map.empty" "fst (vt w0) = Map.empty" "fst (vl w0) = Map.empty"
    and "(system_step am s r)\<^sup>*\<^sup>* w0 w"
  shows "(fst (vo w) n = Some op \<longrightarrow> op_typed n op) \<and> (fst (vt w) n = Some t \<longrightarrow> task_typed n t) \<and>
    (fst (vl w) n = Some l \<longrightarrow> lock_typed n l)"
proof -
  have "histories opSize taskSize vo vt vl w0 w" by (rule system_frame.system_run_keeps [OF assms(1,5)])
  then have h: "obj_history (operationStrategy opSize) (vo w0) (vo w)" "obj_history (taskStrategy taskSize) (vt w0) (vt w)"
    "obj_history lockStrategy (vl w0) (vl w)" by (simp_all add: histories_def)
  show ?thesis
    using op_history_typed [OF h(1) assms(2)] task_history_typed [OF h(2) assms(3)] lock_history_typed [OF h(3) assms(4)] by blast
qed

theorem system_well_typed_witness:
  "op_typed ''op'' (the (fst (view_ops run6) ''op'')) \<and> task_typed (task_Name run3_task) (the (fst (view_tasks run6) (task_Name run3_task)))"
proof -
  have "(system_step memAm memStore memReconciler)\<^sup>*\<^sup>* mem0 run6"
    using reach6 by (rule rtranclp_mono [THEN predicate2D, rotated]) (simp add: le_fun_def system_step_def)
  note typed = system_well_typed [OF mem_engine.keeps_histories mem0_views this]
  obtain op where "fst (view_ops run6) ''op'' = Some op" using run6_views(1) by blast
  moreover obtain t where "fst (view_tasks run6) (task_Name run3_task) = Some t" using run6_views(2) by blast
  ultimately show ?thesis using typed by auto
qed

end
